(* ===== verification/Prelude.thy ===== *)
theory Prelude
  imports Main "HOL-Library.Word" "HOL-Library.Log_Nat"
begin

unbundle bit_operations_syntax

text \<open>
  What every component shares: the machine integers under the names Go gives them, the three ways
  a Go call can fail to return a value, sequencing of such calls, decimal and hexadecimal rendering
  of numbers as \<^verbatim>\<open>fmt\<close> does it, and the generic lemmas on lists and words the component
  theories use.  Nothing here models a file under src/; it is the language underneath.
\<close>

section \<open>Machine integers\<close>

type_synonym byte = "8 word"
type_synonym u16 = "16 word"
type_synonym u32 = "32 word"
type_synonym u64 = "64 word"

text \<open>
  Signed Go integers (\<^verbatim>\<open>int32\<close>, \<^verbatim>\<open>int64\<close>, and \<^verbatim>\<open>int\<close> on a 64-bit platform) are
  words too, read with \<^const>\<open>sint\<close>; \<open>wrap64\<close> is the two's complement reduction an addition
  of \<^verbatim>\<open>int\<close>s performs.
\<close>

definition wrap64 :: "int \<Rightarrow> int" where
  "wrap64 x = sint (word_of_int x :: u64)"

lemma wrap64_id: "- (2 ^ 63) \<le> x \<Longrightarrow> x < 2 ^ 63 \<Longrightarrow> wrap64 x = x"
  by (simp add: wrap64_def signed_of_int signed_take_bit_int_eq_self)

lemma wrap64_nat: "n < 2 ^ 63 \<Longrightarrow> wrap64 (int n) = int n"
  by (rule wrap64_id) (simp_all add: order_trans [OF _ of_nat_0_le_iff])

section \<open>Failure\<close>

text \<open>
  \<open>Panic\<close> is a run-time panic (index or slice bounds, nil dereference, integer division by zero);
  \<open>Fail\<close> is an ordinary error value, kept as the text its \<^verbatim>\<open>Error()\<close> method returns;
  \<open>OutOfFuel\<close> marks a modelled loop that used up its fuel and is shown not to occur;
  \<open>Blocked\<close> is a goroutine that waits for a lock it holds itself, which it does for ever.
\<close>

datatype fault = Panic string | Fail string | OutOfFuel | Blocked

type_synonym 'a res = "fault + 'a"

definition bindR :: "'a res \<Rightarrow> ('a \<Rightarrow> 'b res) \<Rightarrow> 'b res" where
  "bindR r k = (case r of Inl e \<Rightarrow> Inl e | Inr x \<Rightarrow> k x)"

text \<open>\<open>handleR\<close> is Go's \<^verbatim>\<open>if err != nil\<close>: an error goes to its branch, a panic passes through.\<close>

definition handleR :: "'a res \<Rightarrow> (string \<Rightarrow> 'b res) \<Rightarrow> ('a \<Rightarrow> 'b res) \<Rightarrow> 'b res" where
  "handleR r h k =
     (case r of
        Inl e \<Rightarrow> (case e of Fail s \<Rightarrow> h s | _ \<Rightarrow> Inl e)
      | Inr x \<Rightarrow> k x)"

fun panics :: "'a res \<Rightarrow> bool" where
  "panics (Inl (Panic s)) = True"
| "panics (Inl (Fail s)) = False"
| "panics (Inl OutOfFuel) = False"
| "panics (Inl Blocked) = False"
| "panics (Inr x) = False"

lemma bindR_Inr [simp]: "bindR (Inr x) k = k x"
  by (simp add: bindR_def)

lemma bindR_Inl [simp]: "bindR (Inl e) k = Inl e"
  by (simp add: bindR_def)

lemma bindR_Inr_iff: "bindR r k = Inr y \<longleftrightarrow> (\<exists>x. r = Inr x \<and> k x = Inr y)"
  by (simp add: bindR_def split: sum.split)

lemma bindR_assoc: "bindR (bindR r f) g = bindR r (\<lambda>x. bindR (f x) g)"
  by (simp add: bindR_def split: sum.split)

lemma bindR_cong [fundef_cong]:
  "r = r' \<Longrightarrow> (\<And>x. r' = Inr x \<Longrightarrow> k x = k' x) \<Longrightarrow> bindR r k = bindR r' k'"
  by (simp add: bindR_def split: sum.split)

lemma handleR_simps [simp]:
  "handleR (Inr x) h k = k x"
  "handleR (Inl (Fail s)) h k = h s"
  "handleR (Inl (Panic s)) h k = Inl (Panic s)"
  "handleR (Inl OutOfFuel) h k = Inl OutOfFuel"
  "handleR (Inl Blocked) h k = Inl Blocked"
  by (simp_all add: handleR_def)

lemma handleR_Inr_iff:
  "handleR r h k = Inr y \<longleftrightarrow> (\<exists>s. r = Inl (Fail s) \<and> h s = Inr y) \<or> (\<exists>x. r = Inr x \<and> k x = Inr y)"
  by (cases r rule: panics.cases) simp_all

section \<open>Rendering numbers\<close>

fun show_nat :: "nat \<Rightarrow> string" where
  "show_nat n = (if n < 10 then [char_of (48 + n)]
                 else show_nat (n div 10) @ [char_of (48 + n mod 10)])"

declare show_nat.simps [simp del]

definition show_int :: "int \<Rightarrow> string" where
  "show_int i = (if i < 0 then ''-'' @ show_nat (nat (- i)) else show_nat (nat i))"

fun show_hex :: "nat \<Rightarrow> string" where
  "show_hex n =
     (let d = n mod 16; c = char_of (if d < 10 then 48 + d else 55 + d)
      in if n < 16 then [c] else show_hex (n div 16) @ [c])"

declare show_hex.simps [simp del]

section \<open>Lists and bytes\<close>

lemma take_prefix_append: "length xs = n \<Longrightarrow> take n (xs @ ys) = xs"
  by simp

lemma drop_prefix_append: "length xs = n \<Longrightarrow> drop n (xs @ ys) = ys"
  by simp

lemma nth_middle_append: "length xs = n \<Longrightarrow> (xs @ y # ys) ! n = y"
  by (simp add: nth_append)

definition slice :: "'a list \<Rightarrow> nat \<Rightarrow> nat \<Rightarrow> 'a list" where
  "slice xs a b = take (b - a) (drop a xs)"

lemma slice_middle [simp]:
  "length pre = a \<Longrightarrow> slice (pre @ bs @ post) a (a + length bs) = bs"
  by (simp add: slice_def)

lemma unat_drop_bit_7: "unat (drop_bit 7 v) = unat v div 128"
  unfolding unat_drop_bit_eq by (simp add: drop_bit_eq_div)

text \<open>
  A Go string is a sequence of bytes and so is a HOL \<^typ>\<open>string\<close> (\<^typ>\<open>char\<close> has 256 values);
  these are the conversions \<^verbatim>\<open>[]byte(s)\<close> and \<^verbatim>\<open>string(b)\<close>.
\<close>

definition bytes_of :: "string \<Rightarrow> byte list" where
  "bytes_of s = map (\<lambda>c. word_of_nat (of_char c)) s"

definition string_of :: "byte list \<Rightarrow> string" where
  "string_of bs = map (\<lambda>b. char_of (unat b)) bs"

lemma string_of_bytes_of [simp]: "string_of (bytes_of s) = s"
proof -
  have "char_of (unat (word_of_nat (of_char c) :: byte)) = c" for c
    by (simp add: unat_of_nat)
  then show ?thesis by (simp add: string_of_def bytes_of_def comp_def)
qed

lemma length_bytes_of [simp]: "length (bytes_of s) = length s"
  by (simp add: bytes_of_def)

text \<open>\<^verbatim>\<open>encoding/binary\<close>'s little-endian layout of an unsigned value in \<open>n\<close> bytes.\<close>

fun le_bytes :: "nat \<Rightarrow> nat \<Rightarrow> byte list" where
  "le_bytes 0 v = []"
| "le_bytes (Suc n) v = word_of_nat (v mod 256) # le_bytes n (v div 256)"

fun le_val :: "byte list \<Rightarrow> nat" where
  "le_val [] = 0"
| "le_val (b # bs) = unat b + 256 * le_val bs"

lemma length_le_bytes [simp]: "length (le_bytes n v) = n"
  by (induction n arbitrary: v) simp_all

lemma le_val_le_bytes: "v < 256 ^ n \<Longrightarrow> le_val (le_bytes n v) = v"
proof (induction n arbitrary: v)
  case 0
  then show ?case by simp
next
  case (Suc n)
  then have "v div 256 < 256 ^ n"
    by (simp add: less_mult_imp_div_less mult.commute)
  with Suc.IH show ?case by (simp add: unat_of_nat)
qed

end
