(* ===== verification/GoFloat.thy ===== *)
theory GoFloat
  imports Prelude Complex_Main
begin

unbundle bit_operations_syntax

text \<open>
  Go's \<^verbatim>\<open>float64\<close>: IEEE 754 binary64 with rounding to nearest, ties to even.  A float is its bit
  pattern, as \<^verbatim>\<open>math.Float64bits\<close> gives it and as the protobuf code sends it; \<open>f64_val\<close> reads
  a finite one as a rational, and each operation computes the exact rational result and rounds it.
  The lemmas are the ones the rate limiters need: rounding is monotone and leaves representable values
  alone, conversion from small integers is exact, and so is taking a whole number off a larger float.
  A NaN result is the default quiet NaN; Go fixes no payload.
\<close>

section \<open>Bit patterns\<close>

text \<open>The low 63 bits order the magnitudes; \<open>f64_inf_mag\<close> is the pattern of infinity.\<close>

definition f64_mag :: "u64 \<Rightarrow> nat" where
  "f64_mag b = unat b mod 2 ^ 63"

definition f64_neg :: "u64 \<Rightarrow> bool" where
  "f64_neg b = (2 ^ 63 \<le> unat b)"

definition f64_inf_mag :: nat where
  "f64_inf_mag = 2047 * 2 ^ 52"

definition f64_nan :: "u64 \<Rightarrow> bool" where
  "f64_nan b = (f64_inf_mag < f64_mag b)"

definition f64_inf :: "u64 \<Rightarrow> bool" where
  "f64_inf b = (f64_mag b = f64_inf_mag)"

definition f64_finite :: "u64 \<Rightarrow> bool" where
  "f64_finite b = (f64_mag b < f64_inf_mag)"

definition f64_make :: "bool \<Rightarrow> nat \<Rightarrow> u64" where
  "f64_make neg m = word_of_nat (m + (if neg then 2 ^ 63 else 0))"

definition f64_qnan :: u64 where
  "f64_qnan = 0x7FF8000000000000"

text \<open>A magnitude in units of the smallest positive double, 2 to the -1074.\<close>

definition mag_units :: "nat \<Rightarrow> nat" where
  "mag_units m = (let e = m div 2 ^ 52; f = m mod 2 ^ 52
                  in if e = 0 then f else (2 ^ 52 + f) * 2 ^ (e - 1))"

definition f64_units :: rat where
  "f64_units = 2 ^ 1074"

definition f64_val :: "u64 \<Rightarrow> rat" where
  "f64_val b = (if f64_neg b then -1 else 1) * of_nat (mag_units (f64_mag b)) / f64_units"

section \<open>Rounding\<close>

definition round_half_even :: "rat \<Rightarrow> nat" where
  "round_half_even y =
     (let k = \<lfloor>y\<rfloor>; d = y - of_int k
      in nat (if d < 1/2 \<or> d = 1/2 \<and> even k then k else k + 1))"

text \<open>The exponent of the result: how far a number of units must be shifted to fit 53 bits.\<close>

definition round_shift :: "rat \<Rightarrow> nat" where
  "round_shift x = floorlog 2 (nat \<lfloor>x\<rfloor>) - 53"

definition round_mag :: "rat \<Rightarrow> nat" where
  "round_mag x =
     (let s = round_shift x in min f64_inf_mag (s * 2 ^ 52 + round_half_even (x / 2 ^ s)))"

text \<open>\<open>f64_round z x\<close>: the float nearest to \<open>x\<close>; \<open>z\<close> is the sign of an exact zero.\<close>

definition f64_round :: "bool \<Rightarrow> rat \<Rightarrow> u64" where
  "f64_round z x = f64_make (x < 0 \<or> x = 0 \<and> z) (round_mag (\<bar>x\<bar> * f64_units))"

section \<open>Operations\<close>

definition f64_negate :: "u64 \<Rightarrow> u64" where
  "f64_negate b = f64_make (\<not> f64_neg b) (f64_mag b)"

definition f64_add :: "u64 \<Rightarrow> u64 \<Rightarrow> u64" where
  "f64_add a b =
     (if f64_nan a \<or> f64_nan b then f64_qnan
      else if f64_inf a then (if f64_inf b \<and> f64_neg a \<noteq> f64_neg b then f64_qnan else a)
      else if f64_inf b then b
      else f64_round (f64_neg a \<and> f64_neg b) (f64_val a + f64_val b))"

definition f64_sub :: "u64 \<Rightarrow> u64 \<Rightarrow> u64" where
  "f64_sub a b = f64_add a (f64_negate b)"

definition f64_mul :: "u64 \<Rightarrow> u64 \<Rightarrow> u64" where
  "f64_mul a b =
     (let neg = (f64_neg a \<noteq> f64_neg b)
      in if f64_nan a \<or> f64_nan b then f64_qnan
         else if f64_inf a then (if f64_mag b = 0 then f64_qnan else f64_make neg f64_inf_mag)
         else if f64_inf b then (if f64_mag a = 0 then f64_qnan else f64_make neg f64_inf_mag)
         else f64_round neg (f64_val a * f64_val b))"

definition f64_div :: "u64 \<Rightarrow> u64 \<Rightarrow> u64" where
  "f64_div a b =
     (let neg = (f64_neg a \<noteq> f64_neg b)
      in if f64_nan a \<or> f64_nan b then f64_qnan
         else if f64_inf a then (if f64_inf b then f64_qnan else f64_make neg f64_inf_mag)
         else if f64_inf b then f64_make neg 0
         else if f64_mag b = 0 then (if f64_mag a = 0 then f64_qnan else f64_make neg f64_inf_mag)
         else f64_round neg (f64_val a / f64_val b))"

text \<open>Comparisons: sign and magnitude as one integer, in which both zeros are 0.\<close>

definition f64_key :: "u64 \<Rightarrow> int" where
  "f64_key b = (if f64_neg b then - int (f64_mag b) else int (f64_mag b))"

definition f64_less :: "u64 \<Rightarrow> u64 \<Rightarrow> bool" where
  "f64_less a b = (\<not> f64_nan a \<and> \<not> f64_nan b \<and> f64_key a < f64_key b)"

definition f64_le :: "u64 \<Rightarrow> u64 \<Rightarrow> bool" where
  "f64_le a b = (\<not> f64_nan a \<and> \<not> f64_nan b \<and> f64_key a \<le> f64_key b)"

definition f64_eq :: "u64 \<Rightarrow> u64 \<Rightarrow> bool" where
  "f64_eq a b = (\<not> f64_nan a \<and> \<not> f64_nan b \<and> f64_key a = f64_key b)"

text \<open>
  Conversions.  \<^verbatim>\<open>float64(i)\<close> rounds; \<^verbatim>\<open>int64(f)\<close> truncates towards zero when the result
  fits, and is implementation-specific otherwise (Go specification, "Conversions between numeric
  types"), so what it does then is the parameter \<open>cv\<close>.
\<close>

definition f64_of_int :: "int \<Rightarrow> u64" where
  "f64_of_int i = f64_round False (of_int i)"

definition rat_trunc :: "rat \<Rightarrow> int" where
  "rat_trunc x = (if x < 0 then - \<lfloor>- x\<rfloor> else \<lfloor>x\<rfloor>)"

definition f64_to_int64 :: "(u64 \<Rightarrow> int) \<Rightarrow> u64 \<Rightarrow> int" where
  "f64_to_int64 cv b =
     (if f64_finite b \<and> - (2 ^ 63) \<le> rat_trunc (f64_val b) \<and> rat_trunc (f64_val b) < 2 ^ 63
      then rat_trunc (f64_val b) else cv b)"

section \<open>Laws\<close>

lemma f64_units_pos [simp]: "0 < f64_units" "0 \<le> f64_units" "f64_units \<noteq> 0"
  "\<not> f64_units < 0"
  by (simp_all add: f64_units_def)

lemma f64_mag_less: "f64_mag b < 2 ^ 63"
  by (simp add: f64_mag_def)

lemma f64_make_parts:
  assumes "m < 2 ^ 63"
  shows "f64_mag (f64_make neg m) = m" "f64_neg (f64_make neg m) = neg"
proof -
  have n: "m + (if neg then 2 ^ 63 else 0) < 2 ^ LENGTH(64)" using assms by simp
  have "unat (f64_make neg m) = m + (if neg then 2 ^ 63 else 0)"
    unfolding f64_make_def unsigned_of_nat by (simp only: take_bit_nat_eq_self [OF n] of_nat_id)
  with assms show "f64_mag (f64_make neg m) = m" "f64_neg (f64_make neg m) = neg"
    by (auto simp: f64_mag_def f64_neg_def)
qed

lemma f64_eqI: "f64_mag a = f64_mag b \<Longrightarrow> f64_neg a = f64_neg b \<Longrightarrow> a = b"
proof -
  have split: "unat x = f64_mag x + (if f64_neg x then 2 ^ 63 else 0)" for x
  proof -
    have "unat x < 2 ^ 64" using unsigned_less [of x] by simp
    then have "unat x div 2 ^ 63 < 2" by (simp add: div_less_iff_less_mult)
    moreover have "f64_neg x = (unat x div 2 ^ 63 \<noteq> 0)"
      by (simp add: f64_neg_def div_eq_0_iff not_less)
    ultimately have "unat x div 2 ^ 63 = (if f64_neg x then 1 else 0)" by auto
    then show ?thesis unfolding f64_mag_def using div_mult_mod_eq [of "unat x" "2 ^ 63"] by auto
  qed
  assume "f64_mag a = f64_mag b" "f64_neg a = f64_neg b"
  then show ?thesis using split [of a] split [of b] by (simp add: word_unat_eq_iff)
qed

lemma inf_mag_less: "f64_inf_mag < 2 ^ 63"
  by (simp add: f64_inf_mag_def)

subsection \<open>Magnitudes\<close>

lemma mag_units_eq: "f < 2 ^ 52 \<Longrightarrow> mag_units (Suc e * 2 ^ 52 + f) = (2 ^ 52 + f) * 2 ^ e"
proof -
  assume f: "f < 2 ^ 52"
  then have "(Suc e * 2 ^ 52 + f) div 2 ^ 52 = Suc e" by (subst div_mult_self3) simp_all
  moreover have "(Suc e * 2 ^ 52 + f) mod 2 ^ 52 = f" using f by (subst mod_mult_self3) simp
  ultimately show ?thesis by (simp only: mag_units_def Let_def) simp
qed

lemma mag_units_sub: "m < 2 ^ 52 \<Longrightarrow> mag_units m = m"
  by (simp add: mag_units_def)

lemma mag_cases:
  obtains "m < 2 ^ 52" | e f where "f < 2 ^ 52" "m = Suc e * 2 ^ 52 + f"
proof (cases "m < 2 ^ 52")
  case False
  define d where "d = m div 2 ^ 52"
  have "d \<noteq> 0" using False by (simp add: d_def div_eq_0_iff)
  then obtain e where "d = Suc e" using not0_implies_Suc by blast
  moreover have "m = d * 2 ^ 52 + m mod 2 ^ 52" by (simp only: d_def div_mult_mod_eq)
  ultimately show thesis using that(2) [of "m mod 2 ^ 52" e] by simp
qed

lemma mag_units_shift:
  assumes "2 ^ 52 \<le> r" "r < 2 ^ 53"
  shows "mag_units (s * 2 ^ 52 + r) = r * 2 ^ s"
proof -
  obtain f where f: "r = 2 ^ 52 + f" using assms(1) le_Suc_ex by blast
  with assms(2) have "f < 2 ^ 52" by simp
  from mag_units_eq [OF this, of s] show ?thesis by (simp add: f ac_simps)
qed

lemma mag_units_low: "m < 2 ^ 53 \<Longrightarrow> mag_units m = m"
  using mag_units_sub [of m] mag_units_shift [of m 0] by (cases "m < 2 ^ 52") simp_all

lemma mag_units_strict_mono: "a < b \<Longrightarrow> mag_units a < mag_units b"
proof -
  have step: "mag_units m < mag_units (Suc m)" for m
  proof (cases m rule: mag_cases)
    case 1
    then have "Suc m < 2 ^ 53" by simp
    with 1 show ?thesis by (simp add: mag_units_low mag_units_sub)
  next
    case (2 e f)
    show ?thesis
    proof (cases "Suc f < 2 ^ 52")
      case True
      then show ?thesis using mag_units_eq [OF True, of e] mag_units_eq [OF 2(1), of e] 2(2) by simp
    next
      case False
      with 2(1) have f: "f = 2 ^ 52 - 1" by simp
      then have "Suc m = Suc (Suc e) * 2 ^ 52 + 0" using 2 by simp
      then have "mag_units (Suc m) = 2 ^ 52 * 2 ^ Suc e"
        using mag_units_eq [of 0 "Suc e"] by simp
      then show ?thesis using mag_units_eq [OF 2(1), of e] 2(2) f by simp
    qed
  qed
  assume "a < b"
  then show ?thesis by (rule less_Suc_induct) (use step in auto)
qed

lemma mag_units_less_iff: "mag_units a < mag_units b \<longleftrightarrow> a < b"
  using mag_units_strict_mono [of a b] mag_units_strict_mono [of b a] by (cases a b rule: linorder_cases) auto

lemma mag_units_le_iff: "mag_units a \<le> mag_units b \<longleftrightarrow> a \<le> b"
  using mag_units_less_iff [of b a] by (simp add: linorder_not_less [symmetric])

lemma mag_units_eq_iff: "mag_units a = mag_units b \<longleftrightarrow> a = b"
  by (metis mag_units_less_iff less_irrefl linorder_neq_iff)

lemma mag_units_0 [simp]: "mag_units 0 = 0"
  by (simp add: mag_units_sub)

subsection \<open>Rounding\<close>

lemma round_half_even_of_nat [simp]: "round_half_even (of_nat n) = n"
  by (simp add: round_half_even_def)

lemma round_half_even_bounds:
  assumes "0 \<le> y"
  shows "nat \<lfloor>y\<rfloor> \<le> round_half_even y" "round_half_even y \<le> nat \<lfloor>y\<rfloor> + 1"
  using assms by (auto simp: round_half_even_def Let_def nat_add_distrib)

lemma round_half_even_mono:
  assumes "0 \<le> x" "x \<le> y"
  shows "round_half_even x \<le> round_half_even y"
proof (cases "\<lfloor>x\<rfloor> = \<lfloor>y\<rfloor>")
  case True
  then show ?thesis using assms by (auto simp: round_half_even_def Let_def intro!: nat_mono)
next
  case False
  with assms(2) have "\<lfloor>x\<rfloor> + 1 \<le> \<lfloor>y\<rfloor>" using floor_mono [of x y] by linarith
  then have "nat \<lfloor>x\<rfloor> + 1 \<le> nat \<lfloor>y\<rfloor>" using assms(1) by linarith
  then show ?thesis
    using round_half_even_bounds [of x] round_half_even_bounds [of y] assms by linarith
qed

lemma round_half_even_le_of_nat: "0 \<le> y \<Longrightarrow> y \<le> of_nat n \<Longrightarrow> round_half_even y \<le> n"
  using round_half_even_mono [of y "of_nat n"] by simp

lemma round_half_even_ge_of_nat: "of_nat n \<le> y \<Longrightarrow> n \<le> round_half_even y"
  using round_half_even_mono [of "of_nat n" y] by simp

text \<open>What the shift leaves: a quotient below 2 to the 53, and at least 2 to the 52 once it shifts.\<close>

lemma round_shift_bounds:
  assumes "0 \<le> x"
  shows "x / 2 ^ round_shift x < 2 ^ 53"
    and "0 < round_shift x \<Longrightarrow> 2 ^ 52 \<le> x / 2 ^ round_shift x"
proof -
  let ?n = "nat \<lfloor>x\<rfloor>" let ?s = "round_shift x"
  have fl: "of_nat ?n \<le> x" "x < of_nat (?n + 1)" using assms by (simp_all add: of_nat_nat) linarith
  have n: "?n < 2 ^ floorlog 2 ?n" 
    using floorlog_bounds [of ?n 2] by (cases "?n = 0") simp_all
  also have "\<dots> \<le> 2 ^ (53 + ?s)" by (rule power_increasing) (simp_all add: round_shift_def)
  finally have "?n + 1 \<le> 2 ^ (53 + ?s)" by (simp only: Suc_le_eq flip: Suc_eq_plus1)
  then have "of_nat (?n + 1) \<le> (of_nat (2 ^ (53 + ?s)) :: rat)" by (simp only: of_nat_le_iff)
  then have "of_nat (?n + 1) \<le> (2 ^ (53 + ?s) :: rat)" by (simp only: of_nat_power of_nat_numeral)
  with fl(2) have "x < 2 ^ 53 * 2 ^ ?s" by (simp add: power_add)
  then show "x / 2 ^ ?s < 2 ^ 53" by (simp add: divide_less_eq)
  assume s: "0 < ?s"
  then have fl53: "floorlog 2 ?n = 53 + ?s" by (simp add: round_shift_def)
  then have "?n \<noteq> 0" by (auto simp: floorlog_def)
  then have "2 ^ (floorlog 2 ?n - 1) \<le> ?n" using floorlog_bounds [of ?n 2] by simp
  then have "2 ^ (52 + ?s) \<le> ?n" by (simp add: fl53)
  then have "(of_nat (2 ^ (52 + ?s)) :: rat) \<le> of_nat ?n" by (simp only: of_nat_le_iff)
  then have "(2 ^ (52 + ?s) :: rat) \<le> of_nat ?n" by (simp only: of_nat_power of_nat_numeral)
  with fl(1) have "2 ^ 52 * 2 ^ ?s \<le> x" by (simp add: power_add)
  then show "2 ^ 52 \<le> x / 2 ^ ?s" by (simp add: le_divide_eq)
qed

lemma round_shift_mono: "x \<le> y \<Longrightarrow> round_shift x \<le> round_shift y"
  unfolding round_shift_def by (intro diff_le_mono floorlog_mono nat_mono floor_mono)

lemma round_mag_mono:
  assumes "0 \<le> x" "x \<le> y"
  shows "round_mag x \<le> round_mag y"
proof -
  let ?sx = "round_shift x" and ?sy = "round_shift y"
  let ?rx = "round_half_even (x / 2 ^ ?sx)" and ?ry = "round_half_even (y / 2 ^ ?sy)"
  have "?sx * 2 ^ 52 + ?rx \<le> ?sy * 2 ^ 52 + ?ry"
  proof (cases "?sx = ?sy")
    case True
    then have "?rx \<le> ?ry" using assms by (intro round_half_even_mono) (simp_all add: divide_right_mono)
    with True show ?thesis by simp
  next
    case False
    with round_shift_mono [OF assms(2)] have s: "?sx + 1 \<le> ?sy" by simp
    have y: "0 \<le> y" using assms by simp
    have "x / 2 ^ ?sx \<le> of_nat (2 ^ 53)" using round_shift_bounds(1) [OF assms(1)] by simp
    then have "?rx \<le> 2 ^ 53" using assms(1) by (intro round_half_even_le_of_nat) simp_all
    moreover have "of_nat (2 ^ 52) \<le> y / 2 ^ ?sy"
      using round_shift_bounds(2) [OF y] s by simp
    then have "2 ^ 52 \<le> ?ry" by (rule round_half_even_ge_of_nat)
    moreover have "(?sx + 1) * 2 ^ 52 \<le> ?sy * (2 ^ 52 :: nat)" using s by (intro mult_le_mono1)
    ultimately show ?thesis by (simp add: algebra_simps)
  qed
  then show ?thesis by (simp add: round_mag_def Let_def min.coboundedI2)
qed

text \<open>A number of units that fits in 53 bits and a shift is a magnitude, and rounding finds it.\<close>

lemma round_mag_exact:
  assumes "k < 2 ^ 53" "n = k * 2 ^ j"
  obtains m where "mag_units m = n" "round_mag (of_nat n) = min f64_inf_mag m"
proof -
  define s where "s = round_shift (of_nat n)"
  have sj: "s \<le> j"
  proof (cases "n = 0")
    case True
    then show ?thesis by (simp add: s_def round_shift_def floorlog_def)
  next
    case False
    have "2 ^ (floorlog 2 n - 1) \<le> n" using floorlog_bounds [of n 2] False by simp
    also have "n < 2 ^ (53 + j)" using assms by (simp add: power_add)
    finally have "floorlog 2 n - 1 < 53 + j" by (rule power_less_imp_less_exp [rotated]) simp
    then show ?thesis by (simp add: s_def round_shift_def)
  qed
  define r where "r = k * 2 ^ (j - s)"
  have n: "n = r * 2 ^ s" using sj by (simp add: assms(2) r_def power_add [symmetric] mult.assoc)
  then have q: "of_nat n / 2 ^ s = (of_nat r :: rat)" by simp
  have "(of_nat r :: rat) < of_nat (2 ^ 53)"
    using round_shift_bounds(1) [of "of_nat n"] by (simp add: s_def [symmetric] q)
  then have r: "r < 2 ^ 53" by (simp only: of_nat_less_iff)
  have r52: "2 ^ 52 \<le> r" if "0 < s"
  proof -
    have "of_nat (2 ^ 52) \<le> (of_nat r :: rat)"
      using round_shift_bounds(2) [of "of_nat n"] that by (simp add: s_def [symmetric] q)
    then show ?thesis by (simp only: of_nat_le_iff)
  qed
  have "mag_units (s * 2 ^ 52 + r) = n"
    using r r52 mag_units_shift [of r s] by (cases "s = 0") (simp_all add: n mag_units_low)
  moreover have "round_mag (of_nat n) = min f64_inf_mag (s * 2 ^ 52 + r)"
    by (simp add: round_mag_def Let_def s_def [symmetric] q)
  ultimately show thesis by (rule that)
qed

lemma mag_units_form: obtains k j where "k < 2 ^ 53" "mag_units m = k * 2 ^ j"
proof (cases m rule: mag_cases)
  case 1
  then show thesis using that [of m 0] by (simp add: mag_units_sub)
next
  case (2 e f)
  then show thesis using that [of "2 ^ 52 + f" e] mag_units_eq [OF 2(1), of e] by simp
qed

lemma round_mag_units: "m \<le> f64_inf_mag \<Longrightarrow> round_mag (of_nat (mag_units m)) = m"
proof -
  assume m: "m \<le> f64_inf_mag"
  obtain k j where "k < 2 ^ 53" "mag_units m = k * 2 ^ j" by (rule mag_units_form)
  then obtain m' where "mag_units m' = mag_units m" "round_mag (of_nat (mag_units m)) = min f64_inf_mag m'"
    by (rule round_mag_exact)
  with m show ?thesis by (simp add: mag_units_eq_iff)
qed

lemma round_mag_0 [simp]: "round_mag 0 = 0"
  using round_mag_units [of 0] by simp

lemma round_mag_le_inf: "round_mag x \<le> f64_inf_mag"
  by (simp add: round_mag_def Let_def)

subsection \<open>Values and keys\<close>

lemma f64_round_parts:
  "f64_mag (f64_round z x) = round_mag (\<bar>x\<bar> * f64_units)"
  "f64_neg (f64_round z x) = (x < 0 \<or> x = 0 \<and> z)"
  using f64_make_parts [of "round_mag (\<bar>x\<bar> * f64_units)"] round_mag_le_inf [of "\<bar>x\<bar> * f64_units"] inf_mag_less
  by (simp_all add: f64_round_def)

lemma f64_round_not_nan [simp]: "\<not> f64_nan (f64_round z x)"
  by (simp add: f64_nan_def f64_round_parts not_less round_mag_le_inf)

lemma f64_finite_not_nan: "f64_finite b \<Longrightarrow> \<not> f64_nan b"
  by (simp add: f64_finite_def f64_nan_def)

lemma f64_finite_not_inf: "f64_finite b \<Longrightarrow> \<not> f64_inf b"
  by (simp add: f64_finite_def f64_inf_def)

lemma f64_key_round:
  "f64_key (f64_round z x) =
     (if x < 0 then - int (round_mag (- x * f64_units)) else int (round_mag (x * f64_units)))"
  by (auto simp: f64_key_def f64_round_parts)

lemma f64_key_round_mono:
  assumes "x \<le> y" shows "f64_key (f64_round z x) \<le> f64_key (f64_round z' y)"
proof -
  consider "0 \<le> x" | "x < 0" "0 \<le> y" | "y < 0" by linarith
  then show ?thesis
  proof cases
    case 1
    with assms show ?thesis by (simp add: f64_key_round round_mag_mono)
  next
    case 2
    then show ?thesis by (simp add: f64_key_round)
  next
    case 3
    with assms have "round_mag (- y * f64_units) \<le> round_mag (- x * f64_units)"
      by (intro round_mag_mono mult_right_mono) (simp_all add: mult_nonpos_nonneg)
    with 3 assms show ?thesis by (simp add: f64_key_round)
  qed
qed

lemma f64_val_less_iff: "f64_val a < f64_val b \<longleftrightarrow> f64_key a < f64_key b"
proof -
  have "f64_val a < f64_val b \<longleftrightarrow>
      (if f64_neg a then -1 else 1) * (of_nat (mag_units (f64_mag a)) :: rat)
        < (if f64_neg b then -1 else 1) * of_nat (mag_units (f64_mag b))"
    unfolding f64_val_def by (rule divide_less_cancel [THEN trans]) auto
  also have "\<dots> \<longleftrightarrow> f64_key a < f64_key b"
    using mag_units_less_iff [of "f64_mag a" "f64_mag b"] mag_units_less_iff [of "f64_mag b" "f64_mag a"]
      mag_units_less_iff [of 0 "f64_mag b"] mag_units_less_iff [of 0 "f64_mag a"]
    by (auto simp: f64_key_def of_nat_less_iff neg_less_0_iff_less intro: le_less_trans [of _ 0] less_le_trans [of _ 0])
  finally show ?thesis .
qed

lemma f64_val_le_iff: "f64_val a \<le> f64_val b \<longleftrightarrow> f64_key a \<le> f64_key b"
  using f64_val_less_iff [of b a] by (simp add: linorder_not_less [symmetric])

lemma f64_val_eq_iff: "f64_val a = f64_val b \<longleftrightarrow> f64_key a = f64_key b"
  by (simp add: order_eq_iff f64_val_le_iff)

lemma f64_val_0 [simp]: "f64_val 0 = 0"
  by (simp add: f64_val_def f64_mag_def)

lemma f64_less_val: "f64_finite a \<Longrightarrow> f64_finite b \<Longrightarrow> f64_less a b \<longleftrightarrow> f64_val a < f64_val b"
  by (simp add: f64_less_def f64_finite_not_nan f64_val_less_iff)

lemma f64_le_val: "f64_finite a \<Longrightarrow> f64_finite b \<Longrightarrow> f64_le a b \<longleftrightarrow> f64_val a \<le> f64_val b"
  by (simp add: f64_le_def f64_finite_not_nan f64_val_le_iff)

lemma f64_abs_val: "\<bar>f64_val b\<bar> * f64_units = of_nat (mag_units (f64_mag b))"
  by (simp add: f64_val_def abs_mult)

text \<open>Rounding a value that is a float already changes nothing but the sign of zero.\<close>

lemma f64_round_val:
  assumes "f64_finite b"
  shows "f64_mag (f64_round z (f64_val b)) = f64_mag b"
    and "f64_val (f64_round z (f64_val b)) = f64_val b"
proof -
  show mag: "f64_mag (f64_round z (f64_val b)) = f64_mag b"
    using assms by (simp add: f64_round_parts f64_abs_val round_mag_units f64_finite_def)
  have key: "f64_val b < 0 \<longleftrightarrow> f64_key b < 0"
    using f64_val_less_iff [of b 0] by (simp add: f64_key_def f64_neg_def f64_mag_def)
  have r: "round_mag (\<bar>f64_val b\<bar> * f64_units) = f64_mag b"
    using assms by (simp add: f64_abs_val round_mag_units f64_finite_def)
  have "f64_key (f64_round z (f64_val b)) = f64_key b"
  proof (cases "f64_val b < 0")
    case True
    with r have "round_mag (- f64_val b * f64_units) = f64_mag b" by simp
    with True key show ?thesis unfolding f64_key_round by (auto simp: f64_key_def split: if_splits)
  next
    case False
    with r have "round_mag (f64_val b * f64_units) = f64_mag b" by simp
    with False key show ?thesis unfolding f64_key_round by (auto simp: f64_key_def split: if_splits)
  qed
  then show "f64_val (f64_round z (f64_val b)) = f64_val b" by (simp add: f64_val_eq_iff)
qed

lemma f64_finite_round_val: "f64_finite b \<Longrightarrow> f64_finite (f64_round z (f64_val b))"
  by (simp add: f64_finite_def f64_round_val)

definition representable :: "rat \<Rightarrow> bool" where
  "representable x \<longleftrightarrow> (\<exists>b. f64_finite b \<and> f64_val b = x)"

lemma representable_val: "f64_finite b \<Longrightarrow> representable (f64_val b)"
  by (auto simp: representable_def)

lemma round_representable:
  assumes "representable x"
  shows "f64_finite (f64_round z x)" and "f64_val (f64_round z x) = x"
  using assms by (auto simp: representable_def f64_round_val f64_finite_round_val)

lemma round_bounds:
  assumes "representable a" "representable b" "a \<le> x" "x \<le> b"
  shows "f64_finite (f64_round z x)" and "a \<le> f64_val (f64_round z x)" and "f64_val (f64_round z x) \<le> b"
proof -
  have ka: "f64_key (f64_round False a) \<le> f64_key (f64_round z x)"
    and kb: "f64_key (f64_round z x) \<le> f64_key (f64_round False b)"
    using assms by (auto intro: f64_key_round_mono)
  then show "a \<le> f64_val (f64_round z x)" "f64_val (f64_round z x) \<le> b"
    using assms(1,2) by (simp_all add: f64_val_le_iff [symmetric] round_representable)
  show "f64_finite (f64_round z x)"
    using ka kb round_representable(1) [OF assms(1), of False] round_representable(1) [OF assms(2), of False]
    by (auto simp: f64_finite_def f64_key_def split: if_splits)
qed

lemma representable_units:
  assumes "k < 2 ^ 53" "\<bar>x\<bar> * f64_units = of_nat (k * 2 ^ j)" "\<bar>x\<bar> < 2 ^ 1024"
  shows "representable x"
proof -
  obtain m where m: "mag_units m = k * 2 ^ j" by (rule round_mag_exact [OF assms(1) refl])
  have "mag_units m < mag_units f64_inf_mag"
  proof -
    have "(of_nat (mag_units m) :: rat) < 2 ^ 1024 * f64_units"
      using assms(3) by (subst m, subst assms(2) [symmetric]) simp
    also have "\<dots> \<le> of_nat (mag_units f64_inf_mag)"
      by (simp add: f64_inf_mag_def mag_units_def f64_units_def)
    finally show ?thesis by (simp only: of_nat_less_iff)
  qed
  then have inf: "m < f64_inf_mag" by (simp add: mag_units_less_iff)
  let ?b = "f64_make (x < 0) m"
  have parts: "f64_mag ?b = m" "f64_neg ?b = (x < 0)"
    using f64_make_parts [of m "x < 0"] inf inf_mag_less by simp_all
  have "f64_val ?b = (if x < 0 then -1 else 1) * (\<bar>x\<bar> * f64_units) / f64_units"
    unfolding f64_val_def parts m assms(2) ..
  then have "f64_val ?b = x" by auto
  moreover have "f64_finite ?b" using inf by (simp add: f64_finite_def parts)
  ultimately show ?thesis by (auto simp: representable_def)
qed

lemma representable_int: "\<bar>i\<bar> < 2 ^ 53 \<Longrightarrow> representable (of_int i)"
proof (rule representable_units [of "nat \<bar>i\<bar>" _ 1074])
  assume i: "\<bar>i\<bar> < 2 ^ 53"
  then show "nat \<bar>i\<bar> < 2 ^ 53" by (simp add: nat_less_iff)
  show "\<bar>of_int i\<bar> * f64_units = (of_nat (nat \<bar>i\<bar> * 2 ^ 1074) :: rat)"
    by (simp only: of_nat_mult of_nat_power of_nat_nat abs_ge_zero of_int_abs of_nat_numeral f64_units_def)
  have "of_int \<bar>i\<bar> < (of_int (2 ^ 53) :: rat)" using i by (simp only: of_int_less_iff)
  then show "\<bar>of_int i\<bar> < (2 ^ 1024 :: rat)" by simp
qed

lemma f64_of_int_exact:
  assumes "\<bar>i\<bar> < 2 ^ 53"
  shows "f64_finite (f64_of_int i)" and "f64_val (f64_of_int i) = of_int i"
  using round_representable [OF representable_int [OF assms]] by (simp_all add: f64_of_int_def)

subsection \<open>Arithmetic on finite values\<close>

lemma f64_negate_laws [simp]:
  "f64_val (f64_negate b) = - f64_val b" "f64_nan (f64_negate b) = f64_nan b"
  "f64_finite (f64_negate b) = f64_finite b" "f64_inf (f64_negate b) = f64_inf b"
  using f64_make_parts [OF f64_mag_less [of b], of "\<not> f64_neg b"]
  by (simp_all add: f64_negate_def f64_val_def f64_nan_def f64_finite_def f64_inf_def)

lemma f64_add_finite:
  "f64_finite a \<Longrightarrow> f64_finite b \<Longrightarrow>
     f64_add a b = f64_round (f64_neg a \<and> f64_neg b) (f64_val a + f64_val b)"
  by (simp add: f64_add_def f64_finite_not_nan f64_finite_not_inf)

lemma f64_sub_finite:
  "f64_finite a \<Longrightarrow> f64_finite b \<Longrightarrow>
     f64_sub a b = f64_round (f64_neg a \<and> f64_neg (f64_negate b)) (f64_val a - f64_val b)"
  by (simp add: f64_sub_def f64_add_finite)

text \<open>Subtracting a whole number from a float that is at least as large loses nothing.\<close>

lemma representable_diff:
  assumes "f64_finite a" "f64_val a < 2 ^ 53" "0 \<le> i" "of_int i \<le> f64_val a"
  shows "representable (f64_val a - of_int i)"
proof -
  obtain k j where k: "k < 2 ^ 53" "mag_units (f64_mag a) = k * 2 ^ j" by (rule mag_units_form)
  have a0: "0 \<le> f64_val a" using assms(3,4) by (meson of_int_0_le_iff order_trans)
  have u: "f64_val a * f64_units = of_nat (k * 2 ^ j)"
    using f64_abs_val [of a] a0 k(2) by simp
  show ?thesis
  proof (cases "j \<le> 1074")
    case True
    define d where "d = int k - i * 2 ^ (1074 - j)"
    have U: "f64_units = 2 ^ (1074 - j) * 2 ^ j"
      using True by (simp add: f64_units_def power_add [symmetric])
    have eq: "(f64_val a - of_int i) * f64_units = of_int d * 2 ^ j"
      unfolding left_diff_distrib u d_def by (simp add: U algebra_simps)
    have d0: "0 \<le> d"
    proof -
      have "0 \<le> of_int d * (2 ^ j :: rat)" unfolding eq [symmetric] using assms(4) by simp
      then show ?thesis by (auto simp: zero_le_mult_iff dest: leD)
    qed
    have "d \<le> int k" using assms(3) by (simp add: d_def)
    with k(1) have dk: "nat d < 2 ^ 53" by linarith
    show ?thesis
    proof (rule representable_units [OF dk])
      show "\<bar>f64_val a - of_int i\<bar> * f64_units = of_nat (nat d * 2 ^ j)"
        using eq d0 assms(4) by simp
      have "f64_val a - of_int i \<le> f64_val a" using assms(3) by simp
      moreover have "(2 ^ 53 :: rat) < 2 ^ 1024" by simp
      ultimately show "\<bar>f64_val a - of_int i\<bar> < 2 ^ 1024" using assms(2,4) by simp
    qed
  next
    case False
    then have "(2 :: nat) ^ j = 2 ^ (j - 1074) * 2 ^ 1074"
      by (simp only: power_add [symmetric]) simp
    then have "of_nat (k * 2 ^ j) = (of_nat (k * 2 ^ (j - 1074) * 2 ^ 1074) :: rat)"
      by (simp only: mult.assoc)
    then have "of_nat (k * 2 ^ j) = of_nat (k * 2 ^ (j - 1074)) * f64_units"
      by (simp only: f64_units_def of_nat_mult of_nat_power of_nat_numeral)
    then have "f64_val a * f64_units = of_nat (k * 2 ^ (j - 1074)) * f64_units" by (simp only: u)
    then have v: "f64_val a = of_int (int (k * 2 ^ (j - 1074)))" by (simp only: mult_cancel_right) simp
    have "rat_of_int (int (k * 2 ^ (j - 1074))) < of_int (2 ^ 53)" using assms(2) by (simp add: v)
    then have "int (k * 2 ^ (j - 1074)) < 2 ^ 53" by (simp only: of_int_less_iff)
    moreover have "i \<le> int (k * 2 ^ (j - 1074))" using assms(4) unfolding v by (simp only: of_int_le_iff)
    ultimately have "\<bar>int (k * 2 ^ (j - 1074)) - i\<bar> < 2 ^ 53" using assms(3) by linarith
    from representable_int [OF this] show ?thesis unfolding v by simp
  qed
qed

lemma representable_uminus: "representable x \<Longrightarrow> representable (- x)"
  unfolding representable_def by (metis f64_negate_laws(1,3))

lemma representable_0 [simp]: "representable 0"
  using representable_int [of 0] by simp

lemma representable_exp63: "representable (2 ^ 63)" and representable_exp64: "representable (2 ^ 64)"
  by (rule representable_units [of 1 _ "63 + 1074"] representable_units [of 1 _ "64 + 1074"];
      simp add: f64_units_def)+

text \<open>An \<^verbatim>\<open>int64\<close> becomes a finite float, between the same whole-number bounds.\<close>

lemma f64_of_int64:
  assumes "- (2 ^ 63) \<le> i" "i < 2 ^ 63"
  shows "f64_finite (f64_of_int i)"
proof -
  have "(of_int (- (2 ^ 63)) :: rat) \<le> of_int i" "of_int i \<le> (of_int (2 ^ 63) :: rat)"
    using assms by (simp_all only: of_int_le_iff)
  then have "- (2 ^ 63) \<le> (of_int i :: rat)" "of_int i \<le> (2 ^ 63 :: rat)" by simp_all
  from round_bounds(1) [OF representable_uminus [OF representable_exp63] representable_exp63 this]
  show ?thesis by (simp add: f64_of_int_def)
qed

lemma f64_of_int_ge:
  assumes "\<bar>k\<bar> < 2 ^ 53" "k \<le> i" "i < 2 ^ 63"
  shows "of_int k \<le> f64_val (f64_of_int i)"
proof -
  have "(of_int k :: rat) \<le> of_int i" "of_int i \<le> (of_int (2 ^ 63) :: rat)"
    using assms by (simp_all only: of_int_le_iff)
  then show ?thesis
    unfolding f64_of_int_def
    using round_bounds(2) [OF representable_int [OF assms(1)] representable_exp63] by simp
qed

lemma f64_of_nat32 [simp]:
  "f64_finite (f64_of_int (uint (n :: u32)))" "f64_val (f64_of_int (uint n)) = of_int (uint n)"
proof -
  have "uint n < 2 ^ 32" using unsigned_less [of n, where 'a = int] by simp
  then have "\<bar>uint n\<bar> < 2 ^ 53" by simp
  then show "f64_finite (f64_of_int (uint n))" "f64_val (f64_of_int (uint n)) = of_int (uint n)"
    by (rule f64_of_int_exact)+
qed

subsection \<open>Results that are not finite\<close>

lemma f64_nan_qnan [simp]: "f64_nan f64_qnan"
  by (simp add: f64_nan_def f64_qnan_def f64_mag_def f64_inf_mag_def)

lemma f64_inf_make: "f64_inf (f64_make neg f64_inf_mag)" "f64_neg (f64_make neg f64_inf_mag) = neg"
  by (simp_all add: f64_inf_def f64_make_parts [OF inf_mag_less])

lemma f64_inf_not_nan: "f64_inf b \<Longrightarrow> \<not> f64_nan b"
  by (simp add: f64_inf_def f64_nan_def)

lemma f64_val_nonneg: "\<not> f64_neg b \<Longrightarrow> 0 \<le> f64_val b"
  by (simp add: f64_val_def)

lemma f64_of_int_not_neg: "0 \<le> i \<Longrightarrow> \<not> f64_neg (f64_of_int i)"
  by (simp add: f64_of_int_def f64_round_parts)

lemma f64_trichotomy:
  obtains "f64_finite b" | "f64_inf b" | "f64_nan b"
  by (metis f64_finite_def f64_inf_def f64_nan_def linorder_neq_iff)

lemma f64_div_not_neg:
  assumes "f64_finite a" "f64_finite b" "\<not> f64_neg a" "\<not> f64_neg b"
  shows "f64_nan (f64_div a b) \<or> \<not> f64_neg (f64_div a b)"
  using assms f64_val_nonneg [of a] f64_val_nonneg [of b]
  by (simp add: f64_div_def f64_finite_not_nan f64_finite_not_inf Let_def f64_inf_make f64_round_parts
      zero_le_divide_iff not_less)

lemma f64_div_finite:
  assumes "f64_finite a" "f64_finite b" "f64_val b \<noteq> 0"
  shows "f64_div a b = f64_round (f64_neg a \<noteq> f64_neg b) (f64_val a / f64_val b)"
proof -
  have "f64_val b = 0" if "f64_mag b = 0" using that by (simp add: f64_val_def)
  with assms(3) have "f64_mag b \<noteq> 0" by blast
  with assms(1,2) show ?thesis
    by (simp add: f64_div_def f64_finite_not_nan f64_finite_not_inf Let_def)
qed

text \<open>Adding a non-negative float that is infinite or NaN to a finite one exceeds every finite bound.\<close>

lemma f64_add_not_le:
  assumes "f64_finite a" "f64_finite c" "\<not> f64_finite x" "f64_nan x \<or> \<not> f64_neg x"
  shows "\<not> f64_le (f64_add a x) c"
proof (cases x rule: f64_trichotomy)
  case 1
  with assms(3) show ?thesis by simp
next
  case 2
  then have "f64_add a x = x"
    using assms(1) by (simp add: f64_add_def f64_finite_not_nan f64_finite_not_inf f64_inf_not_nan)
  moreover have "f64_key c < f64_key x"
    using 2 assms(2,4) by (auto simp: f64_inf_def f64_finite_def f64_key_def f64_nan_def)
  ultimately show ?thesis by (simp add: f64_le_def)
next
  case 3
  then have "f64_add a x = f64_qnan" by (simp add: f64_add_def)
  then show ?thesis by (simp add: f64_le_def)
qed

subsection \<open>Rounding error\<close>

lemma round_half_even_error:
  assumes "0 \<le> y" shows "\<bar>of_nat (round_half_even y) - y\<bar> \<le> 1 / 2"
proof -
  define d where "d = y - of_int \<lfloor>y\<rfloor>"
  have d: "0 \<le> d" "d < 1" "y = of_int \<lfloor>y\<rfloor> + d" by (simp_all add: d_def) linarith
  have "of_nat (round_half_even y) = (of_int \<lfloor>y\<rfloor> :: rat) \<and> d \<le> 1 / 2 \<or>
      of_nat (round_half_even y) = (of_int \<lfloor>y\<rfloor> + 1 :: rat) \<and> 1 / 2 \<le> d"
    using assms
    by (auto simp: round_half_even_def Let_def of_nat_nat) (use d_def in linarith)+
  then show ?thesis by (subst (2) d(3)) (use d(1,2) in \<open>auto simp: abs_le_iff\<close>)
qed

lemma mag_units_round:
  assumes "r \<le> 2 ^ 53" "s = 0 \<or> 2 ^ 52 \<le> r"
  shows "mag_units (s * 2 ^ 52 + r) = r * 2 ^ s"
proof (cases "r = 2 ^ 53")
  case True
  then have "s * 2 ^ 52 + r = Suc (Suc s) * 2 ^ 52 + 0" by simp
  then show ?thesis using mag_units_eq [of 0 "Suc s"] True by (simp add: add.commute)
next
  case False
  with assms(1) have r: "r < 2 ^ 53" by simp
  show ?thesis
  proof (cases "s = 0")
    case True
    with r show ?thesis by (simp add: mag_units_low)
  next
    case False
    with r assms(2) show ?thesis by (intro mag_units_shift) simp_all
  qed
qed

text \<open>Half a unit in the last place: relative to the value, or one smallest double near zero.\<close>

lemma round_mag_error:
  assumes "0 \<le> x" "round_mag x < f64_inf_mag"
  shows "\<bar>of_nat (mag_units (round_mag x)) - x\<bar> \<le> x / 2 ^ 53 + 1 / 2"
proof -
  let ?s = "round_shift x"
  let ?y = "x / 2 ^ ?s"
  let ?r = "round_half_even ?y"
  have y: "0 \<le> ?y" using assms(1) by simp
  have "?y \<le> of_nat (2 ^ 53)" using round_shift_bounds(1) [OF assms(1)] by simp
  then have r: "?r \<le> 2 ^ 53" using y by (intro round_half_even_le_of_nat)
  have r52: "?s = 0 \<or> 2 ^ 52 \<le> ?r"
  proof (cases "?s = 0")
    case False
    then have "of_nat (2 ^ 52) \<le> ?y" using round_shift_bounds(2) [OF assms(1)] by simp
    then show ?thesis by (intro disjI2 round_half_even_ge_of_nat)
  qed simp
  have "round_mag x = ?s * 2 ^ 52 + ?r" using assms(2) by (simp add: round_mag_def Let_def)
  then have m: "of_nat (mag_units (round_mag x)) = (of_nat ?r * 2 ^ ?s :: rat)"
    using mag_units_round [OF r r52] by simp
  have x: "x = ?y * 2 ^ ?s" by simp
  have "\<bar>of_nat ?r * 2 ^ ?s - x\<bar> = \<bar>of_nat ?r - ?y\<bar> * 2 ^ ?s"
    by (subst (2) x) (simp only: left_diff_distrib [symmetric] abs_mult power_abs abs_numeral)
  also have "\<dots> \<le> 1 / 2 * 2 ^ ?s"
    using round_half_even_error [OF y] by (intro mult_right_mono) simp_all
  also have "\<dots> \<le> x / 2 ^ 53 + 1 / 2"
  proof (cases "?s = 0")
    case True
    then show ?thesis using assms(1) by simp
  next
    case False
    then have "2 ^ 52 \<le> ?y" using round_shift_bounds(2) [OF assms(1)] by simp
    then have "2 ^ 52 * 2 ^ ?s \<le> x" by (simp add: le_divide_eq)
    then show ?thesis by simp
  qed
  finally show ?thesis by (simp only: m)
qed

lemma f64_round_error:
  assumes "f64_finite (f64_round z x)"
  shows "\<bar>f64_val (f64_round z x) - x\<bar> \<le> \<bar>x\<bar> / 2 ^ 53 + 1 / f64_units"
proof -
  let ?m = "round_mag (\<bar>x\<bar> * f64_units)"
  have fin: "?m < f64_inf_mag" using assms by (simp add: f64_finite_def f64_round_parts)
  have "\<bar>of_nat (mag_units ?m) - \<bar>x\<bar> * f64_units\<bar> \<le> \<bar>x\<bar> * f64_units / 2 ^ 53 + 1 / 2"
    by (rule round_mag_error [OF _ fin]) simp
  then have "\<bar>of_nat (mag_units ?m) - \<bar>x\<bar> * f64_units\<bar> / f64_units
      \<le> (\<bar>x\<bar> * f64_units / 2 ^ 53 + 1 / 2) / f64_units"
    by (rule divide_right_mono) simp
  also have "\<dots> = \<bar>x\<bar> / 2 ^ 53 + 1 / 2 / f64_units"
    unfolding add_divide_distrib by simp
  also have "\<dots> \<le> \<bar>x\<bar> / 2 ^ 53 + 1 / f64_units"
    by (intro add_left_mono divide_right_mono) simp_all
  also have "\<bar>of_nat (mag_units ?m) - \<bar>x\<bar> * f64_units\<bar> / f64_units
      = \<bar>of_nat (mag_units ?m) / f64_units - \<bar>x\<bar>\<bar>"
    using abs_divide [of "of_nat (mag_units ?m) - \<bar>x\<bar> * f64_units" f64_units]
    by (simp add: diff_divide_distrib)
  also have "\<dots> = \<bar>f64_val (f64_round z x) - x\<bar>"
  proof -
    define u where "u = (of_nat (mag_units ?m) :: rat) / f64_units"
    have v: "f64_val (f64_round z x) = (if x < 0 \<or> x = 0 \<and> z then - 1 else 1) * u"
      by (simp add: f64_val_def f64_round_parts u_def)
    have zero: "u = 0" if "x = 0" using that by (simp add: u_def)
    have neg: "\<bar>- u - x\<bar> = \<bar>u - - x\<bar>"
      by linarith
    consider "x = 0" | "x < 0" | "0 < x" by linarith
    then have "\<bar>u - \<bar>x\<bar>\<bar> = \<bar>f64_val (f64_round z x) - x\<bar>"
    proof cases
      case 1
      then have "f64_val (f64_round z x) = 0" unfolding v using zero by simp
      with 1 zero show ?thesis by simp
    next
      case 2
      then have "f64_val (f64_round z x) = - u" by (simp add: v)
      then show ?thesis by (simp only: neg abs_of_neg [OF 2])
    next
      case 3
      then have "f64_val (f64_round z x) = u" by (simp add: v)
      then show ?thesis by (simp only: abs_of_pos [OF 3])
    qed
    then show ?thesis by (simp only: u_def)
  qed
  finally show ?thesis .
qed

end
