(* ===== verification/ProtoWire.thy ===== *)
theory ProtoWire
  imports Prelude
begin

unbundle bit_operations_syntax

text \<open>
  The byte level of the two generated protobuf files (\<^verbatim>\<open>proto/ratecat_api_v1.pb.go\<close> and
  \<^verbatim>\<open>internal/cluster/pb/ratecat_cluster_v1.pb.go\<close>).  Both hold the same helper functions
  (\<^verbatim>\<open>encodeVarint\<close>, \<^verbatim>\<open>sov\<close>, \<^verbatim>\<open>skip\<close>) and the same code shapes: a
  \<^verbatim>\<open>MarshalToSizedBuffer\<close> fills a buffer from its end towards its start, field by field, and an
  \<^verbatim>\<open>Unmarshal\<close> is a loop over tags with a switch.  This theory models those shapes once, over a
  real buffer with an index (every store is bounds-checked, as in Go), and proves for each writer which
  bytes it puts where and for each reader that it takes them back.
\<close>

section \<open>Errors of the generated code\<close>

definition ErrIntOverflow :: fault where
  "ErrIntOverflow = Fail ''proto: integer overflow''"

definition ErrInvalidLength :: fault where
  "ErrInvalidLength = Fail ''proto: negative length found during unmarshaling''"

definition ErrUnexpectedEndOfGroup :: fault where
  "ErrUnexpectedEndOfGroup = Fail ''proto: unexpected end of group''"

definition ErrUnexpectedEOF :: fault where
  "ErrUnexpectedEOF = Fail ''unexpected EOF''"

definition ErrWrongWireType :: "nat \<Rightarrow> string \<Rightarrow> fault" where
  "ErrWrongWireType wt field =
     Fail (''proto: wrong wireType = '' @ show_nat wt @ '' for field '' @ field)"

section \<open>Buffers\<close>

text \<open>\<open>set_byte d i b\<close> is \<^verbatim>\<open>dAtA[i] = b\<close>; \<open>copy_at d i s\<close> is \<^verbatim>\<open>copy(dAtA[i:], s)\<close>.\<close>

definition set_byte :: "byte list \<Rightarrow> int \<Rightarrow> byte \<Rightarrow> byte list res" where
  "set_byte d i b =
     (if 0 \<le> i \<and> i < int (length d) then Inr (d[nat i := b])
      else Inl (Panic ''index out of range''))"

definition copy_at :: "byte list \<Rightarrow> int \<Rightarrow> byte list \<Rightarrow> byte list res" where
  "copy_at d i s =
     (if 0 \<le> i \<and> i \<le> int (length d)
      then let n = min (length s) (length d - nat i)
           in Inr (take (nat i) d @ take n s @ drop (nat i + n) d)
      else Inl (Panic ''slice bounds out of range''))"

text \<open>\<open>get_byte d i\<close> is \<^verbatim>\<open>dAtA[i]\<close>; \<open>get_slice d a b\<close> is \<^verbatim>\<open>dAtA[a:b]\<close>.\<close>

definition get_byte :: "byte list \<Rightarrow> nat \<Rightarrow> byte res" where
  "get_byte d i = (if i < length d then Inr (d ! i) else Inl (Panic ''index out of range''))"

definition get_slice :: "byte list \<Rightarrow> nat \<Rightarrow> nat \<Rightarrow> byte list res" where
  "get_slice d a b =
     (if a \<le> b \<and> b \<le> length d then Inr (slice d a b)
      else Inl (Panic ''slice bounds out of range''))"

text \<open>A writer step takes the buffer and the index below which it may write.\<close>

type_synonym wstate = "byte list \<times> int"
type_synonym wstep = "wstate \<Rightarrow> wstate res"

fun seqW :: "wstep list \<Rightarrow> wstep" where
  "seqW [] st = Inr st"
| "seqW (w # ws) st = bindR (w st) (seqW ws)"

definition whenW :: "bool \<Rightarrow> wstep \<Rightarrow> wstep" where
  "whenW b w st = (if b then w st else Inr st)"

section \<open>Varints\<close>

text \<open>\<^verbatim>\<open>math/bits.Len64\<close>: the number of bits of the value, 0 for 0.\<close>

fun len64 :: "nat \<Rightarrow> nat" where
  "len64 n = (if n = 0 then 0 else Suc (len64 (n div 2)))"

declare len64.simps [simp del]

definition sovRatecatApiV1 :: "u64 \<Rightarrow> nat" where
  "sovRatecatApiV1 x = (len64 (unat (x OR 1)) + 6) div 7"

function encodeVarint_loop :: "byte list \<Rightarrow> int \<Rightarrow> u64 \<Rightarrow> byte list res" where
  "encodeVarint_loop dAtA offset v =
     (if 128 \<le> v
      then bindR (set_byte dAtA offset (ucast (v AND 0x7f OR 0x80)))
             (\<lambda>dAtA. encodeVarint_loop dAtA (offset + 1) (drop_bit 7 v))
      else set_byte dAtA offset (ucast v))"
  by pat_completeness auto
termination
proof (relation "measure (\<lambda>(d, off, v). unat v)", goal_cases)
  case 1
  show ?case by simp
next
  case (2 d off v x)
  then have "128 \<le> unat v" by (simp add: word_le_nat_alt)
  then have "unat v div 128 < unat v" by simp
  then have "unat (drop_bit 7 v) < unat v"
    by (simp add: unat_drop_bit_7)
  then show ?case by simp
qed

declare encodeVarint_loop.simps [simp del]

definition encodeVarintRatecatApiV1 :: "byte list \<Rightarrow> int \<Rightarrow> u64 \<Rightarrow> wstate res" where
  "encodeVarintRatecatApiV1 dAtA offset v =
     (let offset = offset - int (sovRatecatApiV1 v); base = offset
      in bindR (encodeVarint_loop dAtA offset v) (\<lambda>dAtA. Inr (dAtA, base)))"

section \<open>Field writers\<close>

text \<open>The last two statements of every field: \<^verbatim>\<open>i--; dAtA[i] = tag\<close>.\<close>

definition put_tag :: "byte \<Rightarrow> wstep" where
  "put_tag tag = (\<lambda>(dAtA, i). bindR (set_byte dAtA (i - 1) tag) (\<lambda>dAtA. Inr (dAtA, i - 1)))"

definition put_varint :: "byte \<Rightarrow> u64 \<Rightarrow> wstep" where
  "put_varint tag v =
     (\<lambda>(dAtA, i). bindR (encodeVarintRatecatApiV1 dAtA i v) (put_tag tag))"

definition put_bytes :: "byte \<Rightarrow> byte list \<Rightarrow> wstep" where
  "put_bytes tag s =
     (\<lambda>(dAtA, i). let i = i - int (length s)
       in bindR (copy_at dAtA i s) (\<lambda>dAtA.
          bindR (encodeVarintRatecatApiV1 dAtA i (word_of_nat (length s))) (put_tag tag)))"

definition put_bool :: "byte \<Rightarrow> bool \<Rightarrow> wstep" where
  "put_bool tag b =
     (\<lambda>(dAtA, i). bindR (set_byte dAtA (i - 1) (if b then 1 else 0)) (\<lambda>dAtA. put_tag tag (dAtA, i - 1)))"

text \<open>\<^verbatim>\<open>PutUint64(dAtA[i:], bits)\<close> stores eight bytes and panics when fewer remain.\<close>

definition put_double :: "byte \<Rightarrow> u64 \<Rightarrow> wstep" where
  "put_double tag f =
     (\<lambda>(dAtA, i). let i = i - 8
       in if 0 \<le> i \<and> i + 8 \<le> int (length dAtA)
          then bindR (copy_at dAtA i (le_bytes 8 (unat f))) (\<lambda>dAtA. put_tag tag (dAtA, i))
          else Inl (Panic ''index out of range''))"

text \<open>
  A nested message: \<^verbatim>\<open>MarshalToSizedBuffer(dAtA[:i])\<close> writes into the front part and returns
  how many bytes it wrote there.
\<close>

type_synonym marshaller = "byte list \<Rightarrow> (byte list \<times> int) res"

definition put_msg :: "byte \<Rightarrow> marshaller \<Rightarrow> wstep" where
  "put_msg tag mar =
     (\<lambda>(dAtA, i). if 0 \<le> i \<and> i \<le> int (length dAtA)
       then bindR (mar (take (nat i) dAtA)) (\<lambda>(front, sz).
            bindR (encodeVarintRatecatApiV1 (front @ drop (nat i) dAtA) (i - sz) (word_of_int sz))
              (put_tag tag))
       else Inl (Panic ''slice bounds out of range''))"

text \<open>
  A oneof: \<^verbatim>\<open>size := m.Option.Size(); i -= size; m.Option.MarshalTo(dAtA[i:])\<close>, where
  \<^verbatim>\<open>MarshalTo(d)\<close> is \<^verbatim>\<open>MarshalToSizedBuffer(d[:m.Size()])\<close>.
\<close>

definition put_oneof :: "nat \<Rightarrow> marshaller \<Rightarrow> wstep" where
  "put_oneof sz mar =
     (\<lambda>(dAtA, i). let i = i - int sz
       in if 0 \<le> i \<and> i + int sz \<le> int (length dAtA)
          then bindR (mar (take sz (drop (nat i) dAtA))) (\<lambda>(mid, n).
               Inr (take (nat i) dAtA @ mid @ drop (nat i + sz) dAtA, i))
          else Inl (Panic ''slice bounds out of range''))"

definition marshal_to_sized :: "wstep list \<Rightarrow> marshaller" where
  "marshal_to_sized fields dAtA =
     bindR (seqW fields (dAtA, int (length dAtA)))
       (\<lambda>(dAtA, i). Inr (dAtA, int (length dAtA) - i))"

text \<open>
  \<^verbatim>\<open>Marshal\<close> (and \<^verbatim>\<open>XXX_Marshal\<close> on a buffer of capacity \<^verbatim>\<open>Size()\<close>): allocate
  \<^verbatim>\<open>size\<close> bytes, fill them, return the first \<^verbatim>\<open>n\<close>.
\<close>

definition marshal_with :: "nat \<Rightarrow> marshaller \<Rightarrow> byte list res" where
  "marshal_with sz mar =
     bindR (mar (replicate sz 0)) (\<lambda>(dAtA, n).
       if 0 \<le> n \<and> n \<le> int sz then Inr (take (nat n) dAtA)
       else Inl (Panic ''slice bounds out of range''))"

section \<open>Field readers\<close>

function read_varint :: "byte list \<Rightarrow> nat \<Rightarrow> nat \<Rightarrow> 'a::len word \<Rightarrow> ('a word \<times> nat) res" where
  "read_varint dAtA iNdEx shift acc =
     (if 64 \<le> shift then Inl ErrIntOverflow
      else if length dAtA \<le> iNdEx then Inl ErrUnexpectedEOF
      else bindR (get_byte dAtA iNdEx) (\<lambda>b.
             let acc = acc OR push_bit shift (ucast (b AND 0x7f))
             in if b < 0x80 then Inr (acc, iNdEx + 1)
                else read_varint dAtA (iNdEx + 1) (shift + 7) acc))"
  by pat_completeness auto
termination
  by (relation "measure (\<lambda>(d, i, s, a). 64 - s)") auto

declare read_varint.simps [simp del]

definition read_slice :: "byte list \<Rightarrow> nat \<Rightarrow> (byte list \<times> nat) res" where
  "read_slice dAtA iNdEx =
     bindR (read_varint dAtA iNdEx 0 (0 :: u64)) (\<lambda>(n, iNdEx).
       if sint n < 0 then Inl ErrInvalidLength
       else let postIndex = wrap64 (int iNdEx + sint n)
            in if postIndex < 0 then Inl ErrInvalidLength
               else if int (length dAtA) < postIndex then Inl ErrUnexpectedEOF
               else bindR (get_slice dAtA iNdEx (nat postIndex)) (\<lambda>s. Inr (s, nat postIndex)))"

definition read_double :: "byte list \<Rightarrow> nat \<Rightarrow> (u64 \<times> nat) res" where
  "read_double dAtA iNdEx =
     (if length dAtA < iNdEx + 8 then Inl ErrUnexpectedEOF
      else bindR (get_slice dAtA iNdEx (iNdEx + 8)) (\<lambda>s.
             Inr (word_of_nat (le_val s), iNdEx + 8)))"

text \<open>
  \<open>skip_loop\<close> is the loop of \<^verbatim>\<open>skipRatecatApiV1\<close> and \<open>skip_value\<close> the switch in its body; the
  fuel is one more than the bytes left, which the theory of safe decoding shows to be enough.
\<close>

definition skip_value :: "byte list \<Rightarrow> nat \<Rightarrow> nat \<Rightarrow> nat \<Rightarrow> (int \<times> nat) res" where
  "skip_value dAtA wireType iNdEx depth =
     (if wireType = 0 then
        bindR (read_varint dAtA iNdEx 0 (0 :: u64)) (\<lambda>(_, iNdEx). Inr (int iNdEx, depth))
      else if wireType = 1 then Inr (wrap64 (int iNdEx + 8), depth)
      else if wireType = 2 then
        bindR (read_varint dAtA iNdEx 0 (0 :: u64)) (\<lambda>(len, iNdEx).
          if sint len < 0 then Inl ErrInvalidLength
          else Inr (wrap64 (int iNdEx + sint len), depth))
      else if wireType = 3 then Inr (int iNdEx, depth + 1)
      else if wireType = 4 then
        (if depth = 0 then Inl ErrUnexpectedEndOfGroup else Inr (int iNdEx, depth - 1))
      else if wireType = 5 then Inr (wrap64 (int iNdEx + 4), depth)
      else Inl (Fail (''proto: illegal wireType '' @ show_nat wireType)))"

fun skip_loop :: "nat \<Rightarrow> byte list \<Rightarrow> nat \<Rightarrow> nat \<Rightarrow> nat res" where
  "skip_loop 0 dAtA iNdEx depth = Inl OutOfFuel"
| "skip_loop (Suc fuel) dAtA iNdEx depth =
     (if length dAtA \<le> iNdEx then Inl ErrUnexpectedEOF
      else bindR (read_varint dAtA iNdEx 0 (0 :: u64)) (\<lambda>(wire, iNdEx).
           bindR (skip_value dAtA (unat (wire AND 7)) iNdEx depth) (\<lambda>(iNdEx, depth).
             if iNdEx < 0 then Inl ErrInvalidLength
             else if depth = 0 then Inr (nat iNdEx)
             else skip_loop fuel dAtA (nat iNdEx) depth)))"

declare skip_loop.simps [simp del]

definition skipRatecatApiV1 :: "byte list \<Rightarrow> nat res" where
  "skipRatecatApiV1 dAtA = skip_loop (Suc (length dAtA)) dAtA 0 0"

section \<open>The decoding loop\<close>

text \<open>
  A switch gets the buffer, the field number, the wire type, the index behind the tag and the
  message so far; \<open>None\<close> is the \<^verbatim>\<open>default\<close> case.
\<close>

type_synonym 'm switch = "byte list \<Rightarrow> nat \<Rightarrow> nat \<Rightarrow> nat \<Rightarrow> 'm \<Rightarrow> ('m \<times> nat) res option"

definition skip_field :: "byte list \<Rightarrow> nat \<Rightarrow> 'm \<Rightarrow> ('m \<times> nat) res" where
  "skip_field dAtA preIndex m =
     bindR (get_slice dAtA preIndex (length dAtA)) (\<lambda>rest.
     bindR (skipRatecatApiV1 rest) (\<lambda>skippy.
       let next = wrap64 (int preIndex + int skippy)
       in if next < 0 then Inl ErrInvalidLength
          else if int (length dAtA) < next then Inl ErrUnexpectedEOF
          else Inr (m, nat next)))"

fun unmarshal_loop :: "nat \<Rightarrow> string \<Rightarrow> 'm switch \<Rightarrow> byte list \<Rightarrow> nat \<Rightarrow> 'm \<Rightarrow> 'm res" where
  "unmarshal_loop 0 name sw dAtA iNdEx m = Inl OutOfFuel"
| "unmarshal_loop (Suc fuel) name sw dAtA iNdEx m =
     (if iNdEx < length dAtA then
        bindR (read_varint dAtA iNdEx 0 (0 :: u64)) (\<lambda>(wire, i).
          let fieldNum = sint (ucast (drop_bit 3 wire) :: u32); wireType = unat (wire AND 7)
          in if wireType = 4 then
               Inl (Fail (''proto: '' @ name @ '': wiretype end group for non-group''))
             else if fieldNum \<le> 0 then
               Inl (Fail (''proto: '' @ name @ '': illegal tag '' @ show_int fieldNum
                          @ '' (wire type '' @ show_nat (unat wire) @ '')''))
             else bindR (case sw dAtA (nat fieldNum) wireType i m of
                           Some r \<Rightarrow> r
                         | None \<Rightarrow> skip_field dAtA iNdEx m)
                    (\<lambda>(m, i). unmarshal_loop fuel name sw dAtA i m))
      else if length dAtA < iNdEx then Inl ErrUnexpectedEOF
      else Inr m)"

declare unmarshal_loop.simps [simp del]

definition unmarshal_with :: "string \<Rightarrow> 'm switch \<Rightarrow> 'm \<Rightarrow> byte list \<Rightarrow> 'm res" where
  "unmarshal_with name sw m dAtA = unmarshal_loop (Suc (length dAtA)) name sw dAtA 0 m"

text \<open>One case of a switch: the wire type is checked, then the value is read and stored.\<close>

definition on_varint :: "string \<Rightarrow> ('a::len word \<Rightarrow> 'm \<Rightarrow> 'm) \<Rightarrow> byte list \<Rightarrow> nat \<Rightarrow> nat \<Rightarrow> 'm \<Rightarrow> ('m \<times> nat) res"
where
  "on_varint field upd dAtA wireType i m =
     (if wireType \<noteq> 0 then Inl (ErrWrongWireType wireType field)
      else bindR (read_varint dAtA i 0 0) (\<lambda>(v, i). Inr (upd v m, i)))"

definition on_bytes :: "string \<Rightarrow> (byte list \<Rightarrow> 'm \<Rightarrow> 'm) \<Rightarrow> byte list \<Rightarrow> nat \<Rightarrow> nat \<Rightarrow> 'm \<Rightarrow> ('m \<times> nat) res"
where
  "on_bytes field upd dAtA wireType i m =
     (if wireType \<noteq> 2 then Inl (ErrWrongWireType wireType field)
      else bindR (read_slice dAtA i) (\<lambda>(s, i). Inr (upd s m, i)))"

definition on_double :: "string \<Rightarrow> (u64 \<Rightarrow> 'm \<Rightarrow> 'm) \<Rightarrow> byte list \<Rightarrow> nat \<Rightarrow> nat \<Rightarrow> 'm \<Rightarrow> ('m \<times> nat) res"
where
  "on_double field upd dAtA wireType i m =
     (if wireType \<noteq> 1 then Inl (ErrWrongWireType wireType field)
      else bindR (read_double dAtA i) (\<lambda>(v, i). Inr (upd v m, i)))"

text \<open>
  A nested message behind a pointer is created when the pointer is nil and then merged into
  (\<open>on_ptr\<close>); an element of a repeated field or a oneof is always decoded afresh (\<open>on_new\<close>).
\<close>

definition on_ptr :: "string \<Rightarrow> ('m \<Rightarrow> 'x option) \<Rightarrow> ('x option \<Rightarrow> 'm \<Rightarrow> 'm) \<Rightarrow> 'x \<Rightarrow>
  ('x \<Rightarrow> byte list \<Rightarrow> 'x res) \<Rightarrow> byte list \<Rightarrow> nat \<Rightarrow> nat \<Rightarrow> 'm \<Rightarrow> ('m \<times> nat) res"
where
  "on_ptr field get upd zero unm dAtA wireType i m =
     (if wireType \<noteq> 2 then Inl (ErrWrongWireType wireType field)
      else bindR (read_slice dAtA i) (\<lambda>(s, i).
           bindR (unm (case get m of None \<Rightarrow> zero | Some x \<Rightarrow> x) s) (\<lambda>x. Inr (upd (Some x) m, i))))"

definition on_new :: "string \<Rightarrow> ('x \<Rightarrow> 'm \<Rightarrow> 'm) \<Rightarrow> 'x \<Rightarrow> ('x \<Rightarrow> byte list \<Rightarrow> 'x res) \<Rightarrow>
  byte list \<Rightarrow> nat \<Rightarrow> nat \<Rightarrow> 'm \<Rightarrow> ('m \<times> nat) res"
where
  "on_new field upd zero unm dAtA wireType i m =
     (if wireType \<noteq> 2 then Inl (ErrWrongWireType wireType field)
      else bindR (read_slice dAtA i) (\<lambda>(s, i). bindR (unm zero s) (\<lambda>x. Inr (upd x m, i))))"

text \<open>A whole switch: the cases by field number.\<close>

type_synonym 'm field_case = "byte list \<Rightarrow> nat \<Rightarrow> nat \<Rightarrow> 'm \<Rightarrow> ('m \<times> nat) res"

definition switch_on :: "(nat \<times> 'm field_case) list \<Rightarrow> 'm switch" where
  "switch_on cases dAtA fieldNum wireType i m =
     map_option (\<lambda>c. c dAtA wireType i m) (map_of cases fieldNum)"

section \<open>Doubles and timestamps\<close>

text \<open>
  A \<^verbatim>\<open>float64\<close> is its IEEE 754 bit pattern here; \<open>f64_nonzero\<close> is Go's comparison
  \<^verbatim>\<open>x != 0\<close>, false for both zeros.
\<close>

definition f64_nonzero :: "u64 \<Rightarrow> bool" where
  "f64_nonzero f = (f \<noteq> 0 \<and> f \<noteq> 0x8000000000000000)"

text \<open>
  \<^verbatim>\<open>types.Timestamp\<close> and its codec belong to \<^verbatim>\<open>github.com/gogo/protobuf\<close>, not to this
  repository: the struct's two fields are used directly, its three methods are a parameter of every
  definition that needs them.  \<open>ts_codec_ok\<close> states their documented behaviour: marshalling
  writes \<^verbatim>\<open>Size()\<close> bytes at the end of the buffer and unmarshalling them into a fresh
  timestamp gives the timestamp back.
\<close>

record Timestamp =
  ts_Seconds :: u64
  ts_Nanos :: u32

definition Timestamp_zero :: Timestamp where
  "Timestamp_zero = \<lparr>ts_Seconds = 0, ts_Nanos = 0\<rparr>"

record ts_codec =
  tsc_Size :: "Timestamp \<Rightarrow> nat"
  tsc_MarshalToSizedBuffer :: "Timestamp \<Rightarrow> marshaller"
  tsc_Unmarshal :: "Timestamp \<Rightarrow> byte list \<Rightarrow> Timestamp res"

text \<open>What a nil receiver does to a method that reads its fields.\<close>

definition nil_deref :: fault where
  "nil_deref = Panic ''invalid memory address or nil pointer dereference''"

end
