(* ===== verification/GoTime.thy ===== *)
theory GoTime
  imports GoFloat ProtoWire "HOL-Library.Signed_Division"
begin

text \<open>
  Go's \<^verbatim>\<open>time\<close> package as the program uses it, and \<^verbatim>\<open>internal/pbutil/timestamp.go\<close>.
  An instant is its number of nanoseconds since the Unix epoch (one clock: the monotonic reading
  \<^verbatim>\<open>time.Now\<close> also carries is taken to agree with it); a \<^verbatim>\<open>time.Duration\<close> is an
  \<^verbatim>\<open>int64\<close> number of nanoseconds, kept here as an integer in that range.
\<close>

type_synonym instant = int
type_synonym duration = int

definition time_Second :: duration where
  "time_Second = 10 ^ 9"

text \<open>The zero \<^verbatim>\<open>time.Time\<close>: the first instant of year 1.\<close>

definition time_zero :: instant where
  "time_zero = - (62135596800 * 10 ^ 9)"

definition min_int64 :: int where
  "min_int64 = - (2 ^ 63)"

definition max_int64 :: int where
  "max_int64 = 2 ^ 63 - 1"

definition int64_range :: "int \<Rightarrow> bool" where
  "int64_range i = (min_int64 \<le> i \<and> i \<le> max_int64)"

text \<open>\<^verbatim>\<open>t.Sub(u)\<close> saturates; \<^verbatim>\<open>t.After(u)\<close> and \<^verbatim>\<open>t.Add(d)\<close> are exact.\<close>

definition time_Sub :: "instant \<Rightarrow> instant \<Rightarrow> duration" where
  "time_Sub t u = max min_int64 (min max_int64 (t - u))"

definition time_After :: "instant \<Rightarrow> instant \<Rightarrow> bool" where
  "time_After t u = (u < t)"

definition time_Add :: "instant \<Rightarrow> duration \<Rightarrow> instant" where
  "time_Add t d = t + d"

text \<open>Division of two \<^verbatim>\<open>int64\<close>s: truncated, wrapping at the one overflow, panicking on zero.\<close>

definition int64_div :: "int \<Rightarrow> int \<Rightarrow> int res" where
  "int64_div a b =
     (if b = 0 then Inl (Panic ''integer divide by zero'') else Inr (wrap64 (a sdiv b)))"

text \<open>\<^verbatim>\<open>internal/pbutil/timestamp.go\<close>; the getters of a nil timestamp give 0.\<close>

definition TimeToTimestamp :: "instant \<Rightarrow> Timestamp option" where
  "TimeToTimestamp t =
     Some \<lparr>ts_Seconds = word_of_int (t div 10 ^ 9), ts_Nanos = word_of_int (t mod 10 ^ 9)\<rparr>"

definition TimestampToTime :: "Timestamp option \<Rightarrow> instant" where
  "TimestampToTime ts =
     (case ts of None \<Rightarrow> 0
      | Some ts \<Rightarrow> sint (ts_Seconds ts) * 10 ^ 9 + sint (ts_Nanos ts))"

definition NowTimestamp :: "instant \<Rightarrow> Timestamp option" where
  "NowTimestamp now = TimeToTimestamp now"

lemma int64_rangeI: "- (2 ^ 63) \<le> i \<Longrightarrow> i < 2 ^ 63 \<Longrightarrow> int64_range i"
  by (simp add: int64_range_def min_int64_def max_int64_def)

lemma int64_rangeD: "int64_range i \<Longrightarrow> - (2 ^ 63) \<le> i \<and> i < 2 ^ 63"
  by (simp add: int64_range_def min_int64_def max_int64_def)

lemma time_Sub_range: "int64_range (time_Sub t u)"
  by (simp add: int64_range_def time_Sub_def min_int64_def max_int64_def)

lemma time_Sub_exact: "int64_range (t - u) \<Longrightarrow> time_Sub t u = t - u"
  by (simp add: int64_range_def time_Sub_def)

lemma time_Sub_pos: "u < t \<Longrightarrow> 0 < time_Sub t u"
  by (simp add: time_Sub_def min_int64_def max_int64_def)

lemma time_Sub_ge: "int64_range d \<Longrightarrow> d \<le> t - u \<Longrightarrow> d \<le> time_Sub t u"
  by (simp add: int64_range_def time_Sub_def)

text \<open>Instants within the range of a timestamp's seconds survive the conversion both ways.\<close>

lemma TimestampToTime_TimeToTimestamp:
  assumes "int64_range (t div 10 ^ 9)"
  shows "TimestampToTime (TimeToTimestamp t) = t"
proof -
  have "sint (word_of_int (t div 10 ^ 9) :: u64) = t div 10 ^ 9"
    using wrap64_id [of "t div 10 ^ 9"] int64_rangeD [OF assms] by (simp add: wrap64_def)
  moreover have "sint (word_of_int (t mod 10 ^ 9) :: u32) = t mod 10 ^ 9"
  proof -
    have "t mod 10 ^ 9 < 2 ^ 31" "- (2 ^ 31) \<le> t mod 10 ^ 9"
      using pos_mod_bound [of "10 ^ 9" t] pos_mod_sign [of "10 ^ 9" t] by simp_all
    then show ?thesis by (simp add: signed_of_int signed_take_bit_int_eq_self)
  qed
  ultimately show ?thesis
    by (simp only: TimestampToTime_def TimeToTimestamp_def option.case Timestamp.select_convs div_mult_mod_eq)
qed

end
