(* ===== verification/TokenBucket.thy ===== *)
theory TokenBucket
  imports GoTime
begin

text \<open>
  The token bucket of \<^verbatim>\<open>internal/limit/token_bucket.go\<close>.  The bucket's struct is the record
  \<open>TokenBucket\<close>, without the mutex: every exported operation holds it from start to end, so an operation
  is one step.  The clock reading of \<^verbatim>\<open>time.Now()\<close> is the argument \<open>now\<close>, the
  implementation-specific part of float-to-integer conversion the argument \<open>cv\<close>.
\<close>

record TokenBucket =
  tb_rate :: u64
  tb_burst :: u32
  tb_tokenCount :: u64
  tb_fillPeriod :: duration
  tb_lastFilled :: instant
  tb_nextFill :: instant

definition TokenBucket_zero :: TokenBucket where
  "TokenBucket_zero = \<lparr>tb_rate = 0, tb_burst = 0, tb_tokenCount = 0, tb_fillPeriod = 0,
     tb_lastFilled = time_zero, tb_nextFill = time_zero\<rparr>"

definition NewTokenBucket :: "(u64 \<Rightarrow> int) \<Rightarrow> instant \<Rightarrow> u64 \<Rightarrow> u32 \<Rightarrow> TokenBucket res" where
  "NewTokenBucket cv now rate burst =
     bindR (int64_div time_Second (f64_to_int64 cv rate)) (\<lambda>fillPeriod.
       Inr \<lparr>tb_rate = rate, tb_burst = burst, tb_tokenCount = f64_of_int (uint burst),
            tb_fillPeriod = fillPeriod, tb_lastFilled = now, tb_nextFill = time_Add now fillPeriod\<rparr>)"

definition TokenBucket_fill :: "instant \<Rightarrow> TokenBucket \<Rightarrow> TokenBucket" where
  "TokenBucket_fill t b =
     (if time_After t (tb_nextFill b) then
        let burst = f64_of_int (uint (tb_burst b));
            newTokens = f64_div (f64_of_int (time_Sub t (tb_lastFilled b))) (f64_of_int (tb_fillPeriod b));
            tokenCount = (if f64_le (f64_add (tb_tokenCount b) newTokens) burst
                          then f64_add (tb_tokenCount b) newTokens else burst)
        in b\<lparr>tb_tokenCount := tokenCount, tb_lastFilled := t,
             tb_nextFill := time_Add t (tb_fillPeriod b)\<rparr>
      else b)"

definition TokenBucket_Allow :: "instant \<Rightarrow> u32 \<Rightarrow> TokenBucket \<Rightarrow> bool \<times> TokenBucket" where
  "TokenBucket_Allow t n b =
     (let b = TokenBucket_fill t b
      in if f64_less (tb_tokenCount b) (f64_of_int (uint n)) then (False, b)
         else (True, b\<lparr>tb_tokenCount := f64_sub (tb_tokenCount b) (f64_of_int (uint n))\<rparr>))"

definition TokenBucket_Take :: "(u64 \<Rightarrow> int) \<Rightarrow> instant \<Rightarrow> u32 \<Rightarrow> TokenBucket \<Rightarrow> duration \<times> TokenBucket" where
  "TokenBucket_Take cv t n b =
     (let b = TokenBucket_fill t b;
          b = b\<lparr>tb_tokenCount := f64_sub (tb_tokenCount b) (f64_of_int (uint n))\<rparr>
      in if f64_less (tb_tokenCount b) 0 then
           let low = f64_negate (f64_of_int (uint (tb_burst b)));
               b = (if f64_less (tb_tokenCount b) low then b\<lparr>tb_tokenCount := low\<rparr> else b)
           in (f64_to_int64 cv (f64_mul (f64_negate (tb_tokenCount b)) (f64_of_int (tb_fillPeriod b))), b)
         else (0, b))"

section \<open>Invariant\<close>

text \<open>
  The token count is a number between minus and plus \<open>burst\<close> (\<^verbatim>\<open>Take\<close> overdraws), the refill
  period is not negative, and the next refill is one period after the last.
\<close>

definition TokenBucket_inv :: "TokenBucket \<Rightarrow> bool" where
  "TokenBucket_inv b \<longleftrightarrow>
     f64_finite (tb_tokenCount b) \<and> \<bar>f64_val (tb_tokenCount b)\<bar> \<le> of_int (uint (tb_burst b)) \<and>
     0 \<le> tb_fillPeriod b \<and> tb_fillPeriod b < 2 ^ 53 \<and>
     tb_nextFill b = tb_lastFilled b + tb_fillPeriod b"

text \<open>The number of tokens, as a rational.\<close>

definition tokens :: "TokenBucket \<Rightarrow> rat" where
  "tokens b = f64_val (tb_tokenCount b)"

definition burst_of :: "TokenBucket \<Rightarrow> rat" where
  "burst_of b = of_int (uint (tb_burst b))"

lemma inv_tokens:
  assumes "TokenBucket_inv b"
  shows "f64_finite (tb_tokenCount b)" "- burst_of b \<le> tokens b" "tokens b \<le> burst_of b"
  using assms by (simp_all add: TokenBucket_inv_def tokens_def burst_of_def abs_le_iff)

lemma burst_of_bounds: "0 \<le> burst_of b" "burst_of b < 2 ^ 32"
proof -
  have "0 \<le> uint (tb_burst b)" by (rule unsigned_greater_eq)
  then show "0 \<le> burst_of b" by (simp only: burst_of_def of_int_0_le_iff)
  have "uint (tb_burst b) < 2 ^ 32" using unsigned_less [of "tb_burst b", where 'a = int] by simp
  then have "(of_int (uint (tb_burst b)) :: rat) < of_int (2 ^ 32)" by (simp only: of_int_less_iff)
  then show "burst_of b < 2 ^ 32" by (simp add: burst_of_def)
qed

lemma burst_representable: "representable (burst_of b)" "representable (- burst_of b)"
proof -
  show "representable (burst_of b)"
    unfolding burst_of_def
    using representable_val [OF f64_of_nat32(1) [of "tb_burst b"]] by simp
  then show "representable (- burst_of b)" by (rule representable_uminus)
qed

section \<open>Refilling\<close>

text \<open>
  What the new token count can be: the old one plus the new tokens, rounded, or the full burst; in both
  cases it stays between the old count and the burst, whatever float the division gives.
\<close>

lemma fill_tokens:
  assumes inv: "TokenBucket_inv b" and late: "tb_nextFill b < t"
  shows "f64_finite (tb_tokenCount (TokenBucket_fill t b))"
    and "tokens b \<le> tokens (TokenBucket_fill t b)"
    and "tokens (TokenBucket_fill t b) \<le> burst_of b"
proof -
  let ?burst = "f64_of_int (uint (tb_burst b))"
  let ?dt = "f64_of_int (time_Sub t (tb_lastFilled b))" and ?P = "f64_of_int (tb_fillPeriod b)"
  let ?new = "f64_div ?dt ?P"
  let ?sum = "f64_add (tb_tokenCount b) ?new"
  have fill: "tb_tokenCount (TokenBucket_fill t b) = (if f64_le ?sum ?burst then ?sum else ?burst)"
    using late by (simp add: TokenBucket_fill_def time_After_def Let_def)
  have fin: "f64_finite (tb_tokenCount b)" using inv by (rule inv_tokens)
  have pos: "0 < time_Sub t (tb_lastFilled b)"
    using inv late by (intro time_Sub_pos) (simp add: TokenBucket_inv_def)
  have fd: "f64_finite ?dt"
    using int64_rangeD [OF time_Sub_range] by (intro f64_of_int64) simp_all
  have fp: "f64_finite ?P" using inv by (intro f64_of_int64) (simp_all add: TokenBucket_inv_def)
  have new: "f64_nan ?new \<or> \<not> f64_neg ?new"
    using pos inv by (intro f64_div_not_neg fd fp f64_of_int_not_neg) (simp_all add: TokenBucket_inv_def)
  have le: "f64_finite (if f64_le ?sum ?burst then ?sum else ?burst) \<and>
      tokens b \<le> f64_val (if f64_le ?sum ?burst then ?sum else ?burst) \<and>
      f64_val (if f64_le ?sum ?burst then ?sum else ?burst) \<le> burst_of b"
  proof (cases "f64_le ?sum ?burst")
    case False
    then show ?thesis using inv_tokens [OF inv] by (simp add: burst_of_def)
  next
    case True
    then have fnew: "f64_finite ?new" using f64_add_not_le [OF fin f64_of_nat32(1) _ new] by blast
    then have n0: "0 \<le> f64_val ?new" using new f64_finite_not_nan f64_val_nonneg by blast
    have sum: "?sum = f64_round (f64_neg (tb_tokenCount b) \<and> f64_neg ?new) (tokens b + f64_val ?new)"
      by (simp add: f64_add_finite fin fnew tokens_def)
    have key: "f64_key (f64_round False (tokens b)) \<le> f64_key ?sum"
      unfolding sum by (rule f64_key_round_mono) (use n0 in simp)
    have burst: "f64_key ?sum \<le> f64_key ?burst" using True by (simp add: f64_le_def)
    have fr: "f64_finite (f64_round False (tokens b))" "f64_val (f64_round False (tokens b)) = tokens b"
      using f64_round_val [OF fin] f64_finite_round_val [OF fin] by (simp_all add: tokens_def)
    have "f64_finite ?sum"
      using key burst fr(1) f64_of_nat32(1) [of "tb_burst b"] unfolding f64_finite_def f64_key_def
      by (auto split: if_splits)
    moreover have "tokens b \<le> f64_val ?sum" "f64_val ?sum \<le> burst_of b"
      using key burst fr(2) by (simp_all add: f64_val_le_iff [symmetric] burst_of_def)
    ultimately show ?thesis using True by simp
  qed
  then show "f64_finite (tb_tokenCount (TokenBucket_fill t b))"
    "tokens b \<le> tokens (TokenBucket_fill t b)" "tokens (TokenBucket_fill t b) \<le> burst_of b"
    by (simp_all add: fill tokens_def)
qed

lemma fill_fields [simp]:
  "tb_burst (TokenBucket_fill t b) = tb_burst b" "tb_rate (TokenBucket_fill t b) = tb_rate b"
  "tb_fillPeriod (TokenBucket_fill t b) = tb_fillPeriod b"
  by (simp_all add: TokenBucket_fill_def Let_def)

lemma burst_of_cong: "tb_burst b = tb_burst b' \<Longrightarrow> burst_of b = burst_of b'"
  by (simp add: burst_of_def)

lemma fill_early: "\<not> tb_nextFill b < t \<Longrightarrow> TokenBucket_fill t b = b"
  by (simp add: TokenBucket_fill_def time_After_def)

lemma fill_times:
  assumes "tb_nextFill b < t"
  shows "tb_lastFilled (TokenBucket_fill t b) = t"
    and "tb_nextFill (TokenBucket_fill t b) = t + tb_fillPeriod b"
  using assms by (simp_all add: TokenBucket_fill_def time_After_def time_Add_def Let_def)

lemma inv_intro:
  assumes "f64_finite (tb_tokenCount b)" "- burst_of b \<le> tokens b" "tokens b \<le> burst_of b"
    and "0 \<le> tb_fillPeriod b" "tb_fillPeriod b < 2 ^ 53"
    and "tb_nextFill b = tb_lastFilled b + tb_fillPeriod b"
  shows "TokenBucket_inv b"
  using assms by (simp add: TokenBucket_inv_def tokens_def burst_of_def abs_le_iff)

lemma fill_inv:
  assumes "TokenBucket_inv b" shows "TokenBucket_inv (TokenBucket_fill t b)"
proof (cases "tb_nextFill b < t")
  case False
  with assms show ?thesis by (simp add: fill_early)
next
  case True
  have burst: "burst_of (TokenBucket_fill t b) = burst_of b" by (rule burst_of_cong) simp
  show ?thesis
  proof (rule inv_intro)
    show "- burst_of (TokenBucket_fill t b) \<le> tokens (TokenBucket_fill t b)"
      using inv_tokens(2) [OF assms] fill_tokens(2) [OF assms True] by (simp add: burst)
  qed (use fill_tokens [OF assms True] fill_times [OF True] assms in
        \<open>simp_all add: burst TokenBucket_inv_def\<close>)
qed

lemma fill_tokens_mono: "TokenBucket_inv b \<Longrightarrow> tokens b \<le> tokens (TokenBucket_fill t b)"
  using fill_tokens(2) [of b t] by (cases "tb_nextFill b < t") (simp_all add: fill_early)

section \<open>Allow\<close>

lemma Allow_cases:
  assumes inv: "TokenBucket_inv b"
  shows "fst (TokenBucket_Allow t n b) \<longleftrightarrow> of_int (uint n) \<le> tokens (TokenBucket_fill t b)"
    and "tokens (snd (TokenBucket_Allow t n b)) = tokens (TokenBucket_fill t b) -
           (if fst (TokenBucket_Allow t n b) then of_int (uint n) else 0)"
    and "TokenBucket_inv (snd (TokenBucket_Allow t n b))"
proof -
  let ?b = "TokenBucket_fill t b" and ?n = "f64_of_int (uint n)"
  have inv': "TokenBucket_inv ?b" using inv by (rule fill_inv)
  note bnd = inv_tokens [OF inv'] burst_of_bounds [of ?b]
  have less: "f64_less (tb_tokenCount ?b) ?n \<longleftrightarrow> tokens ?b < of_int (uint n)"
    by (simp add: f64_less_val bnd(1) tokens_def)
  show ok: "fst (TokenBucket_Allow t n b) \<longleftrightarrow> of_int (uint n) \<le> tokens ?b"
    by (auto simp: TokenBucket_Allow_def Let_def less)
  have n0: "0 \<le> uint n" by (rule unsigned_greater_eq)
  have exact: "f64_finite (f64_sub (tb_tokenCount ?b) ?n) \<and>
      f64_val (f64_sub (tb_tokenCount ?b) ?n) = tokens ?b - of_int (uint n)"
    if "of_int (uint n) \<le> tokens ?b"
  proof -
    have "tokens ?b < 2 ^ 53" using bnd(3,5) by simp
    with that have "representable (tokens ?b - of_int (uint n))"
      unfolding tokens_def by (intro representable_diff bnd(1) n0)
    from round_representable [OF this] show ?thesis
      by (simp add: f64_sub_finite bnd(1) tokens_def)
  qed
  show tok: "tokens (snd (TokenBucket_Allow t n b)) = tokens ?b -
      (if fst (TokenBucket_Allow t n b) then of_int (uint n) else 0)"
    using exact ok by (auto simp: TokenBucket_Allow_def Let_def tokens_def)
  show "TokenBucket_inv (snd (TokenBucket_Allow t n b))"
  proof (cases "fst (TokenBucket_Allow t n b)")
    case False
    then have "snd (TokenBucket_Allow t n b) = ?b" by (auto simp: TokenBucket_Allow_def Let_def split: if_splits)
    with inv' show ?thesis by simp
  next
    case True
    then have le: "of_int (uint n) \<le> tokens ?b" by (simp only: ok)
    have b': "snd (TokenBucket_Allow t n b) = ?b\<lparr>tb_tokenCount := f64_sub (tb_tokenCount ?b) ?n\<rparr>"
      using le less by (simp add: TokenBucket_Allow_def Let_def)
    have "burst_of (snd (TokenBucket_Allow t n b)) = burst_of ?b"
      by (rule burst_of_cong) (simp add: b')
    moreover have "0 \<le> (of_int (uint n) :: rat)" using n0 by (simp only: of_int_0_le_iff)
    ultimately show ?thesis
      using exact [OF le] inv' bnd tok True le
      by (intro inv_intro) (simp_all add: b' TokenBucket_inv_def)
  qed
qed

lemma Allow_fields [simp]:
  "tb_burst (snd (TokenBucket_Allow t n b)) = tb_burst b"
  "tb_fillPeriod (snd (TokenBucket_Allow t n b)) = tb_fillPeriod b"
  "tb_nextFill (snd (TokenBucket_Allow t n b)) = tb_nextFill (TokenBucket_fill t b)"
  "tb_lastFilled (snd (TokenBucket_Allow t n b)) = tb_lastFilled (TokenBucket_fill t b)"
  by (simp_all add: TokenBucket_Allow_def Let_def)

section \<open>How many tokens a refill adds\<close>

lemma f64_units_small: "1 / f64_units \<le> 1 / 2 ^ 60"
  by (simp add: f64_units_def)

lemma round_error60:
  assumes "f64_finite (f64_round z x)"
  shows "\<bar>f64_val (f64_round z x) - x\<bar> \<le> \<bar>x\<bar> / 2 ^ 53 + 1 / 2 ^ 60"
  by (rule order_trans [OF f64_round_error [OF assms] add_left_mono [OF f64_units_small]])

lemma err_compose:
  fixes a d q :: rat
  assumes "\<bar>a - d\<bar> \<le> d / 2 ^ 53 + 1 / 2 ^ 60" "\<bar>d - q\<bar> \<le> q / 2 ^ 52" "1 \<le> q"
  shows "\<bar>a - q\<bar> \<le> q / 2 ^ 50"
proof -
  have e: "(2 :: rat) ^ 53 = 9007199254740992" "(2 :: rat) ^ 60 = 1152921504606846976"
    "(2 :: rat) ^ 52 = 4503599627370496" "(2 :: rat) ^ 50 = 1125899906842624" by simp_all
  show ?thesis using assms unfolding e abs_le_iff by linarith
qed

lemma err_small:
  fixes a x :: rat
  assumes "\<bar>x\<bar> \<le> 2 ^ 34" "\<bar>a - x\<bar> \<le> \<bar>x\<bar> / 2 ^ 53 + 1 / 2 ^ 60"
  shows "\<bar>a - x\<bar> \<le> 17 / 2 ^ 23"
proof -
  have "\<bar>x\<bar> / 2 ^ 53 + 1 / 2 ^ 60 \<le> 17 / 2 ^ 23" using assms(1) by simp
  with assms(2) show ?thesis by (rule order_trans)
qed

lemma err_gain:
  fixes \<nu> \<sigma> q k :: rat
  assumes "\<bar>\<nu> - q\<bar> \<le> q / 2 ^ 50" "\<bar>\<sigma> - (k + \<nu>)\<bar> \<le> 17 / 2 ^ 23" "1 \<le> q"
  shows "k + \<nu> \<le> k + q * (1 + 1 / 2 ^ 18)" "\<sigma> \<le> k + q * (1 + 1 / 2 ^ 18)"
proof -
  have e: "(2 :: rat) ^ 18 = 262144" "(2 :: rat) ^ 23 = 8388608" "(2 :: rat) ^ 50 = 1125899906842624"
    by simp_all
  have "q * (1 + 1 / 262144) = q + q / 262144" by (simp add: distrib_left)
  then show "k + \<nu> \<le> k + q * (1 + 1 / 2 ^ 18)" "\<sigma> \<le> k + q * (1 + 1 / 2 ^ 18)"
    using assms unfolding e abs_le_iff by linarith+
qed

text \<open>The float quotient of elapsed time and period, compared with the exact one.\<close>

lemma new_tokens:
  assumes P: "0 < P" "P < 2 ^ 53" and D: "P \<le> D" "D < 2 ^ 63"
  defines "new \<equiv> f64_div (f64_of_int D) (f64_of_int P)"
  shows "f64_finite new" "0 \<le> f64_val new" "f64_val new \<le> 2 ^ 63"
    "\<bar>f64_val new - of_int D / of_int P\<bar> \<le> of_int D / of_int P / 2 ^ 50"
proof -
  let ?D = "of_int D :: rat" and ?P = "of_int P :: rat"
  let ?d = "f64_val (f64_of_int D)" and ?q = "?D / ?P"
  have P1: "1 \<le> ?P" and PD: "?P \<le> ?D" using P(1) D(1) by simp_all
  have fD: "f64_finite (f64_of_int D)" using P D by (intro f64_of_int64) simp_all
  have fP: "f64_finite (f64_of_int P)" "f64_val (f64_of_int P) = ?P"
    using f64_of_int_exact [of P] P by simp_all
  have d0: "0 \<le> ?d" using f64_of_int_ge [of 0 D] P D by simp
  have "?D \<le> (of_int (2 ^ 63) :: rat)" using D(2) by (simp only: of_int_le_iff)
  then have d63: "?d \<le> 2 ^ 63"
    using round_bounds(3) [OF representable_0 representable_exp63, of ?D] P D by (simp add: f64_of_int_def)
  have new: "new = f64_round (f64_neg (f64_of_int D) \<noteq> f64_neg (f64_of_int P)) (?d / ?P)"
    unfolding new_def using f64_div_finite [OF fD fP(1)] fP(2) P(1) by simp
  have q63: "?d / ?P \<le> 2 ^ 63"
    using d63 P1 d0 by (simp add: divide_le_eq)
  have q0: "0 \<le> ?d / ?P" using d0 P1 by simp
  show fin: "f64_finite new" and "0 \<le> f64_val new" and "f64_val new \<le> 2 ^ 63"
    unfolding new using round_bounds [OF representable_0 representable_exp63 q0 q63] by blast+
  have "\<bar>?d - ?D\<bar> \<le> ?D / 2 ^ 53 + 1 / 2 ^ 60"
    using round_error60 [of False ?D] fD P D by (simp add: f64_of_int_def)
  moreover have "1 \<le> ?D" using P1 PD by simp
  ultimately have d: "\<bar>?d - ?D\<bar> \<le> ?D / 2 ^ 52" by simp
  have "\<bar>?d / ?P - ?q\<bar> = \<bar>?d - ?D\<bar> / ?P"
    using P1 by (simp add: diff_divide_distrib [symmetric] abs_divide)
  also have "\<dots> \<le> ?D / 2 ^ 52 / ?P" using d P1 by (intro divide_right_mono) simp_all
  also have "\<dots> = ?q / 2 ^ 52" by simp
  finally have dq: "\<bar>?d / ?P - ?q\<bar> \<le> ?q / 2 ^ 52" .
  have "\<bar>f64_val new - ?d / ?P\<bar> \<le> ?d / ?P / 2 ^ 53 + 1 / 2 ^ 60"
    using round_error60 [of "f64_neg (f64_of_int D) \<noteq> f64_neg (f64_of_int P)" "?d / ?P"] fin q0
    unfolding new by (simp only: abs_of_nonneg [of "?d / ?P"])
  moreover have "1 \<le> ?q" using P1 PD by (simp add: le_divide_eq)
  ultimately show "\<bar>f64_val new - ?q\<bar> \<le> ?q / 2 ^ 50"
    by (intro err_compose [OF _ dq])
qed

lemma fill_real:
  assumes inv: "TokenBucket_inv b" and P: "0 < tb_fillPeriod b" and late: "tb_nextFill b < t"
  defines "q \<equiv> of_int (time_Sub t (tb_lastFilled b)) / (of_int (tb_fillPeriod b) :: rat)"
  obtains \<nu> \<sigma> where "tokens (TokenBucket_fill t b) = min \<sigma> (burst_of b)"
    "0 \<le> \<nu>" "\<bar>\<nu> - q\<bar> \<le> q / 2 ^ 50"
    "\<bar>\<sigma> - (tokens b + \<nu>)\<bar> \<le> \<bar>tokens b + \<nu>\<bar> / 2 ^ 53 + 1 / 2 ^ 60"
    "burst_of b \<le> tokens b + \<nu> \<Longrightarrow> burst_of b \<le> \<sigma>"
proof -
  let ?burst = "f64_of_int (uint (tb_burst b))"
  let ?new = "f64_div (f64_of_int (time_Sub t (tb_lastFilled b))) (f64_of_int (tb_fillPeriod b))"
  let ?sum = "f64_add (tb_tokenCount b) ?new"
  let ?x = "tokens b + f64_val ?new"
  have P53: "tb_fillPeriod b < 2 ^ 53" using inv by (simp add: TokenBucket_inv_def)
  have "tb_fillPeriod b \<le> time_Sub t (tb_lastFilled b)"
    using inv late P P53 by (intro time_Sub_ge int64_rangeI) (simp_all add: TokenBucket_inv_def)
  note new = new_tokens [OF P P53 this conjunct2 [OF int64_rangeD [OF time_Sub_range]]]
  have fin: "f64_finite (tb_tokenCount b)" using inv by (rule inv_tokens)
  have sum: "?sum = f64_round (f64_neg (tb_tokenCount b) \<and> f64_neg ?new) ?x"
    by (simp add: f64_add_finite fin new(1) tokens_def)
  have x: "- (2 ^ 64) \<le> ?x" "?x \<le> 2 ^ 64"
    using inv_tokens(2,3) [OF inv] burst_of_bounds [of b] new(2,3) by simp_all
  have fs: "f64_finite ?sum"
    unfolding sum by (rule round_bounds(1) [OF representable_uminus [OF representable_exp64] representable_exp64 x])
  have "tb_tokenCount (TokenBucket_fill t b) = (if f64_le ?sum ?burst then ?sum else ?burst)"
    using late by (simp add: TokenBucket_fill_def time_After_def Let_def)
  then have "tokens (TokenBucket_fill t b) = min (f64_val ?sum) (burst_of b)"
    by (simp add: tokens_def burst_of_def f64_le_val fs min_def)
  moreover have "\<bar>f64_val ?sum - ?x\<bar> \<le> \<bar>?x\<bar> / 2 ^ 53 + 1 / 2 ^ 60"
    using fs unfolding sum by (rule round_error60)
  moreover have "burst_of b \<le> f64_val ?sum" if "burst_of b \<le> ?x"
    unfolding sum by (rule round_bounds(2) [OF burst_representable(1) representable_exp64 that x(2)])
  ultimately show thesis
    using that [of "f64_val ?sum" "f64_val ?new"] new(2,4) [folded q_def] by blast
qed

text \<open>A refill adds at most the exact number of tokens for the elapsed time, up to four parts in a million.\<close>

lemma fill_gain:
  assumes inv: "TokenBucket_inv b" and P: "0 < tb_fillPeriod b" and late: "tb_nextFill b < t"
  shows "tokens (TokenBucket_fill t b) \<le> tokens b +
    of_int (t - tb_lastFilled b) / of_int (tb_fillPeriod b) * (1 + 1 / 2 ^ 18)"
proof -
  let ?D = "time_Sub t (tb_lastFilled b)" and ?P = "of_int (tb_fillPeriod b) :: rat"
  define q where "q = of_int ?D / ?P"
  obtain \<nu> \<sigma> where f: "tokens (TokenBucket_fill t b) = min \<sigma> (burst_of b)" "0 \<le> \<nu>" "\<bar>\<nu> - q\<bar> \<le> q / 2 ^ 50"
    "\<bar>\<sigma> - (tokens b + \<nu>)\<bar> \<le> \<bar>tokens b + \<nu>\<bar> / 2 ^ 53 + 1 / 2 ^ 60"
    unfolding q_def by (rule fill_real [OF inv P late]) blast
  have P1: "1 \<le> ?P" using P by simp
  have "tb_fillPeriod b \<le> ?D"
    using inv late P by (intro time_Sub_ge int64_rangeI) (simp_all add: TokenBucket_inv_def)
  then have q1: "1 \<le> q" unfolding q_def using P1 by (simp add: le_divide_eq)
  have "tokens (TokenBucket_fill t b) \<le> tokens b + q * (1 + 1 / 2 ^ 18)"
  proof (cases "tokens b + \<nu> \<le> 2 ^ 34")
    case True
    then have "\<bar>tokens b + \<nu>\<bar> \<le> 2 ^ 34"
      using f(2) inv_tokens(2) [OF inv] burst_of_bounds [of b] by simp
    from err_gain(2) [OF f(3) err_small [OF this f(4)] q1] show ?thesis by (simp only: f(1) min_le_iff_disj simp_thms)
  next
    case False
    then have "tokens (TokenBucket_fill t b) \<le> tokens b + \<nu>"
      using burst_of_bounds [of b] by (simp add: f(1))
    also have "\<dots> \<le> tokens b + q * (1 + 1 / 2 ^ 18)"
      by (rule err_gain(1) [OF f(3) _ q1, of "tokens b + \<nu>"]) simp
    finally show ?thesis .
  qed
  also have "q \<le> of_int (t - tb_lastFilled b) / ?P"
  proof -
    have "?D \<le> t - tb_lastFilled b"
      using inv late P by (simp add: time_Sub_def TokenBucket_inv_def max_def min_int64_def)
    then show ?thesis unfolding q_def using P1 by (intro divide_right_mono iffD2 [OF of_int_le_iff]) simp_all
  qed
  finally show ?thesis by simp
qed

text \<open>After twice the time the burst needs, a refill tops the bucket up, even from the deepest overdraft.\<close>

lemma err_lower:
  fixes \<nu> q m :: rat
  assumes "\<bar>\<nu> - q\<bar> \<le> q / 2 ^ 50" "m + 1 \<le> q" "0 \<le> m" "m \<le> 2 ^ 40"
  shows "m \<le> \<nu>"
proof -
  have e: "(2 :: rat) ^ 50 = 1125899906842624" "(2 :: rat) ^ 40 = 1099511627776" by simp_all
  show ?thesis using assms unfolding e abs_le_iff by linarith
qed

lemma fill_full:
  assumes inv: "TokenBucket_inv b" and P: "0 < tb_fillPeriod b"
    and late: "(2 * uint (tb_burst b) + 1) * tb_fillPeriod b \<le> t - tb_lastFilled b"
    and "tb_nextFill b < t" "int64_range ((2 * uint (tb_burst b) + 1) * tb_fillPeriod b)"
  shows "tokens (TokenBucket_fill t b) = burst_of b"
proof -
  let ?D = "time_Sub t (tb_lastFilled b)" and ?P = "of_int (tb_fillPeriod b) :: rat"
  define q where "q = of_int ?D / ?P"
  obtain \<nu> \<sigma> where f: "tokens (TokenBucket_fill t b) = min \<sigma> (burst_of b)" "\<bar>\<nu> - q\<bar> \<le> q / 2 ^ 50"
    "burst_of b \<le> tokens b + \<nu> \<Longrightarrow> burst_of b \<le> \<sigma>"
    unfolding q_def by (rule fill_real [OF inv P assms(4)]) blast
  have "(2 * uint (tb_burst b) + 1) * tb_fillPeriod b \<le> ?D"
    by (rule time_Sub_ge [OF assms(5) late])
  then have "of_int ((2 * uint (tb_burst b) + 1) * tb_fillPeriod b) \<le> (of_int ?D :: rat)"
    by (simp only: of_int_le_iff)
  then have "(2 * burst_of b + 1) * ?P \<le> of_int ?D" by (simp add: burst_of_def)
  moreover have "0 < ?P" using P by simp
  ultimately have "2 * burst_of b + 1 \<le> q" unfolding q_def by (simp add: le_divide_eq)
  then have "2 * burst_of b \<le> \<nu>"
    using burst_of_bounds [of b] by (intro err_lower [OF f(2)]) simp_all
  then have "burst_of b \<le> tokens b + \<nu>" using inv_tokens(2) [OF inv] by simp
  with f(1,3) show ?thesis by simp
qed

section \<open>Take\<close>

lemma Take_tokens:
  fixes n :: u32 and t :: instant and cv :: "u64 \<Rightarrow> int" and b :: TokenBucket
  assumes inv: "TokenBucket_inv b"
  defines "b1 \<equiv> TokenBucket_fill t b" and "b' \<equiv> snd (TokenBucket_Take cv t n b)"
  shows "TokenBucket_inv b'" "tokens b' \<le> tokens b1"
    "of_int (uint n) \<le> tokens b1 \<Longrightarrow> tokens b' = tokens b1 - of_int (uint n) \<and> fst (TokenBucket_Take cv t n b) = 0"
proof -
  let ?n = "f64_of_int (uint n)" and ?N = "of_int (uint n) :: rat"
  let ?c = "f64_sub (tb_tokenCount b1) ?n" and ?low = "f64_negate (f64_of_int (uint (tb_burst b)))"
  have inv1: "TokenBucket_inv b1" using inv unfolding b1_def by (rule fill_inv)
  have burst: "burst_of b1 = burst_of b" by (rule burst_of_cong) (simp add: b1_def)
  note bnd = inv_tokens [OF inv1, unfolded burst] burst_of_bounds [of b]
  have n: "0 \<le> ?N" "?N \<le> 2 ^ 32"
  proof -
    show "0 \<le> ?N" using unsigned_greater_eq [of n, where 'a = int] by (simp only: of_int_0_le_iff)
    have "uint n \<le> 2 ^ 32" using unsigned_less [of n, where 'a = int] by simp
    then have "?N \<le> of_int (2 ^ 32)" by (simp only: of_int_le_iff)
    then show "?N \<le> 2 ^ 32" by simp
  qed
  have c: "?c = f64_round (f64_neg (tb_tokenCount b1) \<and> f64_neg (f64_negate ?n)) (tokens b1 - ?N)"
    by (simp add: f64_sub_finite bnd(1) tokens_def)
  have lo: "- (2 ^ 64) \<le> tokens b1 - ?N" using bnd n by simp
  have hi: "tokens b1 - ?N \<le> tokens b1" using n by simp
  have rt: "representable (tokens b1)" using bnd(1) unfolding tokens_def by (rule representable_val)
  note rb = round_bounds [OF representable_uminus [OF representable_exp64] rt lo hi]
  have fc: "f64_finite ?c" and vc: "f64_val ?c \<le> tokens b1" unfolding c by (rule rb)+
  have b': "b' = b1\<lparr>tb_tokenCount := (if f64_val ?c < 0 \<and> f64_val ?c < - burst_of b then ?low else ?c)\<rparr>"
    unfolding b'_def
    by (simp add: TokenBucket_Take_def Let_def b1_def [symmetric] f64_less_val fc burst_of_def
        f64_finite_def [of 0] f64_mag_def f64_inf_mag_def)
      (simp add: b1_def)
  show "tokens b' \<le> tokens b1" unfolding b' tokens_def
    using vc bnd(2,4) by (simp add: tokens_def burst_of_def)
  show "TokenBucket_inv b'"
    unfolding b' using inv1 bnd vc fc burst_of_bounds [of b]
    by (auto simp: TokenBucket_inv_def tokens_def burst_of_def b1_def abs_le_iff not_less)
  assume le: "?N \<le> tokens b1"
  have "tokens b1 < 2 ^ 53" using bnd(3,5) by simp
  with le have rep: "representable (tokens b1 - ?N)"
    using unsigned_greater_eq [of n] unfolding tokens_def by (intro representable_diff bnd(1))
  have ex: "f64_val ?c = tokens b1 - ?N" unfolding c by (rule round_representable(2) [OF rep])
  with le have "\<not> f64_less ?c 0"
    by (simp add: f64_less_val fc f64_finite_def [of 0] f64_mag_def f64_inf_mag_def)
  then show "tokens b' = tokens b1 - ?N \<and> fst (TokenBucket_Take cv t n b) = 0"
    using ex by (simp add: b'_def TokenBucket_Take_def Let_def b1_def [symmetric] tokens_def)
qed

section \<open>Request sequences\<close>

text \<open>
  A run of the bucket over a list of \<^verbatim>\<open>Allow\<close> calls, in the order they take the lock: the
  number of events admitted and the bucket afterwards.
\<close>

fun TokenBucket_run :: "(instant \<times> u32) list \<Rightarrow> TokenBucket \<Rightarrow> int \<times> TokenBucket" where
  "TokenBucket_run [] b = (0, b)"
| "TokenBucket_run ((t, n) # rs) b =
     (let (ok, b') = TokenBucket_Allow t n b; (k, b'') = TokenBucket_run rs b'
      in ((if ok then uint n else 0) + k, b''))"

lemma run_Cons:
  "fst (TokenBucket_run ((t, n) # rs) b) = (if fst (TokenBucket_Allow t n b) then uint n else 0) +
      fst (TokenBucket_run rs (snd (TokenBucket_Allow t n b)))"
  "snd (TokenBucket_run ((t, n) # rs) b) = snd (TokenBucket_run rs (snd (TokenBucket_Allow t n b)))"
  by (simp_all add: Let_def split: prod.split)

declare TokenBucket_run.simps(2) [simp del]

lemma run_Cons_rat:
  "(of_int (fst (TokenBucket_run ((t, n) # rs) b)) :: rat) =
     (if fst (TokenBucket_Allow t n b) then of_int (uint n) else 0) +
     of_int (fst (TokenBucket_run rs (snd (TokenBucket_Allow t n b))))"
  by (simp only: run_Cons of_int_add if_distrib [of of_int] of_int_0)

lemma run_inv: "TokenBucket_inv b \<Longrightarrow> TokenBucket_inv (snd (TokenBucket_run rs b))"
proof (induction rs arbitrary: b)
  case Nil
  then show ?case by simp
next
  case (Cons r rs)
  then show ?case by (cases r) (simp add: run_Cons Allow_cases(3))
qed

text \<open>Without a refill the bucket is an exact counter.\<close>

lemma run_exact:
  assumes "TokenBucket_inv b" "\<forall>(t, n) \<in> set rs. t \<le> tb_nextFill b"
  shows "of_int (fst (TokenBucket_run rs b)) + tokens (snd (TokenBucket_run rs b)) = tokens b"
  using assms
proof (induction rs arbitrary: b)
  case Nil
  then show ?case by simp
next
  case (Cons r rs)
  obtain t n where r: "r = (t, n)" by (cases r)
  have early: "TokenBucket_fill t b = b" using Cons.prems(2) r by (simp add: fill_early)
  let ?b = "snd (TokenBucket_Allow t n b)"
  have "of_int (fst (TokenBucket_run rs ?b)) + tokens (snd (TokenBucket_run rs ?b)) = tokens ?b"
    using Cons.prems r by (intro Cons.IH) (auto simp: Allow_cases(3) early)
  then show ?case
    using Allow_cases(2) [OF Cons.prems(1), of t n] unfolding r run_Cons_rat run_Cons(2) early by linarith
qed

text \<open>
  In general: what is admitted and what is left never exceed what was there plus one token per period,
  with the float error of the refills.
\<close>

lemma run_rate:
  assumes "TokenBucket_inv b" "0 < tb_fillPeriod b" "tb_lastFilled b \<le> T" "\<forall>(t, n) \<in> set rs. t \<le> T"
  shows "of_int (fst (TokenBucket_run rs b)) + tokens (snd (TokenBucket_run rs b))
    \<le> tokens b + of_int (T - tb_lastFilled b) / of_int (tb_fillPeriod b) * (1 + 1 / 2 ^ 18)"
  using assms
proof (induction rs arbitrary: b)
  case Nil
  then show ?case by (simp add: zero_le_divide_iff)
next
  case (Cons r rs)
  obtain t n where r: "r = (t, n)" by (cases r)
  let ?b = "snd (TokenBucket_Allow t n b)" and ?P = "of_int (tb_fillPeriod b) :: rat"
  let ?k = "1 + 1 / 2 ^ 18 :: rat"
  have tT: "t \<le> T" using Cons.prems(4) r by simp
  have last: "tb_lastFilled (TokenBucket_fill t b) \<le> T"
    using tT Cons.prems(3) fill_times(1) [of b t] by (cases "tb_nextFill b < t") (simp_all add: fill_early)
  have IH: "of_int (fst (TokenBucket_run rs ?b)) + tokens (snd (TokenBucket_run rs ?b))
      \<le> tokens ?b + of_int (T - tb_lastFilled (TokenBucket_fill t b)) / ?P * ?k"
    using Cons.IH [of ?b] Cons.prems r last by (simp add: Allow_cases(3))
  have gain: "tokens (TokenBucket_fill t b) \<le> tokens b + of_int (tb_lastFilled (TokenBucket_fill t b) - tb_lastFilled b) / ?P * ?k"
  proof (cases "tb_nextFill b < t")
    case True
    with fill_gain [OF Cons.prems(1,2) True] show ?thesis by (simp only: fill_times(1))
  next
    case False
    then show ?thesis by (simp add: fill_early)
  qed
  have "of_int (T - tb_lastFilled (TokenBucket_fill t b)) / ?P * ?k +
      of_int (tb_lastFilled (TokenBucket_fill t b) - tb_lastFilled b) / ?P * ?k
      = of_int (T - tb_lastFilled b) / ?P * ?k"
    by (simp only: distrib_right [symmetric] add_divide_distrib [symmetric] of_int_add [symmetric]) simp
  with IH gain Allow_cases(2) [OF Cons.prems(1), of t n] show ?case
    unfolding r run_Cons_rat run_Cons(2) by linarith
qed

end
