(* ===== verification/ApiMessages.thy ===== *)
theory ApiMessages
  imports ProtoWire
begin

text \<open>
  The messages of \<^verbatim>\<open>proto/ratecat_api_v1.pb.go\<close>: for each one its struct as a record, its
  zero value (what \<^verbatim>\<open>Reset\<close> stores), \<^verbatim>\<open>Size\<close>, \<^verbatim>\<open>MarshalToSizedBuffer\<close>,
  \<^verbatim>\<open>Marshal\<close>, the switch of \<^verbatim>\<open>Unmarshal\<close> and \<^verbatim>\<open>Unmarshal\<close> itself, with
  the code's tags, field order and nil checks.  A method with a pointer receiver takes an option:
  \<^verbatim>\<open>Size\<close> of nil is 0, marshalling nil dereferences it.
\<close>

section \<open>Enumerations\<close>

text \<open>A protobuf enumeration is an \<^verbatim>\<open>int32\<close>: a decoded value need not be a named one.\<close>

type_synonym ErrorCode = u32
type_synonym LimiterType = u32

abbreviation (input) ErrorCode_OK :: ErrorCode where "ErrorCode_OK \<equiv> 0"
abbreviation (input) ErrorCode_Unknown :: ErrorCode where "ErrorCode_Unknown \<equiv> 1"
abbreviation (input) ErrorCode_NotFound :: ErrorCode where "ErrorCode_NotFound \<equiv> 2"
abbreviation (input) ErrorCode_AlreadyExists :: ErrorCode where "ErrorCode_AlreadyExists \<equiv> 3"
abbreviation (input) ErrorCode_OutOfRange :: ErrorCode where "ErrorCode_OutOfRange \<equiv> 4"
abbreviation (input) ErrorCode_IncompletePacket :: ErrorCode where "ErrorCode_IncompletePacket \<equiv> 32"
abbreviation (input) ErrorCode_InvalidMsg :: ErrorCode where "ErrorCode_InvalidMsg \<equiv> 33"
abbreviation (input) ErrorCode_InvalidMagicNum :: ErrorCode where "ErrorCode_InvalidMagicNum \<equiv> 34"
abbreviation (input) ErrorCode_InvalidLimiter :: ErrorCode where "ErrorCode_InvalidLimiter \<equiv> 35"
abbreviation (input) ErrorCode_EncodeFail :: ErrorCode where "ErrorCode_EncodeFail \<equiv> 36"
abbreviation (input) ErrorCode_DecodeFail :: ErrorCode where "ErrorCode_DecodeFail \<equiv> 38"
abbreviation (input) ErrorCode_ProcessFail :: ErrorCode where "ErrorCode_ProcessFail \<equiv> 64"
abbreviation (input) ErrorCode_ForwardFail :: ErrorCode where "ErrorCode_ForwardFail \<equiv> 65"

abbreviation (input) LimiterType_Null :: LimiterType where "LimiterType_Null \<equiv> 0"
abbreviation (input) LimiterType_TokenBucket :: LimiterType where "LimiterType_TokenBucket \<equiv> 1"
abbreviation (input) LimiterType_LeakyBucket :: LimiterType where "LimiterType_LeakyBucket \<equiv> 2"

definition ErrorCode_name :: "(int \<times> string) list" where
  "ErrorCode_name =
     [(0, ''OK''), (1, ''Unknown''), (2, ''NotFound''), (3, ''AlreadyExists''), (4, ''OutOfRange''), (32, ''IncompletePacket''), (33, ''InvalidMsg''),
      (34, ''InvalidMagicNum''), (35, ''InvalidLimiter''), (36, ''EncodeFail''), (38, ''DecodeFail''), (64, ''ProcessFail''), (65, ''ForwardFail'')]"

definition ErrorCode_String :: "ErrorCode \<Rightarrow> string" where
  "ErrorCode_String x =
     (case map_of ErrorCode_name (sint x) of Some s \<Rightarrow> s | None \<Rightarrow> show_int (sint x))"

definition LimiterType_name :: "(int \<times> string) list" where
  "LimiterType_name = [(0, ''Null''), (1, ''TokenBucket''), (2, ''LeakyBucket'')]"

definition LimiterType_String :: "LimiterType \<Rightarrow> string" where
  "LimiterType_String x =
     (case map_of LimiterType_name (sint x) of Some s \<Rightarrow> s | None \<Rightarrow> show_int (sint x))"

section \<open>Messages\<close>

record CmdError =
  ce_Code :: "ErrorCode"
  ce_Msg :: "string"

definition CmdError_zero :: CmdError where
  "CmdError_zero = \<lparr>ce_Code = 0, ce_Msg = []\<rparr>"

fun CmdError_Size :: "ts_codec \<Rightarrow> CmdError option \<Rightarrow> nat" where
  "CmdError_Size T None = 0"
| "CmdError_Size T (Some m) =
       (if ce_Code m \<noteq> 0 then 1 + sovRatecatApiV1 (scast (ce_Code m)) else 0)
     + (let l = length (ce_Msg m) in if 0 < l then 1 + l + sovRatecatApiV1 (word_of_nat l) else 0)"

fun CmdError_MarshalToSizedBuffer :: "ts_codec \<Rightarrow> CmdError option \<Rightarrow> marshaller" where
  "CmdError_MarshalToSizedBuffer T None dAtA = Inl nil_deref"
| "CmdError_MarshalToSizedBuffer T (Some m) dAtA =
     marshal_to_sized
       [whenW (0 < length (ce_Msg m)) (put_bytes 0x12 (bytes_of (ce_Msg m))),
        whenW (ce_Code m \<noteq> 0) (put_varint 0x8 (scast (ce_Code m)))] dAtA"

definition CmdError_Marshal :: "ts_codec \<Rightarrow> CmdError option \<Rightarrow> byte list res" where
  "CmdError_Marshal T p = marshal_with (CmdError_Size T p) (CmdError_MarshalToSizedBuffer T p)"

definition CmdError_switch :: "ts_codec \<Rightarrow> CmdError switch" where
  "CmdError_switch T = switch_on
     [(1, on_varint ''Code'' (\<lambda>v m. m\<lparr>ce_Code := v\<rparr>)),
      (2, on_bytes ''Msg'' (\<lambda>s m. m\<lparr>ce_Msg := string_of s\<rparr>))]"

definition CmdError_Unmarshal :: "ts_codec \<Rightarrow> CmdError \<Rightarrow> byte list \<Rightarrow> CmdError res" where
  "CmdError_Unmarshal T = unmarshal_with ''CmdError'' (CmdError_switch T)"

record CmdHeader =
  ch_Cmd :: "string"

definition CmdHeader_zero :: CmdHeader where
  "CmdHeader_zero = \<lparr>ch_Cmd = []\<rparr>"

fun CmdHeader_Size :: "ts_codec \<Rightarrow> CmdHeader option \<Rightarrow> nat" where
  "CmdHeader_Size T None = 0"
| "CmdHeader_Size T (Some m) =
       (let l = length (ch_Cmd m) in if 0 < l then 1 + l + sovRatecatApiV1 (word_of_nat l) else 0)"

fun CmdHeader_MarshalToSizedBuffer :: "ts_codec \<Rightarrow> CmdHeader option \<Rightarrow> marshaller" where
  "CmdHeader_MarshalToSizedBuffer T None dAtA = Inl nil_deref"
| "CmdHeader_MarshalToSizedBuffer T (Some m) dAtA =
     marshal_to_sized
       [whenW (0 < length (ch_Cmd m)) (put_bytes 0xa (bytes_of (ch_Cmd m)))] dAtA"

definition CmdHeader_Marshal :: "ts_codec \<Rightarrow> CmdHeader option \<Rightarrow> byte list res" where
  "CmdHeader_Marshal T p = marshal_with (CmdHeader_Size T p) (CmdHeader_MarshalToSizedBuffer T p)"

definition CmdHeader_switch :: "ts_codec \<Rightarrow> CmdHeader switch" where
  "CmdHeader_switch T = switch_on
     [(1, on_bytes ''Cmd'' (\<lambda>s m. m\<lparr>ch_Cmd := string_of s\<rparr>))]"

definition CmdHeader_Unmarshal :: "ts_codec \<Rightarrow> CmdHeader \<Rightarrow> byte list \<Rightarrow> CmdHeader res" where
  "CmdHeader_Unmarshal T = unmarshal_with ''CmdHeader'' (CmdHeader_switch T)"

record NodeInfo =
  ni_Id :: "u32"
  ni_Name :: "string"
  ni_ApiEndpoint :: "string"
  ni_GrpcEndpoint :: "string"
  ni_Type :: "string"
  ni_Leader :: "bool"
  ni_Active :: "bool"
  ni_ActiveSince :: "Timestamp option"

definition NodeInfo_zero :: NodeInfo where
  "NodeInfo_zero = \<lparr>ni_Id = 0, ni_Name = [], ni_ApiEndpoint = [], ni_GrpcEndpoint = [], ni_Type = [], ni_Leader = False, ni_Active = False, ni_ActiveSince = None\<rparr>"

fun NodeInfo_Size :: "ts_codec \<Rightarrow> NodeInfo option \<Rightarrow> nat" where
  "NodeInfo_Size T None = 0"
| "NodeInfo_Size T (Some m) =
       (if ni_Id m \<noteq> 0 then 1 + sovRatecatApiV1 (ucast (ni_Id m)) else 0)
     + (let l = length (ni_Name m) in if 0 < l then 1 + l + sovRatecatApiV1 (word_of_nat l) else 0)
     + (let l = length (ni_ApiEndpoint m) in if 0 < l then 1 + l + sovRatecatApiV1 (word_of_nat l) else 0)
     + (let l = length (ni_GrpcEndpoint m) in if 0 < l then 1 + l + sovRatecatApiV1 (word_of_nat l) else 0)
     + (let l = length (ni_Type m) in if 0 < l then 1 + l + sovRatecatApiV1 (word_of_nat l) else 0)
     + (if ni_Leader m then 2 else 0)
     + (if ni_Active m then 2 else 0)
     + (case ni_ActiveSince m of None \<Rightarrow> 0
        | Some t \<Rightarrow> let l = tsc_Size T t in 1 + l + sovRatecatApiV1 (word_of_nat l))"

fun NodeInfo_MarshalToSizedBuffer :: "ts_codec \<Rightarrow> NodeInfo option \<Rightarrow> marshaller" where
  "NodeInfo_MarshalToSizedBuffer T None dAtA = Inl nil_deref"
| "NodeInfo_MarshalToSizedBuffer T (Some m) dAtA =
     marshal_to_sized
       [whenW (ni_ActiveSince m \<noteq> None)
          (put_msg 0x42 (tsc_MarshalToSizedBuffer T (the (ni_ActiveSince m)))),
        whenW (ni_Active m) (put_bool 0x38 (ni_Active m)),
        whenW (ni_Leader m) (put_bool 0x30 (ni_Leader m)),
        whenW (0 < length (ni_Type m)) (put_bytes 0x2a (bytes_of (ni_Type m))),
        whenW (0 < length (ni_GrpcEndpoint m)) (put_bytes 0x22 (bytes_of (ni_GrpcEndpoint m))),
        whenW (0 < length (ni_ApiEndpoint m)) (put_bytes 0x1a (bytes_of (ni_ApiEndpoint m))),
        whenW (0 < length (ni_Name m)) (put_bytes 0x12 (bytes_of (ni_Name m))),
        whenW (ni_Id m \<noteq> 0) (put_varint 0x8 (ucast (ni_Id m)))] dAtA"

definition NodeInfo_Marshal :: "ts_codec \<Rightarrow> NodeInfo option \<Rightarrow> byte list res" where
  "NodeInfo_Marshal T p = marshal_with (NodeInfo_Size T p) (NodeInfo_MarshalToSizedBuffer T p)"

definition NodeInfo_switch :: "ts_codec \<Rightarrow> NodeInfo switch" where
  "NodeInfo_switch T = switch_on
     [(1, on_varint ''Id'' (\<lambda>v m. m\<lparr>ni_Id := v\<rparr>)),
      (2, on_bytes ''Name'' (\<lambda>s m. m\<lparr>ni_Name := string_of s\<rparr>)),
      (3, on_bytes ''ApiEndpoint'' (\<lambda>s m. m\<lparr>ni_ApiEndpoint := string_of s\<rparr>)),
      (4, on_bytes ''GrpcEndpoint'' (\<lambda>s m. m\<lparr>ni_GrpcEndpoint := string_of s\<rparr>)),
      (5, on_bytes ''Type'' (\<lambda>s m. m\<lparr>ni_Type := string_of s\<rparr>)),
      (6, on_varint ''Leader'' (\<lambda>(v :: u64) m. m\<lparr>ni_Leader := v \<noteq> 0\<rparr>)),
      (7, on_varint ''Active'' (\<lambda>(v :: u64) m. m\<lparr>ni_Active := v \<noteq> 0\<rparr>)),
      (8, on_ptr ''ActiveSince'' ni_ActiveSince (\<lambda>p m. m\<lparr>ni_ActiveSince := p\<rparr>) Timestamp_zero (tsc_Unmarshal T))]"

definition NodeInfo_Unmarshal :: "ts_codec \<Rightarrow> NodeInfo \<Rightarrow> byte list \<Rightarrow> NodeInfo res" where
  "NodeInfo_Unmarshal T = unmarshal_with ''NodeInfo'' (NodeInfo_switch T)"

record MeowCmdResp =
  mr_NodeId :: "u32"
  mr_Nodes :: "NodeInfo option list"

definition MeowCmdResp_zero :: MeowCmdResp where
  "MeowCmdResp_zero = \<lparr>mr_NodeId = 0, mr_Nodes = []\<rparr>"

fun MeowCmdResp_Size :: "ts_codec \<Rightarrow> MeowCmdResp option \<Rightarrow> nat" where
  "MeowCmdResp_Size T None = 0"
| "MeowCmdResp_Size T (Some m) =
       (if mr_NodeId m \<noteq> 0 then 1 + sovRatecatApiV1 (ucast (mr_NodeId m)) else 0)
     + sum_list (map (\<lambda>e. let l = NodeInfo_Size T e in 1 + l + sovRatecatApiV1 (word_of_nat l)) (mr_Nodes m))"

fun MeowCmdResp_MarshalToSizedBuffer :: "ts_codec \<Rightarrow> MeowCmdResp option \<Rightarrow> marshaller" where
  "MeowCmdResp_MarshalToSizedBuffer T None dAtA = Inl nil_deref"
| "MeowCmdResp_MarshalToSizedBuffer T (Some m) dAtA =
     marshal_to_sized
       (map (\<lambda>e. put_msg 0x12 (NodeInfo_MarshalToSizedBuffer T e)) (rev (mr_Nodes m)) @
       [whenW (mr_NodeId m \<noteq> 0) (put_varint 0x8 (ucast (mr_NodeId m)))]) dAtA"

definition MeowCmdResp_Marshal :: "ts_codec \<Rightarrow> MeowCmdResp option \<Rightarrow> byte list res" where
  "MeowCmdResp_Marshal T p = marshal_with (MeowCmdResp_Size T p) (MeowCmdResp_MarshalToSizedBuffer T p)"

definition MeowCmdResp_switch :: "ts_codec \<Rightarrow> MeowCmdResp switch" where
  "MeowCmdResp_switch T = switch_on
     [(1, on_varint ''NodeId'' (\<lambda>v m. m\<lparr>mr_NodeId := v\<rparr>)),
      (2, on_new ''Nodes'' (\<lambda>e m. m\<lparr>mr_Nodes := mr_Nodes m @ [Some e]\<rparr>) NodeInfo_zero (NodeInfo_Unmarshal T))]"

definition MeowCmdResp_Unmarshal :: "ts_codec \<Rightarrow> MeowCmdResp \<Rightarrow> byte list \<Rightarrow> MeowCmdResp res" where
  "MeowCmdResp_Unmarshal T = unmarshal_with ''MeowCmdResp'' (MeowCmdResp_switch T)"

record AllowCmd =
  ac_Resource :: "string"
  ac_Events :: "u32"

definition AllowCmd_zero :: AllowCmd where
  "AllowCmd_zero = \<lparr>ac_Resource = [], ac_Events = 0\<rparr>"

fun AllowCmd_Size :: "ts_codec \<Rightarrow> AllowCmd option \<Rightarrow> nat" where
  "AllowCmd_Size T None = 0"
| "AllowCmd_Size T (Some m) =
       (let l = length (ac_Resource m) in if 0 < l then 1 + l + sovRatecatApiV1 (word_of_nat l) else 0)
     + (if ac_Events m \<noteq> 0 then 1 + sovRatecatApiV1 (ucast (ac_Events m)) else 0)"

fun AllowCmd_MarshalToSizedBuffer :: "ts_codec \<Rightarrow> AllowCmd option \<Rightarrow> marshaller" where
  "AllowCmd_MarshalToSizedBuffer T None dAtA = Inl nil_deref"
| "AllowCmd_MarshalToSizedBuffer T (Some m) dAtA =
     marshal_to_sized
       [whenW (ac_Events m \<noteq> 0) (put_varint 0x10 (ucast (ac_Events m))),
        whenW (0 < length (ac_Resource m)) (put_bytes 0xa (bytes_of (ac_Resource m)))] dAtA"

definition AllowCmd_Marshal :: "ts_codec \<Rightarrow> AllowCmd option \<Rightarrow> byte list res" where
  "AllowCmd_Marshal T p = marshal_with (AllowCmd_Size T p) (AllowCmd_MarshalToSizedBuffer T p)"

definition AllowCmd_switch :: "ts_codec \<Rightarrow> AllowCmd switch" where
  "AllowCmd_switch T = switch_on
     [(1, on_bytes ''Resource'' (\<lambda>s m. m\<lparr>ac_Resource := string_of s\<rparr>)),
      (2, on_varint ''Events'' (\<lambda>v m. m\<lparr>ac_Events := v\<rparr>))]"

definition AllowCmd_Unmarshal :: "ts_codec \<Rightarrow> AllowCmd \<Rightarrow> byte list \<Rightarrow> AllowCmd res" where
  "AllowCmd_Unmarshal T = unmarshal_with ''AllowCmd'' (AllowCmd_switch T)"

record AllowCmdResp =
  ar_Redirected :: "bool"
  ar_NodeId :: "u32"
  ar_Ok :: "bool"

definition AllowCmdResp_zero :: AllowCmdResp where
  "AllowCmdResp_zero = \<lparr>ar_Redirected = False, ar_NodeId = 0, ar_Ok = False\<rparr>"

fun AllowCmdResp_Size :: "ts_codec \<Rightarrow> AllowCmdResp option \<Rightarrow> nat" where
  "AllowCmdResp_Size T None = 0"
| "AllowCmdResp_Size T (Some m) =
       (if ar_Redirected m then 2 else 0)
     + (if ar_NodeId m \<noteq> 0 then 1 + sovRatecatApiV1 (ucast (ar_NodeId m)) else 0)
     + (if ar_Ok m then 2 else 0)"

fun AllowCmdResp_MarshalToSizedBuffer :: "ts_codec \<Rightarrow> AllowCmdResp option \<Rightarrow> marshaller" where
  "AllowCmdResp_MarshalToSizedBuffer T None dAtA = Inl nil_deref"
| "AllowCmdResp_MarshalToSizedBuffer T (Some m) dAtA =
     marshal_to_sized
       [whenW (ar_Ok m) (put_bool 0x18 (ar_Ok m)),
        whenW (ar_NodeId m \<noteq> 0) (put_varint 0x10 (ucast (ar_NodeId m))),
        whenW (ar_Redirected m) (put_bool 0x8 (ar_Redirected m))] dAtA"

definition AllowCmdResp_Marshal :: "ts_codec \<Rightarrow> AllowCmdResp option \<Rightarrow> byte list res" where
  "AllowCmdResp_Marshal T p = marshal_with (AllowCmdResp_Size T p) (AllowCmdResp_MarshalToSizedBuffer T p)"

definition AllowCmdResp_switch :: "ts_codec \<Rightarrow> AllowCmdResp switch" where
  "AllowCmdResp_switch T = switch_on
     [(1, on_varint ''Redirected'' (\<lambda>(v :: u64) m. m\<lparr>ar_Redirected := v \<noteq> 0\<rparr>)),
      (2, on_varint ''NodeId'' (\<lambda>v m. m\<lparr>ar_NodeId := v\<rparr>)),
      (3, on_varint ''Ok'' (\<lambda>(v :: u64) m. m\<lparr>ar_Ok := v \<noteq> 0\<rparr>))]"

definition AllowCmdResp_Unmarshal :: "ts_codec \<Rightarrow> AllowCmdResp \<Rightarrow> byte list \<Rightarrow> AllowCmdResp res" where
  "AllowCmdResp_Unmarshal T = unmarshal_with ''AllowCmdResp'' (AllowCmdResp_switch T)"

record TokenBucketParam =
  tp_Rate :: "u64"
  tp_Burst :: "u32"

definition TokenBucketParam_zero :: TokenBucketParam where
  "TokenBucketParam_zero = \<lparr>tp_Rate = 0, tp_Burst = 0\<rparr>"

fun TokenBucketParam_Size :: "ts_codec \<Rightarrow> TokenBucketParam option \<Rightarrow> nat" where
  "TokenBucketParam_Size T None = 0"
| "TokenBucketParam_Size T (Some m) =
       (if f64_nonzero (tp_Rate m) then 9 else 0)
     + (if tp_Burst m \<noteq> 0 then 1 + sovRatecatApiV1 (ucast (tp_Burst m)) else 0)"

fun TokenBucketParam_MarshalToSizedBuffer :: "ts_codec \<Rightarrow> TokenBucketParam option \<Rightarrow> marshaller" where
  "TokenBucketParam_MarshalToSizedBuffer T None dAtA = Inl nil_deref"
| "TokenBucketParam_MarshalToSizedBuffer T (Some m) dAtA =
     marshal_to_sized
       [whenW (tp_Burst m \<noteq> 0) (put_varint 0x10 (ucast (tp_Burst m))),
        whenW (f64_nonzero (tp_Rate m)) (put_double 0x9 (tp_Rate m))] dAtA"

definition TokenBucketParam_Marshal :: "ts_codec \<Rightarrow> TokenBucketParam option \<Rightarrow> byte list res" where
  "TokenBucketParam_Marshal T p = marshal_with (TokenBucketParam_Size T p) (TokenBucketParam_MarshalToSizedBuffer T p)"

definition TokenBucketParam_switch :: "ts_codec \<Rightarrow> TokenBucketParam switch" where
  "TokenBucketParam_switch T = switch_on
     [(1, on_double ''Rate'' (\<lambda>v m. m\<lparr>tp_Rate := v\<rparr>)),
      (2, on_varint ''Burst'' (\<lambda>v m. m\<lparr>tp_Burst := v\<rparr>))]"

definition TokenBucketParam_Unmarshal :: "ts_codec \<Rightarrow> TokenBucketParam \<Rightarrow> byte list \<Rightarrow> TokenBucketParam res" where
  "TokenBucketParam_Unmarshal T = unmarshal_with ''TokenBucketParam'' (TokenBucketParam_switch T)"

datatype isRegResCmd_Option = RegResCmd_TokenBucket "TokenBucketParam option"

record RegResCmd =
  rc_Resource :: "string"
  rc_Type :: "LimiterType"
  rc_Override :: "bool"
  rc_Option :: "isRegResCmd_Option option"

definition RegResCmd_zero :: RegResCmd where
  "RegResCmd_zero = \<lparr>rc_Resource = [], rc_Type = 0, rc_Override = False, rc_Option = None\<rparr>"

fun RegResCmd_TokenBucket_Size :: "ts_codec \<Rightarrow> isRegResCmd_Option \<Rightarrow> nat" where
  "RegResCmd_TokenBucket_Size T (RegResCmd_TokenBucket None) = 0"
| "RegResCmd_TokenBucket_Size T (RegResCmd_TokenBucket (Some v)) =
     (let l = TokenBucketParam_Size T (Some v) in 1 + l + sovRatecatApiV1 (word_of_nat l))"

fun RegResCmd_TokenBucket_MarshalToSizedBuffer :: "ts_codec \<Rightarrow> isRegResCmd_Option \<Rightarrow> marshaller" where
  "RegResCmd_TokenBucket_MarshalToSizedBuffer T (RegResCmd_TokenBucket p) dAtA =
     marshal_to_sized [whenW (p \<noteq> None) (put_msg 0x22 (TokenBucketParam_MarshalToSizedBuffer T p))] dAtA"

fun RegResCmd_Size :: "ts_codec \<Rightarrow> RegResCmd option \<Rightarrow> nat" where
  "RegResCmd_Size T None = 0"
| "RegResCmd_Size T (Some m) =
       (let l = length (rc_Resource m) in if 0 < l then 1 + l + sovRatecatApiV1 (word_of_nat l) else 0)
     + (if rc_Type m \<noteq> 0 then 1 + sovRatecatApiV1 (scast (rc_Type m)) else 0)
     + (if rc_Override m then 2 else 0)
     + (case rc_Option m of None \<Rightarrow> 0 | Some w \<Rightarrow> RegResCmd_TokenBucket_Size T w)"

fun RegResCmd_MarshalToSizedBuffer :: "ts_codec \<Rightarrow> RegResCmd option \<Rightarrow> marshaller" where
  "RegResCmd_MarshalToSizedBuffer T None dAtA = Inl nil_deref"
| "RegResCmd_MarshalToSizedBuffer T (Some m) dAtA =
     marshal_to_sized
       [whenW (rc_Option m \<noteq> None)
          (put_oneof (RegResCmd_TokenBucket_Size T (the (rc_Option m)))
            (RegResCmd_TokenBucket_MarshalToSizedBuffer T (the (rc_Option m)))),
        whenW (rc_Override m) (put_bool 0x18 (rc_Override m)),
        whenW (rc_Type m \<noteq> 0) (put_varint 0x10 (scast (rc_Type m))),
        whenW (0 < length (rc_Resource m)) (put_bytes 0xa (bytes_of (rc_Resource m)))] dAtA"

definition RegResCmd_Marshal :: "ts_codec \<Rightarrow> RegResCmd option \<Rightarrow> byte list res" where
  "RegResCmd_Marshal T p = marshal_with (RegResCmd_Size T p) (RegResCmd_MarshalToSizedBuffer T p)"

definition RegResCmd_switch :: "ts_codec \<Rightarrow> RegResCmd switch" where
  "RegResCmd_switch T = switch_on
     [(1, on_bytes ''Resource'' (\<lambda>s m. m\<lparr>rc_Resource := string_of s\<rparr>)),
      (2, on_varint ''Type'' (\<lambda>v m. m\<lparr>rc_Type := v\<rparr>)),
      (3, on_varint ''Override'' (\<lambda>(v :: u64) m. m\<lparr>rc_Override := v \<noteq> 0\<rparr>)),
      (4, on_new ''TokenBucket'' (\<lambda>v m. m\<lparr>rc_Option := Some (RegResCmd_TokenBucket (Some v))\<rparr>)
            TokenBucketParam_zero (TokenBucketParam_Unmarshal T))]"

definition RegResCmd_Unmarshal :: "ts_codec \<Rightarrow> RegResCmd \<Rightarrow> byte list \<Rightarrow> RegResCmd res" where
  "RegResCmd_Unmarshal T = unmarshal_with ''RegResCmd'' (RegResCmd_switch T)"

record RegResCmdResp =
  rp_NodeId :: "u32"

definition RegResCmdResp_zero :: RegResCmdResp where
  "RegResCmdResp_zero = \<lparr>rp_NodeId = 0\<rparr>"

fun RegResCmdResp_Size :: "ts_codec \<Rightarrow> RegResCmdResp option \<Rightarrow> nat" where
  "RegResCmdResp_Size T None = 0"
| "RegResCmdResp_Size T (Some m) =
       (if rp_NodeId m \<noteq> 0 then 1 + sovRatecatApiV1 (ucast (rp_NodeId m)) else 0)"

fun RegResCmdResp_MarshalToSizedBuffer :: "ts_codec \<Rightarrow> RegResCmdResp option \<Rightarrow> marshaller" where
  "RegResCmdResp_MarshalToSizedBuffer T None dAtA = Inl nil_deref"
| "RegResCmdResp_MarshalToSizedBuffer T (Some m) dAtA =
     marshal_to_sized
       [whenW (rp_NodeId m \<noteq> 0) (put_varint 0x10 (ucast (rp_NodeId m)))] dAtA"

definition RegResCmdResp_Marshal :: "ts_codec \<Rightarrow> RegResCmdResp option \<Rightarrow> byte list res" where
  "RegResCmdResp_Marshal T p = marshal_with (RegResCmdResp_Size T p) (RegResCmdResp_MarshalToSizedBuffer T p)"

definition RegResCmdResp_switch :: "ts_codec \<Rightarrow> RegResCmdResp switch" where
  "RegResCmdResp_switch T = switch_on
     [(2, on_varint ''NodeId'' (\<lambda>v m. m\<lparr>rp_NodeId := v\<rparr>))]"

definition RegResCmdResp_Unmarshal :: "ts_codec \<Rightarrow> RegResCmdResp \<Rightarrow> byte list \<Rightarrow> RegResCmdResp res" where
  "RegResCmdResp_Unmarshal T = unmarshal_with ''RegResCmdResp'' (RegResCmdResp_switch T)"

record GetResCmd =
  gr_Resource :: "string"

definition GetResCmd_zero :: GetResCmd where
  "GetResCmd_zero = \<lparr>gr_Resource = []\<rparr>"

fun GetResCmd_Size :: "ts_codec \<Rightarrow> GetResCmd option \<Rightarrow> nat" where
  "GetResCmd_Size T None = 0"
| "GetResCmd_Size T (Some m) =
       (let l = length (gr_Resource m) in if 0 < l then 1 + l + sovRatecatApiV1 (word_of_nat l) else 0)"

fun GetResCmd_MarshalToSizedBuffer :: "ts_codec \<Rightarrow> GetResCmd option \<Rightarrow> marshaller" where
  "GetResCmd_MarshalToSizedBuffer T None dAtA = Inl nil_deref"
| "GetResCmd_MarshalToSizedBuffer T (Some m) dAtA =
     marshal_to_sized
       [whenW (0 < length (gr_Resource m)) (put_bytes 0xa (bytes_of (gr_Resource m)))] dAtA"

definition GetResCmd_Marshal :: "ts_codec \<Rightarrow> GetResCmd option \<Rightarrow> byte list res" where
  "GetResCmd_Marshal T p = marshal_with (GetResCmd_Size T p) (GetResCmd_MarshalToSizedBuffer T p)"

definition GetResCmd_switch :: "ts_codec \<Rightarrow> GetResCmd switch" where
  "GetResCmd_switch T = switch_on
     [(1, on_bytes ''Resource'' (\<lambda>s m. m\<lparr>gr_Resource := string_of s\<rparr>))]"

definition GetResCmd_Unmarshal :: "ts_codec \<Rightarrow> GetResCmd \<Rightarrow> byte list \<Rightarrow> GetResCmd res" where
  "GetResCmd_Unmarshal T = unmarshal_with ''GetResCmd'' (GetResCmd_switch T)"

record ReqPerSecEntry =
  re_Rps :: "u64"
  re_Time :: "Timestamp option"

definition ReqPerSecEntry_zero :: ReqPerSecEntry where
  "ReqPerSecEntry_zero = \<lparr>re_Rps = 0, re_Time = None\<rparr>"

fun ReqPerSecEntry_Size :: "ts_codec \<Rightarrow> ReqPerSecEntry option \<Rightarrow> nat" where
  "ReqPerSecEntry_Size T None = 0"
| "ReqPerSecEntry_Size T (Some m) =
       (if f64_nonzero (re_Rps m) then 9 else 0)
     + (case re_Time m of None \<Rightarrow> 0
        | Some t \<Rightarrow> let l = tsc_Size T t in 1 + l + sovRatecatApiV1 (word_of_nat l))"

fun ReqPerSecEntry_MarshalToSizedBuffer :: "ts_codec \<Rightarrow> ReqPerSecEntry option \<Rightarrow> marshaller" where
  "ReqPerSecEntry_MarshalToSizedBuffer T None dAtA = Inl nil_deref"
| "ReqPerSecEntry_MarshalToSizedBuffer T (Some m) dAtA =
     marshal_to_sized
       [whenW (re_Time m \<noteq> None)
          (put_msg 0x12 (tsc_MarshalToSizedBuffer T (the (re_Time m)))),
        whenW (f64_nonzero (re_Rps m)) (put_double 0x9 (re_Rps m))] dAtA"

definition ReqPerSecEntry_Marshal :: "ts_codec \<Rightarrow> ReqPerSecEntry option \<Rightarrow> byte list res" where
  "ReqPerSecEntry_Marshal T p = marshal_with (ReqPerSecEntry_Size T p) (ReqPerSecEntry_MarshalToSizedBuffer T p)"

definition ReqPerSecEntry_switch :: "ts_codec \<Rightarrow> ReqPerSecEntry switch" where
  "ReqPerSecEntry_switch T = switch_on
     [(1, on_double ''Rps'' (\<lambda>v m. m\<lparr>re_Rps := v\<rparr>)),
      (2, on_ptr ''Time'' re_Time (\<lambda>p m. m\<lparr>re_Time := p\<rparr>) Timestamp_zero (tsc_Unmarshal T))]"

definition ReqPerSecEntry_Unmarshal :: "ts_codec \<Rightarrow> ReqPerSecEntry \<Rightarrow> byte list \<Rightarrow> ReqPerSecEntry res" where
  "ReqPerSecEntry_Unmarshal T = unmarshal_with ''ReqPerSecEntry'' (ReqPerSecEntry_switch T)"

record ReqPerSec =
  rq_ReqCount :: "u32"
  rq_Histories :: "ReqPerSecEntry option list"

definition ReqPerSec_zero :: ReqPerSec where
  "ReqPerSec_zero = \<lparr>rq_ReqCount = 0, rq_Histories = []\<rparr>"

fun ReqPerSec_Size :: "ts_codec \<Rightarrow> ReqPerSec option \<Rightarrow> nat" where
  "ReqPerSec_Size T None = 0"
| "ReqPerSec_Size T (Some m) =
       (if rq_ReqCount m \<noteq> 0 then 1 + sovRatecatApiV1 (ucast (rq_ReqCount m)) else 0)
     + sum_list (map (\<lambda>e. let l = ReqPerSecEntry_Size T e in 1 + l + sovRatecatApiV1 (word_of_nat l)) (rq_Histories m))"

fun ReqPerSec_MarshalToSizedBuffer :: "ts_codec \<Rightarrow> ReqPerSec option \<Rightarrow> marshaller" where
  "ReqPerSec_MarshalToSizedBuffer T None dAtA = Inl nil_deref"
| "ReqPerSec_MarshalToSizedBuffer T (Some m) dAtA =
     marshal_to_sized
       (map (\<lambda>e. put_msg 0x12 (ReqPerSecEntry_MarshalToSizedBuffer T e)) (rev (rq_Histories m)) @
       [whenW (rq_ReqCount m \<noteq> 0) (put_varint 0x8 (ucast (rq_ReqCount m)))]) dAtA"

definition ReqPerSec_Marshal :: "ts_codec \<Rightarrow> ReqPerSec option \<Rightarrow> byte list res" where
  "ReqPerSec_Marshal T p = marshal_with (ReqPerSec_Size T p) (ReqPerSec_MarshalToSizedBuffer T p)"

definition ReqPerSec_switch :: "ts_codec \<Rightarrow> ReqPerSec switch" where
  "ReqPerSec_switch T = switch_on
     [(1, on_varint ''ReqCount'' (\<lambda>v m. m\<lparr>rq_ReqCount := v\<rparr>)),
      (2, on_new ''Histories'' (\<lambda>e m. m\<lparr>rq_Histories := rq_Histories m @ [Some e]\<rparr>) ReqPerSecEntry_zero (ReqPerSecEntry_Unmarshal T))]"

definition ReqPerSec_Unmarshal :: "ts_codec \<Rightarrow> ReqPerSec \<Rightarrow> byte list \<Rightarrow> ReqPerSec res" where
  "ReqPerSec_Unmarshal T = unmarshal_with ''ReqPerSec'' (ReqPerSec_switch T)"

record TokenBucketLimiter =
  tl_Rate :: "u64"
  tl_Burst :: "u32"
  tl_TokenCount :: "u64"
  tl_FillPeriod :: "u64"
  tl_LastFilled :: "Timestamp option"
  tl_NextFill :: "Timestamp option"

definition TokenBucketLimiter_zero :: TokenBucketLimiter where
  "TokenBucketLimiter_zero = \<lparr>tl_Rate = 0, tl_Burst = 0, tl_TokenCount = 0, tl_FillPeriod = 0, tl_LastFilled = None, tl_NextFill = None\<rparr>"

fun TokenBucketLimiter_Size :: "ts_codec \<Rightarrow> TokenBucketLimiter option \<Rightarrow> nat" where
  "TokenBucketLimiter_Size T None = 0"
| "TokenBucketLimiter_Size T (Some m) =
       (if f64_nonzero (tl_Rate m) then 9 else 0)
     + (if tl_Burst m \<noteq> 0 then 1 + sovRatecatApiV1 (ucast (tl_Burst m)) else 0)
     + (if f64_nonzero (tl_TokenCount m) then 9 else 0)
     + (if tl_FillPeriod m \<noteq> 0 then 1 + sovRatecatApiV1 (tl_FillPeriod m) else 0)
     + (case tl_LastFilled m of None \<Rightarrow> 0
        | Some t \<Rightarrow> let l = tsc_Size T t in 1 + l + sovRatecatApiV1 (word_of_nat l))
     + (case tl_NextFill m of None \<Rightarrow> 0
        | Some t \<Rightarrow> let l = tsc_Size T t in 1 + l + sovRatecatApiV1 (word_of_nat l))"

fun TokenBucketLimiter_MarshalToSizedBuffer :: "ts_codec \<Rightarrow> TokenBucketLimiter option \<Rightarrow> marshaller" where
  "TokenBucketLimiter_MarshalToSizedBuffer T None dAtA = Inl nil_deref"
| "TokenBucketLimiter_MarshalToSizedBuffer T (Some m) dAtA =
     marshal_to_sized
       [whenW (tl_NextFill m \<noteq> None)
          (put_msg 0x32 (tsc_MarshalToSizedBuffer T (the (tl_NextFill m)))),
        whenW (tl_LastFilled m \<noteq> None)
          (put_msg 0x2a (tsc_MarshalToSizedBuffer T (the (tl_LastFilled m)))),
        whenW (tl_FillPeriod m \<noteq> 0) (put_varint 0x20 (tl_FillPeriod m)),
        whenW (f64_nonzero (tl_TokenCount m)) (put_double 0x19 (tl_TokenCount m)),
        whenW (tl_Burst m \<noteq> 0) (put_varint 0x10 (ucast (tl_Burst m))),
        whenW (f64_nonzero (tl_Rate m)) (put_double 0x9 (tl_Rate m))] dAtA"

definition TokenBucketLimiter_Marshal :: "ts_codec \<Rightarrow> TokenBucketLimiter option \<Rightarrow> byte list res" where
  "TokenBucketLimiter_Marshal T p = marshal_with (TokenBucketLimiter_Size T p) (TokenBucketLimiter_MarshalToSizedBuffer T p)"

definition TokenBucketLimiter_switch :: "ts_codec \<Rightarrow> TokenBucketLimiter switch" where
  "TokenBucketLimiter_switch T = switch_on
     [(1, on_double ''Rate'' (\<lambda>v m. m\<lparr>tl_Rate := v\<rparr>)),
      (2, on_varint ''Burst'' (\<lambda>v m. m\<lparr>tl_Burst := v\<rparr>)),
      (3, on_double ''TokenCount'' (\<lambda>v m. m\<lparr>tl_TokenCount := v\<rparr>)),
      (4, on_varint ''FillPeriod'' (\<lambda>v m. m\<lparr>tl_FillPeriod := v\<rparr>)),
      (5, on_ptr ''LastFilled'' tl_LastFilled (\<lambda>p m. m\<lparr>tl_LastFilled := p\<rparr>) Timestamp_zero (tsc_Unmarshal T)),
      (6, on_ptr ''NextFill'' tl_NextFill (\<lambda>p m. m\<lparr>tl_NextFill := p\<rparr>) Timestamp_zero (tsc_Unmarshal T))]"

definition TokenBucketLimiter_Unmarshal :: "ts_codec \<Rightarrow> TokenBucketLimiter \<Rightarrow> byte list \<Rightarrow> TokenBucketLimiter res" where
  "TokenBucketLimiter_Unmarshal T = unmarshal_with ''TokenBucketLimiter'' (TokenBucketLimiter_switch T)"

record LeakyBucketLimiter =
  ll_Rate :: "u64"
  ll_Capability :: "u32"
  ll_Drops :: "u64"
  ll_DrainPeriod :: "u64"
  ll_LastDrained :: "Timestamp option"
  ll_NextDrain :: "Timestamp option"

definition LeakyBucketLimiter_zero :: LeakyBucketLimiter where
  "LeakyBucketLimiter_zero = \<lparr>ll_Rate = 0, ll_Capability = 0, ll_Drops = 0, ll_DrainPeriod = 0, ll_LastDrained = None, ll_NextDrain = None\<rparr>"

fun LeakyBucketLimiter_Size :: "ts_codec \<Rightarrow> LeakyBucketLimiter option \<Rightarrow> nat" where
  "LeakyBucketLimiter_Size T None = 0"
| "LeakyBucketLimiter_Size T (Some m) =
       (if f64_nonzero (ll_Rate m) then 9 else 0)
     + (if ll_Capability m \<noteq> 0 then 1 + sovRatecatApiV1 (ucast (ll_Capability m)) else 0)
     + (if f64_nonzero (ll_Drops m) then 9 else 0)
     + (if ll_DrainPeriod m \<noteq> 0 then 1 + sovRatecatApiV1 (ll_DrainPeriod m) else 0)
     + (case ll_LastDrained m of None \<Rightarrow> 0
        | Some t \<Rightarrow> let l = tsc_Size T t in 1 + l + sovRatecatApiV1 (word_of_nat l))
     + (case ll_NextDrain m of None \<Rightarrow> 0
        | Some t \<Rightarrow> let l = tsc_Size T t in 1 + l + sovRatecatApiV1 (word_of_nat l))"

fun LeakyBucketLimiter_MarshalToSizedBuffer :: "ts_codec \<Rightarrow> LeakyBucketLimiter option \<Rightarrow> marshaller" where
  "LeakyBucketLimiter_MarshalToSizedBuffer T None dAtA = Inl nil_deref"
| "LeakyBucketLimiter_MarshalToSizedBuffer T (Some m) dAtA =
     marshal_to_sized
       [whenW (ll_NextDrain m \<noteq> None)
          (put_msg 0x32 (tsc_MarshalToSizedBuffer T (the (ll_NextDrain m)))),
        whenW (ll_LastDrained m \<noteq> None)
          (put_msg 0x2a (tsc_MarshalToSizedBuffer T (the (ll_LastDrained m)))),
        whenW (ll_DrainPeriod m \<noteq> 0) (put_varint 0x20 (ll_DrainPeriod m)),
        whenW (f64_nonzero (ll_Drops m)) (put_double 0x19 (ll_Drops m)),
        whenW (ll_Capability m \<noteq> 0) (put_varint 0x10 (ucast (ll_Capability m))),
        whenW (f64_nonzero (ll_Rate m)) (put_double 0x9 (ll_Rate m))] dAtA"

definition LeakyBucketLimiter_Marshal :: "ts_codec \<Rightarrow> LeakyBucketLimiter option \<Rightarrow> byte list res" where
  "LeakyBucketLimiter_Marshal T p = marshal_with (LeakyBucketLimiter_Size T p) (LeakyBucketLimiter_MarshalToSizedBuffer T p)"

definition LeakyBucketLimiter_switch :: "ts_codec \<Rightarrow> LeakyBucketLimiter switch" where
  "LeakyBucketLimiter_switch T = switch_on
     [(1, on_double ''Rate'' (\<lambda>v m. m\<lparr>ll_Rate := v\<rparr>)),
      (2, on_varint ''Capability'' (\<lambda>v m. m\<lparr>ll_Capability := v\<rparr>)),
      (3, on_double ''Drops'' (\<lambda>v m. m\<lparr>ll_Drops := v\<rparr>)),
      (4, on_varint ''DrainPeriod'' (\<lambda>v m. m\<lparr>ll_DrainPeriod := v\<rparr>)),
      (5, on_ptr ''LastDrained'' ll_LastDrained (\<lambda>p m. m\<lparr>ll_LastDrained := p\<rparr>) Timestamp_zero (tsc_Unmarshal T)),
      (6, on_ptr ''NextDrain'' ll_NextDrain (\<lambda>p m. m\<lparr>ll_NextDrain := p\<rparr>) Timestamp_zero (tsc_Unmarshal T))]"

definition LeakyBucketLimiter_Unmarshal :: "ts_codec \<Rightarrow> LeakyBucketLimiter \<Rightarrow> byte list \<Rightarrow> LeakyBucketLimiter res" where
  "LeakyBucketLimiter_Unmarshal T = unmarshal_with ''LeakyBucketLimiter'' (LeakyBucketLimiter_switch T)"

datatype isResource_Limiter = Resource_TokenBucket "TokenBucketLimiter option"

record PbResource =
  rs_Name :: "string"
  rs_NodeId :: "u32"
  rs_LimiterType :: "LimiterType"
  rs_Rps :: "ReqPerSec option"
  rs_LastUpdated :: "Timestamp option"
  rs_Limiter :: "isResource_Limiter option"

definition Resource_zero :: PbResource where
  "Resource_zero = \<lparr>rs_Name = [], rs_NodeId = 0, rs_LimiterType = 0, rs_Rps = None, rs_LastUpdated = None, rs_Limiter = None\<rparr>"

fun Resource_TokenBucket_Size :: "ts_codec \<Rightarrow> isResource_Limiter \<Rightarrow> nat" where
  "Resource_TokenBucket_Size T (Resource_TokenBucket None) = 0"
| "Resource_TokenBucket_Size T (Resource_TokenBucket (Some v)) =
     (let l = TokenBucketLimiter_Size T (Some v) in 1 + l + sovRatecatApiV1 (word_of_nat l))"

fun Resource_TokenBucket_MarshalToSizedBuffer :: "ts_codec \<Rightarrow> isResource_Limiter \<Rightarrow> marshaller" where
  "Resource_TokenBucket_MarshalToSizedBuffer T (Resource_TokenBucket p) dAtA =
     marshal_to_sized [whenW (p \<noteq> None) (put_msg 0x32 (TokenBucketLimiter_MarshalToSizedBuffer T p))] dAtA"

fun Resource_Size :: "ts_codec \<Rightarrow> PbResource option \<Rightarrow> nat" where
  "Resource_Size T None = 0"
| "Resource_Size T (Some m) =
       (let l = length (rs_Name m) in if 0 < l then 1 + l + sovRatecatApiV1 (word_of_nat l) else 0)
     + (if rs_NodeId m \<noteq> 0 then 1 + sovRatecatApiV1 (ucast (rs_NodeId m)) else 0)
     + (if rs_LimiterType m \<noteq> 0 then 1 + sovRatecatApiV1 (scast (rs_LimiterType m)) else 0)
     + (case rs_Rps m of None \<Rightarrow> 0
        | Some e \<Rightarrow> let l = ReqPerSec_Size T (Some e) in 1 + l + sovRatecatApiV1 (word_of_nat l))
     + (case rs_LastUpdated m of None \<Rightarrow> 0
        | Some t \<Rightarrow> let l = tsc_Size T t in 1 + l + sovRatecatApiV1 (word_of_nat l))
     + (case rs_Limiter m of None \<Rightarrow> 0 | Some w \<Rightarrow> Resource_TokenBucket_Size T w)"

fun Resource_MarshalToSizedBuffer :: "ts_codec \<Rightarrow> PbResource option \<Rightarrow> marshaller" where
  "Resource_MarshalToSizedBuffer T None dAtA = Inl nil_deref"
| "Resource_MarshalToSizedBuffer T (Some m) dAtA =
     marshal_to_sized
       [whenW (rs_Limiter m \<noteq> None)
          (put_oneof (Resource_TokenBucket_Size T (the (rs_Limiter m)))
            (Resource_TokenBucket_MarshalToSizedBuffer T (the (rs_Limiter m)))),
        whenW (rs_LastUpdated m \<noteq> None)
          (put_msg 0x2a (tsc_MarshalToSizedBuffer T (the (rs_LastUpdated m)))),
        whenW (rs_Rps m \<noteq> None)
          (put_msg 0x22 (ReqPerSec_MarshalToSizedBuffer T (rs_Rps m))),
        whenW (rs_LimiterType m \<noteq> 0) (put_varint 0x18 (scast (rs_LimiterType m))),
        whenW (rs_NodeId m \<noteq> 0) (put_varint 0x10 (ucast (rs_NodeId m))),
        whenW (0 < length (rs_Name m)) (put_bytes 0xa (bytes_of (rs_Name m)))] dAtA"

definition Resource_Marshal :: "ts_codec \<Rightarrow> PbResource option \<Rightarrow> byte list res" where
  "Resource_Marshal T p = marshal_with (Resource_Size T p) (Resource_MarshalToSizedBuffer T p)"

definition Resource_switch :: "ts_codec \<Rightarrow> PbResource switch" where
  "Resource_switch T = switch_on
     [(1, on_bytes ''Name'' (\<lambda>s m. m\<lparr>rs_Name := string_of s\<rparr>)),
      (2, on_varint ''NodeId'' (\<lambda>v m. m\<lparr>rs_NodeId := v\<rparr>)),
      (3, on_varint ''LimiterType'' (\<lambda>v m. m\<lparr>rs_LimiterType := v\<rparr>)),
      (4, on_ptr ''Rps'' rs_Rps (\<lambda>p m. m\<lparr>rs_Rps := p\<rparr>) ReqPerSec_zero (ReqPerSec_Unmarshal T)),
      (5, on_ptr ''LastUpdated'' rs_LastUpdated (\<lambda>p m. m\<lparr>rs_LastUpdated := p\<rparr>) Timestamp_zero (tsc_Unmarshal T)),
      (6, on_new ''TokenBucket'' (\<lambda>v m. m\<lparr>rs_Limiter := Some (Resource_TokenBucket (Some v))\<rparr>)
            TokenBucketLimiter_zero (TokenBucketLimiter_Unmarshal T))]"

definition Resource_Unmarshal :: "ts_codec \<Rightarrow> PbResource \<Rightarrow> byte list \<Rightarrow> PbResource res" where
  "Resource_Unmarshal T = unmarshal_with ''Resource'' (Resource_switch T)"

section \<open>Getters\<close>

text \<open>The generated getters the rest of the program calls: both are nil-safe at every level.\<close>

fun RegResCmd_GetTokenBucket :: "RegResCmd option \<Rightarrow> TokenBucketParam option" where
  "RegResCmd_GetTokenBucket None = None"
| "RegResCmd_GetTokenBucket (Some m) =
     (case rc_Option m of Some (RegResCmd_TokenBucket p) \<Rightarrow> p | None \<Rightarrow> None)"

fun Resource_GetTokenBucket :: "PbResource option \<Rightarrow> TokenBucketLimiter option" where
  "Resource_GetTokenBucket None = None"
| "Resource_GetTokenBucket (Some m) =
     (case rs_Limiter m of Some (Resource_TokenBucket p) \<Rightarrow> p | None \<Rightarrow> None)"

end
