(* ===== verification/Limiter.thy ===== *)
theory Limiter
  imports TokenBucket ApiMessages
begin

text \<open>
  The \<^verbatim>\<open>Limiter\<close> interface of \<^verbatim>\<open>internal/limit/limiter.go\<close> and its only implementation,
  the \<^verbatim>\<open>tokenBucketLimiter\<close> of \<^verbatim>\<open>internal/limit/token_bucket.go\<close>, with the conversions
  between a limiter and the limiter part of a resource message.  An interface value is a datatype with
  one constructor per implementing type; its methods dispatch on it.
\<close>

datatype Limiter = tokenBucketLimiter TokenBucket

definition NewTokenBucketEmptyLimiter :: Limiter where
  "NewTokenBucketEmptyLimiter = tokenBucketLimiter TokenBucket_zero"

definition NewTokenBucketLimiter :: "(u64 \<Rightarrow> int) \<Rightarrow> instant \<Rightarrow> u64 \<Rightarrow> u32 \<Rightarrow> Limiter res" where
  "NewTokenBucketLimiter cv now rate burst =
     bindR (NewTokenBucket cv now rate burst) (\<lambda>b. Inr (tokenBucketLimiter b))"

fun Limiter_Type :: "Limiter \<Rightarrow> string" where
  "Limiter_Type (tokenBucketLimiter b) = LimiterType_String LimiterType_TokenBucket"

fun Limiter_PBType :: "Limiter \<Rightarrow> LimiterType" where
  "Limiter_PBType (tokenBucketLimiter b) = LimiterType_TokenBucket"

fun Limiter_ToLimiterPB :: "Limiter \<Rightarrow> TokenBucketLimiter" where
  "Limiter_ToLimiterPB (tokenBucketLimiter b) =
     \<lparr>tl_Rate = tb_rate b, tl_Burst = tb_burst b, tl_TokenCount = tb_tokenCount b,
      tl_FillPeriod = word_of_int (tb_fillPeriod b),
      tl_LastFilled = TimeToTimestamp (tb_lastFilled b),
      tl_NextFill = TimeToTimestamp (tb_nextFill b)\<rparr>"

definition ErrInvalidLimiter :: fault where
  "ErrInvalidLimiter = Fail ''invalid limiter''"

definition ErrUnknownLimiterType :: fault where
  "ErrUnknownLimiterType = Fail ''unknown limiter type''"

text \<open>\<^verbatim>\<open>FromResPB\<close>: a nil message behind the oneof wrapper is dereferenced.\<close>

fun Limiter_FromResPB :: "PbResource \<Rightarrow> Limiter \<Rightarrow> Limiter res" where
  "Limiter_FromResPB v (tokenBucketLimiter b) =
     (case rs_Limiter v of
        None \<Rightarrow> Inl ErrInvalidLimiter
      | Some (Resource_TokenBucket None) \<Rightarrow> Inl nil_deref
      | Some (Resource_TokenBucket (Some msg)) \<Rightarrow>
          Inr (tokenBucketLimiter
            \<lparr>tb_rate = tl_Rate msg, tb_burst = tl_Burst msg, tb_tokenCount = tl_TokenCount msg,
             tb_fillPeriod = sint (tl_FillPeriod msg),
             tb_lastFilled = TimestampToTime (tl_LastFilled msg),
             tb_nextFill = TimestampToTime (tl_NextFill msg)\<rparr>))"

fun Limiter_Allow :: "instant \<Rightarrow> u32 \<Rightarrow> Limiter \<Rightarrow> bool \<times> Limiter" where
  "Limiter_Allow t n (tokenBucketLimiter b) =
     (let (ok, b) = TokenBucket_Allow t n b in (ok, tokenBucketLimiter b))"

fun Limiter_Take :: "(u64 \<Rightarrow> int) \<Rightarrow> instant \<Rightarrow> u32 \<Rightarrow> Limiter \<Rightarrow> (duration \<times> string option) \<times> Limiter" where
  "Limiter_Take cv t n (tokenBucketLimiter b) =
     (let (d, b) = TokenBucket_Take cv t n b in ((d, None), tokenBucketLimiter b))"

fun NewLimiterFromResPB :: "PbResource option \<Rightarrow> Limiter res" where
  "NewLimiterFromResPB None = Inl nil_deref"
| "NewLimiterFromResPB (Some resPB) =
     (if rs_Limiter resPB = None then Inl ErrInvalidLimiter
      else if rs_LimiterType resPB = LimiterType_TokenBucket then
        Limiter_FromResPB resPB NewTokenBucketEmptyLimiter
      else Inl ErrUnknownLimiterType)"

definition AssignLimiterToResPB :: "PbResource \<Rightarrow> Limiter \<Rightarrow> PbResource res" where
  "AssignLimiterToResPB resPB limiter =
     (let pbType = Limiter_PBType limiter; resPB = resPB\<lparr>rs_LimiterType := pbType\<rparr>
      in if pbType = LimiterType_TokenBucket
         then Inr (resPB\<lparr>rs_Limiter := Some (Resource_TokenBucket (Some (Limiter_ToLimiterPB limiter)))\<rparr>)
         else Inl ErrUnknownLimiterType)"

text \<open>\<^verbatim>\<open>rate/token_bucket.go\<close>: the exported wrapper around the internal bucket.\<close>

definition rate_NewTokenBucket :: "(u64 \<Rightarrow> int) \<Rightarrow> instant \<Rightarrow> u64 \<Rightarrow> u32 \<Rightarrow> TokenBucket res" where
  "rate_NewTokenBucket cv now rate burst = NewTokenBucket cv now rate burst"

definition rate_Allow :: "instant \<Rightarrow> TokenBucket \<Rightarrow> bool \<times> TokenBucket" where
  "rate_Allow now b = TokenBucket_Allow now 1 b"

definition rate_AllowN :: "instant \<Rightarrow> u32 \<Rightarrow> TokenBucket \<Rightarrow> bool \<times> TokenBucket" where
  "rate_AllowN t n b = TokenBucket_Allow t n b"

section \<open>What a client of a limiter relies on\<close>

text \<open>
  \<open>avail t l\<close> is what the limiter can give at instant \<open>t\<close>.  A request is granted exactly when that
  covers it, and takes exactly what it asked for.
\<close>

locale rate_limiter =
  fixes Allow :: "instant \<Rightarrow> u32 \<Rightarrow> 'l \<Rightarrow> bool \<times> 'l"
    and inv :: "'l \<Rightarrow> bool"
    and avail :: "instant \<Rightarrow> 'l \<Rightarrow> rat"
  assumes inv_Allow: "inv l \<Longrightarrow> inv (snd (Allow t n l))"
    and Allow_iff: "inv l \<Longrightarrow> fst (Allow t n l) \<longleftrightarrow> of_int (uint n) \<le> avail t l"
    and avail_Allow: "inv l \<Longrightarrow> avail t (snd (Allow t n l)) =
      avail t l - (if fst (Allow t n l) then of_int (uint n) else 0)"
begin

fun burst_run :: "instant \<Rightarrow> u32 list \<Rightarrow> 'l \<Rightarrow> int \<times> 'l" where
  "burst_run t [] l = (0, l)"
| "burst_run t (n # ns) l =
     (let (ok, l') = Allow t n l; (k, l'') = burst_run t ns l' in ((if ok then uint n else 0) + k, l''))"

text \<open>A burst of requests at one instant uses up exactly what it is granted, and never more than is there.\<close>

lemma burst_run_avail:
  "inv l \<Longrightarrow> inv (snd (burst_run t ns l)) \<and>
     of_int (fst (burst_run t ns l)) = avail t l - avail t (snd (burst_run t ns l))"
proof (induction ns arbitrary: l)
  case Nil
  then show ?case by simp
next
  case (Cons n ns)
  obtain ok l' where A: "Allow t n l = (ok, l')" by (cases "Allow t n l")
  obtain k l'' where R: "burst_run t ns l' = (k, l'')" by (cases "burst_run t ns l'")
  have "inv l'" "avail t l' = avail t l - (if ok then of_int (uint n) else 0)"
    using inv_Allow [OF Cons.prems, of t n] avail_Allow [OF Cons.prems, of t n] A by simp_all
  moreover from Cons.IH [OF this(1)] R have "inv l''" "of_int k = avail t l' - avail t l''" by simp_all
  moreover have "(of_int ((if ok then uint n else 0) + k) :: rat) = (if ok then of_int (uint n) else 0) + of_int k"
    by (simp only: of_int_add if_distrib [of of_int] of_int_0)
  ultimately show ?case by (simp only: burst_run.simps A R prod.case Let_def fst_conv snd_conv) simp
qed

lemma denied_then_denied:
  assumes "inv l" "\<not> fst (Allow t n l)" "n \<le> m"
  shows "\<not> fst (Allow t m (snd (Allow t n l)))"
proof -
  have "avail t (snd (Allow t n l)) = avail t l" using avail_Allow [OF assms(1), of t n] assms(2) by simp
  moreover have "(of_int (uint n) :: rat) \<le> of_int (uint m)"
    using assms(3) by (simp only: of_int_le_iff word_le_def)
  ultimately show ?thesis
    using assms(1,2) Allow_iff [OF assms(1), of t n] Allow_iff [OF inv_Allow [OF assms(1)], of t m] by simp
qed

end

definition TokenBucket_avail :: "instant \<Rightarrow> TokenBucket \<Rightarrow> rat" where
  "TokenBucket_avail t b = tokens (TokenBucket_fill t b)"

lemma fill_after_Allow:
  assumes "TokenBucket_inv b"
  shows "TokenBucket_fill t (snd (TokenBucket_Allow t n b)) = snd (TokenBucket_Allow t n b)"
proof -
  have "\<not> tb_nextFill (TokenBucket_fill t b) < t"
    using assms fill_times(2) [of b t]
    by (cases "tb_nextFill b < t") (simp_all add: fill_early TokenBucket_inv_def)
  then show ?thesis by (simp add: fill_early)
qed

interpretation bucket: rate_limiter TokenBucket_Allow TokenBucket_inv TokenBucket_avail
  by unfold_locales
    (simp_all only: Allow_cases TokenBucket_avail_def fill_after_Allow)

fun Limiter_inv :: "Limiter \<Rightarrow> bool" where
  "Limiter_inv (tokenBucketLimiter b) = TokenBucket_inv b"

fun Limiter_avail :: "instant \<Rightarrow> Limiter \<Rightarrow> rat" where
  "Limiter_avail t (tokenBucketLimiter b) = TokenBucket_avail t b"

lemma Limiter_Allow_parts:
  "fst (Limiter_Allow t n (tokenBucketLimiter b)) = fst (TokenBucket_Allow t n b)"
  "snd (Limiter_Allow t n (tokenBucketLimiter b)) = tokenBucketLimiter (snd (TokenBucket_Allow t n b))"
  by (simp_all add: case_prod_beta)

interpretation iface: rate_limiter Limiter_Allow Limiter_inv Limiter_avail
proof
  fix l :: Limiter and t n
  assume inv: "Limiter_inv l"
  obtain b where l: "l = tokenBucketLimiter b" by (cases l)
  with inv have "TokenBucket_inv b" by simp
  note laws = bucket.inv_Allow [OF this] bucket.Allow_iff [OF this] bucket.avail_Allow [OF this]
  show "Limiter_inv (snd (Limiter_Allow t n l))"
    and "fst (Limiter_Allow t n l) \<longleftrightarrow> of_int (uint n) \<le> Limiter_avail t l"
    and "Limiter_avail t (snd (Limiter_Allow t n l)) =
      Limiter_avail t l - (if fst (Limiter_Allow t n l) then of_int (uint n) else 0)"
    using laws by (simp_all only: l Limiter_Allow_parts Limiter_inv.simps Limiter_avail.simps)
qed

section \<open>Conversion to and from the resource message\<close>

text \<open>
  A limiter whose period is an \<^verbatim>\<open>int64\<close> and whose instants have seconds in range survives the
  trip through the message unchanged, so a replicated or restored limiter continues where it was.
\<close>

fun Limiter_sendable :: "Limiter \<Rightarrow> bool" where
  "Limiter_sendable (tokenBucketLimiter b) =
     (int64_range (tb_fillPeriod b) \<and> int64_range (tb_lastFilled b div 10 ^ 9) \<and>
      int64_range (tb_nextFill b div 10 ^ 9))"

lemma LimiterFromResPB_Assign:
  assumes "Limiter_sendable l"
  shows "bindR (AssignLimiterToResPB resPB l) (\<lambda>v. NewLimiterFromResPB (Some v)) = Inr l"
proof (cases l)
  case (tokenBucketLimiter b)
  have "sint (word_of_int (tb_fillPeriod b) :: u64) = tb_fillPeriod b"
    using wrap64_id int64_rangeD assms tokenBucketLimiter by (simp add: wrap64_def)
  then show ?thesis
    using assms tokenBucketLimiter
    by (simp add: AssignLimiterToResPB_def NewTokenBucketEmptyLimiter_def Let_def
        TimestampToTime_TimeToTimestamp)
qed

end
