(* ===== verification/LeakyBucket.thy ===== *)
theory LeakyBucket
  imports GoTime
begin

text \<open>
  The leaky bucket of \<^verbatim>\<open>internal/limit/leaky_bucket.go\<close>.  Like the token bucket it is a record
  without its mutex, with the clock reading and the implementation-specific float conversion as
  arguments.  Draining divides by the drain period, which is 0 for rates above one per nanosecond, so
  every operation can panic.  All its float arithmetic is on whole numbers, and the refinement at the
  end shows that it is exactly a bucket that counts in integers.
\<close>

record LeakyBucket =
  lb_rate :: u64
  lb_capability :: u32
  lb_drops :: u64
  lb_drainPeriod :: duration
  lb_lastDrained :: instant
  lb_nextDrain :: instant

definition NewLeakyBucket :: "(u64 \<Rightarrow> int) \<Rightarrow> instant \<Rightarrow> u64 \<Rightarrow> u32 \<Rightarrow> LeakyBucket res" where
  "NewLeakyBucket cv now rate capability =
     bindR (int64_div time_Second (f64_to_int64 cv rate)) (\<lambda>drainPeriod.
       Inr \<lparr>lb_rate = rate, lb_capability = capability, lb_drops = 0, lb_drainPeriod = drainPeriod,
            lb_lastDrained = now, lb_nextDrain = time_Add now drainPeriod\<rparr>)"

definition LeakyBucket_drain :: "(u64 \<Rightarrow> int) \<Rightarrow> instant \<Rightarrow> LeakyBucket \<Rightarrow> LeakyBucket res" where
  "LeakyBucket_drain cv t b =
     (if f64_less 0 (lb_drops b) \<and> time_After t (lb_nextDrain b) then
        bindR (int64_div (time_Sub t (lb_lastDrained b)) (lb_drainPeriod b)) (\<lambda>periods.
          let drips = f64_of_int periods;
              low = f64_negate (f64_of_int (uint (lb_capability b)));
              drops = f64_sub (lb_drops b) drips;
              drops = (if f64_less drops low then low else drops);
              lastDrained = time_Add (lb_lastDrained b) (wrap64 (f64_to_int64 cv drips * lb_drainPeriod b))
          in Inr (b\<lparr>lb_drops := drops, lb_lastDrained := lastDrained,
                    lb_nextDrain := time_Add lastDrained (lb_drainPeriod b)\<rparr>))
      else Inr b)"

definition LeakyBucket_Allow :: "(u64 \<Rightarrow> int) \<Rightarrow> instant \<Rightarrow> u32 \<Rightarrow> LeakyBucket \<Rightarrow> (bool \<times> LeakyBucket) res" where
  "LeakyBucket_Allow cv t n b =
     bindR (LeakyBucket_drain cv t b) (\<lambda>b.
       let drops = f64_add (lb_drops b) (f64_of_int (uint n))
       in if f64_le drops (f64_of_int (uint (lb_capability b))) then Inr (True, b\<lparr>lb_drops := drops\<rparr>)
          else Inr (False, b))"

definition ErrOverflow :: string where
  "ErrOverflow = ''limiter overflow''"

text \<open>\<open>Take\<close> returns a delay and an error; on overflow both.\<close>

definition LeakyBucket_Take :: "(u64 \<Rightarrow> int) \<Rightarrow> instant \<Rightarrow> u32 \<Rightarrow> LeakyBucket \<Rightarrow>
  ((duration \<times> string option) \<times> LeakyBucket) res" where
  "LeakyBucket_Take cv t n b =
     bindR (LeakyBucket_drain cv t b) (\<lambda>b.
       let delay = f64_to_int64 cv (f64_mul (lb_drops b) (f64_of_int (lb_drainPeriod b)));
           drops = f64_add (lb_drops b) (f64_of_int (uint n))
       in if f64_less (f64_of_int (uint (lb_capability b))) drops
          then Inr ((delay, Some ErrOverflow), b)
          else Inr ((if delay < 0 then 0 else delay, None), b\<lparr>lb_drops := drops\<rparr>))"

section \<open>The integer bucket\<close>

text \<open>The specification: the level and the instant up to which it has been drained, both integers.\<close>

record int_bucket =
  ib_level :: int
  ib_drained :: instant

definition ib_drain :: "int \<Rightarrow> duration \<Rightarrow> instant \<Rightarrow> int_bucket \<Rightarrow> int_bucket" where
  "ib_drain cap P t s =
     (if 0 < ib_level s \<and> ib_drained s + P < t then
        let k = (t - ib_drained s) div P
        in \<lparr>ib_level = max (- cap) (ib_level s - k), ib_drained = ib_drained s + k * P\<rparr>
      else s)"

definition ib_Allow :: "int \<Rightarrow> duration \<Rightarrow> instant \<Rightarrow> int \<Rightarrow> int_bucket \<Rightarrow> bool \<times> int_bucket" where
  "ib_Allow cap P t n s =
     (let s = ib_drain cap P t s
      in if ib_level s + n \<le> cap then (True, s\<lparr>ib_level := ib_level s + n\<rparr>) else (False, s))"

definition LeakyBucket_abs :: "LeakyBucket \<Rightarrow> int_bucket" where
  "LeakyBucket_abs b = \<lparr>ib_level = \<lfloor>f64_val (lb_drops b)\<rfloor>, ib_drained = lb_lastDrained b\<rparr>"

text \<open>The invariant: a whole, bounded level, a positive period, the next drain one period after the last.\<close>

definition LeakyBucket_inv :: "LeakyBucket \<Rightarrow> bool" where
  "LeakyBucket_inv b \<longleftrightarrow>
     f64_finite (lb_drops b) \<and> f64_val (lb_drops b) = of_int \<lfloor>f64_val (lb_drops b)\<rfloor> \<and>
     \<bar>\<lfloor>f64_val (lb_drops b)\<rfloor>\<bar> \<le> uint (lb_capability b) \<and>
     2 ^ 10 \<le> lb_drainPeriod b \<and> lb_drainPeriod b < 2 ^ 53 \<and>
     lb_nextDrain b = lb_lastDrained b + lb_drainPeriod b"

lemma int_sum_exact:
  assumes "f64_finite a" "f64_val a = of_int i" "f64_finite b" "f64_val b = of_int j" "\<bar>i + j\<bar> < 2 ^ 53"
  shows "f64_finite (f64_add a b)" "f64_val (f64_add a b) = of_int (i + j)"
proof -
  have sum: "f64_add a b = f64_round (f64_neg a \<and> f64_neg b) (of_int (i + j))"
    by (simp add: f64_add_finite assms)
  show "f64_finite (f64_add a b)" "f64_val (f64_add a b) = of_int (i + j)"
    unfolding sum by (rule round_representable [OF representable_int [OF assms(5)]])+
qed

lemma uint32_less: "uint (n :: u32) < 2 ^ 32" "0 \<le> uint n"
  using unsigned_less [of n, where 'a = int] by simp_all

lemma level_sum_bound:
  fixes i c n :: int
  assumes "\<bar>i\<bar> \<le> c" "c < 2 ^ 32" "0 \<le> n" "n < 2 ^ 32"
  shows "\<bar>i + n\<bar> < 2 ^ 53"
  using assms by simp

lemma level_up_bound:
  fixes i c n :: int
  assumes "i + n \<le> c" "\<bar>i\<bar> \<le> c" "0 \<le> n"
  shows "\<bar>i + n\<bar> \<le> c"
  using assms by simp

lemma level_diff_bound:
  fixes i c k :: int
  assumes "0 < i" "\<bar>i\<bar> \<le> c" "c < 2 ^ 32" "0 \<le> k" "k < 2 ^ 53"
  shows "\<bar>i + - k\<bar> < 2 ^ 53"
  using assms by simp

lemma int_val_less:
  assumes "f64_finite a" "f64_val a = of_int i" "f64_finite b" "f64_val b = of_int j"
  shows "f64_less a b \<longleftrightarrow> i < j" "f64_le a b \<longleftrightarrow> i \<le> j"
  using assms by (simp_all add: f64_less_val f64_le_val)

lemma f64_zero [simp]: "f64_finite 0"
  by (simp add: f64_finite_def f64_mag_def f64_inf_mag_def)

lemma to_int64_of_int:
  assumes "0 \<le> q" "q < 2 ^ 53"
  shows "f64_to_int64 cv (f64_of_int q) = q"
  using assms f64_of_int_exact [of q] by (simp add: f64_to_int64_def rat_trunc_def)

lemma inv_level:
  assumes "LeakyBucket_inv b" "i = \<lfloor>f64_val (lb_drops b)\<rfloor>"
  shows "f64_finite (lb_drops b)" "f64_val (lb_drops b) = of_int i" "\<bar>i\<bar> \<le> uint (lb_capability b)"
  using assms by (simp_all add: LeakyBucket_inv_def)

lemma level_intro:
  assumes "f64_finite d" "f64_val d = of_int i" "\<bar>i\<bar> \<le> uint (lb_capability b)"
    and "2 ^ 10 \<le> lb_drainPeriod b" "lb_drainPeriod b < 2 ^ 53"
    and "lb_nextDrain b = lb_lastDrained b + lb_drainPeriod b" "lb_drops b = d"
  shows "LeakyBucket_inv b" "ib_level (LeakyBucket_abs b) = i"
  using assms by (simp_all add: LeakyBucket_inv_def LeakyBucket_abs_def)

text \<open>The float drain computes what the integer drain computes.\<close>

lemma drain_refines:
  assumes inv: "LeakyBucket_inv b" and t: "t - lb_lastDrained b < 2 ^ 63"
  obtains b' where "LeakyBucket_drain cv t b = Inr b'" "LeakyBucket_inv b'"
    "LeakyBucket_abs b' = ib_drain (uint (lb_capability b)) (lb_drainPeriod b) t (LeakyBucket_abs b)"
    "lb_capability b' = lb_capability b" "lb_drainPeriod b' = lb_drainPeriod b"
proof -
  let ?cap = "uint (lb_capability b)" and ?P = "lb_drainPeriod b" and ?D = "t - lb_lastDrained b"
  define i where "i = \<lfloor>f64_val (lb_drops b)\<rfloor>"
  note lv = inv_level [OF inv i_def]
  have P: "2 ^ 10 \<le> ?P" "?P < 2 ^ 53" "lb_nextDrain b = lb_lastDrained b + ?P"
    using inv by (simp_all add: LeakyBucket_inv_def)
  have cond: "f64_less 0 (lb_drops b) \<and> time_After t (lb_nextDrain b) \<longleftrightarrow>
      0 < i \<and> lb_lastDrained b + ?P < t"
    using int_val_less(1) [of 0 0 "lb_drops b" i] lv P(3) by (simp add: time_After_def)
  have abs: "LeakyBucket_abs b = \<lparr>ib_level = i, ib_drained = lb_lastDrained b\<rparr>"
    by (simp add: LeakyBucket_abs_def i_def)
  show thesis
  proof (cases "0 < i \<and> lb_lastDrained b + ?P < t")
    case False
    then show thesis
      using cond inv abs by (intro that [of b]) (auto simp: LeakyBucket_drain_def ib_drain_def)
  next
    case True
    define k where "k = ?D div ?P"
    have D: "0 < ?D" "time_Sub t (lb_lastDrained b) = ?D"
      using True P t by (simp_all add: time_Sub_exact int64_range_def min_int64_def max_int64_def)
    have k0: "0 \<le> k" using D(1) P(1) by (simp add: k_def pos_imp_zdiv_nonneg_iff)
    have "k * ?P = ?D - ?D mod ?P" unfolding k_def by (rule minus_mod_eq_div_mult [symmetric])
    then have kP: "k * ?P \<le> ?D" using pos_mod_sign [of ?P ?D] P(1) by simp
    have "k * 2 ^ 10 \<le> k * ?P" using k0 P(1) by (intro mult_left_mono) simp_all
    then have k53: "k < 2 ^ 53" using kP t by simp
    have "?D sdiv ?P = k" using D(1) P(1) by (simp add: signed_divide_int_def k_def sgn_if)
    then have quot: "int64_div (time_Sub t (lb_lastDrained b)) ?P = Inr k"
      using k0 k53 P(1) by (simp add: int64_div_def D(2) wrap64_id)
    have fk: "f64_finite (f64_of_int k)" "f64_val (f64_of_int k) = of_int k"
      using f64_of_int_exact [of k] k0 k53 by simp_all
    let ?low = "f64_negate (f64_of_int ?cap)" and ?d = "f64_sub (lb_drops b) (f64_of_int k)"
    have "\<bar>i + - k\<bar> < 2 ^ 53"
      using True by (intro level_diff_bound [OF _ lv(3) uint32_less(1) k0 k53]) simp
    note d = int_sum_exact [OF lv(1,2) _ _ this, of "f64_negate (f64_of_int k)"]
    have d': "f64_finite ?d" "f64_val ?d = of_int (i - k)" using d fk by (simp_all add: f64_sub_def)
    have low: "f64_finite ?low" "f64_val ?low = of_int (- ?cap)" by simp_all
    let ?e = "if f64_less ?d ?low then ?low else ?d"
    have e: "f64_finite ?e" "f64_val ?e = of_int (max (- ?cap) (i - k))"
      using d' low int_val_less(1) [OF d' low] by (auto simp: max_def)
    let ?last = "lb_lastDrained b + k * ?P"
    let ?b = "b\<lparr>lb_drops := ?e, lb_lastDrained := ?last, lb_nextDrain := ?last + ?P\<rparr>"
    have "0 \<le> k * ?P" using k0 P(1) by simp
    then have "wrap64 (k * ?P) = k * ?P" using kP t by (intro wrap64_id) simp_all
    then have run: "LeakyBucket_drain cv t b = Inr ?b"
      using True cond by (simp add: LeakyBucket_drain_def quot to_int64_of_int [OF k0 k53] time_Add_def Let_def)
    have cap: "\<bar>max (- ?cap) (i - k)\<bar> \<le> uint (lb_capability ?b)"
      using lv(3) k0 uint32_less [of "lb_capability b"] by (simp add: max_def abs_le_iff)
    note li = level_intro [OF e cap]
    have inv': "LeakyBucket_inv ?b" and level: "ib_level (LeakyBucket_abs ?b) = max (- ?cap) (i - k)"
      by (rule li; use P in simp)+
    have "LeakyBucket_abs ?b = \<lparr>ib_level = ib_level (LeakyBucket_abs ?b), ib_drained = ?last\<rparr>"
      by (simp add: LeakyBucket_abs_def)
    moreover have "ib_drain ?cap ?P t (LeakyBucket_abs b) = \<lparr>ib_level = max (- ?cap) (i - k), ib_drained = ?last\<rparr>"
      using True by (simp add: abs ib_drain_def Let_def flip: k_def)
    ultimately have "LeakyBucket_abs ?b = ib_drain ?cap ?P t (LeakyBucket_abs b)" by (simp only: level)
    from that [OF run inv' this] show thesis by simp
  qed
qed

lemma Allow_refines:
  assumes "LeakyBucket_inv b" "t - lb_lastDrained b < 2 ^ 63"
  shows "\<exists>ok b'. LeakyBucket_Allow cv t n b = Inr (ok, b') \<and> LeakyBucket_inv b' \<and>
    (ok, LeakyBucket_abs b') =
      ib_Allow (uint (lb_capability b)) (lb_drainPeriod b) t (uint n) (LeakyBucket_abs b)"
proof -
  obtain b1 where b1: "LeakyBucket_drain cv t b = Inr b1" "LeakyBucket_inv b1"
    "LeakyBucket_abs b1 = ib_drain (uint (lb_capability b)) (lb_drainPeriod b) t (LeakyBucket_abs b)"
    "lb_capability b1 = lb_capability b"
    by (rule drain_refines [OF assms]) blast
  define i where "i = \<lfloor>f64_val (lb_drops b1)\<rfloor>"
  note lv = inv_level [OF b1(2) i_def]
  have n: "\<bar>i + uint n\<bar> < 2 ^ 53"
    by (rule level_sum_bound [OF lv(3) uint32_less(1) uint32_less(2,1)])
  let ?d = "f64_add (lb_drops b1) (f64_of_int (uint n))"
  note d = int_sum_exact [OF lv(1,2) f64_of_nat32 n]
  have le: "f64_le ?d (f64_of_int (uint (lb_capability b))) \<longleftrightarrow> i + uint n \<le> uint (lb_capability b)"
    by (rule int_val_less(2) [OF d f64_of_nat32])
  have abs: "ib_level (LeakyBucket_abs b1) = i" by (simp add: LeakyBucket_abs_def i_def)
  show ?thesis
  proof (cases "i + uint n \<le> uint (lb_capability b)")
    case False
    then have "LeakyBucket_Allow cv t n b = Inr (False, b1)"
      using le by (simp add: LeakyBucket_Allow_def b1(1,4) Let_def)
    moreover from False have "ib_Allow (uint (lb_capability b)) (lb_drainPeriod b) t (uint n) (LeakyBucket_abs b)
        = (False, LeakyBucket_abs b1)"
      by (simp add: ib_Allow_def abs Let_def flip: b1(3))
    ultimately show ?thesis using b1(2) by (intro exI [of _ False] exI [of _ b1]) simp
  next
    case True
    let ?b = "b1\<lparr>lb_drops := ?d\<rparr>"
    have "\<bar>i + uint n\<bar> \<le> uint (lb_capability ?b)"
      using level_up_bound [OF True _ uint32_less(2)] lv(3) b1(4) by simp
    note li = level_intro [OF d this]
    have inv: "LeakyBucket_inv ?b" and level: "ib_level (LeakyBucket_abs ?b) = i + uint n"
      by (rule li; use b1(2) in \<open>simp add: LeakyBucket_inv_def\<close>)+
    have "LeakyBucket_abs ?b = (LeakyBucket_abs b1)\<lparr>ib_level := i + uint n\<rparr>"
      using level by (simp add: LeakyBucket_abs_def)
    with True have "ib_Allow (uint (lb_capability b)) (lb_drainPeriod b) t (uint n) (LeakyBucket_abs b)
        = (True, LeakyBucket_abs ?b)"
      by (simp add: ib_Allow_def abs Let_def flip: b1(3))
    moreover from True have "LeakyBucket_Allow cv t n b = Inr (True, ?b)"
      using le by (simp add: LeakyBucket_Allow_def b1(1,4) Let_def)
    ultimately show ?thesis using inv by (intro exI [of _ True] exI [of _ ?b]) simp
  qed
qed

end
