(* ===== verification/ClusterMessages.thy ===== *)
theory ClusterMessages
  imports ApiMessages
begin

text \<open>
  The messages of \<^verbatim>\<open>internal/cluster/pb/ratecat_cluster_v1.pb.go\<close>, in the same form as the
  API messages: the replication log entry, the snapshot of all entries, and the two internal
  requests.  The file's own copies of the varint helpers are the ones of the API file, line by line.
\<close>

type_synonym EntryAction = u32

abbreviation (input) EntryAction_PutResource :: EntryAction where "EntryAction_PutResource \<equiv> 0"
abbreviation (input) EntryAction_RemoveResource :: EntryAction where "EntryAction_RemoveResource \<equiv> 1"
abbreviation (input) EntryAction_UpdateResourceNodeId :: EntryAction where "EntryAction_UpdateResourceNodeId \<equiv> 2"
abbreviation (input) EntryAction_UpdateResourceLimiter :: EntryAction where "EntryAction_UpdateResourceLimiter \<equiv> 3"

record Entry =
  en_Id :: "byte list"
  en_Action :: "EntryAction"
  en_SrcNodeId :: "u32"
  en_Resource :: "PbResource option"

definition Entry_zero :: Entry where
  "Entry_zero = \<lparr>en_Id = [], en_Action = 0, en_SrcNodeId = 0, en_Resource = None\<rparr>"

fun Entry_Size :: "ts_codec \<Rightarrow> Entry option \<Rightarrow> nat" where
  "Entry_Size T None = 0"
| "Entry_Size T (Some m) =
       (let l = length (en_Id m) in if 0 < l then 1 + l + sovRatecatApiV1 (word_of_nat l) else 0)
     + (if en_Action m \<noteq> 0 then 1 + sovRatecatApiV1 (scast (en_Action m)) else 0)
     + (if en_SrcNodeId m \<noteq> 0 then 1 + sovRatecatApiV1 (ucast (en_SrcNodeId m)) else 0)
     + (case en_Resource m of None \<Rightarrow> 0
        | Some e \<Rightarrow> let l = Resource_Size T (Some e) in 1 + l + sovRatecatApiV1 (word_of_nat l))"

fun Entry_MarshalToSizedBuffer :: "ts_codec \<Rightarrow> Entry option \<Rightarrow> marshaller" where
  "Entry_MarshalToSizedBuffer T None dAtA = Inl nil_deref"
| "Entry_MarshalToSizedBuffer T (Some m) dAtA =
     marshal_to_sized
       [whenW (en_Resource m \<noteq> None)
          (put_msg 0x22 (Resource_MarshalToSizedBuffer T (en_Resource m))),
        whenW (en_SrcNodeId m \<noteq> 0) (put_varint 0x18 (ucast (en_SrcNodeId m))),
        whenW (en_Action m \<noteq> 0) (put_varint 0x10 (scast (en_Action m))),
        whenW (0 < length (en_Id m)) (put_bytes 0xa (en_Id m))] dAtA"

definition Entry_Marshal :: "ts_codec \<Rightarrow> Entry option \<Rightarrow> byte list res" where
  "Entry_Marshal T p = marshal_with (Entry_Size T p) (Entry_MarshalToSizedBuffer T p)"

definition Entry_switch :: "ts_codec \<Rightarrow> Entry switch" where
  "Entry_switch T = switch_on
     [(1, on_bytes ''Id'' (\<lambda>s m. m\<lparr>en_Id := s\<rparr>)),
      (2, on_varint ''Action'' (\<lambda>v m. m\<lparr>en_Action := v\<rparr>)),
      (3, on_varint ''SrcNodeId'' (\<lambda>v m. m\<lparr>en_SrcNodeId := v\<rparr>)),
      (4, on_ptr ''Resource'' en_Resource (\<lambda>p m. m\<lparr>en_Resource := p\<rparr>) Resource_zero (Resource_Unmarshal T))]"

definition Entry_Unmarshal :: "ts_codec \<Rightarrow> Entry \<Rightarrow> byte list \<Rightarrow> Entry res" where
  "Entry_Unmarshal T = unmarshal_with ''Entry'' (Entry_switch T)"

record EntrySnapshot =
  es_Entries :: "Entry option list"

definition EntrySnapshot_zero :: EntrySnapshot where
  "EntrySnapshot_zero = \<lparr>es_Entries = []\<rparr>"

fun EntrySnapshot_Size :: "ts_codec \<Rightarrow> EntrySnapshot option \<Rightarrow> nat" where
  "EntrySnapshot_Size T None = 0"
| "EntrySnapshot_Size T (Some m) =
       sum_list (map (\<lambda>e. let l = Entry_Size T e in 1 + l + sovRatecatApiV1 (word_of_nat l)) (es_Entries m))"

fun EntrySnapshot_MarshalToSizedBuffer :: "ts_codec \<Rightarrow> EntrySnapshot option \<Rightarrow> marshaller" where
  "EntrySnapshot_MarshalToSizedBuffer T None dAtA = Inl nil_deref"
| "EntrySnapshot_MarshalToSizedBuffer T (Some m) dAtA =
     marshal_to_sized
       (map (\<lambda>e. put_msg 0xa (Entry_MarshalToSizedBuffer T e)) (rev (es_Entries m))) dAtA"

definition EntrySnapshot_Marshal :: "ts_codec \<Rightarrow> EntrySnapshot option \<Rightarrow> byte list res" where
  "EntrySnapshot_Marshal T p = marshal_with (EntrySnapshot_Size T p) (EntrySnapshot_MarshalToSizedBuffer T p)"

definition EntrySnapshot_switch :: "ts_codec \<Rightarrow> EntrySnapshot switch" where
  "EntrySnapshot_switch T = switch_on
     [(1, on_new ''Entries'' (\<lambda>e m. m\<lparr>es_Entries := es_Entries m @ [Some e]\<rparr>) Entry_zero (Entry_Unmarshal T))]"

definition EntrySnapshot_Unmarshal :: "ts_codec \<Rightarrow> EntrySnapshot \<Rightarrow> byte list \<Rightarrow> EntrySnapshot res" where
  "EntrySnapshot_Unmarshal T = unmarshal_with ''EntrySnapshot'' (EntrySnapshot_switch T)"

record AvgRpsReq =
  av_LastSecs :: "u32"

definition AvgRpsReq_zero :: AvgRpsReq where
  "AvgRpsReq_zero = \<lparr>av_LastSecs = 0\<rparr>"

fun AvgRpsReq_Size :: "ts_codec \<Rightarrow> AvgRpsReq option \<Rightarrow> nat" where
  "AvgRpsReq_Size T None = 0"
| "AvgRpsReq_Size T (Some m) =
       (if av_LastSecs m \<noteq> 0 then 1 + sovRatecatApiV1 (ucast (av_LastSecs m)) else 0)"

fun AvgRpsReq_MarshalToSizedBuffer :: "ts_codec \<Rightarrow> AvgRpsReq option \<Rightarrow> marshaller" where
  "AvgRpsReq_MarshalToSizedBuffer T None dAtA = Inl nil_deref"
| "AvgRpsReq_MarshalToSizedBuffer T (Some m) dAtA =
     marshal_to_sized
       [whenW (av_LastSecs m \<noteq> 0) (put_varint 0x8 (ucast (av_LastSecs m)))] dAtA"

definition AvgRpsReq_Marshal :: "ts_codec \<Rightarrow> AvgRpsReq option \<Rightarrow> byte list res" where
  "AvgRpsReq_Marshal T p = marshal_with (AvgRpsReq_Size T p) (AvgRpsReq_MarshalToSizedBuffer T p)"

definition AvgRpsReq_switch :: "ts_codec \<Rightarrow> AvgRpsReq switch" where
  "AvgRpsReq_switch T = switch_on
     [(1, on_varint ''LastSecs'' (\<lambda>v m. m\<lparr>av_LastSecs := v\<rparr>))]"

definition AvgRpsReq_Unmarshal :: "ts_codec \<Rightarrow> AvgRpsReq \<Rightarrow> byte list \<Rightarrow> AvgRpsReq res" where
  "AvgRpsReq_Unmarshal T = unmarshal_with ''AvgRpsReq'' (AvgRpsReq_switch T)"

record IsEntryAppliedReq =
  ia_Id :: "byte list"

definition IsEntryAppliedReq_zero :: IsEntryAppliedReq where
  "IsEntryAppliedReq_zero = \<lparr>ia_Id = []\<rparr>"

fun IsEntryAppliedReq_Size :: "ts_codec \<Rightarrow> IsEntryAppliedReq option \<Rightarrow> nat" where
  "IsEntryAppliedReq_Size T None = 0"
| "IsEntryAppliedReq_Size T (Some m) =
       (let l = length (ia_Id m) in if 0 < l then 1 + l + sovRatecatApiV1 (word_of_nat l) else 0)"

fun IsEntryAppliedReq_MarshalToSizedBuffer :: "ts_codec \<Rightarrow> IsEntryAppliedReq option \<Rightarrow> marshaller" where
  "IsEntryAppliedReq_MarshalToSizedBuffer T None dAtA = Inl nil_deref"
| "IsEntryAppliedReq_MarshalToSizedBuffer T (Some m) dAtA =
     marshal_to_sized
       [whenW (0 < length (ia_Id m)) (put_bytes 0xa (ia_Id m))] dAtA"

definition IsEntryAppliedReq_Marshal :: "ts_codec \<Rightarrow> IsEntryAppliedReq option \<Rightarrow> byte list res" where
  "IsEntryAppliedReq_Marshal T p = marshal_with (IsEntryAppliedReq_Size T p) (IsEntryAppliedReq_MarshalToSizedBuffer T p)"

definition IsEntryAppliedReq_switch :: "ts_codec \<Rightarrow> IsEntryAppliedReq switch" where
  "IsEntryAppliedReq_switch T = switch_on
     [(1, on_bytes ''Id'' (\<lambda>s m. m\<lparr>ia_Id := s\<rparr>))]"

definition IsEntryAppliedReq_Unmarshal :: "ts_codec \<Rightarrow> IsEntryAppliedReq \<Rightarrow> byte list \<Rightarrow> IsEntryAppliedReq res" where
  "IsEntryAppliedReq_Unmarshal T = unmarshal_with ''IsEntryAppliedReq'' (IsEntryAppliedReq_switch T)"

end
