(* ===== verification/ProtoLaws.thy ===== *)
theory ProtoLaws
  imports ProtoWire
begin

unbundle bit_operations_syntax

text \<open>
  The laws of the protobuf byte level: the bytes of a varint as a pure function
  (\<open>enc_varint\<close>) that the in-place, back-to-front \<open>encodeVarintRatecatApiV1\<close> is shown to
  refine; \<open>writes\<close>, the contract of a writer step, with one law per field writer; and
  \<open>decodes\<close>, the contract of a run of the decoding loop over one encoded field, closed under
  concatenation.  The message theories only combine these.
\<close>

section \<open>Varints\<close>

text \<open>The bytes of a varint: seven bits each, low group first, the top bit marks continuation.\<close>

function enc_varint :: "u64 \<Rightarrow> byte list" where
  "enc_varint v =
     (if 128 \<le> v then ucast (v AND 0x7f OR 0x80) # enc_varint (drop_bit 7 v) else [ucast v])"
  by pat_completeness auto
termination
proof (relation "measure unat", goal_cases)
  case 1
  show ?case by simp
next
  case (2 v)
  then have "128 \<le> unat v" by (simp add: word_le_nat_alt)
  then have "unat (drop_bit 7 v) < unat v" by (simp add: unat_drop_bit_7)
  then show ?case by simp
qed

declare enc_varint.simps [simp del]

lemma enc_varint_ne [simp]: "enc_varint v \<noteq> []"
  by (simp add: enc_varint.simps [of v])

lemma len64_0 [simp]: "len64 0 = 0"
  by (simp add: len64.simps)

lemma len64_Suc: "0 < n \<Longrightarrow> len64 n = Suc (len64 (n div 2))"
  by (simp add: len64.simps [of n])

lemma len64_div128: "128 \<le> n \<Longrightarrow> len64 n = len64 (n div 128) + 7"
  by (simp add: len64_Suc [of n] len64_Suc [of "n div 2"] len64_Suc [of "n div 4"]
      len64_Suc [of "n div 8"] len64_Suc [of "n div 16"] len64_Suc [of "n div 32"]
      len64_Suc [of "n div 64"] div_greater_zero_iff flip: div_mult2_eq)

lemma len64_le: "n < 2 ^ k \<Longrightarrow> len64 n \<le> k"
proof (induction k arbitrary: n)
  case 0
  then show ?case by simp
next
  case (Suc k)
  then have "len64 (n div 2) \<le> k" by simp
  then show ?case by (simp add: len64.simps [of n])
qed

lemma unat_or_1: "unat (x OR 1 :: u64) = (if even (unat x) then unat x + 1 else unat x)"
proof -
  have "unat (x OR 1) = unat x OR 1" by (simp only: unsigned_or_eq unsigned_1)
  then show ?thesis by (simp only: or_one_eq) simp
qed

lemma len64_or_1: "len64 (unat (x OR 1 :: u64)) = (if x = 0 then 1 else len64 (unat x))"
proof (cases "x = 0")
  case True
  then show ?thesis by (simp add: len64.simps)
next
  case False
  then have "0 < unat x" by (simp add: unat_gt_0)
  then show ?thesis
    using False by (auto simp add: unat_or_1 len64_Suc [of "Suc (unat x)"] len64_Suc [of "unat x"])
qed

lemma sov_small: "v < 128 \<Longrightarrow> sovRatecatApiV1 v = 1"
proof -
  assume "v < 128"
  then have "unat v < 2 ^ 7" by (simp add: word_less_nat_alt)
  then have le: "len64 (unat v) \<le> 7" by (rule len64_le)
  show ?thesis
  proof (cases "v = 0")
    case True
    then show ?thesis by (simp add: sovRatecatApiV1_def len64_or_1 len64_Suc)
  next
    case False
    then have "0 < len64 (unat v)" by (simp add: unat_gt_0 len64_Suc)
    with False le show ?thesis unfolding sovRatecatApiV1_def len64_or_1 by simp
  qed
qed

lemma sov_step:
  assumes "128 \<le> v" 
  shows "sovRatecatApiV1 v = Suc (sovRatecatApiV1 (drop_bit 7 v))"
proof -
  have v: "128 \<le> unat v" using assms by (simp add: word_le_nat_alt)
  have nz: "v \<noteq> 0" "drop_bit 7 v \<noteq> 0"
    using v unat_drop_bit_7 [of v] by (auto simp: unat_eq_0)
  show ?thesis
    unfolding sovRatecatApiV1_def len64_or_1 using nz len64_div128 [OF v] by (simp add: unat_drop_bit_7)
qed

lemma length_enc_varint: "length (enc_varint v) = sovRatecatApiV1 v"
proof (induction v rule: enc_varint.induct)
  case (1 v)
  show ?case
  proof (cases "128 \<le> v")
    case True
    with 1 show ?thesis by (simp only: enc_varint.simps [of v] sov_step if_True list.size)
  next
    case False
    then show ?thesis by (simp add: enc_varint.simps [of v] sov_small)
  qed
qed

lemma encodeVarint_loop_eq:
  assumes "n + length (enc_varint v) \<le> length d"
  shows "encodeVarint_loop d (int n) v =
           Inr (take n d @ enc_varint v @ drop (n + length (enc_varint v)) d)"
  using assms
proof (induction v arbitrary: d n rule: enc_varint.induct)
  case (1 v)
  show ?case
  proof (cases "128 \<le> v")
    case False
    then show ?thesis using "1.prems"
      by (simp add: encodeVarint_loop.simps [of d] enc_varint.simps [of v] set_byte_def upd_conv_take_nth_drop)
  next
    case True
    let ?d = "d[n := ucast (v AND 0x7f OR 0x80)]"
    have e: "enc_varint v = ucast (v AND 0x7f OR 0x80) # enc_varint (drop_bit 7 v)"
      using True by (simp add: enc_varint.simps [of v])
    have "encodeVarint_loop d (int n) v = encodeVarint_loop ?d (int (Suc n)) (drop_bit 7 v)"
      using True "1.prems" by (simp add: encodeVarint_loop.simps [of d] set_byte_def e add.commute)
    also have "\<dots> = Inr (take (Suc n) ?d @ enc_varint (drop_bit 7 v) @
         drop (Suc n + length (enc_varint (drop_bit 7 v))) ?d)"
      by (rule "1.IH") (use True "1.prems" e in auto)
    finally show ?thesis using "1.prems" e
      by (simp add: upd_conv_take_nth_drop take_Suc_conv_app_nth)
  qed
qed

lemma and_7f: "x AND 0x7f = take_bit 7 (x :: 'a::len word)"
  by (simp add: take_bit_eq_mask mask_eq_exp_minus_1)

lemma or_80_low: "take_bit 7 (ucast (take_bit 7 v OR 0x80 :: u64) :: byte) = ucast (take_bit 7 v)"
proof (rule bit_eqI)
  have m2: "bit (0x80 :: u64) k \<longleftrightarrow> k = 7" for k
  proof -
    have "(0x80::u64) = push_bit 7 1" by simp
    then show ?thesis by (simp only: bit_push_bit_iff bit_1_iff) auto
  qed
  fix n
  show "bit (take_bit 7 (ucast (take_bit 7 v OR 0x80 :: u64) :: byte)) n = bit (ucast (take_bit 7 v) :: byte) n"
    by (auto simp only: bit_simps m2)
qed

lemma varint_bits:
  "(acc OR push_bit s (ucast (take_bit 7 v))) OR push_bit (s + 7) (ucast (drop_bit 7 v))
     = (acc OR push_bit s (ucast (v::u64)) :: 'a::len word)"
proof (rule bit_eqI)
  fix n
  assume n: "possible_bit TYPE('a word) n"
  show "bit ((acc OR push_bit s (ucast (take_bit 7 v))) OR push_bit (s + 7) (ucast (drop_bit 7 v))) n
     = bit (acc OR push_bit s (ucast v) :: 'a word) n"
    using n by (cases "s \<le> n"; cases "n - s < 7") (auto simp: bit_simps)
qed

lemma encodeVarint_eq:
  assumes "length (enc_varint v) \<le> n" "n \<le> length d"
  shows "encodeVarintRatecatApiV1 d (int n) v =
     Inr (take (n - length (enc_varint v)) d @ enc_varint v @ drop n d, int (n - length (enc_varint v)))"
proof -
  let ?l = "length (enc_varint v)"
  have "int n - int (sovRatecatApiV1 v) = int (n - ?l)"
    using assms by (simp add: length_enc_varint of_nat_diff)
  moreover have "encodeVarint_loop d (int (n - ?l)) v = Inr (take (n - ?l) d @ enc_varint v @ drop n d)"
    using encodeVarint_loop_eq [of "n - ?l" v d] assms by simp
  ultimately show ?thesis by (simp add: encodeVarintRatecatApiV1_def)
qed

lemma length_enc_varint_le: "length (enc_varint v) \<le> 10"
proof -
  have "unat (v OR 1) < 2 ^ 64" using unsigned_less [of "v OR 1"] by simp
  then have "len64 (unat (v OR 1)) \<le> 64" by (rule len64_le)
  then show ?thesis by (simp add: length_enc_varint sovRatecatApiV1_def)
qed

lemma take_bit_7_small: "unat w < 128 \<Longrightarrow> take_bit 7 w = w"
  unfolding word_unat_eq_iff unsigned_take_bit_eq by (simp add: take_bit_eq_mod)

lemma low_byte_less: "unat (v :: u64) < 128 \<Longrightarrow> (ucast v :: byte) < 0x80"
  by (simp add: word_less_nat_alt unsigned_ucast_eq take_bit_eq_mod)

lemma high_byte_not_less: "\<not> (ucast (take_bit 7 v OR 0x80 :: u64) :: byte) < 0x80"
proof
  let ?b = "ucast (take_bit 7 v OR 0x80 :: u64) :: byte"
  assume "?b < 0x80"
  then have "take_bit 7 ?b = ?b" by (simp add: take_bit_7_small word_less_nat_alt)
  then have "\<not> bit ?b 7" by (metis bit_take_bit_iff less_irrefl)
  moreover have "bit (0x80 :: u64) 7"
  proof -
    have "(0x80::u64) = push_bit 7 1" by simp
    then show ?thesis by (simp only: bit_push_bit_iff bit_1_iff) auto
  qed
  ultimately show False by (simp add: bit_simps)
qed

lemma ucast_low_byte: "ucast (ucast (take_bit 7 v :: u64) :: byte) = (ucast (take_bit 7 v) :: 'a::len word)"
  by (rule bit_eqI) (auto simp: bit_simps)

lemma read_varint_enc:
  assumes "s + 7 * length (enc_varint v) \<le> 70"
  shows "read_varint (pre @ enc_varint v @ post) (length pre) s acc =
     Inr (acc OR push_bit s (ucast v) :: 'a::len word, length pre + length (enc_varint v))"
  using assms
proof (induction v arbitrary: pre s acc rule: enc_varint.induct)
  case (1 v)
  show ?case
  proof (cases "128 \<le> v")
    case False
    then have v: "unat v < 128" by (simp add: word_le_nat_alt)
    then have low: "take_bit 7 v = v" by (rule take_bit_7_small)
    have e: "enc_varint v = [ucast v]" using False by (simp add: enc_varint.simps [of v])
    have lt: "(ucast v :: byte) < 0x80" using v by (rule low_byte_less)
    then have "take_bit 7 (ucast v :: byte) = ucast v"
      by (simp add: take_bit_7_small word_less_nat_alt)
    then have "ucast ((ucast v :: byte) AND 0x7f) = (ucast v :: 'a word)"
      using ucast_low_byte [of v, where 'a = 'a] by (simp only: and_7f low)
    with lt e "1.prems" show ?thesis by (simp add: read_varint.simps [of _ "length pre"] get_byte_def nth_append)
  next
    case True
    let ?b = "ucast (v AND 0x7f OR 0x80) :: byte"
    let ?acc = "acc OR push_bit s (ucast (take_bit 7 v)) :: 'a word"
    have e: "enc_varint v = ?b # enc_varint (drop_bit 7 v)"
      using True by (simp add: enc_varint.simps [of v])
    have b: "\<not> ?b < 0x80" unfolding and_7f by (rule high_byte_not_less)
    have b7: "ucast (?b AND 0x7f) = (ucast (take_bit 7 v) :: 'a word)"
      by (simp only: and_7f or_80_low ucast_low_byte)
    have s: "s < 64" using "1.prems" by (auto simp: e Suc_le_eq)
    have "read_varint (pre @ enc_varint v @ post) (length pre) s acc =
       read_varint ((pre @ [?b]) @ enc_varint (drop_bit 7 v) @ post) (length (pre @ [?b])) (s + 7) ?acc"
      using s b by (simp add: read_varint.simps [of _ "length pre"] get_byte_def nth_append e b7 Let_def)
    also have "\<dots> = Inr (?acc OR push_bit (s + 7) (ucast (drop_bit 7 v)), length (pre @ [?b]) + length (enc_varint (drop_bit 7 v)))"
      by (rule "1.IH") (use True "1.prems" e in auto)
    finally show ?thesis unfolding varint_bits by (simp add: e)
  qed
qed


section \<open>Writers\<close>

named_theorems writes_intros

definition writes :: "wstep \<Rightarrow> byte list \<Rightarrow> bool" where
  "writes w bs \<longleftrightarrow> (\<forall>d n. length bs \<le> n \<and> n \<le> length d \<longrightarrow>
     w (d, int n) = Inr (take (n - length bs) d @ bs @ drop n d, int (n - length bs)))"

lemma writesI:
  assumes "\<And>d n. length bs \<le> n \<Longrightarrow> n \<le> length d \<Longrightarrow>
     w (d, int n) = Inr (take (n - length bs) d @ bs @ drop n d, int (n - length bs))"
  shows "writes w bs"
  using assms by (simp add: writes_def)

lemma writesD:
  "writes w bs \<Longrightarrow> length bs \<le> n \<Longrightarrow> n \<le> length d \<Longrightarrow>
     w (d, int n) = Inr (take (n - length bs) d @ bs @ drop n d, int (n - length bs))"
  by (simp add: writes_def)

text \<open>Two steps in sequence: the second puts its bytes in front of the first's.\<close>

lemma writes_bind:
  assumes "writes w1 bs1" "writes w2 bs2"
  shows "writes (\<lambda>st. bindR (w1 st) w2) (bs2 @ bs1)"
proof (rule writesI)
  fix d :: "byte list" and n
  assume n: "length (bs2 @ bs1) \<le> n" "n \<le> length d"
  let ?d = "take (n - length bs1) d @ bs1 @ drop n d"
  have "w1 (d, int n) = Inr (?d, int (n - length bs1))"
    using n by (intro writesD [OF assms(1)]) auto
  moreover have "w2 (?d, int (n - length bs1)) =
      Inr (take (n - length bs1 - length bs2) ?d @ bs2 @ drop (n - length bs1) ?d,
           int (n - length bs1 - length bs2))"
    using n by (intro writesD [OF assms(2)]) auto
  ultimately show "bindR (w1 (d, int n)) w2 =
      Inr (take (n - length (bs2 @ bs1)) d @ (bs2 @ bs1) @ drop n d, int (n - length (bs2 @ bs1)))"
    using n by (simp add: min_def add.commute)
qed

lemma writes_seqW_Nil [writes_intros]: "writes (seqW []) []"
  by (simp add: writes_def)

lemma writes_seqW_Cons [writes_intros]:
  "writes w bs \<Longrightarrow> writes (seqW ws) cs \<Longrightarrow> writes (seqW (w # ws)) (cs @ bs)"
  using writes_bind [of w bs "seqW ws" cs] by (simp add: writes_def)

lemma writes_whenW [writes_intros]:
  "(b \<Longrightarrow> writes w bs) \<Longrightarrow> writes (whenW b w) (if b then bs else [])"
  by (cases b) (simp_all add: whenW_def writes_def)

lemma whenW_True: "whenW True w = w"
  by (simp add: whenW_def fun_eq_iff)

lemma set_byte_below: "0 < n \<Longrightarrow> n \<le> length d \<Longrightarrow>
   set_byte d (int n - 1) b = Inr (take (n - 1) d @ b # drop n d)"
  by (simp add: set_byte_def upd_conv_take_nth_drop nat_diff_distrib int_ops(6) of_nat_diff)

lemma writes_put_tag: "writes (put_tag tag) [tag]"
  by (rule writesI) (simp add: put_tag_def set_byte_below of_nat_diff Suc_le_eq)

lemma writes_varint: "writes (\<lambda>(d, i). encodeVarintRatecatApiV1 d i v) (enc_varint v)"
  by (rule writesI) (simp add: encodeVarint_eq)

lemma writes_put_varint [writes_intros]: "writes (put_varint tag v) (tag # enc_varint v)"
  using writes_bind [OF writes_varint [of v] writes_put_tag [of tag]]
  by (simp add: put_varint_def case_prod_unfold)

lemma copy_at_below: "length s \<le> n \<Longrightarrow> n \<le> length d \<Longrightarrow>
   copy_at d (int (n - length s)) s = Inr (take (n - length s) d @ s @ drop n d)"
  by (simp add: copy_at_def Let_def nat_diff_distrib)

lemma writes_copy: "writes (\<lambda>(d, i). bindR (copy_at d (i - int (length s)) s) (\<lambda>d. Inr (d, i - int (length s)))) s"
  by (rule writesI) (simp add: copy_at_below flip: of_nat_diff)

lemma writes_put_bytes [writes_intros]:
  "writes (put_bytes tag s) (tag # enc_varint (word_of_nat (length s)) @ s)"
proof -
  have "writes (put_bytes tag s) ([tag] @ (enc_varint (word_of_nat (length s)) @ s))"
    using writes_bind [OF writes_bind [OF writes_copy [of s] writes_varint [of "word_of_nat (length s)"]] writes_put_tag [of tag]]
    by (simp add: put_bytes_def case_prod_unfold Let_def bindR_assoc)
  then show ?thesis by simp
qed

lemma writes_put_bool [writes_intros]: "writes (put_bool tag b) [tag, if b then 1 else 0]"
proof -
  have "writes (\<lambda>(d, i). put_tag (if b then 1 else 0) (d, i)) [if b then 1 else 0]"
    using writes_put_tag by simp
  from writes_bind [OF this writes_put_tag [of tag]] show ?thesis
    by (simp add: put_bool_def put_tag_def case_prod_unfold bindR_assoc)
qed

lemma writes_put_double [writes_intros]: "writes (put_double tag f) (tag # le_bytes 8 (unat f))"
proof -
  let ?s = "le_bytes 8 (unat f)"
  have "writes (\<lambda>(d, i). if 0 \<le> i - 8 \<and> i \<le> int (length d)
      then bindR (copy_at d (i - 8) ?s) (\<lambda>d. Inr (d, i - 8)) else Inl (Panic ''index out of range'')) ?s"
    by (rule writesI) (use copy_at_below [of ?s] in \<open>simp add: of_nat_diff\<close>)
  from writes_bind [OF this writes_put_tag [of tag]] have "writes (put_double tag f) ([tag] @ ?s)"
    by (rule back_subst [of "\<lambda>w. writes w ([tag] @ ?s)"])
      (auto simp: put_double_def Let_def bindR_assoc fun_eq_iff)
  then show ?thesis by simp
qed

text \<open>A message's marshaller puts its bytes at the end of the buffer it is given.\<close>

definition marshals :: "marshaller \<Rightarrow> byte list \<Rightarrow> bool" where
  "marshals mar bs \<longleftrightarrow> (\<forall>d. length bs \<le> length d \<longrightarrow>
     mar d = Inr (take (length d - length bs) d @ bs, int (length bs)))"

lemma marshalsD: "marshals mar bs \<Longrightarrow> length bs \<le> length d \<Longrightarrow>
     mar d = Inr (take (length d - length bs) d @ bs, int (length bs))"
  by (simp add: marshals_def)

lemma marshals_fields: "writes (seqW ws) bs \<Longrightarrow> marshals (marshal_to_sized ws) bs"
  by (simp add: marshals_def marshal_to_sized_def writesD)

lemma marshal_with_eq: "marshals mar bs \<Longrightarrow> sz = length bs \<Longrightarrow> marshal_with sz mar = Inr bs"
  by (simp add: marshal_with_def marshalsD)

lemma writes_put_msg [writes_intros]:
  assumes "marshals mar bs"
  shows "writes (put_msg tag mar) (tag # enc_varint (word_of_nat (length bs)) @ bs)"
proof -
  let ?w = "\<lambda>(d, i). if 0 \<le> i \<and> i \<le> int (length d)
     then bindR (mar (take (nat i) d)) (\<lambda>(front, sz). Inr (front @ drop (nat i) d, i - sz))
     else Inl (Panic ''slice bounds out of range'')"
  have w: "writes ?w bs"
    by (rule writesI) (simp add: marshalsD [OF assms] of_nat_diff min_def)
  have "writes (put_msg tag mar) ([tag] @ (enc_varint (word_of_nat (length bs)) @ bs))"
  proof (rule writesI)
    fix d :: "byte list" and n
    assume n: "length ([tag] @ enc_varint (word_of_nat (length bs)) @ bs) \<le> n" "n \<le> length d"
    from writesD [OF writes_bind [OF writes_bind [OF w writes_varint [of "word_of_nat (length bs)"]] writes_put_tag [of tag]] n]
    show "put_msg tag mar (d, int n) = Inr (take (n - length ([tag] @ enc_varint (word_of_nat (length bs)) @ bs)) d @
             ([tag] @ enc_varint (word_of_nat (length bs)) @ bs) @ drop n d,
           int (n - length ([tag] @ enc_varint (word_of_nat (length bs)) @ bs)))"
      using n by (simp add: put_msg_def marshalsD [OF assms])
  qed
  then show ?thesis by simp
qed

lemma writes_put_oneof [writes_intros]:
  assumes "marshals mar bs" "sz = length bs"
  shows "writes (put_oneof sz mar) bs"
proof (rule writesI)
  fix d :: "byte list" and n
  assume n: "length bs \<le> n" "n \<le> length d"
  then have "mar (take (length bs) (drop (n - length bs) d)) = Inr (bs, int (length bs))"
    by (subst marshalsD [OF assms(1)]) auto
  with n show "put_oneof sz mar (d, int n) = Inr (take (n - length bs) d @ bs @ drop n d, int (n - length bs))"
    by (simp add: put_oneof_def assms(2) Let_def of_nat_diff nat_diff_distrib)
qed


section \<open>Readers\<close>

definition decodes :: "string \<Rightarrow> 'm switch \<Rightarrow> byte list \<Rightarrow> 'm \<Rightarrow> 'm \<Rightarrow> bool" where
  "decodes name sw bs m m' \<longleftrightarrow> (\<forall>pre post. length (pre @ bs @ post) < 2 ^ 63 \<longrightarrow>
     (\<exists>k \<le> length bs. \<forall>f. unmarshal_loop (k + f) name sw (pre @ bs @ post) (length pre) m =
        unmarshal_loop f name sw (pre @ bs @ post) (length pre + length bs) m'))"

lemma decodes_Nil: "decodes name sw [] m m"
  by (simp add: decodes_def)

lemma decodes_append:
  assumes "decodes name sw bs m m'" "decodes name sw cs m' m''"
  shows "decodes name sw (bs @ cs) m m''"
  unfolding decodes_def
proof (intro allI impI)
  fix pre post :: "byte list"
  assume len: "length (pre @ (bs @ cs) @ post) < 2 ^ 63"
  let ?d = "pre @ bs @ cs @ post"
  from assms(1) len obtain k where k: "k \<le> length bs"
    "\<And>f. unmarshal_loop (k + f) name sw ?d (length pre) m = unmarshal_loop f name sw ?d (length pre + length bs) m'"
    unfolding decodes_def by (metis append.assoc)
  have "length ((pre @ bs) @ cs @ post) < 2 ^ 63" using len by simp
  with assms(2) obtain j where j: "j \<le> length cs"
    "\<And>f. unmarshal_loop (j + f) name sw ((pre @ bs) @ cs @ post) (length (pre @ bs)) m' =
      unmarshal_loop f name sw ((pre @ bs) @ cs @ post) (length (pre @ bs) + length cs) m''"
    unfolding decodes_def by blast
  have "unmarshal_loop ((k + j) + f) name sw ?d (length pre) m =
      unmarshal_loop f name sw ?d (length pre + length (bs @ cs)) m''" for f
    using k(2) [of "j + f"] j(2) [of f] by (simp add: add.assoc)
  with k(1) j(1) show "\<exists>k \<le> length (bs @ cs). \<forall>f. unmarshal_loop (k + f) name sw (pre @ (bs @ cs) @ post) (length pre) m =
      unmarshal_loop f name sw (pre @ (bs @ cs) @ post) (length pre + length (bs @ cs)) m''"
    by (intro exI [of _ "k + j"]) simp
qed

lemma decodes_opt:
  "(b \<Longrightarrow> decodes name sw bs m m') \<Longrightarrow> (\<not> b \<Longrightarrow> m' = m) \<Longrightarrow>
     decodes name sw (if b then bs else []) m m'"
  by (cases b) (simp_all add: decodes_Nil)

lemma unmarshal_with_decodes:
  assumes "decodes name sw bs m m'" "length bs < 2 ^ 63"
  shows "unmarshal_with name sw m bs = Inr m'"
proof -
  from assms obtain k where k: "k \<le> length bs"
    "\<And>f. unmarshal_loop (k + f) name sw bs 0 m = unmarshal_loop f name sw bs (length bs) m'"
    unfolding decodes_def by (metis append_Nil append_Nil2 add_0 list.size(3))
  then have "unmarshal_with name sw m bs = unmarshal_loop (Suc (length bs - k)) name sw bs (length bs) m'"
    unfolding unmarshal_with_def using k(2) [of "Suc (length bs - k)"] by simp
  then show ?thesis by (simp add: unmarshal_loop.simps)
qed

lemma read_varint_enc0:
  "read_varint (pre @ enc_varint v @ post) (length pre) 0 0 =
     Inr (ucast v :: 'a::len word, length pre + length (enc_varint v))"
  using read_varint_enc [of 0 v pre post 0] length_enc_varint_le [of v] by simp

text \<open>A tag of one byte below 128: its wire type is the low three bits, its field number the rest.\<close>

definition tag_field :: "byte \<Rightarrow> nat" where
  "tag_field tag = unat tag div 8"

definition tag_wire :: "byte \<Rightarrow> nat" where
  "tag_wire tag = unat tag mod 8"

lemma byte_unat_less: "unat (b :: byte) < 256"
proof -
  have "unat b < 2 ^ LENGTH(8)" by (rule unsigned_less)
  then show ?thesis by simp
qed

lemma ucast_byte_id: "ucast (ucast (b :: byte) :: u64) = b"
  by (rule bit_eqI) (auto simp: bit_simps)

lemma unat_ucast_byte: "unat (ucast (b :: byte) :: u64) = unat b"
  using byte_unat_less [of b] by (simp only: unsigned_ucast_eq take_bit_eq_mod) simp

lemma sint_small_u32: "unat (w :: u32) < 2 ^ 31 \<Longrightarrow> sint w = int (unat w)"
proof -
  assume "unat w < 2 ^ 31"
  then have "int (unat w) < 2 ^ 31" by (simp only: of_nat_less_numeral_power_cancel_iff)
  moreover have "- (2 ^ 31) \<le> int (unat w)" by (rule order_trans [of _ 0]) simp_all
  ultimately show ?thesis
    unfolding sint_uint uint_nat by (intro signed_take_bit_int_eq_self) simp_all
qed

lemma sint_small_u64: "unat (w :: u64) < 2 ^ 63 \<Longrightarrow> sint w = int (unat w)"
proof -
  assume "unat w < 2 ^ 63"
  then have "int (unat w) < 2 ^ 63" by (simp only: of_nat_less_numeral_power_cancel_iff)
  moreover have "- (2 ^ 63) \<le> int (unat w)" by (rule order_trans [of _ 0]) simp_all
  ultimately show ?thesis
    unfolding sint_uint uint_nat by (intro signed_take_bit_int_eq_self) simp_all
qed

lemma tag_wire_eq: "unat ((ucast tag :: u64) AND 7) = tag_wire tag"
proof -
  have "(7 :: u64) = mask 3" by (simp add: mask_eq_exp_minus_1)
  then have "unat ((ucast tag :: u64) AND 7) = unat (take_bit 3 (ucast tag :: u64))"
    by (simp only: take_bit_eq_mask)
  also have "\<dots> = unat tag mod 8"
    unfolding unsigned_take_bit_eq unat_ucast_byte by (simp add: take_bit_eq_mod)
  finally show ?thesis by (simp add: tag_wire_def)
qed

lemma tag_field_eq: "sint (ucast (drop_bit 3 (ucast tag :: u64)) :: u32) = int (tag_field tag)"
proof -
  let ?w = "ucast (drop_bit 3 (ucast tag :: u64)) :: u32"
  have "unat (drop_bit 3 (ucast tag :: u64)) = unat tag div 8"
    unfolding unat_drop_bit_eq unat_ucast_byte by (simp add: drop_bit_eq_div)
  moreover have "unat tag div 8 < 2 ^ 31" using byte_unat_less [of tag] by simp
  ultimately have "unat ?w = unat tag div 8" and "unat ?w < 2 ^ 31"
    by (simp_all only: unsigned_ucast_eq take_bit_eq_mod) simp_all
  then show ?thesis by (simp only: sint_small_u32 tag_field_def)
qed

lemma read_tag:
  assumes "unat tag < 128"
  shows "read_varint (pre @ tag # post) (length pre) 0 (0 :: u64) = Inr (ucast tag, length pre + 1)"
proof -
  have "\<not> 128 \<le> (ucast tag :: u64)"
    using assms by (simp only: word_le_nat_alt unat_ucast_byte) simp
  then have "enc_varint (ucast tag) = [tag]"
    by (simp only: enc_varint.simps [of "ucast tag"] if_False ucast_byte_id)
  with read_varint_enc0 [of pre "ucast tag" post, where 'a = 64] show ?thesis by simp
qed

lemma decodes_field:
  assumes tag: "unat tag < 128" "8 \<le> unat tag" "tag_wire tag \<noteq> 4"
    and sw: "\<And>pre post. length (pre @ bs @ post) < 2 ^ 63 \<Longrightarrow>
      sw (pre @ bs @ post) (tag_field tag) (tag_wire tag) (length pre) m =
        Some (Inr (m', length pre + length bs))"
  shows "decodes name sw (tag # bs) m m'"
  unfolding decodes_def
proof (intro allI impI exI conjI)
  fix pre post :: "byte list" and f
  let ?d = "pre @ (tag # bs) @ post"
  assume len: "length ?d < 2 ^ 63"
  show "1 \<le> length (tag # bs)" by simp
  have fpos: "0 < tag_field tag" using tag(2) by (simp add: tag_field_def)
  have "sw ?d (tag_field tag) (tag_wire tag) (length pre + 1) m = Some (Inr (m', length pre + length (tag # bs)))"
    using sw [of "pre @ [tag]" post] len by simp
  then show "unmarshal_loop (1 + f) name sw ?d (length pre) m =
      unmarshal_loop f name sw ?d (length pre + length (tag # bs)) m'"
    using read_tag [OF tag(1), of pre "bs @ post"] tag(3) fpos
    by (simp add: unmarshal_loop.simps tag_wire_eq tag_field_eq Let_def)
qed


lemma unat_length: "length s < 2 ^ 63 \<Longrightarrow> unat (word_of_nat (length s) :: u64) = length s"
  by (simp add: unat_of_nat)

lemma read_slice_enc:
  assumes "length (pre @ (enc_varint (word_of_nat (length s)) @ s) @ post) < 2 ^ 63"
  shows "read_slice (pre @ (enc_varint (word_of_nat (length s)) @ s) @ post) (length pre) =
     Inr (s, length pre + length (enc_varint (word_of_nat (length s)) @ s))"
proof -
  let ?e = "enc_varint (word_of_nat (length s))"
  let ?i = "length pre + length ?e"
  have n: "sint (word_of_nat (length s) :: u64) = int (length s)"
    using assms by (subst sint_small_u64) (simp_all add: unat_length)
  have w: "wrap64 (int ?i + int (length s)) = int (?i + length s)"
    using assms wrap64_nat [of "?i + length s"] by simp
  have "slice ((pre @ ?e) @ s @ post) ?i (?i + length s) = s"
    by (rule slice_middle) simp
  then show ?thesis
    using read_varint_enc0 [of pre "word_of_nat (length s)" "s @ post", where 'a = 64] n w
    by (simp add: read_slice_def get_slice_def nat_add_distrib)
qed

lemma read_double_enc:
  "read_double (pre @ le_bytes 8 (unat f) @ post) (length pre) = Inr (f, length pre + 8)"
proof -
  have "slice (pre @ le_bytes 8 (unat f) @ post) (length pre) (length pre + length (le_bytes 8 (unat f)))
     = le_bytes 8 (unat f)"
    by (rule slice_middle) simp
  moreover have "unat f < 256 ^ 8" using unsigned_less [of f] by simp
  ultimately show ?thesis by (simp add: read_double_def get_slice_def le_val_le_bytes)
qed

text \<open>One law per kind of switch case, for a field that is there.\<close>

lemma decodes_varint:
  assumes "unat tag < 128" "8 \<le> unat tag" "tag_wire tag = 0"
    and "\<And>d i. sw d (tag_field tag) 0 i m = Some (on_varint field upd d 0 i m)"
    and "upd (ucast v :: 'a::len word) m = m'"
  shows "decodes name sw (tag # enc_varint v) m m'"
  by (rule decodes_field) (use assms in \<open>simp_all add: on_varint_def read_varint_enc0\<close>)

lemma decodes_bytes:
  assumes "unat tag < 128" "8 \<le> unat tag" "tag_wire tag = 2"
    and "\<And>d i. sw d (tag_field tag) 2 i m = Some (on_bytes field upd d 2 i m)"
    and "upd s m = m'"
  shows "decodes name sw (tag # enc_varint (word_of_nat (length s)) @ s) m m'"
  by (rule decodes_field)
    (use assms read_slice_enc [of _ s] in \<open>simp_all add: on_bytes_def\<close>)

lemma decodes_double:
  assumes "unat tag < 128" "8 \<le> unat tag" "tag_wire tag = 1"
    and "\<And>d i. sw d (tag_field tag) 1 i m = Some (on_double field upd d 1 i m)"
    and "upd f m = m'"
  shows "decodes name sw (tag # le_bytes 8 (unat f)) m m'"
  by (rule decodes_field) (use assms in \<open>simp_all add: on_double_def read_double_enc\<close>)

lemma decodes_new:
  assumes "unat tag < 128" "8 \<le> unat tag" "tag_wire tag = 2"
    and "\<And>d i. sw d (tag_field tag) 2 i m = Some (on_new field upd zero unm d 2 i m)"
    and "length s < 2 ^ 63 \<Longrightarrow> unm zero s = Inr x"
    and "upd x m = m'"
  shows "decodes name sw (tag # enc_varint (word_of_nat (length s)) @ s) m m'"
  by (rule decodes_field)
    (use assms read_slice_enc [of _ s] in \<open>simp_all add: on_new_def\<close>)

section \<open>Optional fields of a switch\<close>

text \<open>
  The same laws for the fields as messages have them: present only when they differ from the zero
  value.  A decoded message starts as the zero message, so an absent field changes nothing.
\<close>

named_theorems case_laws

lemma decodes_conv: "decodes n sw bs m m1 \<Longrightarrow> m1 = m2 \<Longrightarrow> decodes n sw bs m m2"
  by simp

lemma case_varint [case_laws]:
  assumes "unat tag < 128" "8 \<le> unat tag" "tag_wire tag = 0"
    and "map_of cs (tag_field tag) = Some (on_varint field upd)"
    and "\<not> b \<Longrightarrow> upd (ucast v :: 'a::len word) m = m"
  shows "decodes name (switch_on cs) (if b then tag # enc_varint v else []) m (upd (ucast v) m)"
  by (rule decodes_opt, rule decodes_varint [where field = field and upd = upd])
    (use assms in \<open>simp_all add: switch_on_def\<close>)

lemma case_bool [case_laws]:
  assumes "unat tag < 128" "8 \<le> unat tag" "tag_wire tag = 0"
    and "map_of cs (tag_field tag) = Some (on_varint field upd)"
    and "\<not> b \<Longrightarrow> upd 0 m = m"
  shows "decodes name (switch_on cs) (if b then [tag, if b then 1 else 0] else []) m
           (upd (if b then 1 else 0 :: u64) m)"
proof (rule decodes_opt)
  assume b
  have "enc_varint 1 = [1]" by (simp add: enc_varint.simps word_le_nat_alt)
  with \<open>b\<close> show "decodes name (switch_on cs) [tag, if b then 1 else 0] m (upd (if b then 1 else 0) m)"
    using decodes_varint [of tag "switch_on cs" m field upd 1 "upd 1 m" name] assms
    by (simp add: switch_on_def)
qed (use assms in simp)

lemma case_bytes [case_laws]:
  assumes "unat tag < 128" "8 \<le> unat tag" "tag_wire tag = 2"
    and "map_of cs (tag_field tag) = Some (on_bytes field upd)"
    and "\<not> b \<Longrightarrow> upd s m = m"
  shows "decodes name (switch_on cs) (if b then tag # enc_varint (word_of_nat (length s)) @ s else [])
           m (upd s m)"
  by (rule decodes_opt, rule decodes_bytes [where field = field and upd = upd])
    (use assms in \<open>simp_all add: switch_on_def\<close>)

lemma case_double [case_laws]:
  assumes "unat tag < 128" "8 \<le> unat tag" "tag_wire tag = 1"
    and "map_of cs (tag_field tag) = Some (on_double field upd)"
    and "\<not> b \<Longrightarrow> upd f m = m"
  shows "decodes name (switch_on cs) (if b then tag # le_bytes 8 (unat f) else []) m (upd f m)"
  by (rule decodes_opt, rule decodes_double [where field = field and upd = upd])
    (use assms in \<open>simp_all add: switch_on_def\<close>)

text \<open>The bytes of an optional nested message whose own encoding is \<open>e\<close>.\<close>

definition enc_opt :: "byte \<Rightarrow> ('x \<Rightarrow> byte list) \<Rightarrow> 'x option \<Rightarrow> byte list" where
  "enc_opt tag e p =
     (case p of None \<Rightarrow> [] | Some x \<Rightarrow> tag # enc_varint (word_of_nat (length (e x))) @ e x)"

lemma case_ptr [case_laws]:
  assumes "unat tag < 128" "8 \<le> unat tag" "tag_wire tag = 2"
    and "map_of cs (tag_field tag) = Some (on_ptr field get upd zero unm)"
    and "get m = None" and "p = None \<Longrightarrow> upd None m = m"
    and "\<And>x. p = Some x \<Longrightarrow> length (e x) < 2 ^ 63 \<Longrightarrow> unm zero (e x) = Inr x"
  shows "decodes name (switch_on cs) (enc_opt tag e p) m (upd p m)"
proof (cases p)
  case None
  with assms(6) show ?thesis by (simp add: enc_opt_def decodes_Nil)
next
  case (Some x)
  have "decodes name (switch_on cs) (tag # enc_varint (word_of_nat (length (e x))) @ e x) m (upd (Some x) m)"
    by (rule decodes_field)
      (use assms Some read_slice_enc [of _ "e x"] in \<open>simp_all add: switch_on_def on_ptr_def\<close>)
  with Some show ?thesis by (simp add: enc_opt_def)
qed

lemma case_oneof [case_laws]:
  assumes "unat tag < 128" "8 \<le> unat tag" "tag_wire tag = 2"
    and "map_of cs (tag_field tag) = Some (on_new field upd zero unm)"
    and "\<And>x. p = Some x \<Longrightarrow> length (e x) < 2 ^ 63 \<Longrightarrow> unm zero (e x) = Inr x"
  shows "decodes name (switch_on cs) (enc_opt tag e p) m (case p of None \<Rightarrow> m | Some x \<Rightarrow> upd x m)"
proof (cases p)
  case None
  then show ?thesis by (simp add: enc_opt_def decodes_Nil)
next
  case (Some x)
  have "decodes name (switch_on cs) (tag # enc_varint (word_of_nat (length (e x))) @ e x) m (upd x m)"
    by (rule decodes_new [where x = x and zero = zero and unm = unm and field = field and upd = upd])
      (use assms Some in \<open>simp_all add: switch_on_def\<close>)
  with Some show ?thesis by (simp add: enc_opt_def)
qed

lemma case_repeated [case_laws]:
  assumes "unat tag < 128" "8 \<le> unat tag" "tag_wire tag = 2"
    and "map_of cs (tag_field tag) = Some (on_new field upd zero unm)"
    and "\<And>x. Some x \<in> set ps \<Longrightarrow> length (e x) < 2 ^ 63 \<Longrightarrow> unm zero (e x) = Inr x"
    and "None \<notin> set ps"
  shows "decodes name (switch_on cs) (concat (map (enc_opt tag e) ps)) m
           (foldl (\<lambda>m p. upd (the p) m) m ps)"
  using assms(5,6)
proof (induction ps arbitrary: m)
  case Nil
  show ?case by (simp add: decodes_Nil)
next
  case (Cons p ps)
  then obtain x where p: "p = Some x" by (cases p) auto
  have "decodes name (switch_on cs) (enc_opt tag e p) m (case p of None \<Rightarrow> m | Some x \<Rightarrow> upd x m)"
    by (rule case_oneof [where zero = zero and unm = unm and field = field and upd = upd])
      (use assms(1-4) Cons.prems p in auto)
  with Cons p show ?case by (auto intro!: decodes_append)
qed

lemma tag_simps: "tag_field t = unat t div 8" "tag_wire t = unat t mod 8"
  by (simp_all add: tag_field_def tag_wire_def)

lemma ucast_scast32: "ucast (scast (c :: u32) :: u64) = c"
  by (rule bit_eqI) (auto simp: bit_simps)

lemma ucast_ucast32: "ucast (ucast (c :: u32) :: u64) = c"
  by (rule bit_eqI) (auto simp: bit_simps)

section \<open>Writers of whole messages\<close>

lemma marshals_fieldsI:
  "writes (seqW ws) bs \<Longrightarrow> bs = bs' \<Longrightarrow> marshals (marshal_to_sized ws) bs'"
  by (simp add: marshals_fields)

lemma writes_seqW_append: "writes (seqW ws) bs \<Longrightarrow> writes (seqW vs) cs \<Longrightarrow> writes (seqW (ws @ vs)) (cs @ bs)"
proof -
  assume a: "writes (seqW ws) bs" "writes (seqW vs) cs"
  have "seqW (ws @ vs) st = bindR (seqW ws st) (seqW vs)" for st
    by (induction ws arbitrary: st) (simp_all add: bindR_def split: sum.split)
  then have "seqW (ws @ vs) = (\<lambda>st. bindR (seqW ws st) (seqW vs))" by (simp add: fun_eq_iff)
  with writes_bind [OF a] show ?thesis by simp
qed

lemma writes_put_opt:
  assumes "\<And>x. p = Some x \<Longrightarrow> marshals (mar p) (e x)"
  shows "writes (whenW (p \<noteq> None) (put_msg tag (mar p))) (enc_opt tag e p)"
  using assms writes_put_msg [of "mar p" _ tag]
  by (cases p) (auto simp: enc_opt_def whenW_def writes_def)

text \<open>Lengths, for the size computations.\<close>

lemma length_enc_opt [simp]:
  "enc_opt tag e None = []"
  "length (enc_opt tag e (Some x)) =
     Suc (length (e x) + sovRatecatApiV1 (word_of_nat (length (e x))))"
  by (simp_all add: enc_opt_def length_enc_varint)

text \<open>A repeated field is written from its last element to its first.\<close>

lemma writes_repeated:
  assumes "\<And>x. Some x \<in> set ps \<Longrightarrow> marshals (mar (Some x)) (e x)" "None \<notin> set ps"
  shows "writes (seqW (map (\<lambda>p. put_msg tag (mar p)) (rev ps))) (concat (map (enc_opt tag e) ps))"
  using assms
proof (induction ps)
  case Nil
  show ?case by (simp add: writes_def)
next
  case (Cons p ps)
  then obtain x where p: "p = Some x" by (cases p) auto
  have "writes (seqW [put_msg tag (mar p)]) (enc_opt tag e p)"
    using writes_seqW_Cons [OF writes_put_msg writes_seqW_Nil, of "mar p" "e x" tag] Cons.prems p
    by (simp add: enc_opt_def)
  then show ?case using Cons by (auto intro: writes_seqW_append)
qed

section \<open>The contract of a message type\<close>

text \<open>
  What every client of a generated message type relies on: \<open>Size\<close> is the length of the encoding,
  \<open>MarshalToSizedBuffer\<close> puts the encoding at the end of its buffer, and \<open>Unmarshal\<close> into a
  zero message takes the encoding back.  Every message type of both \<^verbatim>\<open>.pb.go\<close> files is an
  interpretation; the timestamp codec \<open>T\<close> is a parameter throughout.
\<close>

definition ts_bytes :: "ts_codec \<Rightarrow> Timestamp \<Rightarrow> byte list" where
  "ts_bytes T t =
     (case marshal_with (tsc_Size T t) (tsc_MarshalToSizedBuffer T t) of Inl _ \<Rightarrow> [] | Inr bs \<Rightarrow> bs)"

definition ts_codec_ok :: "ts_codec \<Rightarrow> bool" where
  "ts_codec_ok T \<longleftrightarrow> (\<forall>t. marshals (tsc_MarshalToSizedBuffer T t) (ts_bytes T t) \<and>
     tsc_Size T t = length (ts_bytes T t) \<and> tsc_Unmarshal T Timestamp_zero (ts_bytes T t) = Inr t)"

lemma ts_codec_okD:
  assumes "ts_codec_ok T"
  shows "marshals (tsc_MarshalToSizedBuffer T t) (ts_bytes T t)"
    and "tsc_Size T t = length (ts_bytes T t)"
    and "tsc_Unmarshal T Timestamp_zero (ts_bytes T t) = Inr t"
  using assms by (simp_all add: ts_codec_ok_def)

lemma writes_ts_field [writes_intros]:
  "ts_codec_ok T \<Longrightarrow>
     writes (whenW (p \<noteq> None) (put_msg tag (tsc_MarshalToSizedBuffer T (the p)))) (enc_opt tag (ts_bytes T) p)"
  by (rule writes_put_opt [where mar = "\<lambda>p. tsc_MarshalToSizedBuffer T (the p)"])
    (simp add: ts_codec_okD)

lemma Size_ts_field:
  "ts_codec_ok T \<Longrightarrow> length (enc_opt tag (ts_bytes T) p) =
     (case p of None \<Rightarrow> 0
      | Some t \<Rightarrow> let l = tsc_Size T t in 1 + l + sovRatecatApiV1 (word_of_nat l))"
  by (cases p) (simp_all add: ts_codec_okD Let_def)

lemma case_ts_field [case_laws]:
  assumes "unat tag < 128" "8 \<le> unat tag" "tag_wire tag = 2"
    and "map_of cs (tag_field tag) = Some (on_ptr field get upd Timestamp_zero (tsc_Unmarshal T))"
    and "get m = None" and "p = None \<Longrightarrow> upd None m = m" and "ts_codec_ok T"
  shows "decodes name (switch_on cs) (enc_opt tag (ts_bytes T) p) m (upd p m)"
  by (rule case_ptr [where field = field and get = get and upd = upd and zero = Timestamp_zero
        and unm = "tsc_Unmarshal T"])
    (use assms ts_codec_okD(3) in auto)

locale pb_message =
  fixes Size :: "ts_codec \<Rightarrow> 'm option \<Rightarrow> nat"
    and MarshalToSizedBuffer :: "ts_codec \<Rightarrow> 'm option \<Rightarrow> marshaller"
    and Unmarshal :: "ts_codec \<Rightarrow> 'm \<Rightarrow> byte list \<Rightarrow> 'm res"
    and zero :: 'm
    and enc :: "ts_codec \<Rightarrow> 'm \<Rightarrow> byte list"
    and valid :: "'m \<Rightarrow> bool"
  assumes Size_enc: "ts_codec_ok T \<Longrightarrow> valid m \<Longrightarrow> Size T (Some m) = length (enc T m)"
    and marshals_enc: "ts_codec_ok T \<Longrightarrow> valid m \<Longrightarrow> marshals (MarshalToSizedBuffer T (Some m)) (enc T m)"
    and Unmarshal_enc: "ts_codec_ok T \<Longrightarrow> valid m \<Longrightarrow> length (enc T m) < 2 ^ 63 \<Longrightarrow>
      Unmarshal T zero (enc T m) = Inr m"
begin

lemma Marshal_enc:
  "ts_codec_ok T \<Longrightarrow> valid m \<Longrightarrow>
     marshal_with (Size T (Some m)) (MarshalToSizedBuffer T (Some m)) = Inr (enc T m)"
  by (rule marshal_with_eq [OF marshals_enc Size_enc])

lemma roundtrip:
  assumes "ts_codec_ok T" "valid m" "length (enc T m) < 2 ^ 63"
  shows "bindR (marshal_with (Size T (Some m)) (MarshalToSizedBuffer T (Some m))) (Unmarshal T zero) = Inr m"
  using assms by (simp add: Marshal_enc Unmarshal_enc)

lemma enc_inject:
  assumes "ts_codec_ok T" "valid m" "valid m'" "length (enc T m) < 2 ^ 63" "enc T m = enc T m'"
  shows "m = m'"
  using Unmarshal_enc [of T m] Unmarshal_enc [of T m'] assms by simp

text \<open>How a message that contains this one marshals, measures and decodes it.\<close>

lemma writes_field:
  assumes "ts_codec_ok T" "\<And>x. p = Some x \<Longrightarrow> valid x"
  shows "writes (whenW (p \<noteq> None) (put_msg tag (MarshalToSizedBuffer T p))) (enc_opt tag (enc T) p)"
  by (rule writes_put_opt) (use assms marshals_enc in auto)

lemma writes_elements:
  assumes "ts_codec_ok T" "None \<notin> set ps" "\<And>x. Some x \<in> set ps \<Longrightarrow> valid x"
  shows "writes (seqW (map (\<lambda>p. put_msg tag (MarshalToSizedBuffer T p)) (rev ps)))
           (concat (map (enc_opt tag (enc T)) ps))"
  by (rule writes_repeated) (use assms marshals_enc in auto)

lemma Size_field:
  assumes "ts_codec_ok T" "\<And>x. p = Some x \<Longrightarrow> valid x"
  shows "length (enc_opt tag (enc T) p) =
    (case p of None \<Rightarrow> 0
     | Some e \<Rightarrow> let l = Size T (Some e) in 1 + l + sovRatecatApiV1 (word_of_nat l))"
  using assms by (cases p) (simp_all add: Size_enc Let_def)

lemma Size_elements:
  assumes "ts_codec_ok T" "None \<notin> set ps" "\<And>x. Some x \<in> set ps \<Longrightarrow> valid x"
  shows "length (concat (map (enc_opt tag (enc T)) ps)) =
    sum_list (map (\<lambda>e. let l = Size T e in 1 + l + sovRatecatApiV1 (word_of_nat l)) ps)"
  using assms(2,3)
proof (induction ps)
  case Nil
  show ?case by simp
next
  case (Cons p ps)
  then show ?case using assms(1) by (cases p) (simp_all add: Size_enc Let_def)
qed

lemma case_field:
  assumes "unat tag < 128" "8 \<le> unat tag" "tag_wire tag = 2"
    and "map_of cs (tag_field tag) = Some (on_ptr field get upd zero (Unmarshal T))"
    and "get m = None" and "p = None \<Longrightarrow> upd None m = m"
    and "ts_codec_ok T" and "\<And>x. p = Some x \<Longrightarrow> valid x"
  shows "decodes name (switch_on cs) (enc_opt tag (enc T) p) m (upd p m)"
  by (rule case_ptr [where field = field and get = get and upd = upd and zero = zero
        and unm = "Unmarshal T"])
    (use assms Unmarshal_enc in auto)

lemma case_choice:
  assumes "unat tag < 128" "8 \<le> unat tag" "tag_wire tag = 2"
    and "map_of cs (tag_field tag) = Some (on_new field upd zero (Unmarshal T))"
    and "ts_codec_ok T" and "\<And>x. p = Some x \<Longrightarrow> valid x"
  shows "decodes name (switch_on cs) (enc_opt tag (enc T) p) m (case p of None \<Rightarrow> m | Some x \<Rightarrow> upd x m)"
  by (rule case_oneof [where field = field and upd = upd and zero = zero and unm = "Unmarshal T"])
    (use assms Unmarshal_enc in auto)

lemma case_elements:
  assumes "unat tag < 128" "8 \<le> unat tag" "tag_wire tag = 2"
    and "map_of cs (tag_field tag) = Some (on_new field upd zero (Unmarshal T))"
    and "ts_codec_ok T" and "None \<notin> set ps" and "\<And>x. Some x \<in> set ps \<Longrightarrow> valid x"
  shows "decodes name (switch_on cs) (concat (map (enc_opt tag (enc T)) ps)) m
           (foldl (\<lambda>m p. upd (the p) m) m ps)"
  by (rule case_repeated [where field = field and upd = upd and zero = zero and unm = "Unmarshal T"])
    (use assms Unmarshal_enc in auto)

end

end
