(* ===== verification/ProtoSafety.thy ===== *)
theory ProtoSafety
  imports ClusterMessages ProtoLaws
begin

unbundle bit_operations_syntax

text \<open>
  Decoding arbitrary bytes.  The input of an \<^verbatim>\<open>Unmarshal\<close> comes from the network, so what
  matters beyond the round trip is that no byte string makes it panic: every index it uses is checked.
  \<open>safe\<close> says a result is a value or an ordinary error, neither a panic nor exhausted fuel; the
  contract \<open>pb_reader\<close> states it for a message type, and every message type is an interpretation.
  The bound of 2 to the 63 on the input length is Go's own: \<^verbatim>\<open>len\<close> is an \<^verbatim>\<open>int\<close>.
\<close>

definition safe :: "'a res \<Rightarrow> bool" where
  "safe r = (case r of Inr _ \<Rightarrow> True | Inl e \<Rightarrow> (case e of Fail _ \<Rightarrow> True | _ \<Rightarrow> False))"

lemma safe_simps [simp]:
  "safe (Inr x)" "safe (Inl (Fail s))" "\<not> safe (Inl (Panic s))" "\<not> safe (Inl OutOfFuel)" "\<not> safe (Inl Blocked)"
  "safe (Inl ErrIntOverflow)" "safe (Inl ErrInvalidLength)" "safe (Inl ErrUnexpectedEndOfGroup)"
  "safe (Inl ErrUnexpectedEOF)" "safe (Inl (ErrWrongWireType w f))"
  by (simp_all add: safe_def ErrIntOverflow_def ErrInvalidLength_def ErrUnexpectedEndOfGroup_def
      ErrUnexpectedEOF_def ErrWrongWireType_def)

lemma safe_bindR: "safe r \<Longrightarrow> (\<And>x. r = Inr x \<Longrightarrow> safe (k x)) \<Longrightarrow> safe (bindR r k)"
  by (cases r) (simp_all add: safe_def)

lemma safe_not_panics: "safe r \<Longrightarrow> \<not> panics r"
  by (cases r rule: panics.cases) (simp_all add: safe_def)

section \<open>Reading one value\<close>

text \<open>
  \<open>reads d i r\<close>: the reader result \<open>r\<close>, started at index \<open>i\<close>, is safe and on success has
  moved to an index between \<open>i\<close> and the end of the buffer.
\<close>

definition reads :: "byte list \<Rightarrow> nat \<Rightarrow> ('v \<times> nat) res \<Rightarrow> bool" where
  "reads d i r \<longleftrightarrow> safe r \<and> (\<forall>v j. r = Inr (v, j) \<longrightarrow> i \<le> j \<and> j \<le> length d)"

lemma reads_bindR:
  assumes "reads d i r" "\<And>v j. i \<le> j \<Longrightarrow> j \<le> length d \<Longrightarrow> r = Inr (v, j) \<Longrightarrow> reads d i (k (v, j))"
  shows "reads d i (bindR r k)"
proof (cases r)
  case (Inl e)
  then show ?thesis using assms(1) by (simp add: reads_def safe_def)
next
  case (Inr x)
  then show ?thesis using assms by (cases x) (simp add: reads_def)
qed

lemma reads_Inr [simp]: "reads d i (Inr (v, j)) \<longleftrightarrow> i \<le> j \<and> j \<le> length d"
  by (simp add: reads_def)

lemma reads_errors [simp]:
  "reads d i (Inl (Fail s))" "reads d i (Inl ErrIntOverflow)" "reads d i (Inl ErrInvalidLength)"
  "reads d i (Inl ErrUnexpectedEOF)" "reads d i (Inl (ErrWrongWireType w f))"
  "reads d i (Inl ErrUnexpectedEndOfGroup)"
  by (simp_all add: reads_def)

lemma reads_mono: "reads d i r \<Longrightarrow> j \<le> i \<Longrightarrow> reads d j r"
  by (fastforce simp: reads_def)

lemma reads_varint: "reads d (Suc i) (read_varint d i s acc)"
proof (induction d i s acc rule: read_varint.induct)
  case (1 d i s acc)
  show ?case
  proof (cases "64 \<le> s \<or> length d \<le> i")
    case True
    then show ?thesis by (auto simp: read_varint.simps [of d i])
  next
    case False
    then have g: "get_byte d i = Inr (d ! i)" by (simp add: get_byte_def)
    have "reads d (Suc i) (read_varint d (i + 1) (s + 7) (acc OR push_bit s (ucast (d ! i AND 0x7f))))"
      if "\<not> d ! i < 0x80"
      using "1.IH" [OF _ _ g refl that] False by (auto intro: reads_mono)
    with False g show ?thesis by (simp add: read_varint.simps [of d i] Let_def)
  qed
qed

lemma get_slice_ok: "a \<le> b \<Longrightarrow> b \<le> length d \<Longrightarrow> get_slice d a b = Inr (slice d a b)"
  by (simp add: get_slice_def)

lemma wrap64_nonneg_le: "0 \<le> wrap64 x \<Longrightarrow> 0 \<le> x \<Longrightarrow> x < 2 ^ 64 \<Longrightarrow> wrap64 x = x"
proof -
  assume a: "0 \<le> wrap64 x" "0 \<le> x" "x < 2 ^ 64"
  show ?thesis
  proof (cases "x < 2 ^ 63")
    case True
    then show ?thesis using a by (intro wrap64_id) simp_all
  next
    case False
    have "(word_of_int (x - 2 ^ 64) :: u64) = word_of_int x"
      by (simp only: word_of_int_eq_iff) (simp add: take_bit_eq_mod)
    then have "wrap64 x = wrap64 (x - 2 ^ 64)" by (simp only: wrap64_def)
    also have "\<dots> = x - 2 ^ 64" using a False by (intro wrap64_id) simp_all
    finally show ?thesis using a by simp
  qed
qed

lemma sint_u64_less: "sint (n :: u64) < 2 ^ 63"
  using sint_lt [of n] by simp

lemma reads_slice:
  assumes "length d < 2 ^ 63"
  shows "reads d i (read_slice d i)"
  unfolding read_slice_def
proof (rule reads_bindR [OF reads_mono [OF reads_varint]])
  fix n j
  assume j: "i \<le> j" "j \<le> length d" "read_varint d i 0 (0 :: u64) = Inr (n, j)"
  let ?p = "wrap64 (int j + sint n)"
  have "wrap64 (int j + sint n) = int j + sint n" if "0 \<le> sint n" "0 \<le> ?p"
    using that j(2) assms sint_u64_less [of n] by (intro wrap64_nonneg_le) simp_all
  then have "j \<le> nat ?p" if "0 \<le> sint n" "0 \<le> ?p" using that by simp
  with j show "reads d i (case (n, j) of (n, iNdEx) \<Rightarrow>
      if sint n < 0 then Inl ErrInvalidLength
      else let postIndex = wrap64 (int iNdEx + sint n)
           in if postIndex < 0 then Inl ErrInvalidLength
              else if int (length d) < postIndex then Inl ErrUnexpectedEOF
              else bindR (get_slice d iNdEx (nat postIndex)) (\<lambda>s. Inr (s, nat postIndex)))"
    by (auto simp: Let_def get_slice_ok not_less nat_le_iff intro: order_trans)
qed simp

lemma length_read_slice: "length d < 2 ^ 63 \<Longrightarrow> read_slice d i = Inr (s, j) \<Longrightarrow> length s < 2 ^ 63"
  by (auto simp: read_slice_def bindR_Inr_iff Let_def get_slice_def slice_def split: if_splits prod.splits)

lemma reads_double: "reads d i (read_double d i)"
  by (simp add: read_double_def get_slice_ok)

section \<open>Skipping an unknown field\<close>

lemma wrap64_step: "j \<le> length d \<Longrightarrow> length d < 2 ^ 63 \<Longrightarrow> 0 \<le> n \<Longrightarrow> n < 2 ^ 63 \<Longrightarrow>
   0 \<le> wrap64 (int j + n) \<Longrightarrow> j \<le> nat (wrap64 (int j + n))"
  by (subst wrap64_nonneg_le) simp_all

lemma skip_value_safe:
  assumes "j \<le> length d" "length d < 2 ^ 63"
  shows "safe (skip_value d w j depth)"
    and "skip_value d w j depth = Inr (k, dep) \<Longrightarrow> k < 2 ^ 63"
    and "skip_value d w j depth = Inr (k, dep) \<Longrightarrow> 0 \<le> k \<Longrightarrow> j \<le> nat k"
proof -
  have v: "safe (read_varint d j 0 (0 :: u64))"
    and v': "\<And>x k. read_varint d j 0 (0 :: u64) = Inr (x, k) \<Longrightarrow> j < k \<and> k \<le> length d"
    using reads_varint [of d j 0 "0 :: u64"] by (auto simp: reads_def Suc_le_eq)
  show "safe (skip_value d w j depth)"
    using v by (auto simp: skip_value_def intro!: safe_bindR)
  assume e: "skip_value d w j depth = Inr (k, dep)"
  have small: "int j < 2 ^ 63" using assms by simp
  have w: "wrap64 x < 2 ^ 63" for x
    unfolding wrap64_def by (rule sint_u64_less)
  consider (varint) x i where "read_varint d j 0 (0 :: u64) = Inr (x, i)" "k = int i"
    | (skip) i n where "j \<le> i" "i \<le> length d" "0 \<le> n" "n < 2 ^ 63" "k = wrap64 (int i + n)"
    | (group) "k = int j"
  proof -
    have len: "\<exists>i n. j \<le> i \<and> i \<le> length d \<and> 0 \<le> n \<and> n < 2 ^ 63 \<and> k = wrap64 (int i + n)"
      if "read_varint d j 0 (0 :: u64) = Inr (x, i)" "\<not> sint x < 0" "k = wrap64 (int i + sint x)" for x i
      using v' [OF that(1)] that(2,3) sint_u64_less [of x]
      by (intro exI [of _ i] exI [of _ "sint x"]) simp
    show thesis
      using e that(1) that(2) [of j 8] that(2) [of j 4] that(3) len assms(1) that(2)
      unfolding skip_value_def by (auto simp: bindR_Inr_iff split: if_splits)
  qed
  note cases = this
  show "k < 2 ^ 63"
    using cases by cases (use w small v' assms(2) in \<open>fastforce+\<close>)
  show "0 \<le> k \<Longrightarrow> j \<le> nat k"
    using cases
  proof cases
    case (varint x i)
    with v' [of x i] show ?thesis by simp
  next
    case (skip i n)
    then show "0 \<le> k \<Longrightarrow> j \<le> nat k" using wrap64_step [OF skip(2) assms(2) skip(3,4)] by simp
  next
    case group
    then show ?thesis by simp
  qed
qed

lemma skip_loop_safe:
  assumes "length d - i < fuel" "length d < 2 ^ 63"
  shows "safe (skip_loop fuel d i depth) \<and>
    (\<forall>j. skip_loop fuel d i depth = Inr j \<longrightarrow> i < j \<and> int j < 2 ^ 63)"
  using assms
proof (induction fuel arbitrary: i depth)
  case 0
  then show ?case by simp
next
  case (Suc fuel)
  have v: "safe (read_varint d i 0 (0 :: u64))"
    and v': "\<And>x j. read_varint d i 0 (0 :: u64) = Inr (x, j) \<Longrightarrow> i < j \<and> j \<le> length d"
    using reads_varint [of d i 0 "0 :: u64"] by (auto simp: reads_def Suc_le_eq)
  have IH: "safe (skip_loop fuel d (nat k) dep) \<and>
      (\<forall>j. skip_loop fuel d (nat k) dep = Inr j \<longrightarrow> i < j \<and> int j < 2 ^ 63)"
    if "i < nat k" "i < length d" for k dep
    using Suc.IH [of "nat k" dep] Suc.prems that by fastforce
  have step: "i < nat k \<and> int (nat k) < 2 ^ 63"
    if "read_varint d i 0 (0 :: u64) = Inr (x, j)" "skip_value d w j depth = Inr (k, dep)" "0 \<le> k" for x j w k dep
    using skip_value_safe(3) [OF _ Suc.prems(2) that(2,3)] skip_value_safe(2) [OF _ Suc.prems(2) that(2)]
      v' [OF that(1)] that(3) by simp
  have "safe (skip_loop (Suc fuel) d i depth)"
    using v v' step IH Suc.prems(2) skip_value_safe(1)
    by (auto simp: skip_loop.simps not_less not_le intro!: safe_bindR)
  moreover have "i < j \<and> int j < 2 ^ 63" if sk: "skip_loop (Suc fuel) d i depth = Inr j" for j
  proof -
    have i: "i < length d" using sk by (auto simp: skip_loop.simps split: if_splits)
    obtain x l k dep where r: "read_varint d i 0 (0 :: u64) = Inr (x, l)"
        "skip_value d (unat (x AND 7)) l depth = Inr (k, dep)" "0 \<le> k"
      and j: "(if dep = 0 then Inr (nat k) else skip_loop fuel d (nat k) dep) = Inr j"
      using sk i by (auto simp: skip_loop.simps bindR_Inr_iff not_less split: if_splits)
    show ?thesis using j step [OF r] IH [OF _ i, of k dep] by (auto split: if_splits)
  qed
  ultimately show ?case by blast
qed

lemma skip_field_safe:
  assumes "length d < 2 ^ 63" "i < length d"
  shows "safe (skip_field d i m)"
    and "skip_field d i m = Inr (m', j) \<Longrightarrow> i < j \<and> j \<le> length d"
proof -
  let ?rest = "slice d i (length d)"
  have rest: "get_slice d i (length d) = Inr ?rest" using assms(2) by (simp add: get_slice_ok)
  have sk: "safe (skipRatecatApiV1 ?rest)"
    and sk': "\<And>k. skipRatecatApiV1 ?rest = Inr k \<Longrightarrow> 0 < k \<and> int k < 2 ^ 63"
    using skip_loop_safe [of ?rest 0 "Suc (length ?rest)" 0] assms(1)
    by (simp_all add: skipRatecatApiV1_def slice_def)
  show "safe (skip_field d i m)"
    unfolding skip_field_def rest using sk by (auto simp: Let_def intro!: safe_bindR)
  assume "skip_field d i m = Inr (m', j)"
  then obtain k where k: "skipRatecatApiV1 ?rest = Inr k" "0 \<le> wrap64 (int i + int k)"
      "wrap64 (int i + int k) \<le> int (length d)" "j = nat (wrap64 (int i + int k))"
    unfolding skip_field_def rest by (auto simp: bindR_Inr_iff Let_def not_less split: if_splits)
  have "wrap64 (int i + int k) = int i + int k"
    using k(2) sk' [OF k(1)] assms by (intro wrap64_nonneg_le) simp_all
  with k sk' [OF k(1)] show "i < j \<and> j \<le> length d" by auto
qed

section \<open>Whole messages\<close>

definition field_safe :: "'m field_case \<Rightarrow> bool" where
  "field_safe c \<longleftrightarrow> (\<forall>d w i m. length d < 2 ^ 63 \<longrightarrow> reads d i (c d w i m))"

definition switch_safe :: "'m switch \<Rightarrow> bool" where
  "switch_safe sw \<longleftrightarrow> (\<forall>d n w i m r. length d < 2 ^ 63 \<longrightarrow> sw d n w i m = Some r \<longrightarrow> reads d i r)"

lemma switch_safe_on: "(\<forall>c \<in> set cases. field_safe (snd c)) \<Longrightarrow> switch_safe (switch_on cases)"
  by (fastforce simp: switch_safe_def switch_on_def field_safe_def dest: map_of_SomeD)

named_theorems case_safes

lemma on_varint_safe [case_safes]: "field_safe (on_varint f upd)"
  by (auto simp: field_safe_def on_varint_def intro!: reads_bindR reads_mono [OF reads_varint])

lemma on_bytes_safe [case_safes]: "field_safe (on_bytes f upd)"
  by (auto simp: field_safe_def on_bytes_def intro!: reads_bindR reads_slice)

lemma on_double_safe [case_safes]: "field_safe (on_double f upd)"
  by (auto simp: field_safe_def on_double_def intro!: reads_bindR reads_double)

lemma reads_bind_safe: "safe r \<Longrightarrow> i \<le> j \<Longrightarrow> j \<le> length d \<Longrightarrow> reads d i (bindR r (\<lambda>x. Inr (f x, j)))"
  by (cases r) (simp_all add: reads_def safe_def)

lemma on_nested_safe:
  assumes "\<And>m s. length s < 2 ^ 63 \<Longrightarrow> safe (unm m s)"
  shows "field_safe (on_ptr f get upd zero unm)" and "field_safe (on_new f upd' zero unm)"
proof -
  have "reads d i (on_ptr f get upd zero unm d w i m)" if d: "length d < 2 ^ 63" for d w i m
    unfolding on_ptr_def
    by (auto intro!: reads_bindR [OF reads_slice [OF d]] reads_bind_safe assms intro: length_read_slice [OF d])
  then show "field_safe (on_ptr f get upd zero unm)" by (simp add: field_safe_def)
  have "reads d i (on_new f upd' zero unm d w i m)" if d: "length d < 2 ^ 63" for d w i m
    unfolding on_new_def
    by (auto intro!: reads_bindR [OF reads_slice [OF d]] reads_bind_safe assms intro: length_read_slice [OF d])
  then show "field_safe (on_new f upd' zero unm)" by (simp add: field_safe_def)
qed

lemma unmarshal_loop_safe:
  assumes "switch_safe sw" "length d < 2 ^ 63" "i \<le> length d" "length d - i < fuel"
  shows "safe (unmarshal_loop fuel name sw d i m)"
  using assms(3,4)
proof (induction fuel arbitrary: i m)
  case 0
  then show ?case by simp
next
  case (Suc fuel)
  show ?case
  proof (cases "i < length d")
    case False
    with Suc.prems show ?thesis by (simp add: unmarshal_loop.simps)
  next
    case True
    have v: "safe (read_varint d i 0 (0 :: u64))"
      and v': "\<And>x j. read_varint d i 0 (0 :: u64) = Inr (x, j) \<Longrightarrow> i < j \<and> j \<le> length d"
      using reads_varint [of d i 0 "0 :: u64"] by (auto simp: reads_def Suc_le_eq)
    have field: "safe (case sw d n w j m of Some r \<Rightarrow> r | None \<Rightarrow> skip_field d i m) \<and>
        (\<forall>m' k. (case sw d n w j m of Some r \<Rightarrow> r | None \<Rightarrow> skip_field d i m) = Inr (m', k) \<longrightarrow>
           i < k \<and> k \<le> length d)" if "i < j" for n w j
    proof (cases "sw d n w j m")
      case None
      with skip_field_safe [OF assms(2) True, of m] show ?thesis by auto
    next
      case (Some r)
      with assms(1,2) have "reads d j r" by (auto simp: switch_safe_def)
      with Some that show ?thesis by (auto simp: reads_def)
    qed
    have rest: "safe (unmarshal_loop fuel name sw d k m')" if "i < k" "k \<le> length d" for k m'
      using that Suc.IH [of k m'] Suc.prems by simp
    from True show ?thesis
      using v v' field rest by (auto simp: unmarshal_loop.simps Let_def intro!: safe_bindR)
  qed
qed

lemma unmarshal_with_safe:
  "switch_safe sw \<Longrightarrow> length d < 2 ^ 63 \<Longrightarrow> safe (unmarshal_with name sw m d)"
  by (simp add: unmarshal_with_def unmarshal_loop_safe)

text \<open>The assumption on the timestamp codec: its \<^verbatim>\<open>Unmarshal\<close> does not panic either.\<close>

definition ts_safe :: "ts_codec \<Rightarrow> bool" where
  "ts_safe T \<longleftrightarrow> (\<forall>t s. length s < 2 ^ 63 \<longrightarrow> safe (tsc_Unmarshal T t s))"

lemma on_ts_safe [case_safes]: "ts_safe T \<Longrightarrow> field_safe (on_ptr f get upd zero (tsc_Unmarshal T))"
  by (rule on_nested_safe(1)) (simp add: ts_safe_def)

locale pb_reader =
  fixes Unmarshal :: "ts_codec \<Rightarrow> 'm \<Rightarrow> byte list \<Rightarrow> 'm res"
  assumes Unmarshal_safe: "ts_safe T \<Longrightarrow> length d < 2 ^ 63 \<Longrightarrow> safe (Unmarshal T m d)"
begin

lemma on_ptr_safe: "ts_safe T \<Longrightarrow> field_safe (on_ptr f get upd zero (Unmarshal T))"
  by (rule on_nested_safe(1)) (rule Unmarshal_safe)

lemma on_new_safe: "ts_safe T \<Longrightarrow> field_safe (on_new f upd zero (Unmarshal T))"
  by (rule on_nested_safe(2)) (rule Unmarshal_safe)

end


interpretation CmdError_reader: pb_reader CmdError_Unmarshal
  by unfold_locales
    (simp add: CmdError_Unmarshal_def CmdError_switch_def unmarshal_with_safe switch_safe_on case_safes)

interpretation CmdHeader_reader: pb_reader CmdHeader_Unmarshal
  by unfold_locales
    (simp add: CmdHeader_Unmarshal_def CmdHeader_switch_def unmarshal_with_safe switch_safe_on case_safes)

interpretation NodeInfo_reader: pb_reader NodeInfo_Unmarshal
  by unfold_locales
    (simp add: NodeInfo_Unmarshal_def NodeInfo_switch_def unmarshal_with_safe switch_safe_on case_safes)

interpretation MeowCmdResp_reader: pb_reader MeowCmdResp_Unmarshal
  by unfold_locales
    (simp add: MeowCmdResp_Unmarshal_def MeowCmdResp_switch_def unmarshal_with_safe switch_safe_on case_safes NodeInfo_reader.on_new_safe)

interpretation AllowCmd_reader: pb_reader AllowCmd_Unmarshal
  by unfold_locales
    (simp add: AllowCmd_Unmarshal_def AllowCmd_switch_def unmarshal_with_safe switch_safe_on case_safes)

interpretation AllowCmdResp_reader: pb_reader AllowCmdResp_Unmarshal
  by unfold_locales
    (simp add: AllowCmdResp_Unmarshal_def AllowCmdResp_switch_def unmarshal_with_safe switch_safe_on case_safes)

interpretation TokenBucketParam_reader: pb_reader TokenBucketParam_Unmarshal
  by unfold_locales
    (simp add: TokenBucketParam_Unmarshal_def TokenBucketParam_switch_def unmarshal_with_safe switch_safe_on case_safes)

interpretation RegResCmd_reader: pb_reader RegResCmd_Unmarshal
  by unfold_locales
    (simp add: RegResCmd_Unmarshal_def RegResCmd_switch_def unmarshal_with_safe switch_safe_on case_safes TokenBucketParam_reader.on_new_safe)

interpretation RegResCmdResp_reader: pb_reader RegResCmdResp_Unmarshal
  by unfold_locales
    (simp add: RegResCmdResp_Unmarshal_def RegResCmdResp_switch_def unmarshal_with_safe switch_safe_on case_safes)

interpretation GetResCmd_reader: pb_reader GetResCmd_Unmarshal
  by unfold_locales
    (simp add: GetResCmd_Unmarshal_def GetResCmd_switch_def unmarshal_with_safe switch_safe_on case_safes)

interpretation ReqPerSecEntry_reader: pb_reader ReqPerSecEntry_Unmarshal
  by unfold_locales
    (simp add: ReqPerSecEntry_Unmarshal_def ReqPerSecEntry_switch_def unmarshal_with_safe switch_safe_on case_safes)

interpretation ReqPerSec_reader: pb_reader ReqPerSec_Unmarshal
  by unfold_locales
    (simp add: ReqPerSec_Unmarshal_def ReqPerSec_switch_def unmarshal_with_safe switch_safe_on case_safes ReqPerSecEntry_reader.on_new_safe)

interpretation TokenBucketLimiter_reader: pb_reader TokenBucketLimiter_Unmarshal
  by unfold_locales
    (simp add: TokenBucketLimiter_Unmarshal_def TokenBucketLimiter_switch_def unmarshal_with_safe switch_safe_on case_safes)

interpretation LeakyBucketLimiter_reader: pb_reader LeakyBucketLimiter_Unmarshal
  by unfold_locales
    (simp add: LeakyBucketLimiter_Unmarshal_def LeakyBucketLimiter_switch_def unmarshal_with_safe switch_safe_on case_safes)

interpretation Resource_reader: pb_reader Resource_Unmarshal
  by unfold_locales
    (simp add: Resource_Unmarshal_def Resource_switch_def unmarshal_with_safe switch_safe_on case_safes ReqPerSec_reader.on_ptr_safe TokenBucketLimiter_reader.on_new_safe)

interpretation Entry_reader: pb_reader Entry_Unmarshal
  by unfold_locales
    (simp add: Entry_Unmarshal_def Entry_switch_def unmarshal_with_safe switch_safe_on case_safes Resource_reader.on_ptr_safe)

interpretation EntrySnapshot_reader: pb_reader EntrySnapshot_Unmarshal
  by unfold_locales
    (simp add: EntrySnapshot_Unmarshal_def EntrySnapshot_switch_def unmarshal_with_safe switch_safe_on case_safes Entry_reader.on_new_safe)

interpretation AvgRpsReq_reader: pb_reader AvgRpsReq_Unmarshal
  by unfold_locales
    (simp add: AvgRpsReq_Unmarshal_def AvgRpsReq_switch_def unmarshal_with_safe switch_safe_on case_safes)

interpretation IsEntryAppliedReq_reader: pb_reader IsEntryAppliedReq_Unmarshal
  by unfold_locales
    (simp add: IsEntryAppliedReq_Unmarshal_def IsEntryAppliedReq_switch_def unmarshal_with_safe switch_safe_on case_safes)

end
