(* ===== verification/ProtoReturns.thy ===== *)
theory ProtoReturns
  imports ClusterMessages ProtoSafety
begin

text \<open>
  Every generated encoder comes back: \<open>returns r\<close> says that a call gave a value, an error or a panic, and did
  not run for ever or block.  The readers are safe (\<^verbatim>\<open>ProtoSafety\<close>) and so return; here the same
  for the writers, on any message, valid or not, and any buffer.
\<close>

definition returns :: "'a res \<Rightarrow> bool" where
  "returns r \<longleftrightarrow> r \<noteq> Inl OutOfFuel \<and> r \<noteq> Inl Blocked"

named_theorems returns_intros

lemma returns_simps [simp]:
  "returns (Inr x)" "returns (Inl (Panic s))" "returns (Inl (Fail s))" "returns (Inl nil_deref)"
  by (simp_all add: returns_def nil_deref_def)

lemma safe_returns: "safe r \<Longrightarrow> returns r"
  by (cases r rule: panics.cases) (simp_all add: safe_def returns_def)

lemma returns_bindR [returns_intros]: "returns r \<Longrightarrow> (\<And>x. r = Inr x \<Longrightarrow> returns (k x)) \<Longrightarrow> returns (bindR r k)"
  by (cases r) (simp_all add: returns_def)

lemma returns_handleR [returns_intros]:
  "returns r \<Longrightarrow> (\<And>s. r = Inl (Fail s) \<Longrightarrow> returns (h s)) \<Longrightarrow> (\<And>x. r = Inr x \<Longrightarrow> returns (k x)) \<Longrightarrow> returns (handleR r h k)"
  by (cases r rule: panics.cases) (simp_all add: returns_def)

section \<open>Writer steps\<close>

definition step_returns :: "wstep \<Rightarrow> bool" where
  "step_returns w \<longleftrightarrow> (\<forall>st. returns (w st))"

definition mar_returns :: "marshaller \<Rightarrow> bool" where
  "mar_returns mar \<longleftrightarrow> (\<forall>d. returns (mar d))"

lemma returns_buffer [returns_intros]: "returns (set_byte d i b)" "returns (copy_at d i s)"
  by (simp_all add: set_byte_def copy_at_def Let_def)

lemma returns_encodeVarint_loop: "returns (encodeVarint_loop d offset v)"
proof (induction d offset v rule: encodeVarint_loop.induct)
  case (1 d offset v)
  have "returns (set_byte d offset b)" for b by (rule returns_intros)
  then show ?case using 1 by (subst encodeVarint_loop.simps) (auto intro: returns_bindR)
qed

lemma returns_encodeVarint [returns_intros]: "returns (encodeVarintRatecatApiV1 d i v)"
  by (simp add: encodeVarintRatecatApiV1_def Let_def returns_encodeVarint_loop returns_bindR)

lemma returns_put_tag [returns_intros]: "returns (put_tag tag st)"
  by (cases st) (auto simp: put_tag_def intro!: returns_intros)

lemma put_steps_return [returns_intros]:
  "step_returns (put_varint tag v)" "step_returns (put_bytes tag s)" "step_returns (put_bool tag b)" "step_returns (put_double tag f)"
  by (auto simp: step_returns_def put_varint_def put_bytes_def put_bool_def put_double_def Let_def intro!: returns_intros)

lemma put_msg_returns [returns_intros]: "mar_returns mar \<Longrightarrow> step_returns (put_msg tag mar)"
  by (auto simp: step_returns_def mar_returns_def put_msg_def intro!: returns_intros)

lemma put_oneof_returns [returns_intros]: "mar_returns mar \<Longrightarrow> step_returns (put_oneof sz mar)"
  by (auto simp: step_returns_def mar_returns_def put_oneof_def Let_def intro!: returns_intros)

lemma whenW_returns [returns_intros]: "(b \<Longrightarrow> step_returns w) \<Longrightarrow> step_returns (whenW b w)"
  by (simp add: step_returns_def whenW_def)

lemma seqW_returns: "\<forall>w \<in> set ws. step_returns w \<Longrightarrow> returns (seqW ws st)"
  by (induction ws arbitrary: st) (auto simp: step_returns_def intro!: returns_bindR)

lemma marshal_to_sized_returns [returns_intros]: "\<forall>w \<in> set ws. step_returns w \<Longrightarrow> mar_returns (marshal_to_sized ws)"
  by (auto simp: mar_returns_def marshal_to_sized_def intro!: returns_bindR seqW_returns)

lemma marshal_with_returns [returns_intros]: "mar_returns mar \<Longrightarrow> returns (marshal_with sz mar)"
  by (auto simp: marshal_with_def mar_returns_def intro!: returns_bindR)

section \<open>Messages\<close>

text \<open>What is asked of the third-party writer of timestamps.\<close>

definition ts_returns :: "ts_codec \<Rightarrow> bool" where
  "ts_returns T \<longleftrightarrow> (\<forall>t. mar_returns (tsc_MarshalToSizedBuffer T t))"

lemma mar_returns_option:
  "(\<And>m. p = Some m \<Longrightarrow> mar_returns (f (Some m))) \<Longrightarrow> mar_returns (f None) \<Longrightarrow> mar_returns (f p)"
  by (cases p) simp_all

lemma mar_returns_cong: "(\<And>d. f d = g d) \<Longrightarrow> mar_returns g \<Longrightarrow> mar_returns f"
  by (simp add: mar_returns_def)

lemma mar_returns_nil: "(\<And>d. f d = Inl nil_deref) \<Longrightarrow> mar_returns f"
  by (simp add: mar_returns_def)

lemma small_messages_return [returns_intros]:
  "mar_returns (CmdError_MarshalToSizedBuffer T e)" "mar_returns (AllowCmdResp_MarshalToSizedBuffer T a)"
  "mar_returns (RegResCmdResp_MarshalToSizedBuffer T r)"
  subgoal by (rule mar_returns_option [where p = e]; rule mar_returns_nil mar_returns_cong, simp)
     (auto intro!: returns_intros)
  subgoal by (rule mar_returns_option [where p = a]; rule mar_returns_nil mar_returns_cong, simp)
     (auto intro!: returns_intros)
  subgoal by (rule mar_returns_option [where p = r]; rule mar_returns_nil mar_returns_cong, simp)
     (auto intro!: returns_intros)
  done

lemma ts_returnsD [returns_intros]: "ts_returns T \<Longrightarrow> mar_returns (tsc_MarshalToSizedBuffer T t)"
  by (simp add: ts_returns_def)

lemma NodeInfo_returns [returns_intros]: "ts_returns T \<Longrightarrow> mar_returns (NodeInfo_MarshalToSizedBuffer T n)"
  by (rule mar_returns_option [where p = n]; rule mar_returns_nil mar_returns_cong, simp)
    (auto intro!: returns_intros)

lemma MeowCmdResp_returns [returns_intros]: "ts_returns T \<Longrightarrow> mar_returns (MeowCmdResp_MarshalToSizedBuffer T n)"
  by (rule mar_returns_option [where p = n]; rule mar_returns_nil mar_returns_cong, simp)
    (auto intro!: returns_intros)

lemma ReqPerSecEntry_returns [returns_intros]: "ts_returns T \<Longrightarrow> mar_returns (ReqPerSecEntry_MarshalToSizedBuffer T n)"
  by (rule mar_returns_option [where p = n]; rule mar_returns_nil mar_returns_cong, simp)
    (auto intro!: returns_intros)

lemma ReqPerSec_returns [returns_intros]: "ts_returns T \<Longrightarrow> mar_returns (ReqPerSec_MarshalToSizedBuffer T n)"
  by (rule mar_returns_option [where p = n]; rule mar_returns_nil mar_returns_cong, simp)
    (auto intro!: returns_intros)

lemma TokenBucketLimiter_returns [returns_intros]: "ts_returns T \<Longrightarrow> mar_returns (TokenBucketLimiter_MarshalToSizedBuffer T n)"
  by (rule mar_returns_option [where p = n]; rule mar_returns_nil mar_returns_cong, simp)
    (auto intro!: returns_intros)

lemma api_requests_return [returns_intros]:
  "mar_returns (CmdHeader_MarshalToSizedBuffer T h)" "mar_returns (AllowCmd_MarshalToSizedBuffer T a)"
  "mar_returns (TokenBucketParam_MarshalToSizedBuffer T p)" "mar_returns (GetResCmd_MarshalToSizedBuffer T g)"
  subgoal by (rule mar_returns_option [where p = h]; rule mar_returns_nil mar_returns_cong, simp)
     (auto intro!: returns_intros)
  subgoal by (rule mar_returns_option [where p = a]; rule mar_returns_nil mar_returns_cong, simp)
     (auto intro!: returns_intros)
  subgoal by (rule mar_returns_option [where p = p]; rule mar_returns_nil mar_returns_cong, simp)
     (auto intro!: returns_intros)
  subgoal by (rule mar_returns_option [where p = g]; rule mar_returns_nil mar_returns_cong, simp)
     (auto intro!: returns_intros)
  done

lemma RegResCmd_oneof_returns [returns_intros]: "mar_returns (RegResCmd_TokenBucket_MarshalToSizedBuffer T w)"
  by (cases w, rule mar_returns_cong, simp only: RegResCmd_TokenBucket_MarshalToSizedBuffer.simps)
    (auto simp del: TokenBucketParam_MarshalToSizedBuffer.simps intro!: returns_intros)

lemma RegResCmd_returns [returns_intros]: "mar_returns (RegResCmd_MarshalToSizedBuffer T r)"
  by (rule mar_returns_option [where p = r]; rule mar_returns_nil mar_returns_cong, simp)
    (auto intro!: returns_intros)

lemma LeakyBucketLimiter_returns [returns_intros]: "ts_returns T \<Longrightarrow> mar_returns (LeakyBucketLimiter_MarshalToSizedBuffer T n)"
  by (rule mar_returns_option [where p = n]; rule mar_returns_nil mar_returns_cong, simp)
    (auto intro!: returns_intros)

lemma Resource_oneof_returns [returns_intros]: "ts_returns T \<Longrightarrow> mar_returns (Resource_TokenBucket_MarshalToSizedBuffer T w)"
  by (cases w, rule mar_returns_cong, simp only: Resource_TokenBucket_MarshalToSizedBuffer.simps)
    (auto simp del: TokenBucketLimiter_MarshalToSizedBuffer.simps intro!: returns_intros)

lemma Resource_returns [returns_intros]: "ts_returns T \<Longrightarrow> mar_returns (Resource_MarshalToSizedBuffer T n)"
  by (rule mar_returns_option [where p = n]; rule mar_returns_nil mar_returns_cong, simp)
    (auto intro!: returns_intros)

lemma Entry_returns [returns_intros]: "ts_returns T \<Longrightarrow> mar_returns (Entry_MarshalToSizedBuffer T n)"
  by (rule mar_returns_option [where p = n]; rule mar_returns_nil mar_returns_cong, simp)
    (auto intro!: returns_intros)

lemma cluster_messages_return [returns_intros]:
  "mar_returns (AvgRpsReq_MarshalToSizedBuffer T a)" "mar_returns (IsEntryAppliedReq_MarshalToSizedBuffer T i)"
  subgoal by (rule mar_returns_option [where p = a]; rule mar_returns_nil mar_returns_cong, simp)
     (auto intro!: returns_intros)
  subgoal by (rule mar_returns_option [where p = i]; rule mar_returns_nil mar_returns_cong, simp)
     (auto intro!: returns_intros)
  done

lemma EntrySnapshot_returns [returns_intros]: "ts_returns T \<Longrightarrow> mar_returns (EntrySnapshot_MarshalToSizedBuffer T n)"
  by (rule mar_returns_option [where p = n]; rule mar_returns_nil mar_returns_cong, simp)
    (auto intro!: returns_intros)

end
