(* ===== verification/TimestampCodec.thy ===== *)
theory TimestampCodec
  imports ProtoReturns
begin

text \<open>
  An instance of the timestamp codec.  The codec itself is third-party code and a parameter of the model;
  this instance, built from the same field writers and readers for the two fields of the message
  (seconds in field 1, nanoseconds in field 2), shows that what the theorems assume of the parameter,
  \<open>ts_codec_ok\<close>, \<open>ts_safe\<close> and \<open>ts_returns\<close>, can hold, and lets them be evaluated at concrete messages.
\<close>

definition wire_ts_marshal :: "Timestamp \<Rightarrow> marshaller" where
  "wire_ts_marshal t = marshal_to_sized
     [whenW (ts_Nanos t \<noteq> 0) (put_varint 0x10 (scast (ts_Nanos t))),
      whenW (ts_Seconds t \<noteq> 0) (put_varint 0x8 (ts_Seconds t))]"

definition wire_ts_bytes :: "Timestamp \<Rightarrow> byte list" where
  "wire_ts_bytes t =
     (if ts_Seconds t \<noteq> 0 then 0x8 # enc_varint (ts_Seconds t) else []) @
     (if ts_Nanos t \<noteq> 0 then 0x10 # enc_varint (scast (ts_Nanos t)) else [])"

definition wire_ts_switch :: "Timestamp switch" where
  "wire_ts_switch = switch_on
     [(1, on_varint ''Seconds'' (\<lambda>v m. m\<lparr>ts_Seconds := v\<rparr>)),
      (2, on_varint ''Nanos'' (\<lambda>v m. m\<lparr>ts_Nanos := v\<rparr>))]"

definition wire_ts :: ts_codec where
  "wire_ts = \<lparr>tsc_Size = \<lambda>t.
       (if ts_Seconds t \<noteq> 0 then 1 + sovRatecatApiV1 (ts_Seconds t) else 0)
     + (if ts_Nanos t \<noteq> 0 then 1 + sovRatecatApiV1 (scast (ts_Nanos t)) else 0),
     tsc_MarshalToSizedBuffer = wire_ts_marshal,
     tsc_Unmarshal = unmarshal_with ''Timestamp'' wire_ts_switch\<rparr>"

lemma wire_ts_returns [simp]: "ts_returns wire_ts"
  by (auto simp: ts_returns_def wire_ts_def wire_ts_marshal_def intro!: returns_intros)

lemma wire_ts_marshals: "marshals (wire_ts_marshal t) (wire_ts_bytes t)"
  unfolding wire_ts_marshal_def
  by (rule marshals_fieldsI, (rule writes_intros)+) (simp add: wire_ts_bytes_def)

lemma wire_ts_decodes: "decodes n wire_ts_switch (wire_ts_bytes t) Timestamp_zero t"
  unfolding wire_ts_bytes_def wire_ts_switch_def
  apply (rule decodes_conv)
   apply (rule decodes_append case_varint | simp add: tag_simps Timestamp_zero_def; fail)+
  apply (simp add: ucast_scast32 Timestamp_zero_def)
  done

lemma ts_bytes_wire_ts: "ts_bytes wire_ts t = wire_ts_bytes t"
proof -
  have "marshal_with (tsc_Size wire_ts t) (wire_ts_marshal t) = Inr (wire_ts_bytes t)"
    by (rule marshal_with_eq [OF wire_ts_marshals])
      (simp add: wire_ts_def wire_ts_bytes_def length_enc_varint)
  then show ?thesis by (simp add: ts_bytes_def wire_ts_def)
qed

lemma length_wire_ts_bytes: "length (wire_ts_bytes t) < 2 ^ 63"
  using length_enc_varint_le [of "ts_Seconds t"] length_enc_varint_le [of "scast (ts_Nanos t)"]
  by (simp add: wire_ts_bytes_def)

lemma wire_ts_ok: "ts_codec_ok wire_ts"
  unfolding ts_codec_ok_def ts_bytes_wire_ts
  using wire_ts_marshals unmarshal_with_decodes [OF wire_ts_decodes length_wire_ts_bytes]
  by (simp add: wire_ts_def wire_ts_bytes_def length_enc_varint)

lemma wire_ts_safe: "ts_safe wire_ts"
  by (simp add: ts_safe_def wire_ts_def wire_ts_switch_def unmarshal_with_safe switch_safe_on case_safes)

end
