(* ===== verification/LimitProperties.thy ===== *)
theory LimitProperties
  imports Limiter LeakyBucket TimestampCodec
begin

text \<open>
  What the rate limiters promise: the rate they enforce, that they do not starve a client, their
  behaviour on each request, what their constructors accept, and that a limiter can be sent to another
  node without losing its state.
\<close>

text \<open>A bucket as \<^verbatim>\<open>NewTokenBucket\<close> leaves it, for the witnesses.\<close>

definition full_bucket :: "u64 \<Rightarrow> u32 \<Rightarrow> duration \<Rightarrow> instant \<Rightarrow> TokenBucket" where
  "full_bucket rate burst P now = \<lparr>tb_rate = rate, tb_burst = burst,
     tb_tokenCount = f64_of_int (uint burst), tb_fillPeriod = P, tb_lastFilled = now, tb_nextFill = now + P\<rparr>"

lemma full_bucket_inv:
  assumes "0 \<le> P" "P < 2 ^ 53" shows "TokenBucket_inv (full_bucket rate burst P now)"
proof -
  have "0 \<le> (of_int (uint burst) :: rat)" by (simp only: of_int_0_le_iff uint32_less(2))
  then show ?thesis using assms
    by (intro inv_intro) (simp_all add: full_bucket_def tokens_def burst_of_def)
qed

lemma full_bucket_tokens: "tokens (full_bucket rate burst P now) = of_int (uint burst)"
  by (simp add: full_bucket_def tokens_def)

section \<open>Token bucket\<close>

text \<open>
  C7 The rate limit.  For any sequence of \<^verbatim>\<open>Allow\<close> calls whose clock readings do not exceed \<open>T\<close>,
  the events admitted plus the tokens left over are at most the tokens at the start plus one token per
  fill period since the last refill, times \<open>1 + 2^-18\<close>: all the rounding of the float arithmetic, over
  the whole run, is worth less than four parts in a million of the rate.
\<close>

theorem token_bucket_rate_limit:
  assumes "TokenBucket_inv b" "0 < tb_fillPeriod b" "tb_lastFilled b \<le> T" "\<forall>(t, n) \<in> set rs. t \<le> T"
  shows "of_int (fst (TokenBucket_run rs b)) + tokens (snd (TokenBucket_run rs b))
    \<le> tokens b + of_int (T - tb_lastFilled b) / of_int (tb_fillPeriod b) * (1 + 1 / 2 ^ 18)"
  by (rule run_rate [OF assms])

theorem token_bucket_rate_limit_witness:
  "of_int (fst (TokenBucket_run [(5, 3), (2000000, 9)] (full_bucket 0x408F400000000000 10 1000000 0)))
     + tokens (snd (TokenBucket_run [(5, 3), (2000000, 9)] (full_bucket 0x408F400000000000 10 1000000 0)))
   \<le> 10 + 2 * (1 + 1 / (2 :: rat) ^ 18)"
proof -
  let ?b = "full_bucket 0x408F400000000000 10 1000000 0"
  have "TokenBucket_inv ?b" by (rule full_bucket_inv) simp_all
  from token_bucket_rate_limit [OF this, of 2000000 "[(5, 3), (2000000, 9)]"] show ?thesis
    unfolding full_bucket_tokens by (simp add: full_bucket_def del: TokenBucket_run.simps)
qed

text \<open>
  Between two refills the bucket is an exact counter in spite of its float: what a run of
  \<^verbatim>\<open>Allow\<close> calls admits is precisely the drop in tokens, no event lost or granted twice.
\<close>

theorem token_bucket_exact_between_refills:
  assumes "TokenBucket_inv b" "\<forall>(t, n) \<in> set rs. t \<le> tb_nextFill b"
  shows "of_int (fst (TokenBucket_run rs b)) + tokens (snd (TokenBucket_run rs b)) = tokens b"
  by (rule run_exact [OF assms])

theorem token_bucket_exact_between_refills_witness:
  "of_int (fst (TokenBucket_run [(5, 3), (9, 20)] (full_bucket 0x408F400000000000 10 1000000 0)))
     + tokens (snd (TokenBucket_run [(5, 3), (9, 20)] (full_bucket 0x408F400000000000 10 1000000 0))) = 10"
proof -
  let ?b = "full_bucket 0x408F400000000000 10 1000000 0"
  have "TokenBucket_inv ?b" by (rule full_bucket_inv) simp_all
  from token_bucket_exact_between_refills [OF this, of "[(5, 3), (9, 20)]"] show ?thesis
    unfolding full_bucket_tokens by (simp add: full_bucket_def del: TokenBucket_run.simps)
qed

text \<open>
  C35 What one \<^verbatim>\<open>Allow\<close> does: after the refill due at its clock reading it grants the request
  exactly when the tokens cover it, then takes exactly that many, and otherwise leaves the tokens alone.
\<close>

theorem token_bucket_Allow_spec:
  assumes "TokenBucket_inv b"
  shows "(fst (TokenBucket_Allow t n b) \<longleftrightarrow> of_int (uint n) \<le> tokens (TokenBucket_fill t b)) \<and>
    tokens (snd (TokenBucket_Allow t n b)) = tokens (TokenBucket_fill t b) -
      (if of_int (uint n) \<le> tokens (TokenBucket_fill t b) then of_int (uint n) else 0)"
  using Allow_cases(1,2) [OF assms, of t n] by (simp only: simp_thms)

theorem token_bucket_Allow_spec_witness:
  "fst (TokenBucket_Allow 5 3 (full_bucket 0x408F400000000000 10 1000000 0)) \<and>
   tokens (snd (TokenBucket_Allow 5 3 (full_bucket 0x408F400000000000 10 1000000 0))) = 7"
proof -
  let ?b = "full_bucket 0x408F400000000000 10 1000000 0"
  have "TokenBucket_inv ?b" by (rule full_bucket_inv) simp_all
  moreover have "TokenBucket_fill 5 ?b = ?b" by (rule fill_early) (simp add: full_bucket_def)
  ultimately show ?thesis
    using token_bucket_Allow_spec [of ?b 5 3] by (simp add: full_bucket_tokens)
qed

text \<open>
  The invariant: the token count stays a finite number between minus and plus the burst, through every
  refill, \<^verbatim>\<open>Allow\<close> and \<^verbatim>\<open>Take\<close>, at any clock readings, also when time runs backwards.
\<close>

theorem token_bucket_invariant:
  assumes "TokenBucket_inv b"
  shows "TokenBucket_inv (TokenBucket_fill t b) \<and> TokenBucket_inv (snd (TokenBucket_Allow t n b)) \<and>
    TokenBucket_inv (snd (TokenBucket_Take cv t n b))"
  using fill_inv [OF assms] Allow_cases(3) [OF assms] Take_tokens(1) [OF assms] by blast

theorem token_bucket_invariant_witness:
  "TokenBucket_inv (snd (TokenBucket_Take (\<lambda>_. 0) 7 99 (full_bucket 0x408F400000000000 10 1000000 0)))"
  using token_bucket_invariant [OF full_bucket_inv, of 1000000] by simp

text \<open>
  C36 No starvation: however far the bucket is overdrawn, once twice the time its burst takes to fill (and
  one period) has passed since the last refill, any request up to the burst is granted.
\<close>

theorem token_bucket_recovers:
  assumes "TokenBucket_inv b" "0 < tb_fillPeriod b" "n \<le> tb_burst b" "tb_nextFill b < t"
    and "(2 * uint (tb_burst b) + 1) * tb_fillPeriod b \<le> t - tb_lastFilled b"
    and "int64_range ((2 * uint (tb_burst b) + 1) * tb_fillPeriod b)"
  shows "fst (TokenBucket_Allow t n b)"
proof -
  have "(of_int (uint n) :: rat) \<le> burst_of b"
    using assms(3) by (simp only: burst_of_def of_int_le_iff word_le_def)
  then show ?thesis
    using Allow_cases(1) [OF assms(1), of t n] fill_full [OF assms(1,2,5,4,6)] by simp
qed

theorem token_bucket_recovers_witness:
  "fst (TokenBucket_Allow 30000000 10
     (snd (TokenBucket_Take (\<lambda>_. 0) 7 99 (full_bucket 0x408F400000000000 10 1000000 0))))"
proof -
  let ?b = "full_bucket 0x408F400000000000 10 1000000 0"
  let ?c = "snd (TokenBucket_Take (\<lambda>_. 0) 7 99 ?b)"
  have inv: "TokenBucket_inv ?b" by (rule full_bucket_inv) simp_all
  have early: "TokenBucket_fill 7 ?b = ?b" by (rule fill_early) (simp add: full_bucket_def)
  have c: "tb_burst ?c = 10" "tb_fillPeriod ?c = 1000000" "tb_lastFilled ?c = 0" "tb_nextFill ?c = 1000000"
    by (simp_all add: TokenBucket_Take_def Let_def early) (simp_all add: full_bucket_def)
  show ?thesis
    by (rule token_bucket_recovers [OF Take_tokens(1) [OF inv]])
      (simp_all add: c int64_range_def min_int64_def max_int64_def)
qed

text \<open>
  \<^verbatim>\<open>Take\<close> never refuses: it only lowers the count, to no less than minus the burst, and when the
  tokens cover the request it takes exactly that many and returns no delay.
\<close>

theorem token_bucket_Take_spec:
  assumes "TokenBucket_inv b"
  shows "tokens (snd (TokenBucket_Take cv t n b)) \<le> tokens (TokenBucket_fill t b) \<and>
    - burst_of b \<le> tokens (snd (TokenBucket_Take cv t n b)) \<and>
    (of_int (uint n) \<le> tokens (TokenBucket_fill t b) \<longrightarrow>
       fst (TokenBucket_Take cv t n b) = 0 \<and>
       tokens (snd (TokenBucket_Take cv t n b)) = tokens (TokenBucket_fill t b) - of_int (uint n))"
proof -
  have "burst_of (snd (TokenBucket_Take cv t n b)) = burst_of b"
    by (rule burst_of_cong) (simp add: TokenBucket_Take_def Let_def)
  with Take_tokens(1,2) [OF assms, of cv t n] Take_tokens(3) [OF assms, of n t cv] inv_tokens(2) [of "snd (TokenBucket_Take cv t n b)"]
  show ?thesis by simp
qed

theorem token_bucket_Take_spec_witness:
  "fst (TokenBucket_Take (\<lambda>_. 0) 7 4 (full_bucket 0x408F400000000000 10 1000000 0)) = 0 \<and>
   tokens (snd (TokenBucket_Take (\<lambda>_. 0) 7 4 (full_bucket 0x408F400000000000 10 1000000 0))) = 6"
proof -
  let ?b = "full_bucket 0x408F400000000000 10 1000000 0"
  have inv: "TokenBucket_inv ?b" by (rule full_bucket_inv) simp_all
  have early: "TokenBucket_fill 7 ?b = ?b" by (rule fill_early) (simp add: full_bucket_def)
  show ?thesis
    using token_bucket_Take_spec [OF inv, of "\<lambda>_. 0" 7 4] by (simp add: early full_bucket_tokens)
qed

text \<open>
  The constructor accepts every rate from 1 to one per nanosecond: the bucket starts full and in its
  invariant, and its period is the number of whole nanoseconds in the inverse of the truncated rate.
\<close>

theorem NewTokenBucket_full:
  assumes "f64_finite rate" "1 \<le> f64_val rate" "f64_val rate \<le> 10 ^ 9"
  shows "\<exists>b. NewTokenBucket cv now rate burst = Inr b \<and> TokenBucket_inv b \<and>
    tokens b = of_int (uint burst) \<and> tb_burst b = burst \<and> tb_lastFilled b = now \<and> 0 < tb_fillPeriod b \<and>
    tb_fillPeriod b * \<lfloor>f64_val rate\<rfloor> \<le> 10 ^ 9 \<and> 10 ^ 9 < (tb_fillPeriod b + 1) * \<lfloor>f64_val rate\<rfloor>"
proof -
  define r where "r = \<lfloor>f64_val rate\<rfloor>"
  have r: "1 \<le> r" "r \<le> 10 ^ 9"
    using assms(2,3) floor_mono [of "f64_val rate" "10 ^ 9"] by (simp_all add: r_def le_floor_iff)
  have cv: "f64_to_int64 cv rate = r"
    using assms r by (simp add: f64_to_int64_def rat_trunc_def r_def)
  define P where "P = 10 ^ 9 div r"
  have "r * P \<le> 10 ^ 9" "10 ^ 9 < r * P + r"
    using r(1) mult_div_mod_eq [of r "10 ^ 9"] pos_mod_bound [of r "10 ^ 9"] pos_mod_sign [of r "10 ^ 9"]
    unfolding P_def by linarith+
  then have P: "P * r \<le> 10 ^ 9" "10 ^ 9 < (P + 1) * r" by (simp_all add: algebra_simps)
  have P0: "1 \<le> P" using zdiv_mono1 [OF r(2), of r] r(1) by (simp add: P_def)
  have "P * 1 \<le> P * r" using r(1) P0 by (intro mult_left_mono) simp_all
  then have P9: "P \<le> 10 ^ 9" using P(1) by simp
  have quot: "time_Second sdiv r = P"
    using r(1) by (simp add: P_def time_Second_def signed_divide_int_def sgn_if)
  have "wrap64 P = P" by (rule wrap64_id) (use P0 P9 in simp_all)
  then have "int64_div time_Second r = Inr P"
    unfolding int64_div_def quot using r(1) by simp
  then have "NewTokenBucket cv now rate burst = Inr (full_bucket rate burst P now)"
    by (simp add: NewTokenBucket_def cv full_bucket_def time_Add_def)
  moreover have "TokenBucket_inv (full_bucket rate burst P now)"
    using P0 P9 by (intro full_bucket_inv) simp_all
  ultimately show ?thesis
    using P P0 by (intro exI [of _ "full_bucket rate burst P now"])
      (simp add: full_bucket_tokens, simp add: full_bucket_def r_def)
qed

text \<open>One request per second as a float: exactly 1.\<close>

lemma f64_one: "f64_finite 0x3FF0000000000000" "f64_val 0x3FF0000000000000 = 1"
  by (simp_all add: f64_finite_def f64_val_def f64_mag_def f64_inf_mag_def f64_neg_def mag_units_def f64_units_def)

theorem NewTokenBucket_full_witness:
  "\<exists>b. NewTokenBucket (\<lambda>_. 0) 0 0x3FF0000000000000 10 = Inr b \<and> tb_fillPeriod b = 10 ^ 9"
proof -
  obtain b where b: "NewTokenBucket (\<lambda>_. 0) 0 0x3FF0000000000000 10 = Inr b"
    "tb_fillPeriod b * 1 \<le> 10 ^ 9" "10 ^ 9 < (tb_fillPeriod b + 1) * 1"
    using NewTokenBucket_full [of "0x3FF0000000000000" "\<lambda>_. 0" 0 10] by (auto simp: f64_one)
  then show ?thesis by (intro exI [of _ b]) simp
qed

text \<open>
  The constructor panics, with Go's division by zero, for every rate below 1 in magnitude: the
  truncated rate is 0.  A registration with such a rate takes the server down.
\<close>

theorem NewTokenBucket_panics:
  assumes "f64_finite rate" "\<bar>f64_val rate\<bar> < 1"
  shows "NewTokenBucket cv now rate burst = Inl (Panic ''integer divide by zero'')"
proof -
  have "rat_trunc (f64_val rate) = 0"
    using assms(2) by (auto simp: rat_trunc_def floor_eq_iff)
  then show ?thesis using assms(1) by (simp add: NewTokenBucket_def f64_to_int64_def int64_div_def)
qed

lemma f64_half: "f64_finite 0x3FE0000000000000" "f64_val 0x3FE0000000000000 = 1 / 2"
  by (simp_all add: f64_finite_def f64_val_def f64_mag_def f64_inf_mag_def f64_neg_def mag_units_def f64_units_def)

theorem NewTokenBucket_panics_witness: "panics (NewTokenBucket (\<lambda>_. 0) 0 0x3FE0000000000000 10)"
  using NewTokenBucket_panics [of "0x3FE0000000000000"] by (simp add: f64_half)

section \<open>Leaky bucket\<close>

text \<open>
  C10 The leaky bucket is an integer counter: \<^verbatim>\<open>Allow\<close> on the float-based bucket succeeds, keeps
  the invariant and computes exactly the answer, level and drain instant of the integer bucket that
  drains one event per whole period and grants a request when it fits under the capacity.
\<close>

theorem leaky_bucket_refines_integer_bucket:
  assumes "LeakyBucket_inv b" "t - lb_lastDrained b < 2 ^ 63"
  shows "\<exists>ok b'. LeakyBucket_Allow cv t n b = Inr (ok, b') \<and> LeakyBucket_inv b' \<and>
    (ok, LeakyBucket_abs b') =
      ib_Allow (uint (lb_capability b)) (lb_drainPeriod b) t (uint n) (LeakyBucket_abs b)"
  by (rule Allow_refines [OF assms])

theorem leaky_bucket_refines_integer_bucket_witness:
  "\<exists>b'. LeakyBucket_Allow (\<lambda>_. 0) 50 3 \<lparr>lb_rate = 0, lb_capability = 10, lb_drops = 0, lb_drainPeriod = 1000000,
      lb_lastDrained = 0, lb_nextDrain = 1000000\<rparr> = Inr (True, b') \<and>
    LeakyBucket_abs b' = \<lparr>ib_level = 3, ib_drained = 0\<rparr>"
proof -
  let ?b = "\<lparr>lb_rate = 0, lb_capability = 10, lb_drops = 0, lb_drainPeriod = 1000000,
      lb_lastDrained = 0, lb_nextDrain = 1000000\<rparr>"
  have "LeakyBucket_inv ?b" by (simp add: LeakyBucket_inv_def)
  from leaky_bucket_refines_integer_bucket [OF this, of 50 "\<lambda>_. 0" 3] show ?thesis
    by (auto simp: ib_Allow_def ib_drain_def LeakyBucket_abs_def)
qed

text \<open>
  A drain whose period is 0 (a rate above one per nanosecond) divides by zero as soon as there is
  something to drain: \<^verbatim>\<open>Allow\<close> and \<^verbatim>\<open>Take\<close> both panic.
\<close>

theorem leaky_bucket_zero_period_panics:
  assumes "lb_drainPeriod b = 0" "f64_less 0 (lb_drops b)" "lb_nextDrain b < t"
  shows "LeakyBucket_Allow cv t n b = Inl (Panic ''integer divide by zero'') \<and>
    LeakyBucket_Take cv t n b = Inl (Panic ''integer divide by zero'')"
  using assms
  by (simp add: LeakyBucket_Allow_def LeakyBucket_Take_def LeakyBucket_drain_def time_After_def int64_div_def)

theorem leaky_bucket_zero_period_panics_witness:
  "panics (LeakyBucket_Allow (\<lambda>_. 0) 50 3 \<lparr>lb_rate = 0, lb_capability = 10, lb_drops = 0x3FF0000000000000,
      lb_drainPeriod = 0, lb_lastDrained = 0, lb_nextDrain = 0\<rparr>)"
proof -
  let ?b = "\<lparr>lb_rate = 0, lb_capability = 10, lb_drops = 0x3FF0000000000000,
      lb_drainPeriod = 0, lb_lastDrained = 0, lb_nextDrain = 0\<rparr>"
  have "f64_less 0 (lb_drops ?b)" by (simp add: f64_less_val f64_one)
  then show ?thesis using leaky_bucket_zero_period_panics [of ?b 50] by simp
qed

section \<open>The limiter interface\<close>

text \<open>
  A limiter written into a resource message and read back is the same limiter: rate, burst, token
  count, period and both instants.  A replica therefore continues exactly where the sender was.
\<close>

theorem limiter_survives_message:
  assumes "Limiter_sendable l"
  shows "bindR (AssignLimiterToResPB resPB l) (\<lambda>v. NewLimiterFromResPB (Some v)) = Inr l"
  by (rule LimiterFromResPB_Assign [OF assms])

theorem limiter_survives_message_witness:
  "bindR (AssignLimiterToResPB Resource_zero (tokenBucketLimiter (full_bucket 0x408F400000000000 10 1000000 1700000000000000000)))
     (\<lambda>v. NewLimiterFromResPB (Some v))
   = Inr (tokenBucketLimiter (full_bucket 0x408F400000000000 10 1000000 1700000000000000000))"
  by (rule limiter_survives_message)
    (simp add: full_bucket_def int64_range_def min_int64_def max_int64_def)

text \<open>
  At one instant a refused request stays refused, whatever else is asked for: after a denial the limiter
  denies every request at least as large.
\<close>

theorem limiter_denial_is_stable:
  assumes "Limiter_inv l" "\<not> fst (Limiter_Allow t n l)" "n \<le> m"
  shows "\<not> fst (Limiter_Allow t m (snd (Limiter_Allow t n l)))"
  by (rule iface.denied_then_denied [OF assms])

theorem limiter_denial_is_stable_witness:
  "\<not> fst (Limiter_Allow 5 12 (snd (Limiter_Allow 5 11
      (tokenBucketLimiter (full_bucket 0x408F400000000000 10 1000000 0)))))"
proof -
  let ?b = "full_bucket 0x408F400000000000 10 1000000 0"
  have inv: "TokenBucket_inv ?b" by (rule full_bucket_inv) simp_all
  have early: "TokenBucket_fill 5 ?b = ?b" by (rule fill_early) (simp add: full_bucket_def)
  have "\<not> fst (TokenBucket_Allow 5 11 ?b)"
    using Allow_cases(1) [OF inv, of 5 11] by (simp add: early full_bucket_tokens)
  then have "\<not> fst (Limiter_Allow 5 11 (tokenBucketLimiter ?b))" by (simp only: Limiter_Allow_parts not_False_eq_True)
  from limiter_denial_is_stable [OF _ this, of 12] inv show ?thesis by (simp del: Limiter_Allow.simps)
qed

end
