(* ===== verification/Config.thy ===== *)
theory Config
  imports GoTime
begin

text \<open>
  Configuration (\<^verbatim>\<open>internal/config\<close>).  A parsed \<^verbatim>\<open>url.URL\<close> is kept as the four
  readings the program takes of it: scheme, host, user name and its text.  Parsing of environment
  variables and URL text is the work of libraries and not modelled.  SHA-256 is the parameter \<open>sha\<close>.
\<close>

record URL =
  u_Scheme :: string
  u_Host :: string
  u_Username :: string
  u_String :: string
  u_hash :: "byte list option"

text \<open>\<^verbatim>\<open>UserNameHash\<close> fills a cache in its receiver, so it returns the URL as well.\<close>

definition URL_UserNameHash :: "(string \<Rightarrow> byte list) \<Rightarrow> URL \<Rightarrow> byte list \<times> URL" where
  "URL_UserNameHash sha u =
     (case u_hash u of
        Some h \<Rightarrow> (h, u)
      | None \<Rightarrow> (let hash = sha (u_Username u) in (hash, u\<lparr>u_hash := Some hash\<rparr>)))"

definition URL_NodeID :: "(string \<Rightarrow> byte list) \<Rightarrow> URL \<Rightarrow> (u32 \<times> URL) res" where
  "URL_NodeID sha u =
     (let (hash, u) = URL_UserNameHash sha u
      in bindR (get_slice hash 0 4) (\<lambda>h. Inr (word_of_nat (le_val h), u)))"

definition URL_NodeName :: "URL \<Rightarrow> string" where
  "URL_NodeName u = u_Username u"

record ClusterConfig =
  cc_Enabled :: bool
  cc_Url :: URL
  cc_PeerUrls :: "URL list"
  cc_StateDir :: string
  cc_CheckInterval :: duration

record Config =
  cf_Env :: string
  cf_LogLevel :: string
  cf_ApiListenUrl :: URL
  cf_ApiAdvertiseUrl :: URL
  cf_MultiCore :: bool
  cf_WorkerPool :: bool
  cf_Cluster :: ClusterConfig
  cf_MetricsEnabled :: bool

definition Config_IsProdEnv :: "Config \<Rightarrow> bool" where
  "Config_IsProdEnv cfg = (cf_Env cfg = ''production'')"

definition Config_IsDevEnv :: "Config \<Rightarrow> bool" where
  "Config_IsDevEnv cfg = (cf_Env cfg = ''development'')"

definition Config_IsTestEnv :: "Config \<Rightarrow> bool" where
  "Config_IsTestEnv cfg = (cf_Env cfg = ''test'')"

definition Config_IsBenchmarkEnv :: "Config \<Rightarrow> bool" where
  "Config_IsBenchmarkEnv cfg = (cf_Env cfg = ''benchmark'')"

definition Config_ClusterNodeName :: "Config \<Rightarrow> string" where
  "Config_ClusterNodeName cfg = URL_NodeName (cc_Url (cf_Cluster cfg))"

definition Config_ClusterNodeID :: "(string \<Rightarrow> byte list) \<Rightarrow> Config \<Rightarrow> (u32 \<times> Config) res" where
  "Config_ClusterNodeID sha cfg =
     bindR (URL_NodeID sha (cc_Url (cf_Cluster cfg)))
       (\<lambda>(i, u). Inr (i, cfg\<lparr>cf_Cluster := (cf_Cluster cfg)\<lparr>cc_Url := u\<rparr>\<rparr>))"

text \<open>A URL whose cache, if filled, holds the hash of its user name.\<close>

definition URL_wf :: "(string \<Rightarrow> byte list) \<Rightarrow> URL \<Rightarrow> bool" where
  "URL_wf sha u \<longleftrightarrow> (case u_hash u of None \<Rightarrow> True | Some h \<Rightarrow> h = sha (u_Username u))"

lemma URL_NodeID_stable:
  assumes "URL_wf sha u" "4 \<le> length (sha (u_Username u))"
  obtains u' where "URL_NodeID sha u = Inr (word_of_nat (le_val (take 4 (sha (u_Username u)))), u')" "URL_wf sha u'"
    "u_Username u' = u_Username u" "URL_NodeID sha u' = Inr (word_of_nat (le_val (take 4 (sha (u_Username u)))), u')"
  using assms that
  by (cases "u_hash u") (auto simp: URL_NodeID_def URL_UserNameHash_def URL_wf_def Let_def get_slice_def slice_def)

end
