(* ===== verification/Metric.thy ===== *)
theory Metric
  imports GoTime ApiMessages "HOL-Library.AList"
begin

text \<open>
  Request rates (\<^verbatim>\<open>internal/metric\<close>): the request counter and rate history of \<^verbatim>\<open>rps.go\<close>,
  their conversion to and from messages, and the \<^verbatim>\<open>Metrics\<close> object of \<^verbatim>\<open>metric.go\<close> with its
  backends (\<^verbatim>\<open>null.go\<close>, \<^verbatim>\<open>console.go\<close>).  The package variable
  \<^verbatim>\<open>maxHistoryDuration\<close> is the argument \<open>H\<close>; a reading of the clock is an argument \<open>now\<close>.
\<close>

definition maxHistoryDuration :: duration where
  "maxHistoryDuration = 3600 * time_Second"

section \<open>History\<close>

record rpsEntry =
  he_rps :: u64
  he_t :: instant

text \<open>A history's only field beside its mutex: the entries, oldest first (nil is the empty list).\<close>

type_synonym rpsHistory = "rpsEntry list"

definition rpsHistory_reset :: "rpsHistory \<Rightarrow> rpsHistory" where
  "rpsHistory_reset h = []"

definition rpsHistory_push :: "duration \<Rightarrow> u64 \<Rightarrow> instant \<Rightarrow> rpsHistory \<Rightarrow> rpsHistory" where
  "rpsHistory_push H rps now h =
     (let entries = h @ [\<lparr>he_rps = rps, he_t = now\<rparr>]
      in if H < time_Sub now (he_t (hd entries)) then tl entries else entries)"

definition rpsHistory_pushNow :: "duration \<Rightarrow> instant \<Rightarrow> u64 \<Rightarrow> rpsHistory \<Rightarrow> rpsHistory" where
  "rpsHistory_pushNow H now rps h = rpsHistory_push H rps now h"

text \<open>The loop of \<^verbatim>\<open>avgRPS\<close> goes from the newest entry to the oldest; \<open>xs\<close> is what is left, in that order.\<close>

fun avg_loop :: "instant \<Rightarrow> rpsEntry list \<Rightarrow> u64 \<Rightarrow> int \<Rightarrow> u64 \<times> int" where
  "avg_loop since [] rpsSum rpsCount = (rpsSum, rpsCount)"
| "avg_loop since (entry # xs) rpsSum rpsCount =
     (if since \<le> he_t entry then avg_loop since xs (f64_add rpsSum (he_rps entry)) (rpsCount + 1)
      else avg_loop since xs rpsSum rpsCount)"

definition rpsHistory_avgRPS :: "instant \<Rightarrow> duration \<Rightarrow> rpsHistory \<Rightarrow> u64" where
  "rpsHistory_avgRPS now d h =
     (if length h = 0 then 0
      else let since = time_Add now (wrap64 (- d));
               (rpsSum, rpsCount) = avg_loop since (rev h) 0 0
           in f64_div rpsSum (f64_of_int rpsCount))"

fun rpsHistory_assginToPB :: "rpsHistory \<Rightarrow> ReqPerSec option \<Rightarrow> ReqPerSec option" where
  "rpsHistory_assginToPB h None = None"
| "rpsHistory_assginToPB h (Some rpsPB) =
     Some (rpsPB\<lparr>rq_Histories :=
       map (\<lambda>entry. Some \<lparr>re_Rps = he_rps entry, re_Time = TimeToTimestamp (he_t entry)\<rparr>) h\<rparr>)"

text \<open>\<^verbatim>\<open>fromPB\<close> keeps the entries younger than \<open>H\<close>; a nil entry is dereferenced.\<close>

fun fromPB_loop :: "duration \<Rightarrow> instant \<Rightarrow> ReqPerSecEntry option list \<Rightarrow> rpsHistory \<Rightarrow> rpsHistory res" where
  "fromPB_loop H now [] entries = Inr entries"
| "fromPB_loop H now (None # ps) entries = Inl nil_deref"
| "fromPB_loop H now (Some entryPB # ps) entries =
     (let entryTime = TimestampToTime (re_Time entryPB)
      in if time_Sub now entryTime < H
         then fromPB_loop H now ps (entries @ [\<lparr>he_rps = re_Rps entryPB, he_t = entryTime\<rparr>])
         else fromPB_loop H now ps entries)"

fun rpsHistory_fromPB :: "duration \<Rightarrow> instant \<Rightarrow> ReqPerSec option \<Rightarrow> rpsHistory \<Rightarrow> rpsHistory res" where
  "rpsHistory_fromPB H now None h = Inr h"
| "rpsHistory_fromPB H now (Some rpsPB) h = fromPB_loop H now (rq_Histories rpsPB) (rpsHistory_reset h)"

section \<open>Requests per second\<close>

record RPS =
  rps_reqCount :: u32
  rps_hist :: rpsHistory

definition RPS_zero :: RPS where
  "RPS_zero = \<lparr>rps_reqCount = 0, rps_hist = []\<rparr>"

definition RPS_Add :: "u32 \<Rightarrow> RPS \<Rightarrow> RPS" where
  "RPS_Add n r = r\<lparr>rps_reqCount := rps_reqCount r + n\<rparr>"

text \<open>\<^verbatim>\<open>time.Duration.Seconds\<close>: whole seconds plus the fraction, as floats.\<close>

definition duration_Seconds :: "duration \<Rightarrow> u64" where
  "duration_Seconds d =
     f64_add (f64_of_int (d sdiv time_Second)) (f64_div (f64_of_int (d smod time_Second)) (f64_of_int (10 ^ 9)))"

definition RPS_Calc :: "duration \<Rightarrow> instant \<Rightarrow> duration \<Rightarrow> RPS \<Rightarrow> u64 \<times> RPS" where
  "RPS_Calc H now interval r =
     (let reqs = rps_reqCount r;
          rps = f64_div (f64_of_int (uint reqs)) (duration_Seconds interval)
      in (rps, r\<lparr>rps_reqCount := 0, rps_hist := rpsHistory_pushNow H now rps (rps_hist r)\<rparr>))"

definition RPS_AvgRPS :: "instant \<Rightarrow> duration \<Rightarrow> RPS \<Rightarrow> u64" where
  "RPS_AvgRPS now d r = rpsHistory_avgRPS now d (rps_hist r)"

definition RPS_Reset :: "RPS \<Rightarrow> RPS" where
  "RPS_Reset r = r\<lparr>rps_reqCount := 0, rps_hist := rpsHistory_reset (rps_hist r)\<rparr>"

definition RPS_ToPB :: "RPS \<Rightarrow> ReqPerSec option" where
  "RPS_ToPB r = rpsHistory_assginToPB (rps_hist r) (Some \<lparr>rq_ReqCount = rps_reqCount r, rq_Histories = []\<rparr>)"

fun RPS_FromPB :: "duration \<Rightarrow> instant \<Rightarrow> ReqPerSec option \<Rightarrow> RPS \<Rightarrow> RPS res" where
  "RPS_FromPB H now None r = Inl nil_deref"
| "RPS_FromPB H now (Some rpsPB) r =
     bindR (rpsHistory_fromPB H now (Some rpsPB) (rps_hist r))
       (\<lambda>h. Inr (r\<lparr>rps_reqCount := rq_ReqCount rpsPB, rps_hist := h\<rparr>))"

section \<open>Backends\<close>

text \<open>
  \<^verbatim>\<open>MetricBackend\<close> has two implementations.  Both return nil; the logging one writes a line when
  the rate is not 0, which the model keeps as the list of lines written.
\<close>

datatype MetricBackend = NullMetricBackend | LogMetricBackend

datatype metric_line = APICmdRPS u64 | ResourceRPS string u64

fun MetricBackend_ReportAPICmdRPS :: "MetricBackend \<Rightarrow> u64 \<Rightarrow> string option \<times> metric_line list" where
  "MetricBackend_ReportAPICmdRPS NullMetricBackend rps = (None, [])"
| "MetricBackend_ReportAPICmdRPS LogMetricBackend rps =
     (if f64_nonzero rps then (None, [APICmdRPS rps]) else (None, []))"

fun MetricBackend_ReportResourceRPS :: "MetricBackend \<Rightarrow> string \<Rightarrow> u64 \<Rightarrow> string option \<times> metric_line list" where
  "MetricBackend_ReportResourceRPS NullMetricBackend name rps = (None, [])"
| "MetricBackend_ReportResourceRPS LogMetricBackend name rps =
     (if f64_nonzero rps then (None, [ResourceRPS name rps]) else (None, []))"

section \<open>Metrics\<close>

text \<open>
  The \<^verbatim>\<open>sync.Map\<close> of resources is an association list with distinct keys; its \<^verbatim>\<open>Range\<close>
  visits each key once.  A nil backend is \<open>None\<close>.
\<close>

record Metrics =
  mt_apiCmd :: RPS
  mt_resoures :: "(string \<times> RPS) list"
  mt_backend :: "MetricBackend option"

definition NewMetrics :: "MetricBackend option \<Rightarrow> Metrics" where
  "NewMetrics backend = \<lparr>mt_apiCmd = RPS_zero, mt_resoures = [], mt_backend = backend\<rparr>"

definition Metrics_AddAPICmdCountN :: "u32 \<Rightarrow> Metrics \<Rightarrow> Metrics" where
  "Metrics_AddAPICmdCountN n m = m\<lparr>mt_apiCmd := RPS_Add n (mt_apiCmd m)\<rparr>"

definition Metrics_AddAPICmdCount :: "Metrics \<Rightarrow> Metrics" where
  "Metrics_AddAPICmdCount m = Metrics_AddAPICmdCountN 1 m"

definition ErrNoBackend :: string where
  "ErrNoBackend = ''Metrics backend doesn't set''"

definition Metrics_ReportAPICmdRPS :: "duration \<Rightarrow> instant \<Rightarrow> duration \<Rightarrow> Metrics \<Rightarrow>
  (string option \<times> metric_line list) \<times> Metrics" where
  "Metrics_ReportAPICmdRPS H now interval m =
     (let (rps, r) = RPS_Calc H now interval (mt_apiCmd m); m = m\<lparr>mt_apiCmd := r\<rparr>
      in case mt_backend m of
           None \<Rightarrow> ((Some ErrNoBackend, []), m)
         | Some b \<Rightarrow> (MetricBackend_ReportAPICmdRPS b rps, m))"

definition Metrics_GetAPICmdAvgRPS :: "instant \<Rightarrow> duration \<Rightarrow> Metrics \<Rightarrow> u64" where
  "Metrics_GetAPICmdAvgRPS now d m = RPS_AvgRPS now d (mt_apiCmd m)"

definition Metrics_AddResourceCountN :: "string \<Rightarrow> u32 \<Rightarrow> Metrics \<Rightarrow> Metrics" where
  "Metrics_AddResourceCountN name n m =
     (let r = (case map_of (mt_resoures m) name of None \<Rightarrow> RPS_zero | Some r \<Rightarrow> r)
      in m\<lparr>mt_resoures := AList.update name (RPS_Add n r) (mt_resoures m)\<rparr>)"

definition Metrics_AddResourceCount :: "string \<Rightarrow> Metrics \<Rightarrow> Metrics" where
  "Metrics_AddResourceCount name m = Metrics_AddResourceCountN name 1 m"

text \<open>Each resource is reported with a clock reading of its own, \<open>clk name\<close>.\<close>

fun ReportResource_loop :: "duration \<Rightarrow> (string \<Rightarrow> instant) \<Rightarrow> duration \<Rightarrow> MetricBackend \<Rightarrow> (string \<times> RPS) list \<Rightarrow>
  string option \<Rightarrow> (string option \<times> metric_line list) \<times> (string \<times> RPS) list" where
  "ReportResource_loop H clk interval b [] firstErr = ((firstErr, []), [])"
| "ReportResource_loop H clk interval b ((name, item) # items) firstErr =
     (let (rps, item) = RPS_Calc H (clk name) interval item;
          (err, out) = MetricBackend_ReportResourceRPS b name rps;
          firstErr = (if err \<noteq> None \<and> firstErr = None then err else firstErr);
          ((firstErr, outs), items) = ReportResource_loop H clk interval b items firstErr
      in ((firstErr, out @ outs), (name, item) # items))"

definition Metrics_ReportResourceRPS :: "duration \<Rightarrow> (string \<Rightarrow> instant) \<Rightarrow> duration \<Rightarrow> Metrics \<Rightarrow>
  (string option \<times> metric_line list) \<times> Metrics" where
  "Metrics_ReportResourceRPS H clk interval m =
     (case mt_backend m of
        None \<Rightarrow> ((Some ErrNoBackend, []), m)
      | Some b \<Rightarrow>
          (let (r, items) = ReportResource_loop H clk interval b (mt_resoures m) None
           in (r, m\<lparr>mt_resoures := items\<rparr>)))"

section \<open>The history is bounded\<close>

text \<open>Entries at least \<open>P\<close> apart, as the ticker makes them.\<close>

fun spaced :: "duration \<Rightarrow> rpsHistory \<Rightarrow> bool" where
  "spaced P [] = True"
| "spaced P [e] = True"
| "spaced P (e # f # es) = (he_t e + P \<le> he_t f \<and> spaced P (f # es))"

lemma spaced_tl: "spaced P h \<Longrightarrow> spaced P (tl h)"
  by (cases "(P, h)" rule: spaced.cases) auto

lemma spaced_snoc: "spaced P h \<Longrightarrow> (h \<noteq> [] \<Longrightarrow> he_t (last h) + P \<le> he_t e) \<Longrightarrow> spaced P (h @ [e])"
  by (induction P h rule: spaced.induct) (auto split: if_splits)

lemma spaced_span: "spaced P h \<Longrightarrow> h \<noteq> [] \<Longrightarrow> he_t (hd h) + int (length h - 1) * P \<le> he_t (last h)"
  by (induction P h rule: spaced.induct) (auto simp: algebra_simps)

lemma spaced_butlast: "spaced P (h @ [e]) \<Longrightarrow> spaced P h"
  by (induction P h rule: spaced.induct) auto

lemma spaced_last: "spaced P (h @ [e]) \<Longrightarrow> h \<noteq> [] \<Longrightarrow> he_t (last h) + P \<le> he_t e"
  by (induction P h rule: spaced.induct) auto

lemma push_bounded:
  assumes "0 < P" "0 \<le> H" "H < max_int64" "spaced P h" "h \<noteq> [] \<Longrightarrow> he_t (last h) + P \<le> now"
    and "length h \<le> nat (H div P) + 1"
  shows "spaced P (rpsHistory_push H rps now h) \<and> length (rpsHistory_push H rps now h) \<le> nat (H div P) + 1"
proof -
  let ?e = "\<lparr>he_rps = rps, he_t = now\<rparr>"
  let ?h = "h @ [?e]"
  have sp: "spaced P ?h" by (rule spaced_snoc) (use assms in auto)
  have drop: "H < time_Sub now (he_t (hd ?h))" if "length h = nat (H div P) + 1"
  proof -
    have "he_t (hd ?h) + int (length h) * P \<le> now" using spaced_span [OF sp] by simp
    moreover have "int (length h) * P = H div P * P + P"
      using that assms(1,2) by (simp add: pos_imp_zdiv_nonneg_iff algebra_simps)
    moreover have "H < H div P * P + P"
      using assms(1) div_mult_mod_eq [of H P] pos_mod_bound [of P H] by linarith
    ultimately have "H < now - he_t (hd ?h)" by linarith
    then show ?thesis using assms(2,3) by (simp add: time_Sub_def min_int64_def)
  qed
  consider "length h = nat (H div P) + 1" | "length h \<le> nat (H div P)" using assms(6) by linarith
  then show ?thesis
    by cases (use sp spaced_tl [OF sp] drop in \<open>auto simp: rpsHistory_push_def Let_def\<close>)
qed

lemma pushes_bounded:
  assumes "0 < P" "0 \<le> H" "H < max_int64" "spaced P (map (\<lambda>(rps, t). \<lparr>he_rps = rps, he_t = t\<rparr>) ps)"
  shows "length (fold (\<lambda>(rps, t) h. rpsHistory_push H rps t h) ps []) \<le> nat (H div P) + 1 \<and>
    spaced P (fold (\<lambda>(rps, t) h. rpsHistory_push H rps t h) ps []) \<and>
    (ps \<noteq> [] \<longrightarrow> fold (\<lambda>(rps, t) h. rpsHistory_push H rps t h) ps [] = [] \<or>
       he_t (last (fold (\<lambda>(rps, t) h. rpsHistory_push H rps t h) ps [])) = snd (last ps))"
  using assms(4)
proof (induction ps rule: rev_induct)
  case (snoc p ps)
  let ?h = "fold (\<lambda>(rps, t) h. rpsHistory_push H rps t h) ps []"
  obtain rps t where p: "p = (rps, t)" by (cases p)
  have sp: "spaced P (map (\<lambda>(rps, t). \<lparr>he_rps = rps, he_t = t\<rparr>) ps)"
    using snoc.prems by (simp add: p spaced_butlast)
  have gap: "snd (last ps) + P \<le> t" if "ps \<noteq> []"
  proof -
    have "he_t (last (map (\<lambda>(rps, t). \<lparr>he_rps = rps, he_t = t\<rparr>) ps)) + P \<le> he_t \<lparr>he_rps = rps, he_t = t\<rparr>"
      by (rule spaced_last) (use snoc.prems that in \<open>simp_all add: p\<close>)
    then show ?thesis using that by (cases "last ps") (simp add: last_map)
  qed
  have "he_t (last ?h) + P \<le> t" if "?h \<noteq> []"
    using snoc.IH [OF sp] gap that by (cases "ps = []") auto
  then have "spaced P (rpsHistory_push H rps t ?h) \<and> length (rpsHistory_push H rps t ?h) \<le> nat (H div P) + 1"
    using snoc.IH [OF sp] by (intro push_bounded [OF assms(1-3)]) auto
  moreover have "rpsHistory_push H rps t ?h = [] \<or> he_t (last (rpsHistory_push H rps t ?h)) = t"
    by (cases ?h) (auto simp: rpsHistory_push_def Let_def)
  ultimately show ?case by (simp add: p)
qed simp

section \<open>Averages and messages\<close>

lemma avg_loop_none: "\<forall>e \<in> set xs. he_t e < since \<Longrightarrow> avg_loop since xs s n = (s, n)"
  by (induction xs) auto

lemma zero_div_zero: "f64_nan (f64_div 0 (f64_of_int 0))"
proof -
  have "f64_mag (f64_of_int 0) = 0" by (simp add: f64_of_int_def f64_round_def f64_make_def f64_mag_def)
  moreover have "\<not> f64_nan (f64_of_int 0)" "\<not> f64_inf (f64_of_int 0)"
    using f64_of_int_exact(1) [of 0] f64_finite_not_nan f64_finite_not_inf by simp_all
  moreover have "f64_mag 0 = 0" "\<not> f64_nan 0" "\<not> f64_inf 0"
    by (simp_all add: f64_mag_def f64_nan_def f64_inf_def f64_inf_mag_def)
  ultimately show ?thesis
    by (simp add: f64_div_def Let_def f64_qnan_def) (simp add: f64_nan_def f64_mag_def f64_inf_mag_def)
qed

lemma time_roundtrip_hist:
  "\<forall>e \<in> set h. int64_range (he_t e div 10 ^ 9) \<Longrightarrow>
   fromPB_loop H now (map (\<lambda>e. Some \<lparr>re_Rps = he_rps e, re_Time = TimeToTimestamp (he_t e)\<rparr>) h) acc
   = Inr (acc @ filter (\<lambda>e. time_Sub now (he_t e) < H) h)"
  by (induction h arbitrary: acc) (simp_all add: TimestampToTime_TimeToTimestamp Let_def)

lemma RPS_FromPB_ToPB:
  assumes "\<forall>e \<in> set (rps_hist r). int64_range (he_t e div 10 ^ 9)"
  shows "RPS_FromPB H now (RPS_ToPB r) r0 =
    Inr \<lparr>rps_reqCount = rps_reqCount r, rps_hist = filter (\<lambda>e. time_Sub now (he_t e) < H) (rps_hist r)\<rparr>"
  using time_roundtrip_hist [OF assms, of H now "[]"]
  by (simp add: RPS_ToPB_def rpsHistory_reset_def)

section \<open>Counting\<close>

lemma f64_one_val: "f64_finite 0x3FF0000000000000" "f64_val 0x3FF0000000000000 = 1"
  by (simp_all add: f64_finite_def f64_val_def f64_mag_def f64_inf_mag_def f64_neg_def mag_units_def f64_units_def)

lemma one_second: "f64_finite (duration_Seconds (10 ^ 9))" "f64_val (duration_Seconds (10 ^ 9)) = 1"
proof -
  have zero: "f64_finite (f64_of_int 0)" "f64_val (f64_of_int 0) = 0"
    and one: "f64_finite (f64_of_int 1)" "f64_val (f64_of_int 1) = 1"
    and G: "f64_finite (f64_of_int (10 ^ 9))" "f64_val (f64_of_int (10 ^ 9)) \<noteq> 0"
    using f64_of_int_exact [of 0] f64_of_int_exact [of 1] f64_of_int_exact [of "10 ^ 9"] by simp_all
  have "f64_div (f64_of_int 0) (f64_of_int (10 ^ 9)) = f64_round (f64_neg (f64_of_int 0) \<noteq> f64_neg (f64_of_int (10 ^ 9))) 0"
    using f64_div_finite [OF zero(1) G] by (simp add: zero)
  then have q: "f64_finite (f64_div (f64_of_int 0) (f64_of_int (10 ^ 9)))" "f64_val (f64_div (f64_of_int 0) (f64_of_int (10 ^ 9))) = 0"
    using round_representable [OF representable_0] by simp_all
  have "duration_Seconds (10 ^ 9) = f64_add (f64_of_int 1) (f64_div (f64_of_int 0) (f64_of_int (10 ^ 9)))"
    by (simp add: duration_Seconds_def time_Second_def signed_divide_int_def signed_modulo_int_def sgn_if)
  then have "duration_Seconds (10 ^ 9) = f64_round (f64_neg (f64_of_int 1) \<and> f64_neg (f64_div (f64_of_int 0) (f64_of_int (10 ^ 9)))) 1"
    using f64_add_finite [OF one(1) q(1)] by (simp only: one q add_0_right)
  moreover have "representable 1" using representable_int [of 1] by simp
  ultimately show "f64_finite (duration_Seconds (10 ^ 9))" "f64_val (duration_Seconds (10 ^ 9)) = 1"
    using round_representable [of 1] by simp_all
qed

lemma fold_RPS_Add: "rps_reqCount (fold RPS_Add ns r) = rps_reqCount r + sum_list ns \<and> rps_hist (fold RPS_Add ns r) = rps_hist r"
  by (induction ns arbitrary: r) (simp_all add: RPS_Add_def algebra_simps)

end
