(* ===== verification/CmdErr.thy ===== *)
theory CmdErr
  imports ApiMessages
begin

text \<open>
  Command errors (\<^verbatim>\<open>proto/cmd_err.go\<close>): the methods of \<^verbatim>\<open>*pb.CmdError\<close>, which accept
  a nil receiver, and its constructors with their message formatting.  A Go function that returns a
  value and a \<^verbatim>\<open>*pb.CmdError\<close> returns a \<open>'a cres\<close> here: the error, or the value.
\<close>

type_synonym 'a cres = "(CmdError + 'a) res"

section \<open>Formatting\<close>

text \<open>The arguments and verbs of \<^verbatim>\<open>fmt.Sprintf\<close> that the program's messages use.\<close>

datatype fmt_arg = FStr string | FInt int

fun fmt_verb :: "char \<Rightarrow> fmt_arg \<Rightarrow> string" where
  "fmt_verb v (FStr s) = (if v = CHR ''s'' then s else ''%!'' @ [v] @ ''(string='' @ s @ '')'')"
| "fmt_verb v (FInt i) =
     (if v = CHR ''d'' then show_int i
      else if v = CHR ''X'' then (if i < 0 then ''-'' else []) @ show_hex (nat \<bar>i\<bar>)
      else ''%!'' @ [v] @ ''(int='' @ show_int i @ '')'')"

fun sprintf :: "string \<Rightarrow> fmt_arg list \<Rightarrow> string" where
  "sprintf [] as = []"
| "sprintf (c # cs) as =
     (if c \<noteq> CHR ''%'' then c # sprintf cs as
      else (case cs of
              [] \<Rightarrow> ''%!(NOVERB)''
            | v # cs \<Rightarrow>
                (if v = CHR ''%'' then v # sprintf cs as
                 else (case as of
                         [] \<Rightarrow> ''%!'' @ [v] @ ''(MISSING)'' @ sprintf cs []
                       | a # as \<Rightarrow> fmt_verb v a @ sprintf cs as))))"

definition msgf :: "string \<Rightarrow> fmt_arg list \<Rightarrow> string" where
  "msgf format args = (if args = [] then format else sprintf format args)"

section \<open>Methods\<close>

text \<open>Both methods test for a nil receiver.\<close>

fun CmdError_Error :: "CmdError option \<Rightarrow> string" where
  "CmdError_Error None = []"
| "CmdError_Error (Some e) = ce_Msg e"

text \<open>
  \<^verbatim>\<open>status.Error\<close> belongs to gRPC: a parameter that makes an error (or nil) of a code and a
  message.  \<^verbatim>\<open>codes.Code\<close> is a \<^verbatim>\<open>uint32\<close> with the bits of the error code.
\<close>

fun CmdError_StatusErr :: "(u32 \<Rightarrow> string \<Rightarrow> 'e option) \<Rightarrow> CmdError option \<Rightarrow> 'e option" where
  "CmdError_StatusErr status_Error None = None"
| "CmdError_StatusErr status_Error (Some e) = status_Error (ce_Code e) (ce_Msg e)"

section \<open>Constructors\<close>

definition NewCmdError :: "ErrorCode \<Rightarrow> string \<Rightarrow> CmdError" where
  "NewCmdError code msg = \<lparr>ce_Code = code, ce_Msg = msg\<rparr>"

text \<open>\<^verbatim>\<open>WrapCmdError\<close> calls \<^verbatim>\<open>err.Error()\<close>, which panics on a nil error.\<close>

fun WrapCmdError :: "ErrorCode \<Rightarrow> string option \<Rightarrow> CmdError res" where
  "WrapCmdError code None = Inl nil_deref"
| "WrapCmdError code (Some err) = Inr \<lparr>ce_Code = code, ce_Msg = err\<rparr>"

definition NewCmdUnknownError :: "string \<Rightarrow> fmt_arg list \<Rightarrow> CmdError" where
  "NewCmdUnknownError msg args = \<lparr>ce_Code = ErrorCode_Unknown, ce_Msg = msgf msg args\<rparr>"

definition NewCmdNotFoundError :: "string \<Rightarrow> fmt_arg list \<Rightarrow> CmdError" where
  "NewCmdNotFoundError msg args = \<lparr>ce_Code = ErrorCode_NotFound, ce_Msg = msgf msg args\<rparr>"

definition NewCmdAlreadyExistsError :: "string \<Rightarrow> fmt_arg list \<Rightarrow> CmdError" where
  "NewCmdAlreadyExistsError msg args = \<lparr>ce_Code = ErrorCode_AlreadyExists, ce_Msg = msgf msg args\<rparr>"

definition NewCmdOutOfRangeError :: "string \<Rightarrow> fmt_arg list \<Rightarrow> CmdError" where
  "NewCmdOutOfRangeError msg args = \<lparr>ce_Code = ErrorCode_OutOfRange, ce_Msg = msgf msg args\<rparr>"

definition NewCmdIncompletePacketError :: "string \<Rightarrow> fmt_arg list \<Rightarrow> CmdError" where
  "NewCmdIncompletePacketError msg args = \<lparr>ce_Code = ErrorCode_IncompletePacket, ce_Msg = msgf msg args\<rparr>"

definition NewCmdInvalidMsgError :: "string \<Rightarrow> fmt_arg list \<Rightarrow> CmdError" where
  "NewCmdInvalidMsgError msg args = \<lparr>ce_Code = ErrorCode_InvalidMsg, ce_Msg = msgf msg args\<rparr>"

definition NewCmdInvalidMagicNumError :: "string \<Rightarrow> fmt_arg list \<Rightarrow> CmdError" where
  "NewCmdInvalidMagicNumError msg args = \<lparr>ce_Code = ErrorCode_InvalidMagicNum, ce_Msg = msgf msg args\<rparr>"

definition NewCmdInvalidLimiterError :: "string \<Rightarrow> fmt_arg list \<Rightarrow> CmdError" where
  "NewCmdInvalidLimiterError msg args = \<lparr>ce_Code = ErrorCode_InvalidLimiter, ce_Msg = msgf msg args\<rparr>"

definition NewCmdEncodeFailError :: "string \<Rightarrow> fmt_arg list \<Rightarrow> CmdError" where
  "NewCmdEncodeFailError msg args = \<lparr>ce_Code = ErrorCode_EncodeFail, ce_Msg = msgf msg args\<rparr>"

definition NewCmdDecodeFailError :: "string \<Rightarrow> fmt_arg list \<Rightarrow> CmdError" where
  "NewCmdDecodeFailError msg args = \<lparr>ce_Code = ErrorCode_DecodeFail, ce_Msg = msgf msg args\<rparr>"

definition NewCmdProcessFailError :: "string \<Rightarrow> fmt_arg list \<Rightarrow> CmdError" where
  "NewCmdProcessFailError msg args = \<lparr>ce_Code = ErrorCode_ProcessFail, ce_Msg = msgf msg args\<rparr>"

definition NewCmdForwardFailError :: "string \<Rightarrow> fmt_arg list \<Rightarrow> CmdError" where
  "NewCmdForwardFailError msg args = \<lparr>ce_Code = ErrorCode_ForwardFail, ce_Msg = msgf msg args\<rparr>"

section \<open>Returning an error from a command\<close>

text \<open>\<open>failC e\<close> is \<^verbatim>\<open>return nil, e\<close>, \<open>wrapC code err\<close> is \<^verbatim>\<open>return nil, WrapCmdError(code, err)\<close>.\<close>

definition failC :: "CmdError \<Rightarrow> 'a cres" where
  "failC e = Inr (Inl e)"

definition wrapC :: "ErrorCode \<Rightarrow> string option \<Rightarrow> 'a cres" where
  "wrapC code err = bindR (WrapCmdError code err) failC"

definition bindC :: "'a cres \<Rightarrow> ('a \<Rightarrow> 'b cres) \<Rightarrow> 'b cres" where
  "bindC r k = bindR r (\<lambda>x. case x of Inl e \<Rightarrow> failC e | Inr v \<Rightarrow> k v)"

lemma wrapC_Some [simp]: "wrapC code (Some s) = Inr (Inl \<lparr>ce_Code = code, ce_Msg = s\<rparr>)"
  by (simp add: wrapC_def failC_def)

lemma wrapC_None [simp]: "wrapC code None = Inl nil_deref"
  by (simp add: wrapC_def)

lemma bindC_simps [simp]:
  "bindC (Inr (Inr v)) k = k v" "bindC (Inr (Inl e)) k = Inr (Inl e)" "bindC (Inl f) k = Inl f"
  by (simp_all add: bindC_def failC_def)

lemmas new_cmd_errors = NewCmdUnknownError_def NewCmdNotFoundError_def NewCmdAlreadyExistsError_def
  NewCmdOutOfRangeError_def NewCmdIncompletePacketError_def NewCmdInvalidMsgError_def
  NewCmdInvalidMagicNumError_def NewCmdInvalidLimiterError_def NewCmdEncodeFailError_def
  NewCmdDecodeFailError_def NewCmdProcessFailError_def NewCmdForwardFailError_def

end
