(* ===== verification/Probe.thy ===== *)
theory Probe
  imports Config Metric CmdErr "HOL-Library.Multiset"
begin

text \<open>
  The node prober (\<^verbatim>\<open>internal/cluster/probe\<close>): what a node knows about its cluster.  Outside
  the repository are the raft node and the gRPC connections: \<open>raft_node\<close> is what the raft library answers at the
  time of a call, \<open>cluster_client\<close> how a peer answers over gRPC, \<open>dial\<close> the opening of a connection.
\<close>

section \<open>The outside\<close>

record raft_member =
  mb_ID :: u64
  mb_Address :: string
  mb_Type :: string
  mb_IsVoter :: bool
  mb_IsActive :: bool
  mb_ActiveSince :: instant

record raft_node =
  rn_Members :: "raft_member option list"
  rn_Leader :: u64
  rn_GetMemebr :: "u64 \<Rightarrow> raft_member option"
  rn_Replicate :: "byte list \<Rightarrow> string option"

record cluster_client =
  cl_GetNodeInfo :: "string + NodeInfo"
  cl_GetAPICmdAvgRPS :: "u32 \<Rightarrow> string + u64"
  cl_IsEntryApplied :: "byte list \<Rightarrow> string + bool"
  cl_Allow :: "AllowCmd \<Rightarrow> string + AllowCmdResp"
  cl_RegisterResource :: "RegResCmd \<Rightarrow> string + RegResCmdResp"

section \<open>Peer clients\<close>

text \<open>The \<^verbatim>\<open>sync.Map\<close> of clients is an association list in the order \<^verbatim>\<open>Range\<close> visits it.\<close>

record PeerClientMgr =
  pm_clients :: "(u32 \<times> cluster_client) list"
  pm_raftNode :: "raft_node option"

type_synonym dialer = "string \<Rightarrow> string + cluster_client"

definition NewPeerClient :: "dialer \<Rightarrow> string \<Rightarrow> string + cluster_client" where
  "NewPeerClient dial target =
     (case dial target of
        Inl err \<Rightarrow> Inl (sprintf ''Failed to create gRPC channel for target: %s, error: %s'' [FStr target, FStr err])
      | Inr conn \<Rightarrow> Inr conn)"

definition PeerClientMgr_replaceClient :: "dialer \<Rightarrow> u32 \<Rightarrow> string \<Rightarrow> PeerClientMgr \<Rightarrow> string option \<times> PeerClientMgr" where
  "PeerClientMgr_replaceClient dial nodeID host pm =
     (case NewPeerClient dial (sprintf ''dns:///%s'' [FStr host]) of
        Inl err \<Rightarrow> (Some (sprintf ''Failed to create peer client, error:%s'' [FStr err]), pm)
      | Inr c \<Rightarrow> (None, pm\<lparr>pm_clients := AList.update nodeID c (pm_clients pm)\<rparr>))"

definition PeerClientMgr_addClient :: "dialer \<Rightarrow> u32 \<Rightarrow> string \<Rightarrow> PeerClientMgr \<Rightarrow> string option \<times> PeerClientMgr" where
  "PeerClientMgr_addClient dial nodeID host pm =
     (if map_of (pm_clients pm) nodeID \<noteq> None then (None, pm)
      else PeerClientMgr_replaceClient dial nodeID host pm)"

definition PeerClientMgr_removeClient :: "u32 \<Rightarrow> PeerClientMgr \<Rightarrow> PeerClientMgr" where
  "PeerClientMgr_removeClient nodeID pm = pm\<lparr>pm_clients := AList.delete nodeID (pm_clients pm)\<rparr>"

definition PeerClientMgr_getClient :: "u32 \<Rightarrow> PeerClientMgr \<Rightarrow> cluster_client option" where
  "PeerClientMgr_getClient nodeID pm = map_of (pm_clients pm) nodeID"

definition PeerClientMgr_setRaftNode :: "raft_node option \<Rightarrow> PeerClientMgr \<Rightarrow> PeerClientMgr" where
  "PeerClientMgr_setRaftNode raftNode pm = pm\<lparr>pm_raftNode := raftNode\<rparr>"

definition PeerClientMgr_isPeerActive :: "u32 \<Rightarrow> PeerClientMgr \<Rightarrow> bool" where
  "PeerClientMgr_isPeerActive nodeID pm =
     (case pm_raftNode pm of
        None \<Rightarrow> False
      | Some raftNode \<Rightarrow>
          (case rn_GetMemebr raftNode (ucast nodeID) of
             None \<Rightarrow> False
           | Some mem \<Rightarrow> mb_IsActive mem \<and> mb_IsVoter mem))"

text \<open>
  \<^verbatim>\<open>iter\<close> calls its argument on the active peers until that returns false; the argument threads a
  state \<open>s\<close>.  The error it returns is always nil.
\<close>

fun iter_loop :: "(u32 \<Rightarrow> bool) \<Rightarrow> (u32 \<Rightarrow> cluster_client \<Rightarrow> 's \<Rightarrow> bool \<times> 's) \<Rightarrow> (u32 \<times> cluster_client) list \<Rightarrow> 's \<Rightarrow> 's" where
  "iter_loop active f [] s = s"
| "iter_loop active f ((nodeID, client) # cs) s =
     (if \<not> active nodeID then iter_loop active f cs s
      else (let (continue, s) = f nodeID client s
            in if continue then iter_loop active f cs s else s))"

definition PeerClientMgr_iter :: "(u32 \<Rightarrow> cluster_client \<Rightarrow> 's \<Rightarrow> bool \<times> 's) \<Rightarrow> PeerClientMgr \<Rightarrow> 's \<Rightarrow> 's" where
  "PeerClientMgr_iter f pm s = iter_loop (\<lambda>nodeID. PeerClientMgr_isPeerActive nodeID pm) f (pm_clients pm) s"

fun addClients :: "dialer \<Rightarrow> (string \<Rightarrow> byte list) \<Rightarrow> URL list \<Rightarrow> PeerClientMgr \<Rightarrow> PeerClientMgr res" where
  "addClients dial sha [] pm = Inr pm"
| "addClients dial sha (peerUrl # us) pm =
     bindR (URL_NodeID sha peerUrl)
       (\<lambda>(i, u). addClients dial sha us (snd (PeerClientMgr_addClient dial i (u_Host peerUrl) pm)))"

definition newPeerClientMgr :: "dialer \<Rightarrow> (string \<Rightarrow> byte list) \<Rightarrow> Config \<Rightarrow> PeerClientMgr res" where
  "newPeerClientMgr dial sha cfg =
     addClients dial sha (cc_PeerUrls (cf_Cluster cfg)) \<lparr>pm_clients = [], pm_raftNode = None\<rparr>"

section \<open>The prober of a cluster node\<close>

datatype NodeEventType = NewMember | MemberActive | MemberInActive | MemberRemoved | MemberTypeChanged | MemberAddressChanged

record NodeEvent =
  ev_Event :: NodeEventType
  ev_NodeInfo :: NodeInfo

text \<open>
  The node information cache, a Go map of pointers, is an association list in the order a range over it
  visits; the metrics object, shared with the API server, is an argument of the one operation that reads it.
  \<open>np_mu\<close> says that the write side of \<^verbatim>\<open>mu\<close> is held.  An operation that calls no other one under the lock is one
  step, before and after which the lock is free.
\<close>

record nodeProber =
  np_cfg :: Config
  np_peerClients :: PeerClientMgr
  np_curNodeID :: u32
  np_raftNode :: "raft_node option"
  np_mu :: bool
  np_ready :: bool
  np_loadDiff :: u64
  np_lightNodeID :: u32
  np_heavyNodeID :: u32
  np_nodeInfoCache :: "(u32 \<times> NodeInfo) list"

definition NewNodeProber :: "dialer \<Rightarrow> (string \<Rightarrow> byte list) \<Rightarrow> Config \<Rightarrow> nodeProber res" where
  "NewNodeProber dial sha cfg =
     bindR (Config_ClusterNodeID sha cfg) (\<lambda>(curNodeID, cfg).
     bindR (newPeerClientMgr dial sha cfg) (\<lambda>pm.
       Inr \<lparr>np_cfg = cfg, np_peerClients = pm, np_curNodeID = curNodeID, np_raftNode = None,
            np_mu = False, np_ready = False, np_loadDiff = 0, np_lightNodeID = curNodeID, np_heavyNodeID = curNodeID,
            np_nodeInfoCache = []\<rparr>))"

text \<open>\<^verbatim>\<open>mu\<close>, a \<^verbatim>\<open>sync.RWMutex\<close>: readers and writers wait for a writer.\<close>

definition nodeProber_Lock :: "nodeProber \<Rightarrow> nodeProber res" where
  "nodeProber_Lock np = (if np_mu np then Inl Blocked else Inr (np\<lparr>np_mu := True\<rparr>))"

definition nodeProber_Unlock :: "nodeProber \<Rightarrow> nodeProber" where
  "nodeProber_Unlock np = np\<lparr>np_mu := False\<rparr>"

definition nodeProber_RLock :: "nodeProber \<Rightarrow> unit res" where
  "nodeProber_RLock np = (if np_mu np then Inl Blocked else Inr ())"

definition nodeProber_SetRaftNode :: "raft_node option \<Rightarrow> nodeProber \<Rightarrow> nodeProber" where
  "nodeProber_SetRaftNode raftNode np =
     np\<lparr>np_raftNode := raftNode, np_peerClients := PeerClientMgr_setRaftNode raftNode (np_peerClients np)\<rparr>"

definition nodeProber_CurNodeID :: "nodeProber \<Rightarrow> u32" where
  "nodeProber_CurNodeID np = (if np_raftNode np = None then 0 else np_curNodeID np)"

definition nodeProber_NodeLeaderID :: "nodeProber \<Rightarrow> u32" where
  "nodeProber_NodeLeaderID np = (case np_raftNode np of None \<Rightarrow> 0 | Some r \<Rightarrow> ucast (rn_Leader r))"

definition nodeProber_NodeLeaderName :: "nodeProber \<Rightarrow> string" where
  "nodeProber_NodeLeaderName np =
     (case np_raftNode np of
        None \<Rightarrow> ''default''
      | Some r \<Rightarrow> (case map_of (np_nodeInfoCache np) (ucast (rn_Leader r)) of Some info \<Rightarrow> ni_Name info | None \<Rightarrow> ''unknown''))"

definition nodeProber_IsNodeLeader :: "nodeProber \<Rightarrow> bool" where
  "nodeProber_IsNodeLeader np =
     (case np_raftNode np of None \<Rightarrow> True | Some r \<Rightarrow> rn_Leader r = ucast (np_curNodeID np))"

definition nodeProber_GetNodeMember :: "u32 \<Rightarrow> nodeProber \<Rightarrow> raft_member option" where
  "nodeProber_GetNodeMember nodeID np =
     (case np_raftNode np of None \<Rightarrow> None | Some r \<Rightarrow> rn_GetMemebr r (ucast nodeID))"

definition nodeProber_GetNodeMembers :: "nodeProber \<Rightarrow> raft_member option list" where
  "nodeProber_GetNodeMembers np = (case np_raftNode np of None \<Rightarrow> [] | Some r \<Rightarrow> rn_Members r)"

definition cur_node_info :: "nodeProber \<Rightarrow> raft_node \<Rightarrow> raft_member \<Rightarrow> NodeInfo" where
  "cur_node_info np r m =
     \<lparr>ni_Id = np_curNodeID np, ni_Name = Config_ClusterNodeName (np_cfg np),
      ni_ApiEndpoint = u_String (cf_ApiAdvertiseUrl (np_cfg np)),
      ni_GrpcEndpoint = sprintf ''dns:///%s'' [FStr (u_Host (cc_Url (cf_Cluster (np_cfg np))))],
      ni_Type = mb_Type m, ni_Leader = (np_curNodeID np = ucast (rn_Leader r)),
      ni_Active = mb_IsActive m, ni_ActiveSince = TimeToTimestamp (mb_ActiveSince m)\<rparr>"

definition ErrNilRaftNode :: string where
  "ErrNilRaftNode = ''the raft node is nil''"

definition nodeProber_GetCurNodeInfo :: "nodeProber \<Rightarrow> (string + NodeInfo) \<times> nodeProber" where
  "nodeProber_GetCurNodeInfo np =
     (case np_raftNode np of
        None \<Rightarrow> (Inl ErrNilRaftNode, np)
      | Some r \<Rightarrow>
          (case map_of (np_nodeInfoCache np) (np_curNodeID np) of
             Some info \<Rightarrow> (Inr info, np)
           | None \<Rightarrow>
               (case rn_GetMemebr r (ucast (np_curNodeID np)) of
                  None \<Rightarrow> (Inl (sprintf ''Failed to get raft node member %d'' [FInt (uint (np_curNodeID np))]), np)
                | Some m \<Rightarrow>
                    (let info = cur_node_info np r m
                     in (Inr info, np\<lparr>np_nodeInfoCache := AList.update (np_curNodeID np) info (np_nodeInfoCache np)\<rparr>)))))"

text \<open>\<^verbatim>\<open>GetPeerNodeInfo\<close> as it runs when no writer holds the lock.\<close>

definition nodeProber_GetPeerNodeInfo :: "u32 \<Rightarrow> nodeProber \<Rightarrow> (string + NodeInfo) \<times> nodeProber" where
  "nodeProber_GetPeerNodeInfo nodeID np =
     (case np_raftNode np of
        None \<Rightarrow> (Inl ErrNilRaftNode, np)
      | Some r \<Rightarrow>
          (case map_of (np_nodeInfoCache np) nodeID of
             Some info \<Rightarrow> (Inr info, np)
           | None \<Rightarrow>
               (case PeerClientMgr_getClient nodeID (np_peerClients np) of
                  None \<Rightarrow> (Inl (sprintf ''Failed to get node gRPC client for node %d'' [FInt (uint nodeID)]), np)
                | Some client \<Rightarrow>
                    (case cl_GetNodeInfo client of
                       Inl err \<Rightarrow> (Inl err, np)
                     | Inr info \<Rightarrow>
                         (Inr info, np\<lparr>np_nodeInfoCache := AList.update nodeID info (np_nodeInfoCache np)\<rparr>)))))"

text \<open>The same call with its lock: without a raft node it returns before it takes the read lock.\<close>

definition nodeProber_GetPeerNodeInfo_locking :: "u32 \<Rightarrow> nodeProber \<Rightarrow> ((string + NodeInfo) \<times> nodeProber) res" where
  "nodeProber_GetPeerNodeInfo_locking nodeID np =
     (if np_raftNode np = None then Inr (nodeProber_GetPeerNodeInfo nodeID np)
      else bindR (nodeProber_RLock np) (\<lambda>_. Inr (nodeProber_GetPeerNodeInfo nodeID np)))"

lemma GetPeerNodeInfo_free: "\<not> np_mu np \<Longrightarrow> nodeProber_GetPeerNodeInfo_locking nodeID np = Inr (nodeProber_GetPeerNodeInfo nodeID np)"
  by (simp add: nodeProber_GetPeerNodeInfo_locking_def nodeProber_RLock_def)

definition nodeProber_GetNodeClient :: "u32 \<Rightarrow> nodeProber \<Rightarrow> string + cluster_client" where
  "nodeProber_GetNodeClient nodeID np =
     (case PeerClientMgr_getClient nodeID (np_peerClients np) of
        None \<Rightarrow> Inl (sprintf ''Failed to get leader node gRPC client for node %d'' [FInt (uint nodeID)])
      | Some client \<Rightarrow> Inr client)"

definition nodeProber_GetLeaderNodeClient :: "nodeProber \<Rightarrow> string + cluster_client" where
  "nodeProber_GetLeaderNodeClient np = nodeProber_GetNodeClient (nodeProber_NodeLeaderID np) np"

section \<open>Initialisation and membership events\<close>

text \<open>A nil member, or a nil raft node, is dereferenced.\<close>

fun Init_loop :: "raft_node \<Rightarrow> raft_member option list \<Rightarrow> nodeProber \<Rightarrow> nodeProber res" where
  "Init_loop r [] np = Inr np"
| "Init_loop r (None # ms) np = Inl nil_deref"
| "Init_loop r (Some m # ms) np =
     (let nodeID = ucast (mb_ID m)
      in if nodeID = np_curNodeID np then
           Init_loop r ms (np\<lparr>np_nodeInfoCache := AList.update nodeID (cur_node_info np r m) (np_nodeInfoCache np)\<rparr>)
         else (case nodeProber_GetPeerNodeInfo nodeID np of
                 (Inl err, np) \<Rightarrow> Init_loop r ms np
               | (Inr info, np) \<Rightarrow>
                   Init_loop r ms (np\<lparr>np_nodeInfoCache := AList.update nodeID info (np_nodeInfoCache np)\<rparr>)))"

definition nodeProber_Init :: "nodeProber \<Rightarrow> (bool \<times> nodeProber) res" where
  "nodeProber_Init np =
     (case np_raftNode np of
        None \<Rightarrow> Inl nil_deref
      | Some r \<Rightarrow>
          (if length (rn_Members r) < length (cc_PeerUrls (cf_Cluster (np_cfg np))) + 1 then Inr (False, np)
           else bindR (Init_loop r (rn_Members r) np) (\<lambda>np. Inr (True, np\<lparr>np_ready := True\<rparr>))))"

text \<open>
  \<^verbatim>\<open>CheckMemberStatus\<close> holds the write lock throughout.  For a member that is not in the cache it calls
  \<^verbatim>\<open>GetPeerNodeInfo\<close>; were that to answer, the cache insertion and the event would be followed by a log line
  with the name in \<^verbatim>\<open>cache\<close>, which is nil there: a panic, in which the changes are lost.  The events of one pass share the cached
  \<^verbatim>\<open>NodeInfo\<close>, so the loop collects their kinds and nodes, and the node information is read off the
  cache at the end.
\<close>

definition member_events :: "raft_member \<Rightarrow> NodeInfo \<Rightarrow> NodeEventType list \<times> NodeInfo" where
  "member_events m cache =
     (let mIsActive = mb_IsActive m;
          (ev1, cache) = (if ni_Active cache \<and> \<not> mIsActive then ([MemberInActive], cache\<lparr>ni_Active := mIsActive\<rparr>)
                          else if \<not> ni_Active cache \<and> mIsActive then ([MemberActive], cache\<lparr>ni_Active := mIsActive\<rparr>)
                          else ([], cache));
          memAddr = ''dns:///'' @ mb_Address m;
          (ev2, cache) = (if ni_GrpcEndpoint cache \<noteq> memAddr
                          then ([MemberAddressChanged], cache\<lparr>ni_GrpcEndpoint := memAddr\<rparr>) else ([], cache));
          (ev3, cache) = (if ni_Type cache \<noteq> mb_Type m
                          then ([MemberTypeChanged], cache\<lparr>ni_Type := mb_Type m\<rparr>) else ([], cache))
      in (ev1 @ ev2 @ ev3, cache))"

fun check_members :: "dialer \<Rightarrow> raft_member option list \<Rightarrow> nodeProber \<Rightarrow> ((NodeEventType \<times> u32) list \<times> nodeProber) res" where
  "check_members dial [] np = Inr ([], np)"
| "check_members dial (None # ms) np = check_members dial ms np"
| "check_members dial (Some m # ms) np =
     (let nodeID = ucast (mb_ID m)
      in case map_of (np_nodeInfoCache np) nodeID of
           None \<Rightarrow>
             (let (err, pm) = PeerClientMgr_addClient dial nodeID (mb_Address m) (np_peerClients np);
                  np = np\<lparr>np_peerClients := pm\<rparr>
              in if err \<noteq> None then check_members dial ms np
                 else bindR (nodeProber_GetPeerNodeInfo_locking nodeID np) (\<lambda>(r, np).
                        case r of
                          Inl err \<Rightarrow> check_members dial ms np
                        | Inr nodeInfo \<Rightarrow> Inl nil_deref))
         | Some cache \<Rightarrow>
             (let (evs, cache) = member_events m cache
              in bindR (check_members dial ms (np\<lparr>np_nodeInfoCache := AList.update nodeID cache (np_nodeInfoCache np)\<rparr>))
                   (\<lambda>(events, np). Inr (map (\<lambda>e. (e, nodeID)) evs @ events, np))))"

text \<open>A cached node is gone when no member has its identifier, compared at 64 bits.\<close>

definition still_member :: "raft_member option list \<Rightarrow> u32 \<Rightarrow> bool" where
  "still_member members nodeID = (\<exists>m \<in> set members. case m of None \<Rightarrow> False | Some m \<Rightarrow> mb_ID m = ucast nodeID)"

definition nodeProber_CheckMemberStatus :: "dialer \<Rightarrow> nodeProber \<Rightarrow> (NodeEvent list \<times> nodeProber) res" where
  "nodeProber_CheckMemberStatus dial np =
     (if \<not> np_ready np then bindR (nodeProber_Init np) (\<lambda>(_, np). Inr ([], np))
      else bindR (nodeProber_Lock np) (\<lambda>np.
            case np_raftNode np of
              None \<Rightarrow> Inl nil_deref
            | Some r \<Rightarrow>
                bindR (check_members dial (rn_Members r) np) (\<lambda>(events, np).
                  let cache = np_nodeInfoCache np;
                      gone = filter (\<lambda>(i, info). \<not> still_member (rn_Members r) i) cache;
                      events = map (\<lambda>(e, i). \<lparr>ev_Event = e, ev_NodeInfo = the (map_of cache i)\<rparr>) events
                               @ map (\<lambda>(i, info). \<lparr>ev_Event = MemberRemoved, ev_NodeInfo = info\<rparr>) gone
                  in Inr (events, nodeProber_Unlock (np\<lparr>np_nodeInfoCache := filter (\<lambda>(i, info). still_member (rn_Members r) i) cache,
                       np_peerClients := fold (\<lambda>(i, info) pm. PeerClientMgr_removeClient i pm) gone (np_peerClients np)\<rparr>)))))"

section \<open>Node loads\<close>

record nodeLoad =
  nl_nodeID :: u32
  nl_apiCmdAvgRPS :: u64

definition load_cmp :: "nodeLoad \<Rightarrow> nodeLoad \<Rightarrow> int" where
  "load_cmp a b =
     (if f64_less (nl_apiCmdAvgRPS a) (nl_apiCmdAvgRPS b) then - 1
      else if f64_less (nl_apiCmdAvgRPS b) (nl_apiCmdAvgRPS a) then 1 else 0)"

text \<open>
  \<^verbatim>\<open>slices.SortFunc\<close> is not stable, so its result is not a function of the comparison alone: it is the
  argument \<open>srt\<close>, and \<open>sort_ok\<close> says what Go documents of it.  \<open>rnd n\<close> is \<^verbatim>\<open>rand.Intn(n)\<close>.
\<close>

definition sort_ok :: "((nodeLoad \<Rightarrow> nodeLoad \<Rightarrow> int) \<Rightarrow> nodeLoad list \<Rightarrow> nodeLoad list) \<Rightarrow> bool" where
  "sort_ok srt \<longleftrightarrow>
     (\<forall>xs. mset (srt load_cmp xs) = mset xs \<and>
       ((\<forall>x \<in> set xs. \<not> f64_nan (nl_apiCmdAvgRPS x)) \<longrightarrow> sorted_wrt (\<lambda>a b. load_cmp a b \<le> 0) (srt load_cmp xs)))"

definition nodeProber_calcNodeLoading :: "((nodeLoad \<Rightarrow> nodeLoad \<Rightarrow> int) \<Rightarrow> nodeLoad list \<Rightarrow> nodeLoad list) \<Rightarrow>
  (nat \<Rightarrow> nat) \<Rightarrow> nodeLoad list \<Rightarrow> nodeProber \<Rightarrow> nodeProber res" where
  "nodeProber_calcNodeLoading srt rnd nodeLoads np =
     (let nodeLoads = srt load_cmp nodeLoads
      in if nodeLoads = [] then Inl (Panic ''index out of range'')
         else
           let minLoad = nl_apiCmdAvgRPS (hd nodeLoads); maxLoad = nl_apiCmdAvgRPS (last nodeLoads);
               sameLoadCount = length (takeWhile (\<lambda>load. f64_eq (nl_apiCmdAvgRPS load) minLoad) nodeLoads)
           in if sameLoadCount = 0 then Inl (Panic ''invalid argument to Intn'')
              else Inr (np\<lparr>np_lightNodeID := nl_nodeID (nodeLoads ! rnd sameLoadCount),
                           np_heavyNodeID := nl_nodeID (last nodeLoads),
                           np_loadDiff := f64_sub maxLoad minLoad\<rparr>))"

definition avgRPSDuration :: duration where
  "avgRPSDuration = 60 * time_Second"

definition probe_peer :: "raft_node option \<Rightarrow> u32 \<Rightarrow> cluster_client \<Rightarrow> nodeLoad list \<Rightarrow> bool \<times> nodeLoad list" where
  "probe_peer raftNode peerNodeID client nodeLoads =
     (if (case raftNode of
            None \<Rightarrow> False
          | Some r \<Rightarrow> (case rn_GetMemebr r (ucast peerNodeID) of None \<Rightarrow> True | Some mem \<Rightarrow> \<not> mb_IsActive mem))
      then (True, nodeLoads)
      else (case cl_GetAPICmdAvgRPS client (word_of_int (avgRPSDuration div time_Second)) of
              Inl err \<Rightarrow> (True, nodeLoads)
            | Inr v \<Rightarrow> (True, nodeLoads @ [\<lparr>nl_nodeID = peerNodeID, nl_apiCmdAvgRPS = v\<rparr>])))"

definition nodeProber_UpdateNodeLoading :: "((nodeLoad \<Rightarrow> nodeLoad \<Rightarrow> int) \<Rightarrow> nodeLoad list \<Rightarrow> nodeLoad list) \<Rightarrow>
  (nat \<Rightarrow> nat) \<Rightarrow> instant \<Rightarrow> Metrics \<Rightarrow> nodeProber \<Rightarrow> nodeProber res" where
  "nodeProber_UpdateNodeLoading srt rnd now metrics np =
     (if \<not> np_ready np then Inr np
      else
        let nodeLoads = [\<lparr>nl_nodeID = np_curNodeID np,
                          nl_apiCmdAvgRPS = Metrics_GetAPICmdAvgRPS now avgRPSDuration metrics\<rparr>];
            nodeLoads = PeerClientMgr_iter (probe_peer (np_raftNode np)) (np_peerClients np) nodeLoads
        in nodeProber_calcNodeLoading srt rnd nodeLoads np)"

text \<open>
  \<^verbatim>\<open>WaitAllPeerEntryApplied\<close>: the state of the iteration is the peer error and the flag.  The entry's
  identifier is printed by the \<^verbatim>\<open>uuid\<close> library, here \<open>uuid_String\<close>.
\<close>

definition ask_applied :: "byte list \<Rightarrow> u32 \<Rightarrow> cluster_client \<Rightarrow> string option \<times> bool \<Rightarrow> bool \<times> (string option \<times> bool)" where
  "ask_applied entryID peerNodeID client s =
     (case cl_IsEntryApplied client entryID of
        Inl err \<Rightarrow> (False, (Some err, snd s))
      | Inr v \<Rightarrow> if \<not> v then (False, (fst s, False)) else (True, s))"

definition nodeProber_WaitAllPeerEntryApplied :: "(byte list \<Rightarrow> string) \<Rightarrow> byte list \<Rightarrow> nodeProber \<Rightarrow> string option" where
  "nodeProber_WaitAllPeerEntryApplied uuid_String entryID np =
     (let (clientErr, allApplied) = PeerClientMgr_iter (ask_applied entryID) (np_peerClients np) (None, True)
      in if \<not> allApplied then Some (sprintf ''The entry %s is not be appplied from peers'' [FStr (uuid_String entryID)])
         else clientErr)"

section \<open>The interface\<close>

text \<open>
  \<^verbatim>\<open>NodeProber\<close> and its two implementations.  The null prober of a standalone server answers with
  constants; a call on the interface dispatches on the constructor.
\<close>

datatype NodeProber = nullProber | clusterProber nodeProber

definition NewNullNodeProber :: NodeProber where
  "NewNullNodeProber = nullProber"

definition errUnimpl :: string where
  "errUnimpl = ''unimplemented''"

fun Prober_Init :: "NodeProber \<Rightarrow> (bool \<times> NodeProber) res" where
  "Prober_Init nullProber = Inr (True, nullProber)"
| "Prober_Init (clusterProber np) = bindR (nodeProber_Init np) (\<lambda>(b, np). Inr (b, clusterProber np))"

fun Prober_IsReady :: "NodeProber \<Rightarrow> bool" where
  "Prober_IsReady nullProber = True"
| "Prober_IsReady (clusterProber np) = np_ready np"

fun Prober_CheckMemberStatus :: "dialer \<Rightarrow> NodeProber \<Rightarrow> (NodeEvent list \<times> NodeProber) res" where
  "Prober_CheckMemberStatus dial nullProber = Inr ([], nullProber)"
| "Prober_CheckMemberStatus dial (clusterProber np) =
     bindR (nodeProber_CheckMemberStatus dial np) (\<lambda>(evs, np). Inr (evs, clusterProber np))"

fun Prober_UpdateNodeLoading :: "((nodeLoad \<Rightarrow> nodeLoad \<Rightarrow> int) \<Rightarrow> nodeLoad list \<Rightarrow> nodeLoad list) \<Rightarrow>
  (nat \<Rightarrow> nat) \<Rightarrow> instant \<Rightarrow> Metrics \<Rightarrow> NodeProber \<Rightarrow> NodeProber res" where
  "Prober_UpdateNodeLoading srt rnd now metrics nullProber = Inr nullProber"
| "Prober_UpdateNodeLoading srt rnd now metrics (clusterProber np) =
     bindR (nodeProber_UpdateNodeLoading srt rnd now metrics np) (\<lambda>np. Inr (clusterProber np))"

fun Prober_WaitAllPeerEntryApplied :: "(byte list \<Rightarrow> string) \<Rightarrow> byte list \<Rightarrow> NodeProber \<Rightarrow> string option" where
  "Prober_WaitAllPeerEntryApplied uuid_String entryID nullProber = None"
| "Prober_WaitAllPeerEntryApplied uuid_String entryID (clusterProber np) =
     nodeProber_WaitAllPeerEntryApplied uuid_String entryID np"

fun Prober_SetRaftNode :: "raft_node option \<Rightarrow> NodeProber \<Rightarrow> NodeProber" where
  "Prober_SetRaftNode raftNode nullProber = nullProber"
| "Prober_SetRaftNode raftNode (clusterProber np) = clusterProber (nodeProber_SetRaftNode raftNode np)"

fun Prober_GetRaftNode :: "NodeProber \<Rightarrow> raft_node option" where
  "Prober_GetRaftNode nullProber = None"
| "Prober_GetRaftNode (clusterProber np) = np_raftNode np"

fun Prober_CurNodeID :: "NodeProber \<Rightarrow> u32" where
  "Prober_CurNodeID nullProber = 0"
| "Prober_CurNodeID (clusterProber np) = nodeProber_CurNodeID np"

fun Prober_NodeLeaderID :: "NodeProber \<Rightarrow> u32" where
  "Prober_NodeLeaderID nullProber = 0"
| "Prober_NodeLeaderID (clusterProber np) = nodeProber_NodeLeaderID np"

fun Prober_IsNodeLeader :: "NodeProber \<Rightarrow> bool" where
  "Prober_IsNodeLeader nullProber = True"
| "Prober_IsNodeLeader (clusterProber np) = nodeProber_IsNodeLeader np"

fun Prober_GetNodeMember :: "u32 \<Rightarrow> NodeProber \<Rightarrow> raft_member option" where
  "Prober_GetNodeMember nodeID nullProber = None"
| "Prober_GetNodeMember nodeID (clusterProber np) = nodeProber_GetNodeMember nodeID np"

fun Prober_GetNodeMembers :: "NodeProber \<Rightarrow> raft_member option list" where
  "Prober_GetNodeMembers nullProber = []"
| "Prober_GetNodeMembers (clusterProber np) = nodeProber_GetNodeMembers np"

fun Prober_GetLightestNodeID :: "NodeProber \<Rightarrow> u32" where
  "Prober_GetLightestNodeID nullProber = 0"
| "Prober_GetLightestNodeID (clusterProber np) = np_lightNodeID np"

fun Prober_GetHeavinessNodeID :: "NodeProber \<Rightarrow> u32" where
  "Prober_GetHeavinessNodeID nullProber = 0"
| "Prober_GetHeavinessNodeID (clusterProber np) = np_heavyNodeID np"

fun Prober_GetCurNodeInfo :: "NodeProber \<Rightarrow> (string + NodeInfo) \<times> NodeProber" where
  "Prober_GetCurNodeInfo nullProber = (Inl errUnimpl, nullProber)"
| "Prober_GetCurNodeInfo (clusterProber np) = (let (r, np) = nodeProber_GetCurNodeInfo np in (r, clusterProber np))"

fun Prober_GetPeerNodeInfo :: "u32 \<Rightarrow> NodeProber \<Rightarrow> (string + NodeInfo) \<times> NodeProber" where
  "Prober_GetPeerNodeInfo nodeID nullProber = (Inl errUnimpl, nullProber)"
| "Prober_GetPeerNodeInfo nodeID (clusterProber np) =
     (let (r, np) = nodeProber_GetPeerNodeInfo nodeID np in (r, clusterProber np))"

fun Prober_GetNodeClient :: "u32 \<Rightarrow> NodeProber \<Rightarrow> string + cluster_client" where
  "Prober_GetNodeClient nodeID nullProber = Inl errUnimpl"
| "Prober_GetNodeClient nodeID (clusterProber np) = nodeProber_GetNodeClient nodeID np"

fun Prober_GetLeaderNodeClient :: "NodeProber \<Rightarrow> string + cluster_client" where
  "Prober_GetLeaderNodeClient nullProber = Inl errUnimpl"
| "Prober_GetLeaderNodeClient (clusterProber np) = nodeProber_GetLeaderNodeClient np"

text \<open>
  What the resource manager and the API server rely on, whatever the implementation: a node that calls
  itself leader is the one it names as leader, and without a raft node it is alone, leads and has identifier 0.
\<close>

locale node_prober =
  fixes CurNodeID :: "'s \<Rightarrow> u32" and NodeLeaderID :: "'s \<Rightarrow> u32" and IsNodeLeader :: "'s \<Rightarrow> bool"
    and GetRaftNode :: "'s \<Rightarrow> raft_node option" and GetNodeMembers :: "'s \<Rightarrow> raft_member option list"
  assumes leader_is_cur: "IsNodeLeader s \<Longrightarrow> NodeLeaderID s = CurNodeID s"
    and alone: "GetRaftNode s = None \<Longrightarrow> CurNodeID s = 0 \<and> IsNodeLeader s \<and> GetNodeMembers s = []"
begin

lemma one_leader:
  "IsNodeLeader s \<Longrightarrow> IsNodeLeader s' \<Longrightarrow> NodeLeaderID s = NodeLeaderID s' \<Longrightarrow> CurNodeID s = CurNodeID s'"
  by (metis leader_is_cur)

lemma alone_leads: "GetRaftNode s = None \<Longrightarrow> NodeLeaderID s = 0"
  using leader_is_cur alone by metis

end

lemma leader_ucast: "(ucast (ucast (i :: u32) :: u64) :: u32) = i"
  by (rule bit_eqI) (auto simp: bit_simps)

interpretation node_np: node_prober nodeProber_CurNodeID nodeProber_NodeLeaderID nodeProber_IsNodeLeader
  np_raftNode nodeProber_GetNodeMembers
  by unfold_locales
    (auto simp: nodeProber_CurNodeID_def nodeProber_NodeLeaderID_def nodeProber_IsNodeLeader_def
      nodeProber_GetNodeMembers_def leader_ucast split: option.splits)

interpretation prober: node_prober Prober_CurNodeID Prober_NodeLeaderID Prober_IsNodeLeader
  Prober_GetRaftNode Prober_GetNodeMembers
proof
  show "Prober_NodeLeaderID s = Prober_CurNodeID s" if "Prober_IsNodeLeader s" for s
    using that node_np.leader_is_cur by (cases s) simp_all
  show "Prober_CurNodeID s = 0 \<and> Prober_IsNodeLeader s \<and> Prober_GetNodeMembers s = []"
    if "Prober_GetRaftNode s = None" for s
    using that node_np.alone by (cases s) simp_all
qed

section \<open>A member that is not in the cache\<close>

text \<open>The members before it, cached or unreachable, leave it unknown and leave the way to its client open.\<close>

definition reachable_client :: "dialer \<Rightarrow> raft_member \<Rightarrow> PeerClientMgr \<Rightarrow> bool" where
  "reachable_client dial m pm \<longleftrightarrow> fst (PeerClientMgr_addClient dial (ucast (mb_ID m)) (mb_Address m) pm) = None"

lemma addClient_error: "fst (PeerClientMgr_addClient dial i host pm) \<noteq> None \<Longrightarrow> snd (PeerClientMgr_addClient dial i host pm) = pm"
  by (auto simp: PeerClientMgr_addClient_def PeerClientMgr_replaceClient_def split: sum.splits)

lemma check_members_blocks:
  assumes "map_of (np_nodeInfoCache np) (ucast (mb_ID m)) = None" "reachable_client dial m (np_peerClients np)"
    and "np_mu np" "np_raftNode np \<noteq> None"
  shows "Some m \<in> set ms \<Longrightarrow> check_members dial ms np = Inl Blocked"
  using assms
proof (induction ms arbitrary: np)
  case (Cons x ms)
  show ?case
  proof (cases x)
    case None
    then show ?thesis using Cons by simp
  next
    case x: (Some m')
    let ?i = "ucast (mb_ID m') :: u32"
    obtain err pm where add: "PeerClientMgr_addClient dial ?i (mb_Address m') (np_peerClients np) = (err, pm)"
      by (metis surj_pair)
    show ?thesis
    proof (cases "map_of (np_nodeInfoCache np) ?i")
      case None
      show ?thesis
      proof (cases "err = None")
        case True
        then show ?thesis using Cons.prems(4,5)
          by (auto simp: x None add nodeProber_GetPeerNodeInfo_locking_def nodeProber_RLock_def Let_def)
      next
        case False
        then have "pm = np_peerClients np" "m' \<noteq> m"
          using addClient_error [of dial ?i "mb_Address m'" "np_peerClients np"] add Cons.prems(3) by (auto simp: reachable_client_def)
        then show ?thesis using Cons.IH [of np] Cons.prems False by (simp add: x None add)
      qed
    next
      case (Some cache)
      then have ne: "?i \<noteq> ucast (mb_ID m)" "m' \<noteq> m" using Cons.prems(2) by auto
      obtain evs cache' where ev: "member_events m' cache = (evs, cache')" by (metis surj_pair)
      have "map_of (AList.update ?i cache' (np_nodeInfoCache np)) (ucast (mb_ID m)) = None"
        using Cons.prems(2) ne by (simp add: update_conv)
      then show ?thesis using Cons.IH [of "np\<lparr>np_nodeInfoCache := AList.update ?i cache' (np_nodeInfoCache np)\<rparr>"] Cons.prems ne
        by (simp add: x Some ev)
    qed
  qed
qed simp

section \<open>The chosen nodes\<close>

lemma load_cmp_le: "\<not> f64_nan (nl_apiCmdAvgRPS a) \<Longrightarrow> \<not> f64_nan (nl_apiCmdAvgRPS b) \<Longrightarrow>
  load_cmp a b \<le> 0 \<longleftrightarrow> f64_le (nl_apiCmdAvgRPS a) (nl_apiCmdAvgRPS b)"
  by (auto simp: load_cmp_def f64_less_def f64_le_def)

lemma calc_light_heavy:
  assumes "sort_ok srt" "\<And>n. 0 < n \<Longrightarrow> rnd n < n" "loads \<noteq> []" "\<forall>x \<in> set loads. \<not> f64_nan (nl_apiCmdAvgRPS x)"
  shows "\<exists>np' l h. nodeProber_calcNodeLoading srt rnd loads np = Inr np' \<and> l \<in> set loads \<and> h \<in> set loads \<and>
    np_lightNodeID np' = nl_nodeID l \<and> np_heavyNodeID np' = nl_nodeID h \<and>
    (\<forall>x \<in> set loads. f64_le (nl_apiCmdAvgRPS l) (nl_apiCmdAvgRPS x) \<and> f64_le (nl_apiCmdAvgRPS x) (nl_apiCmdAvgRPS h))"
proof -
  let ?s = "srt load_cmp loads"
  let ?same = "takeWhile (\<lambda>load. f64_eq (nl_apiCmdAvgRPS load) (nl_apiCmdAvgRPS (hd ?s))) ?s"
  have ms: "mset ?s = mset loads" using assms(1) unfolding sort_ok_def by blast
  have set: "set ?s = set loads" using mset_eq_setD [OF ms] .
  have ne: "?s \<noteq> []" using assms(3) ms by (metis mset_zero_iff)
  have sorted: "sorted_wrt (\<lambda>a b. load_cmp a b \<le> 0) ?s" using assms(1,4) unfolding sort_ok_def by blast
  have nan: "\<not> f64_nan (nl_apiCmdAvgRPS x)" if "x \<in> set ?s" for x using that assms(4) set by blast
  have same: "length ?same \<noteq> 0" using ne nan by (cases ?s) (auto simp: f64_eq_def)
  let ?k = "rnd (length ?same)"
  have k: "?k < length ?same" using assms(2) same by simp
  have l: "?s ! ?k = ?same ! ?k" using takeWhile_nth [OF k] by (rule sym)
  have l: "?s ! ?k = ?same ! ?k" "?same ! ?k \<in> set ?same" using l nth_mem [OF k] by blast+
  then have eq: "f64_eq (nl_apiCmdAvgRPS (?s ! ?k)) (nl_apiCmdAvgRPS (hd ?s))" using set_takeWhileD by metis
  have inl: "?s ! ?k \<in> set ?s" using l set_takeWhileD by metis
  have le_hd: "f64_le (nl_apiCmdAvgRPS (hd ?s)) (nl_apiCmdAvgRPS x)" if "x \<in> set ?s" for x
    using that sorted nan load_cmp_le by (cases ?s) (auto simp: f64_le_def)
  have le_last: "f64_le (nl_apiCmdAvgRPS x) (nl_apiCmdAvgRPS (last ?s))" if "x \<in> set ?s" for x
    using that sorted nan load_cmp_le
    by (cases ?s rule: rev_cases) (auto simp: sorted_wrt_append f64_le_def)
  have "f64_le (nl_apiCmdAvgRPS (?s ! ?k)) (nl_apiCmdAvgRPS x)" if "x \<in> set ?s" for x
    using le_hd [OF that] eq by (auto simp: f64_le_def f64_eq_def)
  then show ?thesis
    using ne same inl le_last set last_in_set [OF ne]
    by (simp add: nodeProber_calcNodeLoading_def Let_def) blast
qed

end
