(* ===== verification/ApiLaws.thy ===== *)
theory ApiLaws
  imports ApiMessages ProtoLaws
begin

text \<open>
  Every message of the API file keeps the contract \<open>pb_message\<close>.  \<open>enc_X\<close> is the byte string a message
  stands for, field by field in front-to-back order; \<open>valid_X\<close> says which messages the wire format
  can carry unchanged: no nil element of a repeated field (marshalling one panics), no nil value in a
  oneof wrapper (it is dropped) and no negative zero (it equals 0, so it is not sent).
\<close>

definition enc_CmdError :: "ts_codec \<Rightarrow> CmdError \<Rightarrow> byte list" where
  "enc_CmdError T m =
     (if ce_Code m \<noteq> 0 then 0x8 # enc_varint (scast (ce_Code m)) else []) @
     (if 0 < length (ce_Msg m) then 0x12 # enc_varint (word_of_nat (length (bytes_of (ce_Msg m)))) @ bytes_of (ce_Msg m) else [])"

definition valid_CmdError :: "CmdError \<Rightarrow> bool" where
  "valid_CmdError m \<longleftrightarrow> True"

lemma CmdError_Size_enc: "ts_codec_ok T \<Longrightarrow> valid_CmdError m \<Longrightarrow> CmdError_Size T (Some m) = length (enc_CmdError T m)"
  by (simp add: valid_CmdError_def enc_CmdError_def length_enc_varint Let_def)

lemma CmdError_marshals_enc:
  assumes "ts_codec_ok T" "valid_CmdError m"
  shows "marshals (CmdError_MarshalToSizedBuffer T (Some m)) (enc_CmdError T m)"
proof -
  have "marshals (marshal_to_sized
       [whenW (0 < length (ce_Msg m)) (put_bytes 0x12 (bytes_of (ce_Msg m))),
        whenW (ce_Code m \<noteq> 0) (put_varint 0x8 (scast (ce_Code m)))]) (enc_CmdError T m)"
    by (rule marshals_fieldsI, (rule writes_intros | (use assms in \<open>auto simp: valid_CmdError_def\<close>; fail))+)
      (simp add: enc_CmdError_def)
  then show ?thesis by (simp add: marshals_def)
qed

lemma CmdError_decodes:
  assumes "ts_codec_ok T" "valid_CmdError m"
  shows "decodes n (CmdError_switch T) (enc_CmdError T m) CmdError_zero m"
  unfolding enc_CmdError_def CmdError_switch_def
  apply (rule decodes_conv)
   apply (rule decodes_append case_varint case_bool case_bytes case_double | simp add: tag_simps CmdError_zero_def; fail
     | use assms in \<open>auto simp: f64_nonzero_def CmdError_zero_def valid_CmdError_def\<close>; fail)+
  apply (use assms in \<open>auto simp: tag_simps ucast_scast32 ucast_ucast32 f64_nonzero_def CmdError_zero_def valid_CmdError_def\<close>)?
  done

interpretation CmdError: pb_message CmdError_Size CmdError_MarshalToSizedBuffer CmdError_Unmarshal CmdError_zero
  enc_CmdError valid_CmdError
  by unfold_locales
    (simp_all only: CmdError_Size_enc CmdError_marshals_enc CmdError_Unmarshal_def unmarshal_with_decodes [OF CmdError_decodes])

definition enc_CmdHeader :: "ts_codec \<Rightarrow> CmdHeader \<Rightarrow> byte list" where
  "enc_CmdHeader T m =
     (if 0 < length (ch_Cmd m) then 0xa # enc_varint (word_of_nat (length (bytes_of (ch_Cmd m)))) @ bytes_of (ch_Cmd m) else [])"

definition valid_CmdHeader :: "CmdHeader \<Rightarrow> bool" where
  "valid_CmdHeader m \<longleftrightarrow> True"

lemma CmdHeader_Size_enc: "ts_codec_ok T \<Longrightarrow> valid_CmdHeader m \<Longrightarrow> CmdHeader_Size T (Some m) = length (enc_CmdHeader T m)"
  by (simp add: valid_CmdHeader_def enc_CmdHeader_def length_enc_varint Let_def)

lemma CmdHeader_marshals_enc:
  assumes "ts_codec_ok T" "valid_CmdHeader m"
  shows "marshals (CmdHeader_MarshalToSizedBuffer T (Some m)) (enc_CmdHeader T m)"
proof -
  have "marshals (marshal_to_sized
       [whenW (0 < length (ch_Cmd m)) (put_bytes 0xa (bytes_of (ch_Cmd m)))]) (enc_CmdHeader T m)"
    by (rule marshals_fieldsI, (rule writes_intros | (use assms in \<open>auto simp: valid_CmdHeader_def\<close>; fail))+)
      (simp add: enc_CmdHeader_def)
  then show ?thesis by (simp add: marshals_def)
qed

lemma CmdHeader_decodes:
  assumes "ts_codec_ok T" "valid_CmdHeader m"
  shows "decodes n (CmdHeader_switch T) (enc_CmdHeader T m) CmdHeader_zero m"
  unfolding enc_CmdHeader_def CmdHeader_switch_def
  apply (rule decodes_conv)
   apply (rule decodes_append case_varint case_bool case_bytes case_double | simp add: tag_simps CmdHeader_zero_def; fail
     | use assms in \<open>auto simp: f64_nonzero_def CmdHeader_zero_def valid_CmdHeader_def\<close>; fail)+
  apply (use assms in \<open>auto simp: tag_simps ucast_scast32 ucast_ucast32 f64_nonzero_def CmdHeader_zero_def valid_CmdHeader_def\<close>)?
  done

interpretation CmdHeader: pb_message CmdHeader_Size CmdHeader_MarshalToSizedBuffer CmdHeader_Unmarshal CmdHeader_zero
  enc_CmdHeader valid_CmdHeader
  by unfold_locales
    (simp_all only: CmdHeader_Size_enc CmdHeader_marshals_enc CmdHeader_Unmarshal_def unmarshal_with_decodes [OF CmdHeader_decodes])

definition enc_NodeInfo :: "ts_codec \<Rightarrow> NodeInfo \<Rightarrow> byte list" where
  "enc_NodeInfo T m =
     (if ni_Id m \<noteq> 0 then 0x8 # enc_varint (ucast (ni_Id m)) else []) @
     (if 0 < length (ni_Name m) then 0x12 # enc_varint (word_of_nat (length (bytes_of (ni_Name m)))) @ bytes_of (ni_Name m) else []) @
     (if 0 < length (ni_ApiEndpoint m) then 0x1a # enc_varint (word_of_nat (length (bytes_of (ni_ApiEndpoint m)))) @ bytes_of (ni_ApiEndpoint m) else []) @
     (if 0 < length (ni_GrpcEndpoint m) then 0x22 # enc_varint (word_of_nat (length (bytes_of (ni_GrpcEndpoint m)))) @ bytes_of (ni_GrpcEndpoint m) else []) @
     (if 0 < length (ni_Type m) then 0x2a # enc_varint (word_of_nat (length (bytes_of (ni_Type m)))) @ bytes_of (ni_Type m) else []) @
     (if ni_Leader m then [0x30, if ni_Leader m then 1 else 0] else []) @
     (if ni_Active m then [0x38, if ni_Active m then 1 else 0] else []) @
     enc_opt 0x42 (ts_bytes T) (ni_ActiveSince m)"

definition valid_NodeInfo :: "NodeInfo \<Rightarrow> bool" where
  "valid_NodeInfo m \<longleftrightarrow> True"

lemma NodeInfo_Size_enc: "ts_codec_ok T \<Longrightarrow> valid_NodeInfo m \<Longrightarrow> NodeInfo_Size T (Some m) = length (enc_NodeInfo T m)"
  by (simp add: valid_NodeInfo_def enc_NodeInfo_def length_enc_varint Let_def Size_ts_field)

lemma NodeInfo_marshals_enc:
  assumes "ts_codec_ok T" "valid_NodeInfo m"
  shows "marshals (NodeInfo_MarshalToSizedBuffer T (Some m)) (enc_NodeInfo T m)"
proof -
  have "marshals (marshal_to_sized
       [whenW (ni_ActiveSince m \<noteq> None)
          (put_msg 0x42 (tsc_MarshalToSizedBuffer T (the (ni_ActiveSince m)))),
        whenW (ni_Active m) (put_bool 0x38 (ni_Active m)),
        whenW (ni_Leader m) (put_bool 0x30 (ni_Leader m)),
        whenW (0 < length (ni_Type m)) (put_bytes 0x2a (bytes_of (ni_Type m))),
        whenW (0 < length (ni_GrpcEndpoint m)) (put_bytes 0x22 (bytes_of (ni_GrpcEndpoint m))),
        whenW (0 < length (ni_ApiEndpoint m)) (put_bytes 0x1a (bytes_of (ni_ApiEndpoint m))),
        whenW (0 < length (ni_Name m)) (put_bytes 0x12 (bytes_of (ni_Name m))),
        whenW (ni_Id m \<noteq> 0) (put_varint 0x8 (ucast (ni_Id m)))]) (enc_NodeInfo T m)"
    by (rule marshals_fieldsI, (rule writes_intros | (use assms in \<open>auto simp: valid_NodeInfo_def\<close>; fail))+)
      (simp add: enc_NodeInfo_def)
  then show ?thesis by (simp add: marshals_def)
qed

lemma NodeInfo_decodes:
  assumes "ts_codec_ok T" "valid_NodeInfo m"
  shows "decodes n (NodeInfo_switch T) (enc_NodeInfo T m) NodeInfo_zero m"
  unfolding enc_NodeInfo_def NodeInfo_switch_def
  apply (rule decodes_conv)
   apply (rule decodes_append case_varint case_bool case_bytes case_double case_ts_field | simp add: tag_simps NodeInfo_zero_def; fail
     | use assms in \<open>auto simp: f64_nonzero_def NodeInfo_zero_def valid_NodeInfo_def\<close>; fail)+
  apply (use assms in \<open>auto simp: tag_simps ucast_scast32 ucast_ucast32 f64_nonzero_def NodeInfo_zero_def valid_NodeInfo_def\<close>)?
  done

interpretation NodeInfo: pb_message NodeInfo_Size NodeInfo_MarshalToSizedBuffer NodeInfo_Unmarshal NodeInfo_zero
  enc_NodeInfo valid_NodeInfo
  by unfold_locales
    (simp_all only: NodeInfo_Size_enc NodeInfo_marshals_enc NodeInfo_Unmarshal_def unmarshal_with_decodes [OF NodeInfo_decodes])

definition enc_MeowCmdResp :: "ts_codec \<Rightarrow> MeowCmdResp \<Rightarrow> byte list" where
  "enc_MeowCmdResp T m =
     (if mr_NodeId m \<noteq> 0 then 0x8 # enc_varint (ucast (mr_NodeId m)) else []) @
     concat (map (enc_opt 0x12 (enc_NodeInfo T)) (mr_Nodes m))"

definition valid_MeowCmdResp :: "MeowCmdResp \<Rightarrow> bool" where
  "valid_MeowCmdResp m \<longleftrightarrow> None \<notin> set (mr_Nodes m) \<and> (\<forall>e. Some e \<in> set (mr_Nodes m) \<longrightarrow> valid_NodeInfo e)"

lemma MeowCmdResp_Size_enc: "ts_codec_ok T \<Longrightarrow> valid_MeowCmdResp m \<Longrightarrow> MeowCmdResp_Size T (Some m) = length (enc_MeowCmdResp T m)"
  by (simp add: valid_MeowCmdResp_def enc_MeowCmdResp_def length_enc_varint Let_def NodeInfo.Size_elements del: length_concat)

lemma MeowCmdResp_marshals_enc:
  assumes "ts_codec_ok T" "valid_MeowCmdResp m"
  shows "marshals (MeowCmdResp_MarshalToSizedBuffer T (Some m)) (enc_MeowCmdResp T m)"
proof -
  have "marshals (marshal_to_sized
       (map (\<lambda>e. put_msg 0x12 (NodeInfo_MarshalToSizedBuffer T e)) (rev (mr_Nodes m)) @
       [whenW (mr_NodeId m \<noteq> 0) (put_varint 0x8 (ucast (mr_NodeId m)))])) (enc_MeowCmdResp T m)"
    by (rule marshals_fieldsI, (rule writes_seqW_append NodeInfo.writes_elements writes_intros | (use assms in \<open>auto simp: valid_MeowCmdResp_def\<close>; fail))+)
      (simp add: enc_MeowCmdResp_def)
  then show ?thesis by (simp add: marshals_def)
qed

lemma foldl_mr_Nodes:
  "None \<notin> set ps \<Longrightarrow> foldl (\<lambda>m p. m\<lparr>mr_Nodes := mr_Nodes m @ [Some (the p)]\<rparr>) m ps = m\<lparr>mr_Nodes := mr_Nodes m @ ps\<rparr>"
proof (induction ps arbitrary: m)
  case Nil
  show ?case by simp
next
  case (Cons p ps)
  then show ?case by (cases p) auto
qed

lemma MeowCmdResp_decodes:
  assumes "ts_codec_ok T" "valid_MeowCmdResp m"
  shows "decodes n (MeowCmdResp_switch T) (enc_MeowCmdResp T m) MeowCmdResp_zero m"
  unfolding enc_MeowCmdResp_def MeowCmdResp_switch_def
  apply (rule decodes_conv)
   apply (rule decodes_append case_varint case_bool case_bytes case_double NodeInfo.case_elements | simp add: tag_simps MeowCmdResp_zero_def; fail
     | use assms in \<open>auto simp: f64_nonzero_def MeowCmdResp_zero_def valid_MeowCmdResp_def\<close>; fail)+
  apply (use assms in \<open>auto simp: tag_simps ucast_scast32 ucast_ucast32 f64_nonzero_def MeowCmdResp_zero_def valid_MeowCmdResp_def foldl_mr_Nodes\<close>)?
  done

interpretation MeowCmdResp: pb_message MeowCmdResp_Size MeowCmdResp_MarshalToSizedBuffer MeowCmdResp_Unmarshal MeowCmdResp_zero
  enc_MeowCmdResp valid_MeowCmdResp
  by unfold_locales
    (simp_all only: MeowCmdResp_Size_enc MeowCmdResp_marshals_enc MeowCmdResp_Unmarshal_def unmarshal_with_decodes [OF MeowCmdResp_decodes])

definition enc_AllowCmd :: "ts_codec \<Rightarrow> AllowCmd \<Rightarrow> byte list" where
  "enc_AllowCmd T m =
     (if 0 < length (ac_Resource m) then 0xa # enc_varint (word_of_nat (length (bytes_of (ac_Resource m)))) @ bytes_of (ac_Resource m) else []) @
     (if ac_Events m \<noteq> 0 then 0x10 # enc_varint (ucast (ac_Events m)) else [])"

definition valid_AllowCmd :: "AllowCmd \<Rightarrow> bool" where
  "valid_AllowCmd m \<longleftrightarrow> True"

lemma AllowCmd_Size_enc: "ts_codec_ok T \<Longrightarrow> valid_AllowCmd m \<Longrightarrow> AllowCmd_Size T (Some m) = length (enc_AllowCmd T m)"
  by (simp add: valid_AllowCmd_def enc_AllowCmd_def length_enc_varint Let_def)

lemma AllowCmd_marshals_enc:
  assumes "ts_codec_ok T" "valid_AllowCmd m"
  shows "marshals (AllowCmd_MarshalToSizedBuffer T (Some m)) (enc_AllowCmd T m)"
proof -
  have "marshals (marshal_to_sized
       [whenW (ac_Events m \<noteq> 0) (put_varint 0x10 (ucast (ac_Events m))),
        whenW (0 < length (ac_Resource m)) (put_bytes 0xa (bytes_of (ac_Resource m)))]) (enc_AllowCmd T m)"
    by (rule marshals_fieldsI, (rule writes_intros | (use assms in \<open>auto simp: valid_AllowCmd_def\<close>; fail))+)
      (simp add: enc_AllowCmd_def)
  then show ?thesis by (simp add: marshals_def)
qed

lemma AllowCmd_decodes:
  assumes "ts_codec_ok T" "valid_AllowCmd m"
  shows "decodes n (AllowCmd_switch T) (enc_AllowCmd T m) AllowCmd_zero m"
  unfolding enc_AllowCmd_def AllowCmd_switch_def
  apply (rule decodes_conv)
   apply (rule decodes_append case_varint case_bool case_bytes case_double | simp add: tag_simps AllowCmd_zero_def; fail
     | use assms in \<open>auto simp: f64_nonzero_def AllowCmd_zero_def valid_AllowCmd_def\<close>; fail)+
  apply (use assms in \<open>auto simp: tag_simps ucast_scast32 ucast_ucast32 f64_nonzero_def AllowCmd_zero_def valid_AllowCmd_def\<close>)?
  done

interpretation AllowCmd: pb_message AllowCmd_Size AllowCmd_MarshalToSizedBuffer AllowCmd_Unmarshal AllowCmd_zero
  enc_AllowCmd valid_AllowCmd
  by unfold_locales
    (simp_all only: AllowCmd_Size_enc AllowCmd_marshals_enc AllowCmd_Unmarshal_def unmarshal_with_decodes [OF AllowCmd_decodes])

definition enc_AllowCmdResp :: "ts_codec \<Rightarrow> AllowCmdResp \<Rightarrow> byte list" where
  "enc_AllowCmdResp T m =
     (if ar_Redirected m then [0x8, if ar_Redirected m then 1 else 0] else []) @
     (if ar_NodeId m \<noteq> 0 then 0x10 # enc_varint (ucast (ar_NodeId m)) else []) @
     (if ar_Ok m then [0x18, if ar_Ok m then 1 else 0] else [])"

definition valid_AllowCmdResp :: "AllowCmdResp \<Rightarrow> bool" where
  "valid_AllowCmdResp m \<longleftrightarrow> True"

lemma AllowCmdResp_Size_enc: "ts_codec_ok T \<Longrightarrow> valid_AllowCmdResp m \<Longrightarrow> AllowCmdResp_Size T (Some m) = length (enc_AllowCmdResp T m)"
  by (simp add: valid_AllowCmdResp_def enc_AllowCmdResp_def length_enc_varint Let_def)

lemma AllowCmdResp_marshals_enc:
  assumes "ts_codec_ok T" "valid_AllowCmdResp m"
  shows "marshals (AllowCmdResp_MarshalToSizedBuffer T (Some m)) (enc_AllowCmdResp T m)"
proof -
  have "marshals (marshal_to_sized
       [whenW (ar_Ok m) (put_bool 0x18 (ar_Ok m)),
        whenW (ar_NodeId m \<noteq> 0) (put_varint 0x10 (ucast (ar_NodeId m))),
        whenW (ar_Redirected m) (put_bool 0x8 (ar_Redirected m))]) (enc_AllowCmdResp T m)"
    by (rule marshals_fieldsI, (rule writes_intros | (use assms in \<open>auto simp: valid_AllowCmdResp_def\<close>; fail))+)
      (simp add: enc_AllowCmdResp_def)
  then show ?thesis by (simp add: marshals_def)
qed

lemma AllowCmdResp_decodes:
  assumes "ts_codec_ok T" "valid_AllowCmdResp m"
  shows "decodes n (AllowCmdResp_switch T) (enc_AllowCmdResp T m) AllowCmdResp_zero m"
  unfolding enc_AllowCmdResp_def AllowCmdResp_switch_def
  apply (rule decodes_conv)
   apply (rule decodes_append case_varint case_bool case_bytes case_double | simp add: tag_simps AllowCmdResp_zero_def; fail
     | use assms in \<open>auto simp: f64_nonzero_def AllowCmdResp_zero_def valid_AllowCmdResp_def\<close>; fail)+
  apply (use assms in \<open>auto simp: tag_simps ucast_scast32 ucast_ucast32 f64_nonzero_def AllowCmdResp_zero_def valid_AllowCmdResp_def\<close>)?
  done

interpretation AllowCmdResp: pb_message AllowCmdResp_Size AllowCmdResp_MarshalToSizedBuffer AllowCmdResp_Unmarshal AllowCmdResp_zero
  enc_AllowCmdResp valid_AllowCmdResp
  by unfold_locales
    (simp_all only: AllowCmdResp_Size_enc AllowCmdResp_marshals_enc AllowCmdResp_Unmarshal_def unmarshal_with_decodes [OF AllowCmdResp_decodes])

definition enc_TokenBucketParam :: "ts_codec \<Rightarrow> TokenBucketParam \<Rightarrow> byte list" where
  "enc_TokenBucketParam T m =
     (if f64_nonzero (tp_Rate m) then 0x9 # le_bytes 8 (unat (tp_Rate m)) else []) @
     (if tp_Burst m \<noteq> 0 then 0x10 # enc_varint (ucast (tp_Burst m)) else [])"

definition valid_TokenBucketParam :: "TokenBucketParam \<Rightarrow> bool" where
  "valid_TokenBucketParam m \<longleftrightarrow> tp_Rate m \<noteq> 0x8000000000000000"

lemma TokenBucketParam_Size_enc: "ts_codec_ok T \<Longrightarrow> valid_TokenBucketParam m \<Longrightarrow> TokenBucketParam_Size T (Some m) = length (enc_TokenBucketParam T m)"
  by (simp add: valid_TokenBucketParam_def enc_TokenBucketParam_def length_enc_varint Let_def)

lemma TokenBucketParam_marshals_enc:
  assumes "ts_codec_ok T" "valid_TokenBucketParam m"
  shows "marshals (TokenBucketParam_MarshalToSizedBuffer T (Some m)) (enc_TokenBucketParam T m)"
proof -
  have "marshals (marshal_to_sized
       [whenW (tp_Burst m \<noteq> 0) (put_varint 0x10 (ucast (tp_Burst m))),
        whenW (f64_nonzero (tp_Rate m)) (put_double 0x9 (tp_Rate m))]) (enc_TokenBucketParam T m)"
    by (rule marshals_fieldsI, (rule writes_intros | (use assms in \<open>auto simp: valid_TokenBucketParam_def\<close>; fail))+)
      (simp add: enc_TokenBucketParam_def)
  then show ?thesis by (simp add: marshals_def)
qed

lemma TokenBucketParam_decodes:
  assumes "ts_codec_ok T" "valid_TokenBucketParam m"
  shows "decodes n (TokenBucketParam_switch T) (enc_TokenBucketParam T m) TokenBucketParam_zero m"
  unfolding enc_TokenBucketParam_def TokenBucketParam_switch_def
  apply (rule decodes_conv)
   apply (rule decodes_append case_varint case_bool case_bytes case_double | simp add: tag_simps TokenBucketParam_zero_def; fail
     | use assms in \<open>auto simp: f64_nonzero_def TokenBucketParam_zero_def valid_TokenBucketParam_def\<close>; fail)+
  apply (use assms in \<open>auto simp: tag_simps ucast_scast32 ucast_ucast32 f64_nonzero_def TokenBucketParam_zero_def valid_TokenBucketParam_def\<close>)?
  done

interpretation TokenBucketParam: pb_message TokenBucketParam_Size TokenBucketParam_MarshalToSizedBuffer TokenBucketParam_Unmarshal TokenBucketParam_zero
  enc_TokenBucketParam valid_TokenBucketParam
  by unfold_locales
    (simp_all only: TokenBucketParam_Size_enc TokenBucketParam_marshals_enc TokenBucketParam_Unmarshal_def unmarshal_with_decodes [OF TokenBucketParam_decodes])

fun RegResCmd_TokenBucket_val :: "isRegResCmd_Option option \<Rightarrow> TokenBucketParam option" where
  "RegResCmd_TokenBucket_val None = None"
| "RegResCmd_TokenBucket_val (Some (RegResCmd_TokenBucket p)) = p"

definition enc_RegResCmd :: "ts_codec \<Rightarrow> RegResCmd \<Rightarrow> byte list" where
  "enc_RegResCmd T m =
     (if 0 < length (rc_Resource m) then 0xa # enc_varint (word_of_nat (length (bytes_of (rc_Resource m)))) @ bytes_of (rc_Resource m) else []) @
     (if rc_Type m \<noteq> 0 then 0x10 # enc_varint (scast (rc_Type m)) else []) @
     (if rc_Override m then [0x18, if rc_Override m then 1 else 0] else []) @
     enc_opt 0x22 (enc_TokenBucketParam T) (RegResCmd_TokenBucket_val (rc_Option m))"

definition valid_RegResCmd :: "RegResCmd \<Rightarrow> bool" where
  "valid_RegResCmd m \<longleftrightarrow> rc_Option m \<noteq> Some (RegResCmd_TokenBucket None) \<and>
     (\<forall>v. rc_Option m = Some (RegResCmd_TokenBucket (Some v)) \<longrightarrow> valid_TokenBucketParam v)"

lemma RegResCmd_TokenBucket_laws:
  assumes "ts_codec_ok T" "\<And>v. q = Some v \<Longrightarrow> valid_TokenBucketParam v"
  shows "RegResCmd_TokenBucket_Size T (RegResCmd_TokenBucket q) = length (enc_opt 0x22 (enc_TokenBucketParam T) q)"
    and "marshals (RegResCmd_TokenBucket_MarshalToSizedBuffer T (RegResCmd_TokenBucket q)) (enc_opt 0x22 (enc_TokenBucketParam T) q)"
proof -
  show "RegResCmd_TokenBucket_Size T (RegResCmd_TokenBucket q) = length (enc_opt 0x22 (enc_TokenBucketParam T) q)"
    using assms by (cases q) (simp_all add: TokenBucketParam.Size_enc Let_def del: TokenBucketParam_Size.simps)
  have "marshals (marshal_to_sized [whenW (q \<noteq> None) (put_msg 0x22 (TokenBucketParam_MarshalToSizedBuffer T q))])
      (enc_opt 0x22 (enc_TokenBucketParam T) q)"
    by (rule marshals_fieldsI, (rule TokenBucketParam.writes_field writes_intros | (use assms in auto; fail))+)
  then show "marshals (RegResCmd_TokenBucket_MarshalToSizedBuffer T (RegResCmd_TokenBucket q)) (enc_opt 0x22 (enc_TokenBucketParam T) q)"
    by (simp add: marshals_def)
qed

lemma RegResCmd_Size_enc: "ts_codec_ok T \<Longrightarrow> valid_RegResCmd m \<Longrightarrow> RegResCmd_Size T (Some m) = length (enc_RegResCmd T m)"
  by (cases "rc_Option m"; cases "the (rc_Option m)")
    (auto simp: RegResCmd_TokenBucket_laws(1) valid_RegResCmd_def enc_RegResCmd_def length_enc_varint Let_def simp del: RegResCmd_TokenBucket_Size.simps(1) RegResCmd_TokenBucket_Size.simps(2))

lemma RegResCmd_marshals_enc:
  assumes "ts_codec_ok T" "valid_RegResCmd m"
  shows "marshals (RegResCmd_MarshalToSizedBuffer T (Some m)) (enc_RegResCmd T m)"
proof -
  have opt: "writes (whenW (rc_Option m \<noteq> None)
      (put_oneof (RegResCmd_TokenBucket_Size T (the (rc_Option m))) (RegResCmd_TokenBucket_MarshalToSizedBuffer T (the (rc_Option m)))))
      (enc_opt 0x22 (enc_TokenBucketParam T) (RegResCmd_TokenBucket_val (rc_Option m)))"
  proof (cases "rc_Option m")
    case None
    then show ?thesis by (simp add: whenW_def writes_def)
  next
    case (Some c)
    then obtain q where "rc_Option m = Some (RegResCmd_TokenBucket q)" by (cases c) simp
    with assms show ?thesis
      using writes_put_oneof [OF RegResCmd_TokenBucket_laws(2) RegResCmd_TokenBucket_laws(1), of T q]
      by (cases q) (auto simp: whenW_True valid_RegResCmd_def simp del: RegResCmd_TokenBucket_Size.simps RegResCmd_TokenBucket_MarshalToSizedBuffer.simps)
  qed
  have "marshals (marshal_to_sized
       [whenW (rc_Option m \<noteq> None)
          (put_oneof (RegResCmd_TokenBucket_Size T (the (rc_Option m)))
            (RegResCmd_TokenBucket_MarshalToSizedBuffer T (the (rc_Option m)))),
        whenW (rc_Override m) (put_bool 0x18 (rc_Override m)),
        whenW (rc_Type m \<noteq> 0) (put_varint 0x10 (scast (rc_Type m))),
        whenW (0 < length (rc_Resource m)) (put_bytes 0xa (bytes_of (rc_Resource m)))]) (enc_RegResCmd T m)"
    by (rule marshals_fieldsI, (rule opt writes_intros | (use assms in \<open>auto simp: valid_RegResCmd_def\<close>; fail))+)
      (simp add: enc_RegResCmd_def)
  then show ?thesis by (simp add: marshals_def)
qed

lemma RegResCmd_decodes:
  assumes "ts_codec_ok T" "valid_RegResCmd m"
  shows "decodes n (RegResCmd_switch T) (enc_RegResCmd T m) RegResCmd_zero m"
  unfolding enc_RegResCmd_def RegResCmd_switch_def
  apply (rule decodes_conv)
   apply (rule decodes_append case_varint case_bool case_bytes case_double TokenBucketParam.case_choice | simp add: tag_simps RegResCmd_zero_def; fail
     | use assms in \<open>auto simp: f64_nonzero_def RegResCmd_zero_def valid_RegResCmd_def\<close>; fail)+
  apply (use assms in \<open>auto simp: tag_simps ucast_scast32 ucast_ucast32 f64_nonzero_def RegResCmd_zero_def valid_RegResCmd_def elim!: RegResCmd_TokenBucket_val.elims split: option.splits\<close>)?
  done

interpretation RegResCmd: pb_message RegResCmd_Size RegResCmd_MarshalToSizedBuffer RegResCmd_Unmarshal RegResCmd_zero
  enc_RegResCmd valid_RegResCmd
  by unfold_locales
    (simp_all only: RegResCmd_Size_enc RegResCmd_marshals_enc RegResCmd_Unmarshal_def unmarshal_with_decodes [OF RegResCmd_decodes])

definition enc_RegResCmdResp :: "ts_codec \<Rightarrow> RegResCmdResp \<Rightarrow> byte list" where
  "enc_RegResCmdResp T m =
     (if rp_NodeId m \<noteq> 0 then 0x10 # enc_varint (ucast (rp_NodeId m)) else [])"

definition valid_RegResCmdResp :: "RegResCmdResp \<Rightarrow> bool" where
  "valid_RegResCmdResp m \<longleftrightarrow> True"

lemma RegResCmdResp_Size_enc: "ts_codec_ok T \<Longrightarrow> valid_RegResCmdResp m \<Longrightarrow> RegResCmdResp_Size T (Some m) = length (enc_RegResCmdResp T m)"
  by (simp add: valid_RegResCmdResp_def enc_RegResCmdResp_def length_enc_varint Let_def)

lemma RegResCmdResp_marshals_enc:
  assumes "ts_codec_ok T" "valid_RegResCmdResp m"
  shows "marshals (RegResCmdResp_MarshalToSizedBuffer T (Some m)) (enc_RegResCmdResp T m)"
proof -
  have "marshals (marshal_to_sized
       [whenW (rp_NodeId m \<noteq> 0) (put_varint 0x10 (ucast (rp_NodeId m)))]) (enc_RegResCmdResp T m)"
    by (rule marshals_fieldsI, (rule writes_intros | (use assms in \<open>auto simp: valid_RegResCmdResp_def\<close>; fail))+)
      (simp add: enc_RegResCmdResp_def)
  then show ?thesis by (simp add: marshals_def)
qed

lemma RegResCmdResp_decodes:
  assumes "ts_codec_ok T" "valid_RegResCmdResp m"
  shows "decodes n (RegResCmdResp_switch T) (enc_RegResCmdResp T m) RegResCmdResp_zero m"
  unfolding enc_RegResCmdResp_def RegResCmdResp_switch_def
  apply (rule decodes_conv)
   apply (rule decodes_append case_varint case_bool case_bytes case_double | simp add: tag_simps RegResCmdResp_zero_def; fail
     | use assms in \<open>auto simp: f64_nonzero_def RegResCmdResp_zero_def valid_RegResCmdResp_def\<close>; fail)+
  apply (use assms in \<open>auto simp: tag_simps ucast_scast32 ucast_ucast32 f64_nonzero_def RegResCmdResp_zero_def valid_RegResCmdResp_def\<close>)?
  done

interpretation RegResCmdResp: pb_message RegResCmdResp_Size RegResCmdResp_MarshalToSizedBuffer RegResCmdResp_Unmarshal RegResCmdResp_zero
  enc_RegResCmdResp valid_RegResCmdResp
  by unfold_locales
    (simp_all only: RegResCmdResp_Size_enc RegResCmdResp_marshals_enc RegResCmdResp_Unmarshal_def unmarshal_with_decodes [OF RegResCmdResp_decodes])

definition enc_GetResCmd :: "ts_codec \<Rightarrow> GetResCmd \<Rightarrow> byte list" where
  "enc_GetResCmd T m =
     (if 0 < length (gr_Resource m) then 0xa # enc_varint (word_of_nat (length (bytes_of (gr_Resource m)))) @ bytes_of (gr_Resource m) else [])"

definition valid_GetResCmd :: "GetResCmd \<Rightarrow> bool" where
  "valid_GetResCmd m \<longleftrightarrow> True"

lemma GetResCmd_Size_enc: "ts_codec_ok T \<Longrightarrow> valid_GetResCmd m \<Longrightarrow> GetResCmd_Size T (Some m) = length (enc_GetResCmd T m)"
  by (simp add: valid_GetResCmd_def enc_GetResCmd_def length_enc_varint Let_def)

lemma GetResCmd_marshals_enc:
  assumes "ts_codec_ok T" "valid_GetResCmd m"
  shows "marshals (GetResCmd_MarshalToSizedBuffer T (Some m)) (enc_GetResCmd T m)"
proof -
  have "marshals (marshal_to_sized
       [whenW (0 < length (gr_Resource m)) (put_bytes 0xa (bytes_of (gr_Resource m)))]) (enc_GetResCmd T m)"
    by (rule marshals_fieldsI, (rule writes_intros | (use assms in \<open>auto simp: valid_GetResCmd_def\<close>; fail))+)
      (simp add: enc_GetResCmd_def)
  then show ?thesis by (simp add: marshals_def)
qed

lemma GetResCmd_decodes:
  assumes "ts_codec_ok T" "valid_GetResCmd m"
  shows "decodes n (GetResCmd_switch T) (enc_GetResCmd T m) GetResCmd_zero m"
  unfolding enc_GetResCmd_def GetResCmd_switch_def
  apply (rule decodes_conv)
   apply (rule decodes_append case_varint case_bool case_bytes case_double | simp add: tag_simps GetResCmd_zero_def; fail
     | use assms in \<open>auto simp: f64_nonzero_def GetResCmd_zero_def valid_GetResCmd_def\<close>; fail)+
  apply (use assms in \<open>auto simp: tag_simps ucast_scast32 ucast_ucast32 f64_nonzero_def GetResCmd_zero_def valid_GetResCmd_def\<close>)?
  done

interpretation GetResCmd: pb_message GetResCmd_Size GetResCmd_MarshalToSizedBuffer GetResCmd_Unmarshal GetResCmd_zero
  enc_GetResCmd valid_GetResCmd
  by unfold_locales
    (simp_all only: GetResCmd_Size_enc GetResCmd_marshals_enc GetResCmd_Unmarshal_def unmarshal_with_decodes [OF GetResCmd_decodes])

definition enc_ReqPerSecEntry :: "ts_codec \<Rightarrow> ReqPerSecEntry \<Rightarrow> byte list" where
  "enc_ReqPerSecEntry T m =
     (if f64_nonzero (re_Rps m) then 0x9 # le_bytes 8 (unat (re_Rps m)) else []) @
     enc_opt 0x12 (ts_bytes T) (re_Time m)"

definition valid_ReqPerSecEntry :: "ReqPerSecEntry \<Rightarrow> bool" where
  "valid_ReqPerSecEntry m \<longleftrightarrow> re_Rps m \<noteq> 0x8000000000000000"

lemma ReqPerSecEntry_Size_enc: "ts_codec_ok T \<Longrightarrow> valid_ReqPerSecEntry m \<Longrightarrow> ReqPerSecEntry_Size T (Some m) = length (enc_ReqPerSecEntry T m)"
  by (simp add: valid_ReqPerSecEntry_def enc_ReqPerSecEntry_def length_enc_varint Let_def Size_ts_field)

lemma ReqPerSecEntry_marshals_enc:
  assumes "ts_codec_ok T" "valid_ReqPerSecEntry m"
  shows "marshals (ReqPerSecEntry_MarshalToSizedBuffer T (Some m)) (enc_ReqPerSecEntry T m)"
proof -
  have "marshals (marshal_to_sized
       [whenW (re_Time m \<noteq> None)
          (put_msg 0x12 (tsc_MarshalToSizedBuffer T (the (re_Time m)))),
        whenW (f64_nonzero (re_Rps m)) (put_double 0x9 (re_Rps m))]) (enc_ReqPerSecEntry T m)"
    by (rule marshals_fieldsI, (rule writes_intros | (use assms in \<open>auto simp: valid_ReqPerSecEntry_def\<close>; fail))+)
      (simp add: enc_ReqPerSecEntry_def)
  then show ?thesis by (simp add: marshals_def)
qed

lemma ReqPerSecEntry_decodes:
  assumes "ts_codec_ok T" "valid_ReqPerSecEntry m"
  shows "decodes n (ReqPerSecEntry_switch T) (enc_ReqPerSecEntry T m) ReqPerSecEntry_zero m"
  unfolding enc_ReqPerSecEntry_def ReqPerSecEntry_switch_def
  apply (rule decodes_conv)
   apply (rule decodes_append case_varint case_bool case_bytes case_double case_ts_field | simp add: tag_simps ReqPerSecEntry_zero_def; fail
     | use assms in \<open>auto simp: f64_nonzero_def ReqPerSecEntry_zero_def valid_ReqPerSecEntry_def\<close>; fail)+
  apply (use assms in \<open>auto simp: tag_simps ucast_scast32 ucast_ucast32 f64_nonzero_def ReqPerSecEntry_zero_def valid_ReqPerSecEntry_def\<close>)?
  done

interpretation ReqPerSecEntry: pb_message ReqPerSecEntry_Size ReqPerSecEntry_MarshalToSizedBuffer ReqPerSecEntry_Unmarshal ReqPerSecEntry_zero
  enc_ReqPerSecEntry valid_ReqPerSecEntry
  by unfold_locales
    (simp_all only: ReqPerSecEntry_Size_enc ReqPerSecEntry_marshals_enc ReqPerSecEntry_Unmarshal_def unmarshal_with_decodes [OF ReqPerSecEntry_decodes])

definition enc_ReqPerSec :: "ts_codec \<Rightarrow> ReqPerSec \<Rightarrow> byte list" where
  "enc_ReqPerSec T m =
     (if rq_ReqCount m \<noteq> 0 then 0x8 # enc_varint (ucast (rq_ReqCount m)) else []) @
     concat (map (enc_opt 0x12 (enc_ReqPerSecEntry T)) (rq_Histories m))"

definition valid_ReqPerSec :: "ReqPerSec \<Rightarrow> bool" where
  "valid_ReqPerSec m \<longleftrightarrow> None \<notin> set (rq_Histories m) \<and> (\<forall>e. Some e \<in> set (rq_Histories m) \<longrightarrow> valid_ReqPerSecEntry e)"

lemma ReqPerSec_Size_enc: "ts_codec_ok T \<Longrightarrow> valid_ReqPerSec m \<Longrightarrow> ReqPerSec_Size T (Some m) = length (enc_ReqPerSec T m)"
  by (simp add: valid_ReqPerSec_def enc_ReqPerSec_def length_enc_varint Let_def ReqPerSecEntry.Size_elements del: length_concat)

lemma ReqPerSec_marshals_enc:
  assumes "ts_codec_ok T" "valid_ReqPerSec m"
  shows "marshals (ReqPerSec_MarshalToSizedBuffer T (Some m)) (enc_ReqPerSec T m)"
proof -
  have "marshals (marshal_to_sized
       (map (\<lambda>e. put_msg 0x12 (ReqPerSecEntry_MarshalToSizedBuffer T e)) (rev (rq_Histories m)) @
       [whenW (rq_ReqCount m \<noteq> 0) (put_varint 0x8 (ucast (rq_ReqCount m)))])) (enc_ReqPerSec T m)"
    by (rule marshals_fieldsI, (rule writes_seqW_append ReqPerSecEntry.writes_elements writes_intros | (use assms in \<open>auto simp: valid_ReqPerSec_def\<close>; fail))+)
      (simp add: enc_ReqPerSec_def)
  then show ?thesis by (simp add: marshals_def)
qed

lemma foldl_rq_Histories:
  "None \<notin> set ps \<Longrightarrow> foldl (\<lambda>m p. m\<lparr>rq_Histories := rq_Histories m @ [Some (the p)]\<rparr>) m ps = m\<lparr>rq_Histories := rq_Histories m @ ps\<rparr>"
proof (induction ps arbitrary: m)
  case Nil
  show ?case by simp
next
  case (Cons p ps)
  then show ?case by (cases p) auto
qed

lemma ReqPerSec_decodes:
  assumes "ts_codec_ok T" "valid_ReqPerSec m"
  shows "decodes n (ReqPerSec_switch T) (enc_ReqPerSec T m) ReqPerSec_zero m"
  unfolding enc_ReqPerSec_def ReqPerSec_switch_def
  apply (rule decodes_conv)
   apply (rule decodes_append case_varint case_bool case_bytes case_double ReqPerSecEntry.case_elements | simp add: tag_simps ReqPerSec_zero_def; fail
     | use assms in \<open>auto simp: f64_nonzero_def ReqPerSec_zero_def valid_ReqPerSec_def\<close>; fail)+
  apply (use assms in \<open>auto simp: tag_simps ucast_scast32 ucast_ucast32 f64_nonzero_def ReqPerSec_zero_def valid_ReqPerSec_def foldl_rq_Histories\<close>)?
  done

interpretation ReqPerSec: pb_message ReqPerSec_Size ReqPerSec_MarshalToSizedBuffer ReqPerSec_Unmarshal ReqPerSec_zero
  enc_ReqPerSec valid_ReqPerSec
  by unfold_locales
    (simp_all only: ReqPerSec_Size_enc ReqPerSec_marshals_enc ReqPerSec_Unmarshal_def unmarshal_with_decodes [OF ReqPerSec_decodes])

definition enc_TokenBucketLimiter :: "ts_codec \<Rightarrow> TokenBucketLimiter \<Rightarrow> byte list" where
  "enc_TokenBucketLimiter T m =
     (if f64_nonzero (tl_Rate m) then 0x9 # le_bytes 8 (unat (tl_Rate m)) else []) @
     (if tl_Burst m \<noteq> 0 then 0x10 # enc_varint (ucast (tl_Burst m)) else []) @
     (if f64_nonzero (tl_TokenCount m) then 0x19 # le_bytes 8 (unat (tl_TokenCount m)) else []) @
     (if tl_FillPeriod m \<noteq> 0 then 0x20 # enc_varint (tl_FillPeriod m) else []) @
     enc_opt 0x2a (ts_bytes T) (tl_LastFilled m) @
     enc_opt 0x32 (ts_bytes T) (tl_NextFill m)"

definition valid_TokenBucketLimiter :: "TokenBucketLimiter \<Rightarrow> bool" where
  "valid_TokenBucketLimiter m \<longleftrightarrow> tl_Rate m \<noteq> 0x8000000000000000 \<and>
     tl_TokenCount m \<noteq> 0x8000000000000000"

lemma TokenBucketLimiter_Size_enc: "ts_codec_ok T \<Longrightarrow> valid_TokenBucketLimiter m \<Longrightarrow> TokenBucketLimiter_Size T (Some m) = length (enc_TokenBucketLimiter T m)"
  by (simp add: valid_TokenBucketLimiter_def enc_TokenBucketLimiter_def length_enc_varint Let_def Size_ts_field)

lemma TokenBucketLimiter_marshals_enc:
  assumes "ts_codec_ok T" "valid_TokenBucketLimiter m"
  shows "marshals (TokenBucketLimiter_MarshalToSizedBuffer T (Some m)) (enc_TokenBucketLimiter T m)"
proof -
  have "marshals (marshal_to_sized
       [whenW (tl_NextFill m \<noteq> None)
          (put_msg 0x32 (tsc_MarshalToSizedBuffer T (the (tl_NextFill m)))),
        whenW (tl_LastFilled m \<noteq> None)
          (put_msg 0x2a (tsc_MarshalToSizedBuffer T (the (tl_LastFilled m)))),
        whenW (tl_FillPeriod m \<noteq> 0) (put_varint 0x20 (tl_FillPeriod m)),
        whenW (f64_nonzero (tl_TokenCount m)) (put_double 0x19 (tl_TokenCount m)),
        whenW (tl_Burst m \<noteq> 0) (put_varint 0x10 (ucast (tl_Burst m))),
        whenW (f64_nonzero (tl_Rate m)) (put_double 0x9 (tl_Rate m))]) (enc_TokenBucketLimiter T m)"
    by (rule marshals_fieldsI, (rule writes_intros | (use assms in \<open>auto simp: valid_TokenBucketLimiter_def\<close>; fail))+)
      (simp add: enc_TokenBucketLimiter_def)
  then show ?thesis by (simp add: marshals_def)
qed

lemma TokenBucketLimiter_decodes:
  assumes "ts_codec_ok T" "valid_TokenBucketLimiter m"
  shows "decodes n (TokenBucketLimiter_switch T) (enc_TokenBucketLimiter T m) TokenBucketLimiter_zero m"
  unfolding enc_TokenBucketLimiter_def TokenBucketLimiter_switch_def
  apply (rule decodes_conv)
   apply (rule decodes_append case_varint case_bool case_bytes case_double case_ts_field | simp add: tag_simps TokenBucketLimiter_zero_def; fail
     | use assms in \<open>auto simp: f64_nonzero_def TokenBucketLimiter_zero_def valid_TokenBucketLimiter_def\<close>; fail)+
  apply (use assms in \<open>auto simp: tag_simps ucast_scast32 ucast_ucast32 f64_nonzero_def TokenBucketLimiter_zero_def valid_TokenBucketLimiter_def\<close>)?
  done

interpretation TokenBucketLimiter: pb_message TokenBucketLimiter_Size TokenBucketLimiter_MarshalToSizedBuffer TokenBucketLimiter_Unmarshal TokenBucketLimiter_zero
  enc_TokenBucketLimiter valid_TokenBucketLimiter
  by unfold_locales
    (simp_all only: TokenBucketLimiter_Size_enc TokenBucketLimiter_marshals_enc TokenBucketLimiter_Unmarshal_def unmarshal_with_decodes [OF TokenBucketLimiter_decodes])

definition enc_LeakyBucketLimiter :: "ts_codec \<Rightarrow> LeakyBucketLimiter \<Rightarrow> byte list" where
  "enc_LeakyBucketLimiter T m =
     (if f64_nonzero (ll_Rate m) then 0x9 # le_bytes 8 (unat (ll_Rate m)) else []) @
     (if ll_Capability m \<noteq> 0 then 0x10 # enc_varint (ucast (ll_Capability m)) else []) @
     (if f64_nonzero (ll_Drops m) then 0x19 # le_bytes 8 (unat (ll_Drops m)) else []) @
     (if ll_DrainPeriod m \<noteq> 0 then 0x20 # enc_varint (ll_DrainPeriod m) else []) @
     enc_opt 0x2a (ts_bytes T) (ll_LastDrained m) @
     enc_opt 0x32 (ts_bytes T) (ll_NextDrain m)"

definition valid_LeakyBucketLimiter :: "LeakyBucketLimiter \<Rightarrow> bool" where
  "valid_LeakyBucketLimiter m \<longleftrightarrow> ll_Rate m \<noteq> 0x8000000000000000 \<and>
     ll_Drops m \<noteq> 0x8000000000000000"

lemma LeakyBucketLimiter_Size_enc: "ts_codec_ok T \<Longrightarrow> valid_LeakyBucketLimiter m \<Longrightarrow> LeakyBucketLimiter_Size T (Some m) = length (enc_LeakyBucketLimiter T m)"
  by (simp add: valid_LeakyBucketLimiter_def enc_LeakyBucketLimiter_def length_enc_varint Let_def Size_ts_field)

lemma LeakyBucketLimiter_marshals_enc:
  assumes "ts_codec_ok T" "valid_LeakyBucketLimiter m"
  shows "marshals (LeakyBucketLimiter_MarshalToSizedBuffer T (Some m)) (enc_LeakyBucketLimiter T m)"
proof -
  have "marshals (marshal_to_sized
       [whenW (ll_NextDrain m \<noteq> None)
          (put_msg 0x32 (tsc_MarshalToSizedBuffer T (the (ll_NextDrain m)))),
        whenW (ll_LastDrained m \<noteq> None)
          (put_msg 0x2a (tsc_MarshalToSizedBuffer T (the (ll_LastDrained m)))),
        whenW (ll_DrainPeriod m \<noteq> 0) (put_varint 0x20 (ll_DrainPeriod m)),
        whenW (f64_nonzero (ll_Drops m)) (put_double 0x19 (ll_Drops m)),
        whenW (ll_Capability m \<noteq> 0) (put_varint 0x10 (ucast (ll_Capability m))),
        whenW (f64_nonzero (ll_Rate m)) (put_double 0x9 (ll_Rate m))]) (enc_LeakyBucketLimiter T m)"
    by (rule marshals_fieldsI, (rule writes_intros | (use assms in \<open>auto simp: valid_LeakyBucketLimiter_def\<close>; fail))+)
      (simp add: enc_LeakyBucketLimiter_def)
  then show ?thesis by (simp add: marshals_def)
qed

lemma LeakyBucketLimiter_decodes:
  assumes "ts_codec_ok T" "valid_LeakyBucketLimiter m"
  shows "decodes n (LeakyBucketLimiter_switch T) (enc_LeakyBucketLimiter T m) LeakyBucketLimiter_zero m"
  unfolding enc_LeakyBucketLimiter_def LeakyBucketLimiter_switch_def
  apply (rule decodes_conv)
   apply (rule decodes_append case_varint case_bool case_bytes case_double case_ts_field | simp add: tag_simps LeakyBucketLimiter_zero_def; fail
     | use assms in \<open>auto simp: f64_nonzero_def LeakyBucketLimiter_zero_def valid_LeakyBucketLimiter_def\<close>; fail)+
  apply (use assms in \<open>auto simp: tag_simps ucast_scast32 ucast_ucast32 f64_nonzero_def LeakyBucketLimiter_zero_def valid_LeakyBucketLimiter_def\<close>)?
  done

interpretation LeakyBucketLimiter: pb_message LeakyBucketLimiter_Size LeakyBucketLimiter_MarshalToSizedBuffer LeakyBucketLimiter_Unmarshal LeakyBucketLimiter_zero
  enc_LeakyBucketLimiter valid_LeakyBucketLimiter
  by unfold_locales
    (simp_all only: LeakyBucketLimiter_Size_enc LeakyBucketLimiter_marshals_enc LeakyBucketLimiter_Unmarshal_def unmarshal_with_decodes [OF LeakyBucketLimiter_decodes])

fun Resource_TokenBucket_val :: "isResource_Limiter option \<Rightarrow> TokenBucketLimiter option" where
  "Resource_TokenBucket_val None = None"
| "Resource_TokenBucket_val (Some (Resource_TokenBucket p)) = p"

definition enc_Resource :: "ts_codec \<Rightarrow> PbResource \<Rightarrow> byte list" where
  "enc_Resource T m =
     (if 0 < length (rs_Name m) then 0xa # enc_varint (word_of_nat (length (bytes_of (rs_Name m)))) @ bytes_of (rs_Name m) else []) @
     (if rs_NodeId m \<noteq> 0 then 0x10 # enc_varint (ucast (rs_NodeId m)) else []) @
     (if rs_LimiterType m \<noteq> 0 then 0x18 # enc_varint (scast (rs_LimiterType m)) else []) @
     enc_opt 0x22 (enc_ReqPerSec T) (rs_Rps m) @
     enc_opt 0x2a (ts_bytes T) (rs_LastUpdated m) @
     enc_opt 0x32 (enc_TokenBucketLimiter T) (Resource_TokenBucket_val (rs_Limiter m))"

definition valid_Resource :: "PbResource \<Rightarrow> bool" where
  "valid_Resource m \<longleftrightarrow> (\<forall>e. rs_Rps m = Some e \<longrightarrow> valid_ReqPerSec e) \<and>
     rs_Limiter m \<noteq> Some (Resource_TokenBucket None) \<and>
     (\<forall>v. rs_Limiter m = Some (Resource_TokenBucket (Some v)) \<longrightarrow> valid_TokenBucketLimiter v)"

lemma Resource_TokenBucket_laws:
  assumes "ts_codec_ok T" "\<And>v. q = Some v \<Longrightarrow> valid_TokenBucketLimiter v"
  shows "Resource_TokenBucket_Size T (Resource_TokenBucket q) = length (enc_opt 0x32 (enc_TokenBucketLimiter T) q)"
    and "marshals (Resource_TokenBucket_MarshalToSizedBuffer T (Resource_TokenBucket q)) (enc_opt 0x32 (enc_TokenBucketLimiter T) q)"
proof -
  show "Resource_TokenBucket_Size T (Resource_TokenBucket q) = length (enc_opt 0x32 (enc_TokenBucketLimiter T) q)"
    using assms by (cases q) (simp_all add: TokenBucketLimiter.Size_enc Let_def del: TokenBucketLimiter_Size.simps)
  have "marshals (marshal_to_sized [whenW (q \<noteq> None) (put_msg 0x32 (TokenBucketLimiter_MarshalToSizedBuffer T q))])
      (enc_opt 0x32 (enc_TokenBucketLimiter T) q)"
    by (rule marshals_fieldsI, (rule TokenBucketLimiter.writes_field writes_intros | (use assms in auto; fail))+)
  then show "marshals (Resource_TokenBucket_MarshalToSizedBuffer T (Resource_TokenBucket q)) (enc_opt 0x32 (enc_TokenBucketLimiter T) q)"
    by (simp add: marshals_def)
qed

lemma Resource_Size_enc: "ts_codec_ok T \<Longrightarrow> valid_Resource m \<Longrightarrow> Resource_Size T (Some m) = length (enc_Resource T m)"
  by (cases "rs_Limiter m"; cases "the (rs_Limiter m)")
    (auto simp: Resource_TokenBucket_laws(1) valid_Resource_def enc_Resource_def length_enc_varint Let_def Size_ts_field ReqPerSec.Size_field simp del: Resource_TokenBucket_Size.simps(1) Resource_TokenBucket_Size.simps(2))

lemma Resource_marshals_enc:
  assumes "ts_codec_ok T" "valid_Resource m"
  shows "marshals (Resource_MarshalToSizedBuffer T (Some m)) (enc_Resource T m)"
proof -
  have opt: "writes (whenW (rs_Limiter m \<noteq> None)
      (put_oneof (Resource_TokenBucket_Size T (the (rs_Limiter m))) (Resource_TokenBucket_MarshalToSizedBuffer T (the (rs_Limiter m)))))
      (enc_opt 0x32 (enc_TokenBucketLimiter T) (Resource_TokenBucket_val (rs_Limiter m)))"
  proof (cases "rs_Limiter m")
    case None
    then show ?thesis by (simp add: whenW_def writes_def)
  next
    case (Some c)
    then obtain q where "rs_Limiter m = Some (Resource_TokenBucket q)" by (cases c) simp
    with assms show ?thesis
      using writes_put_oneof [OF Resource_TokenBucket_laws(2) Resource_TokenBucket_laws(1), of T q]
      by (cases q) (auto simp: whenW_True valid_Resource_def simp del: Resource_TokenBucket_Size.simps Resource_TokenBucket_MarshalToSizedBuffer.simps)
  qed
  have "marshals (marshal_to_sized
       [whenW (rs_Limiter m \<noteq> None)
          (put_oneof (Resource_TokenBucket_Size T (the (rs_Limiter m)))
            (Resource_TokenBucket_MarshalToSizedBuffer T (the (rs_Limiter m)))),
        whenW (rs_LastUpdated m \<noteq> None)
          (put_msg 0x2a (tsc_MarshalToSizedBuffer T (the (rs_LastUpdated m)))),
        whenW (rs_Rps m \<noteq> None)
          (put_msg 0x22 (ReqPerSec_MarshalToSizedBuffer T (rs_Rps m))),
        whenW (rs_LimiterType m \<noteq> 0) (put_varint 0x18 (scast (rs_LimiterType m))),
        whenW (rs_NodeId m \<noteq> 0) (put_varint 0x10 (ucast (rs_NodeId m))),
        whenW (0 < length (rs_Name m)) (put_bytes 0xa (bytes_of (rs_Name m)))]) (enc_Resource T m)"
    by (rule marshals_fieldsI, (rule opt ReqPerSec.writes_field writes_intros | (use assms in \<open>auto simp: valid_Resource_def\<close>; fail))+)
      (simp add: enc_Resource_def)
  then show ?thesis by (simp add: marshals_def)
qed

lemma Resource_decodes:
  assumes "ts_codec_ok T" "valid_Resource m"
  shows "decodes n (Resource_switch T) (enc_Resource T m) Resource_zero m"
  unfolding enc_Resource_def Resource_switch_def
  apply (rule decodes_conv)
   apply (rule decodes_append case_varint case_bool case_bytes case_double case_ts_field ReqPerSec.case_field TokenBucketLimiter.case_choice | simp add: tag_simps Resource_zero_def; fail
     | use assms in \<open>auto simp: f64_nonzero_def Resource_zero_def valid_Resource_def\<close>; fail)+
  apply (use assms in \<open>auto simp: tag_simps ucast_scast32 ucast_ucast32 f64_nonzero_def Resource_zero_def valid_Resource_def elim!: Resource_TokenBucket_val.elims split: option.splits\<close>)?
  done

interpretation Resource: pb_message Resource_Size Resource_MarshalToSizedBuffer Resource_Unmarshal Resource_zero
  enc_Resource valid_Resource
  by unfold_locales
    (simp_all only: Resource_Size_enc Resource_marshals_enc Resource_Unmarshal_def unmarshal_with_decodes [OF Resource_decodes])

end
