(* ===== verification/ClusterLaws.thy ===== *)
theory ClusterLaws
  imports ClusterMessages ApiLaws
begin

text \<open>The same contract for the messages of the cluster file.\<close>

definition enc_Entry :: "ts_codec \<Rightarrow> Entry \<Rightarrow> byte list" where
  "enc_Entry T m =
     (if 0 < length (en_Id m) then 0xa # enc_varint (word_of_nat (length (en_Id m))) @ en_Id m else []) @
     (if en_Action m \<noteq> 0 then 0x10 # enc_varint (scast (en_Action m)) else []) @
     (if en_SrcNodeId m \<noteq> 0 then 0x18 # enc_varint (ucast (en_SrcNodeId m)) else []) @
     enc_opt 0x22 (enc_Resource T) (en_Resource m)"

definition valid_Entry :: "Entry \<Rightarrow> bool" where
  "valid_Entry m \<longleftrightarrow> (\<forall>e. en_Resource m = Some e \<longrightarrow> valid_Resource e)"

lemma Entry_Size_enc: "ts_codec_ok T \<Longrightarrow> valid_Entry m \<Longrightarrow> Entry_Size T (Some m) = length (enc_Entry T m)"
  by (simp add: valid_Entry_def enc_Entry_def length_enc_varint Let_def Resource.Size_field)

lemma Entry_marshals_enc:
  assumes "ts_codec_ok T" "valid_Entry m"
  shows "marshals (Entry_MarshalToSizedBuffer T (Some m)) (enc_Entry T m)"
proof -
  have "marshals (marshal_to_sized
       [whenW (en_Resource m \<noteq> None)
          (put_msg 0x22 (Resource_MarshalToSizedBuffer T (en_Resource m))),
        whenW (en_SrcNodeId m \<noteq> 0) (put_varint 0x18 (ucast (en_SrcNodeId m))),
        whenW (en_Action m \<noteq> 0) (put_varint 0x10 (scast (en_Action m))),
        whenW (0 < length (en_Id m)) (put_bytes 0xa (en_Id m))]) (enc_Entry T m)"
    by (rule marshals_fieldsI, (rule Resource.writes_field writes_intros | (use assms in \<open>auto simp: valid_Entry_def\<close>; fail))+)
      (simp add: enc_Entry_def)
  then show ?thesis by (simp add: marshals_def)
qed

lemma Entry_decodes:
  assumes "ts_codec_ok T" "valid_Entry m"
  shows "decodes n (Entry_switch T) (enc_Entry T m) Entry_zero m"
  unfolding enc_Entry_def Entry_switch_def
  apply (rule decodes_conv)
   apply (rule decodes_append case_varint case_bool case_bytes case_double Resource.case_field | simp add: tag_simps Entry_zero_def; fail
     | use assms in \<open>auto simp: f64_nonzero_def Entry_zero_def valid_Entry_def\<close>; fail)+
  apply (use assms in \<open>auto simp: tag_simps ucast_scast32 ucast_ucast32 f64_nonzero_def Entry_zero_def valid_Entry_def\<close>)?
  done

interpretation Entry: pb_message Entry_Size Entry_MarshalToSizedBuffer Entry_Unmarshal Entry_zero
  enc_Entry valid_Entry
  by unfold_locales
    (simp_all only: Entry_Size_enc Entry_marshals_enc Entry_Unmarshal_def unmarshal_with_decodes [OF Entry_decodes])

definition enc_EntrySnapshot :: "ts_codec \<Rightarrow> EntrySnapshot \<Rightarrow> byte list" where
  "enc_EntrySnapshot T m =
     concat (map (enc_opt 0xa (enc_Entry T)) (es_Entries m))"

definition valid_EntrySnapshot :: "EntrySnapshot \<Rightarrow> bool" where
  "valid_EntrySnapshot m \<longleftrightarrow> None \<notin> set (es_Entries m) \<and> (\<forall>e. Some e \<in> set (es_Entries m) \<longrightarrow> valid_Entry e)"

lemma EntrySnapshot_Size_enc: "ts_codec_ok T \<Longrightarrow> valid_EntrySnapshot m \<Longrightarrow> EntrySnapshot_Size T (Some m) = length (enc_EntrySnapshot T m)"
  by (simp add: valid_EntrySnapshot_def enc_EntrySnapshot_def length_enc_varint Let_def Entry.Size_elements del: length_concat)

lemma EntrySnapshot_marshals_enc:
  assumes "ts_codec_ok T" "valid_EntrySnapshot m"
  shows "marshals (EntrySnapshot_MarshalToSizedBuffer T (Some m)) (enc_EntrySnapshot T m)"
proof -
  have "marshals (marshal_to_sized
       (map (\<lambda>e. put_msg 0xa (Entry_MarshalToSizedBuffer T e)) (rev (es_Entries m)))) (enc_EntrySnapshot T m)"
    by (rule marshals_fieldsI, (rule writes_seqW_append Entry.writes_elements writes_intros | (use assms in \<open>auto simp: valid_EntrySnapshot_def\<close>; fail))+)
      (simp add: enc_EntrySnapshot_def)
  then show ?thesis by (simp add: marshals_def)
qed

lemma foldl_es_Entries:
  "None \<notin> set ps \<Longrightarrow> foldl (\<lambda>m p. m\<lparr>es_Entries := es_Entries m @ [Some (the p)]\<rparr>) m ps = m\<lparr>es_Entries := es_Entries m @ ps\<rparr>"
proof (induction ps arbitrary: m)
  case Nil
  show ?case by simp
next
  case (Cons p ps)
  then show ?case by (cases p) auto
qed

lemma EntrySnapshot_decodes:
  assumes "ts_codec_ok T" "valid_EntrySnapshot m"
  shows "decodes n (EntrySnapshot_switch T) (enc_EntrySnapshot T m) EntrySnapshot_zero m"
  unfolding enc_EntrySnapshot_def EntrySnapshot_switch_def
  apply (rule decodes_conv)
   apply (rule decodes_append case_varint case_bool case_bytes case_double Entry.case_elements | simp add: tag_simps EntrySnapshot_zero_def; fail
     | use assms in \<open>auto simp: f64_nonzero_def EntrySnapshot_zero_def valid_EntrySnapshot_def\<close>; fail)+
  apply (use assms in \<open>auto simp: tag_simps ucast_scast32 ucast_ucast32 f64_nonzero_def EntrySnapshot_zero_def valid_EntrySnapshot_def foldl_es_Entries\<close>)?
  done

interpretation EntrySnapshot: pb_message EntrySnapshot_Size EntrySnapshot_MarshalToSizedBuffer EntrySnapshot_Unmarshal EntrySnapshot_zero
  enc_EntrySnapshot valid_EntrySnapshot
  by unfold_locales
    (simp_all only: EntrySnapshot_Size_enc EntrySnapshot_marshals_enc EntrySnapshot_Unmarshal_def unmarshal_with_decodes [OF EntrySnapshot_decodes])

definition enc_AvgRpsReq :: "ts_codec \<Rightarrow> AvgRpsReq \<Rightarrow> byte list" where
  "enc_AvgRpsReq T m =
     (if av_LastSecs m \<noteq> 0 then 0x8 # enc_varint (ucast (av_LastSecs m)) else [])"

definition valid_AvgRpsReq :: "AvgRpsReq \<Rightarrow> bool" where
  "valid_AvgRpsReq m \<longleftrightarrow> True"

lemma AvgRpsReq_Size_enc: "ts_codec_ok T \<Longrightarrow> valid_AvgRpsReq m \<Longrightarrow> AvgRpsReq_Size T (Some m) = length (enc_AvgRpsReq T m)"
  by (simp add: valid_AvgRpsReq_def enc_AvgRpsReq_def length_enc_varint Let_def)

lemma AvgRpsReq_marshals_enc:
  assumes "ts_codec_ok T" "valid_AvgRpsReq m"
  shows "marshals (AvgRpsReq_MarshalToSizedBuffer T (Some m)) (enc_AvgRpsReq T m)"
proof -
  have "marshals (marshal_to_sized
       [whenW (av_LastSecs m \<noteq> 0) (put_varint 0x8 (ucast (av_LastSecs m)))]) (enc_AvgRpsReq T m)"
    by (rule marshals_fieldsI, (rule writes_intros | (use assms in \<open>auto simp: valid_AvgRpsReq_def\<close>; fail))+)
      (simp add: enc_AvgRpsReq_def)
  then show ?thesis by (simp add: marshals_def)
qed

lemma AvgRpsReq_decodes:
  assumes "ts_codec_ok T" "valid_AvgRpsReq m"
  shows "decodes n (AvgRpsReq_switch T) (enc_AvgRpsReq T m) AvgRpsReq_zero m"
  unfolding enc_AvgRpsReq_def AvgRpsReq_switch_def
  apply (rule decodes_conv)
   apply (rule decodes_append case_varint case_bool case_bytes case_double | simp add: tag_simps AvgRpsReq_zero_def; fail
     | use assms in \<open>auto simp: f64_nonzero_def AvgRpsReq_zero_def valid_AvgRpsReq_def\<close>; fail)+
  apply (use assms in \<open>auto simp: tag_simps ucast_scast32 ucast_ucast32 f64_nonzero_def AvgRpsReq_zero_def valid_AvgRpsReq_def\<close>)?
  done

interpretation AvgRpsReq: pb_message AvgRpsReq_Size AvgRpsReq_MarshalToSizedBuffer AvgRpsReq_Unmarshal AvgRpsReq_zero
  enc_AvgRpsReq valid_AvgRpsReq
  by unfold_locales
    (simp_all only: AvgRpsReq_Size_enc AvgRpsReq_marshals_enc AvgRpsReq_Unmarshal_def unmarshal_with_decodes [OF AvgRpsReq_decodes])

definition enc_IsEntryAppliedReq :: "ts_codec \<Rightarrow> IsEntryAppliedReq \<Rightarrow> byte list" where
  "enc_IsEntryAppliedReq T m =
     (if 0 < length (ia_Id m) then 0xa # enc_varint (word_of_nat (length (ia_Id m))) @ ia_Id m else [])"

definition valid_IsEntryAppliedReq :: "IsEntryAppliedReq \<Rightarrow> bool" where
  "valid_IsEntryAppliedReq m \<longleftrightarrow> True"

lemma IsEntryAppliedReq_Size_enc: "ts_codec_ok T \<Longrightarrow> valid_IsEntryAppliedReq m \<Longrightarrow> IsEntryAppliedReq_Size T (Some m) = length (enc_IsEntryAppliedReq T m)"
  by (simp add: valid_IsEntryAppliedReq_def enc_IsEntryAppliedReq_def length_enc_varint Let_def)

lemma IsEntryAppliedReq_marshals_enc:
  assumes "ts_codec_ok T" "valid_IsEntryAppliedReq m"
  shows "marshals (IsEntryAppliedReq_MarshalToSizedBuffer T (Some m)) (enc_IsEntryAppliedReq T m)"
proof -
  have "marshals (marshal_to_sized
       [whenW (0 < length (ia_Id m)) (put_bytes 0xa (ia_Id m))]) (enc_IsEntryAppliedReq T m)"
    by (rule marshals_fieldsI, (rule writes_intros | (use assms in \<open>auto simp: valid_IsEntryAppliedReq_def\<close>; fail))+)
      (simp add: enc_IsEntryAppliedReq_def)
  then show ?thesis by (simp add: marshals_def)
qed

lemma IsEntryAppliedReq_decodes:
  assumes "ts_codec_ok T" "valid_IsEntryAppliedReq m"
  shows "decodes n (IsEntryAppliedReq_switch T) (enc_IsEntryAppliedReq T m) IsEntryAppliedReq_zero m"
  unfolding enc_IsEntryAppliedReq_def IsEntryAppliedReq_switch_def
  apply (rule decodes_conv)
   apply (rule decodes_append case_varint case_bool case_bytes case_double | simp add: tag_simps IsEntryAppliedReq_zero_def; fail
     | use assms in \<open>auto simp: f64_nonzero_def IsEntryAppliedReq_zero_def valid_IsEntryAppliedReq_def\<close>; fail)+
  apply (use assms in \<open>auto simp: tag_simps ucast_scast32 ucast_ucast32 f64_nonzero_def IsEntryAppliedReq_zero_def valid_IsEntryAppliedReq_def\<close>)?
  done

interpretation IsEntryAppliedReq: pb_message IsEntryAppliedReq_Size IsEntryAppliedReq_MarshalToSizedBuffer IsEntryAppliedReq_Unmarshal IsEntryAppliedReq_zero
  enc_IsEntryAppliedReq valid_IsEntryAppliedReq
  by unfold_locales
    (simp_all only: IsEntryAppliedReq_Size_enc IsEntryAppliedReq_marshals_enc IsEntryAppliedReq_Unmarshal_def unmarshal_with_decodes [OF IsEntryAppliedReq_decodes])

end
