(* ===== verification/ResMgr.thy ===== *)
theory ResMgr
  imports Probe Limiter ClusterLaws
begin

text \<open>
  The resource manager (\<^verbatim>\<open>internal/mgr\<close>): resources, the replicated store with its per-node index,
  the entries replicated through raft, their application, snapshots and restoring.  Resources are shared
  by pointer between the store, the index and the callers of \<^verbatim>\<open>GetResource\<close>, so the manager
  carries a heap of resources and its maps hold addresses.  The maps themselves are third-party
  (\<^verbatim>\<open>github.com/dolthub/swiss\<close>): the record \<open>swiss_ops\<close> of the operations called, with
  \<open>swiss_ok\<close> for what a map promises.  Arguments stand for the clock (\<open>now\<close>), the maximal history
  (\<open>H\<close>), fresh entry identifiers (\<open>eid\<close>) and \<^verbatim>\<open>uuid.FromBytes\<close>; every locked section is
  one step.
\<close>

section \<open>Maps\<close>

type_synonym addr = nat

record 'm swiss_ops =
  sw_NewMap :: "u32 \<Rightarrow> 'm"
  sw_Put :: "'m \<Rightarrow> string \<Rightarrow> addr \<Rightarrow> 'm"
  sw_Get :: "'m \<Rightarrow> string \<Rightarrow> addr option"
  sw_Has :: "'m \<Rightarrow> string \<Rightarrow> bool"
  sw_Delete :: "'m \<Rightarrow> string \<Rightarrow> 'm"
  sw_Iter :: "'m \<Rightarrow> (string \<times> addr) list"

definition swiss_ok :: "'m swiss_ops \<Rightarrow> bool" where
  "swiss_ok M \<longleftrightarrow>
     (\<forall>n k. sw_Get M (sw_NewMap M n) k = None) \<and>
     (\<forall>m k a. sw_Get M (sw_Put M m k a) = (sw_Get M m)(k \<mapsto> a)) \<and>
     (\<forall>m k. sw_Get M (sw_Delete M m k) = (sw_Get M m)(k := None)) \<and>
     (\<forall>m k. sw_Has M m k \<longleftrightarrow> sw_Get M m k \<noteq> None) \<and>
     (\<forall>m. distinct (map fst (sw_Iter M m)) \<and> map_of (sw_Iter M m) = sw_Get M m)"

text \<open>An instance, for the witnesses.\<close>

definition alist_swiss :: "(string \<times> addr) list swiss_ops" where
  "alist_swiss = \<lparr>sw_NewMap = \<lambda>n. [], sw_Put = \<lambda>m k a. (k, a) # filter (\<lambda>p. fst p \<noteq> k) m,
     sw_Get = map_of, sw_Has = \<lambda>m k. map_of m k \<noteq> None, sw_Delete = \<lambda>m k. filter (\<lambda>p. fst p \<noteq> k) m,
     sw_Iter = \<lambda>m. AList.clearjunk m\<rparr>"

lemma map_of_filter_neq: "map_of (filter (\<lambda>p. fst p \<noteq> k) m) = (map_of m)(k := None)"
  by (induction m) auto

lemma alist_swiss_ok: "swiss_ok alist_swiss"
  by (simp add: swiss_ok_def alist_swiss_def map_of_filter_neq distinct_clearjunk map_of_clearjunk)

section \<open>Resources and the manager's state\<close>

record Resource =
  res_NodeID :: u32
  res_Limiter :: "Limiter option"
  res_LastUpdated :: instant
  res_RPS :: RPS

record 'm ResourceManager =
  rm_cfg :: Config
  rm_store :: 'm
  rm_nodeStore :: "u32 \<Rightarrow> 'm option"
  rm_nodeProber :: NodeProber
  rm_ready :: bool
  rm_heap :: "addr \<Rightarrow> Resource option"
  rm_next :: addr

definition defResourceSize :: u32 where
  "defResourceSize = 64"

definition NewResourceManager :: "'m swiss_ops \<Rightarrow> Config \<Rightarrow> NodeProber option \<Rightarrow> 'm ResourceManager" where
  "NewResourceManager M cfg np =
     \<lparr>rm_cfg = cfg, rm_store = sw_NewMap M defResourceSize, rm_nodeStore = (\<lambda>_. None),
      rm_nodeProber = (case np of None \<Rightarrow> NewNullNodeProber | Some np \<Rightarrow> np), rm_ready = False,
      rm_heap = (\<lambda>_. None), rm_next = 0\<rparr>"

definition rm_res :: "'m ResourceManager \<Rightarrow> addr \<Rightarrow> Resource" where
  "rm_res rm a = the (rm_heap rm a)"

text \<open>A new object at a fresh address, and an update of an existing one.\<close>

definition rm_new :: "Resource \<Rightarrow> 'm ResourceManager \<Rightarrow> addr \<times> 'm ResourceManager" where
  "rm_new res rm = (rm_next rm, rm\<lparr>rm_heap := (rm_heap rm)(rm_next rm \<mapsto> res), rm_next := Suc (rm_next rm)\<rparr>)"

definition rm_write :: "addr \<Rightarrow> Resource \<Rightarrow> 'm ResourceManager \<Rightarrow> 'm ResourceManager" where
  "rm_write a res rm = rm\<lparr>rm_heap := (rm_heap rm)(a \<mapsto> res)\<rparr>"

definition newResource :: "instant \<Rightarrow> u32 \<Rightarrow> Limiter option \<Rightarrow> Resource" where
  "newResource now nodeID limiter =
     \<lparr>res_NodeID = nodeID, res_Limiter = limiter, res_LastUpdated = now, res_RPS = RPS_zero\<rparr>"

definition newResourceFromPB :: "duration \<Rightarrow> instant \<Rightarrow> PbResource option \<Rightarrow> Resource res" where
  "newResourceFromPB H now resPB =
     bindR (NewLimiterFromResPB resPB) (\<lambda>limiter.
       case resPB of
         None \<Rightarrow> Inl nil_deref
       | Some resPB \<Rightarrow>
           bindR (RPS_FromPB H now (rs_Rps resPB) RPS_zero) (\<lambda>rps.
             Inr \<lparr>res_NodeID = rs_NodeId resPB, res_Limiter = Some limiter,
                  res_LastUpdated = TimestampToTime (rs_LastUpdated resPB), res_RPS = rps\<rparr>))"

definition Resource_ToPB :: "string \<Rightarrow> Resource \<Rightarrow> PbResource res" where
  "Resource_ToPB name res =
     (let resPB = \<lparr>rs_Name = name, rs_NodeId = res_NodeID res, rs_LimiterType = LimiterType_Null,
                   rs_Rps = RPS_ToPB (res_RPS res), rs_LastUpdated = TimeToTimestamp (res_LastUpdated res),
                   rs_Limiter = None\<rparr>
      in case res_Limiter res of
           None \<Rightarrow> Inr resPB
         | Some limiter \<Rightarrow> AssignLimiterToResPB resPB limiter)"

section \<open>Log entries\<close>

definition newEmptyResourcePB :: "instant \<Rightarrow> string \<Rightarrow> u32 \<Rightarrow> PbResource" where
  "newEmptyResourcePB now name nodeID =
     \<lparr>rs_Name = name, rs_NodeId = nodeID, rs_LimiterType = LimiterType_Null, rs_Rps = None,
      rs_LastUpdated = NowTimestamp now, rs_Limiter = None\<rparr>"

definition newEntryPB :: "byte list \<Rightarrow> instant \<Rightarrow> string \<Rightarrow> EntryAction \<Rightarrow> u32 \<Rightarrow> u32 \<Rightarrow> Entry" where
  "newEntryPB eid now name action srcNodeID nodeID =
     \<lparr>en_Id = eid, en_Action = action, en_SrcNodeId = srcNodeID,
      en_Resource = Some (newEmptyResourcePB now name nodeID)\<rparr>"

definition newEntryPBWithRes :: "byte list \<Rightarrow> instant \<Rightarrow> string \<Rightarrow> EntryAction \<Rightarrow> u32 \<Rightarrow> Resource option \<Rightarrow> Entry res" where
  "newEntryPBWithRes eid now name action srcNodeID res =
     (let entryPB = \<lparr>en_Id = eid, en_Action = action, en_SrcNodeId = srcNodeID, en_Resource = None\<rparr>
      in case res of
           Some res \<Rightarrow> bindR (Resource_ToPB name res) (\<lambda>resPB. Inr (entryPB\<lparr>en_Resource := Some resPB\<rparr>))
         | None \<Rightarrow> Inr (entryPB\<lparr>en_Resource := Some (newEmptyResourcePB now name 0)\<rparr>))"

text \<open>
  \<^verbatim>\<open>replicateEntryPB\<close> returns its error and the buffers it handed to the raft node, which the raft
  library then delivers to \<^verbatim>\<open>Apply\<close> on every node.
\<close>

definition ErrNoRaftNode :: string where
  "ErrNoRaftNode = ''Raft node didn't set in node prober''"

definition replicateEntryPB :: "ts_codec \<Rightarrow> Entry \<Rightarrow> 'm ResourceManager \<Rightarrow> (string option \<times> byte list list) res" where
  "replicateEntryPB T entryPB rm =
     handleR (Entry_Marshal T (Some entryPB)) (\<lambda>err. Inr (Some err, []))
       (\<lambda>buf. case Prober_GetRaftNode (rm_nodeProber rm) of
            None \<Rightarrow> Inr (Some ErrNoRaftNode, [])
          | Some raftNode \<Rightarrow>
              (case rn_Replicate raftNode buf of
                 Some err \<Rightarrow> Inr (Some (sprintf ''Failed to send replicate command, error: %s'' [FStr err]), [buf])
               | None \<Rightarrow> Inr (None, [buf])))"

section \<open>The client side of the manager\<close>

definition rm_CurNodeID :: "'m ResourceManager \<Rightarrow> u32" where
  "rm_CurNodeID rm = Prober_CurNodeID (rm_nodeProber rm)"

definition rm_CurNodeName :: "'m ResourceManager \<Rightarrow> string" where
  "rm_CurNodeName rm =
     (if \<not> cc_Enabled (cf_Cluster (rm_cfg rm)) then ''default'' else Config_ClusterNodeName (rm_cfg rm))"

definition rm_AtSameNode :: "u32 \<Rightarrow> 'm ResourceManager \<Rightarrow> bool" where
  "rm_AtSameNode nodeID rm \<longleftrightarrow> nodeID = Prober_CurNodeID (rm_nodeProber rm)"

definition rm_GetResource :: "'m swiss_ops \<Rightarrow> string \<Rightarrow> 'm ResourceManager \<Rightarrow> addr option" where
  "rm_GetResource M name rm = sw_Get M (rm_store rm) name"

definition rm_HasResource :: "'m swiss_ops \<Rightarrow> string \<Rightarrow> 'm ResourceManager \<Rightarrow> bool" where
  "rm_HasResource M name rm = sw_Has M (rm_store rm) name"

text \<open>
  The result of a put: the new resource's address, the error, what was replicated, the new state.  The
  two exported puts differ in the node the resource goes to.
\<close>

type_synonym 'm put_result = "((addr \<times> string option \<times> byte list list) \<times> 'm ResourceManager) res"

definition put_standalone :: "'m swiss_ops \<Rightarrow> instant \<Rightarrow> string \<Rightarrow> Limiter option \<Rightarrow> 'm ResourceManager \<Rightarrow> 'm put_result" where
  "put_standalone M now name limiter rm =
     (let (a, rm) = rm_new (newResource now (rm_CurNodeID rm) limiter) rm
      in Inr ((a, None, []), rm\<lparr>rm_store := sw_Put M (rm_store rm) name a\<rparr>))"

definition put_replicated :: "ts_codec \<Rightarrow> byte list \<Rightarrow> instant \<Rightarrow> string \<Rightarrow> Limiter option \<Rightarrow> u32 \<Rightarrow>
  'm ResourceManager \<Rightarrow> 'm put_result" where
  "put_replicated T eid now name limiter nodeID rm =
     (let res = newResource now nodeID limiter; (a, rm) = rm_new res rm
      in handleR (newEntryPBWithRes eid now name EntryAction_PutResource (rm_CurNodeID rm) (Some res))
           (\<lambda>err. Inr ((a, Some err, []), rm))
           (\<lambda>entryPB. bindR (replicateEntryPB T entryPB rm) (\<lambda>(err, bufs). Inr ((a, err, bufs), rm))))"

definition rm_PutResource :: "'m swiss_ops \<Rightarrow> ts_codec \<Rightarrow> byte list \<Rightarrow> instant \<Rightarrow> string \<Rightarrow> Limiter option \<Rightarrow>
  'm ResourceManager \<Rightarrow> 'm put_result" where
  "rm_PutResource M T eid now name limiter rm =
     (if \<not> cc_Enabled (cf_Cluster (rm_cfg rm)) then put_standalone M now name limiter rm
      else put_replicated T eid now name limiter (Prober_GetLightestNodeID (rm_nodeProber rm)) rm)"

definition rm_PutResourceToNode :: "'m swiss_ops \<Rightarrow> ts_codec \<Rightarrow> byte list \<Rightarrow> instant \<Rightarrow> string \<Rightarrow> Limiter option \<Rightarrow> u32 \<Rightarrow>
  'm ResourceManager \<Rightarrow> 'm put_result" where
  "rm_PutResourceToNode M T eid now name limiter nodeID rm =
     (if \<not> cc_Enabled (cf_Cluster (rm_cfg rm)) then put_standalone M now name limiter rm
      else put_replicated T eid now name limiter nodeID rm)"

section \<open>The store and its index\<close>

text \<open>\<open>index_put\<close>: \<^verbatim>\<open>nodeStore[id]\<close>, created when missing, gets the name.\<close>

definition index_put :: "'m swiss_ops \<Rightarrow> u32 \<Rightarrow> string \<Rightarrow> addr \<Rightarrow> (u32 \<Rightarrow> 'm option) \<Rightarrow> u32 \<Rightarrow> 'm option" where
  "index_put M nodeID name a nodeStore =
     (let m = (case nodeStore nodeID of None \<Rightarrow> sw_NewMap M defResourceSize | Some m \<Rightarrow> m)
      in nodeStore(nodeID \<mapsto> sw_Put M m name a))"

definition rm_putResource :: "'m swiss_ops \<Rightarrow> string \<Rightarrow> Resource \<Rightarrow> 'm ResourceManager \<Rightarrow> 'm ResourceManager" where
  "rm_putResource M name res rm =
     (let (a, rm) = rm_new res rm
      in rm\<lparr>rm_store := sw_Put M (rm_store rm) name a,
            rm_nodeStore := index_put M (res_NodeID res) name a (rm_nodeStore rm)\<rparr>)"

definition rm_removeResource :: "'m swiss_ops \<Rightarrow> string \<Rightarrow> 'm ResourceManager \<Rightarrow> 'm ResourceManager" where
  "rm_removeResource M name rm =
     (case sw_Get M (rm_store rm) name of
        None \<Rightarrow> rm
      | Some a \<Rightarrow>
          (let nodeID = res_NodeID (rm_res rm a);
               nodeStore = (case rm_nodeStore rm nodeID of
                              None \<Rightarrow> rm_nodeStore rm
                            | Some resMap \<Rightarrow> (rm_nodeStore rm)(nodeID \<mapsto> sw_Delete M resMap name))
           in rm\<lparr>rm_nodeStore := nodeStore, rm_store := sw_Delete M (rm_store rm) name\<rparr>))"

text \<open>
  The source map is looked up after the resource's node has been overwritten, so it is the map of the
  destination: the new entry is put into it and deleted from it again.
\<close>

definition rm_updateResourceNodeId :: "'m swiss_ops \<Rightarrow> string \<Rightarrow> u32 \<Rightarrow> 'm ResourceManager \<Rightarrow> 'm ResourceManager" where
  "rm_updateResourceNodeId M name dstNodeID rm =
     (case sw_Get M (rm_store rm) name of
        None \<Rightarrow> rm
      | Some a \<Rightarrow>
          if res_NodeID (rm_res rm a) = dstNodeID then rm
          else
            let rm = rm_write a ((rm_res rm a)\<lparr>res_NodeID := dstNodeID\<rparr>) rm;
                srcNodeID = res_NodeID (rm_res rm a)
            in case rm_nodeStore rm srcNodeID of
                 None \<Rightarrow> rm
               | Some srcResMap \<Rightarrow>
                   (let nodeStore = index_put M dstNodeID name a (rm_nodeStore rm);
                        srcResMap = the (nodeStore srcNodeID)
                    in rm\<lparr>rm_nodeStore := nodeStore(srcNodeID \<mapsto> sw_Delete M srcResMap name)\<rparr>))"

definition rm_RemoveResource :: "'m swiss_ops \<Rightarrow> ts_codec \<Rightarrow> byte list \<Rightarrow> instant \<Rightarrow> string \<Rightarrow> 'm ResourceManager \<Rightarrow>
  ((string option \<times> byte list list) \<times> 'm ResourceManager) res" where
  "rm_RemoveResource M T eid now name rm =
     (if \<not> cc_Enabled (cf_Cluster (rm_cfg rm)) then
        Inr ((None, []), rm\<lparr>rm_store := sw_Delete M (rm_store rm) name\<rparr>)
      else
        handleR (newEntryPBWithRes eid now name EntryAction_RemoveResource (rm_CurNodeID rm) None)
          (\<lambda>err. Inr ((Some err, []), rm))
          (\<lambda>entryPB. bindR (replicateEntryPB T entryPB rm) (\<lambda>r. Inr (r, rm))))"

definition rm_UpdateResourceNodeId :: "'m swiss_ops \<Rightarrow> ts_codec \<Rightarrow> byte list \<Rightarrow> instant \<Rightarrow> string \<Rightarrow> u32 \<Rightarrow> 'm ResourceManager \<Rightarrow>
  ((string option \<times> byte list list) \<times> 'm ResourceManager) res" where
  "rm_UpdateResourceNodeId M T eid now name nodeID rm =
     (if \<not> cc_Enabled (cf_Cluster (rm_cfg rm)) then Inr ((None, []), rm_updateResourceNodeId M name nodeID rm)
      else bindR (replicateEntryPB T (newEntryPB eid now name EntryAction_UpdateResourceNodeId (rm_CurNodeID rm) nodeID) rm)
             (\<lambda>r. Inr (r, rm)))"

section \<open>The replicated state machine\<close>

text \<open>
  \<^verbatim>\<open>Apply\<close>: an entry that does not decode, or whose identifier is no UUID, is logged and skipped.
  The log line that follows reads fields of the resource, so an entry without one panics.
\<close>

definition apply_action :: "'m swiss_ops \<Rightarrow> duration \<Rightarrow> instant \<Rightarrow> EntryAction \<Rightarrow> PbResource \<Rightarrow> 'm ResourceManager \<Rightarrow>
  'm ResourceManager res" where
  "apply_action M H now action resource rm =
     (if action = EntryAction_PutResource then
        handleR (newResourceFromPB H now (Some resource)) (\<lambda>err. Inr rm)
          (\<lambda>res. Inr (rm_putResource M (rs_Name resource) res rm))
      else if action = EntryAction_RemoveResource then Inr (rm_removeResource M (rs_Name resource) rm)
      else if action = EntryAction_UpdateResourceNodeId then
        Inr (rm_updateResourceNodeId M (rs_Name resource) (rs_NodeId resource) rm)
      else Inr rm)"

type_synonym uuid_FromBytes = "byte list \<Rightarrow> string + byte list"

definition rm_Apply :: "'m swiss_ops \<Rightarrow> ts_codec \<Rightarrow> uuid_FromBytes \<Rightarrow> duration \<Rightarrow> instant \<Rightarrow> byte list \<Rightarrow> 'm ResourceManager \<Rightarrow>
  'm ResourceManager res" where
  "rm_Apply M T FromBytes H now data rm =
     handleR (Entry_Unmarshal T Entry_zero data) (\<lambda>err. Inr rm)
       (\<lambda>entryPB. case FromBytes (en_Id entryPB) of
            Inl err \<Rightarrow> Inr rm
          | Inr entryID \<Rightarrow>
              (case en_Resource entryPB of
                 None \<Rightarrow> Inl nil_deref
               | Some resource \<Rightarrow> apply_action M H now (en_Action entryPB) resource rm))"

fun snapshot_entries :: "(string \<Rightarrow> byte list) \<Rightarrow> instant \<Rightarrow> u32 \<Rightarrow> (string \<times> Resource) list \<Rightarrow> Entry option list res" where
  "snapshot_entries eids now srcNodeID [] = Inr []"
| "snapshot_entries eids now srcNodeID ((name, res) # items) =
     bindR (newEntryPBWithRes (eids name) now name EntryAction_PutResource srcNodeID (Some res)) (\<lambda>entryPB.
     bindR (snapshot_entries eids now srcNodeID items) (\<lambda>es. Inr (Some entryPB # es)))"

definition rm_createSnapshotPB :: "'m swiss_ops \<Rightarrow> (string \<Rightarrow> byte list) \<Rightarrow> instant \<Rightarrow> 'm ResourceManager \<Rightarrow> EntrySnapshot res" where
  "rm_createSnapshotPB M eids now rm =
     bindR (snapshot_entries eids now (rm_CurNodeID rm) (map (\<lambda>(name, a). (name, rm_res rm a)) (sw_Iter M (rm_store rm))))
       (\<lambda>es. Inr \<lparr>es_Entries = es\<rparr>)"

definition rm_Snapshot :: "'m swiss_ops \<Rightarrow> ts_codec \<Rightarrow> (string \<Rightarrow> byte list) \<Rightarrow> instant \<Rightarrow> 'm ResourceManager \<Rightarrow> byte list res" where
  "rm_Snapshot M T eids now rm =
     bindR (rm_createSnapshotPB M eids now rm) (\<lambda>snapshotPB. EntrySnapshot_Marshal T (Some snapshotPB))"

definition ErrEmptyEntry :: string where
  "ErrEmptyEntry = ''Failed to restore resource, resource in entry is empty''"

text \<open>\<^verbatim>\<open>Restore\<close> puts the entries into the store as it is; on an error the entries before it stay.\<close>

fun restore_loop :: "'m swiss_ops \<Rightarrow> duration \<Rightarrow> instant \<Rightarrow> Entry option list \<Rightarrow> 'm ResourceManager \<Rightarrow>
  (string option \<times> 'm ResourceManager) res" where
  "restore_loop M H now [] rm = Inr (None, rm)"
| "restore_loop M H now (e # es) rm =
     (case e of
        None \<Rightarrow> Inr (Some ErrEmptyEntry, rm)
      | Some entryPB \<Rightarrow>
          (case en_Resource entryPB of
             None \<Rightarrow> Inr (Some ErrEmptyEntry, rm)
           | Some resource \<Rightarrow>
               handleR (newResourceFromPB H now (Some resource)) (\<lambda>err. Inr (Some err, rm))
                 (\<lambda>res. restore_loop M H now es (rm_putResource M (rs_Name resource) res rm))))"

definition rm_Restore :: "'m swiss_ops \<Rightarrow> ts_codec \<Rightarrow> duration \<Rightarrow> instant \<Rightarrow> byte list \<Rightarrow> 'm ResourceManager \<Rightarrow>
  (string option \<times> 'm ResourceManager) res" where
  "rm_Restore M T H now buf rm =
     handleR (EntrySnapshot_Unmarshal T EntrySnapshot_zero buf) (\<lambda>err. Inr (Some err, rm))
       (\<lambda>snapshotPB. restore_loop M H now (es_Entries snapshotPB) rm)"

section \<open>Moving, forwarding, starting\<close>

text \<open>
  \<^verbatim>\<open>moveNodeResources\<close>: up to ten times the loads are probed (\<open>upd i\<close> is the \<open>i\<close>-th call of
  \<^verbatim>\<open>UpdateNodeLoading\<close>) until another node is the lightest; then every resource indexed under the
  source node is moved by an entry.  Replication errors are ignored.
\<close>

fun choose_dst :: "(nat \<Rightarrow> NodeProber \<Rightarrow> NodeProber res) \<Rightarrow> u32 \<Rightarrow> nat \<Rightarrow> NodeProber \<Rightarrow> (u32 option \<times> NodeProber) res" where
  "choose_dst upd srcNodeID 0 np = Inr (None, np)"
| "choose_dst upd srcNodeID (Suc i) np =
     bindR (upd i np) (\<lambda>np.
       let dstNodeID = Prober_GetLightestNodeID np
       in if srcNodeID = dstNodeID then choose_dst upd srcNodeID i np else Inr (Some dstNodeID, np))"

fun replicate_all :: "ts_codec \<Rightarrow> Entry list \<Rightarrow> 'm ResourceManager \<Rightarrow> byte list list res" where
  "replicate_all T [] rm = Inr []"
| "replicate_all T (entryPB # es) rm =
     bindR (replicateEntryPB T entryPB rm) (\<lambda>(err, bufs). bindR (replicate_all T es rm) (\<lambda>bs. Inr (bufs @ bs)))"

definition rm_moveNodeResources :: "'m swiss_ops \<Rightarrow> ts_codec \<Rightarrow> (string \<Rightarrow> byte list) \<Rightarrow> instant \<Rightarrow>
  (nat \<Rightarrow> NodeProber \<Rightarrow> NodeProber res) \<Rightarrow> u32 \<Rightarrow> 'm ResourceManager \<Rightarrow> (byte list list \<times> 'm ResourceManager) res" where
  "rm_moveNodeResources M T eids now upd srcNodeID rm =
     bindR (choose_dst upd srcNodeID 10 (rm_nodeProber rm)) (\<lambda>(dst, np).
       let rm = rm\<lparr>rm_nodeProber := np\<rparr>
       in case dst of
            None \<Rightarrow> Inr ([], rm)
          | Some dstNodeID \<Rightarrow>
              (case rm_nodeStore rm srcNodeID of
                 None \<Rightarrow> Inr ([], rm)
               | Some srcResMap \<Rightarrow>
                   bindR (replicate_all T
                     (map (\<lambda>(name, a). newEntryPB (eids name) now name EntryAction_UpdateResourceNodeId srcNodeID dstNodeID)
                       (sw_Iter M srcResMap)) rm)
                     (\<lambda>bufs. Inr (bufs, rm))))"

definition rm_ForwardAllowCmd :: "AllowCmd \<Rightarrow> u32 \<Rightarrow> 'm ResourceManager \<Rightarrow> string + AllowCmdResp" where
  "rm_ForwardAllowCmd cmd nodeID rm =
     (case Prober_GetNodeClient nodeID (rm_nodeProber rm) of Inl err \<Rightarrow> Inl err | Inr client \<Rightarrow> cl_Allow client cmd)"

definition rm_ForwardRegResCmd :: "RegResCmd \<Rightarrow> 'm ResourceManager \<Rightarrow> string + RegResCmdResp" where
  "rm_ForwardRegResCmd cmd rm =
     (case Prober_GetLeaderNodeClient (rm_nodeProber rm) of Inl err \<Rightarrow> Inl err | Inr client \<Rightarrow> cl_RegisterResource client cmd)"

text \<open>\<^verbatim>\<open>Ready\<close> tries the prober's initialisation twenty times and is ready in any case.\<close>

fun Ready_loop :: "nat \<Rightarrow> NodeProber \<Rightarrow> NodeProber res" where
  "Ready_loop 0 np = Inr np"
| "Ready_loop (Suc i) np = bindR (Prober_Init np) (\<lambda>(ok, np). if ok then Inr np else Ready_loop i np)"

definition rm_Ready :: "'m ResourceManager \<Rightarrow> 'm ResourceManager res" where
  "rm_Ready rm = bindR (Ready_loop 20 (rm_nodeProber rm)) (\<lambda>np. Inr (rm\<lparr>rm_nodeProber := np, rm_ready := True\<rparr>))"

definition rm_Stop :: "'m ResourceManager \<Rightarrow> 'm ResourceManager" where
  "rm_Stop rm = rm\<lparr>rm_ready := False\<rparr>"

text \<open>The manager's goroutine only waits for its end; a ticker of no positive interval panics in it.\<close>

definition rm_StartAsync :: "'m ResourceManager \<Rightarrow> 'm ResourceManager res" where
  "rm_StartAsync rm =
     (if cc_CheckInterval (cf_Cluster (rm_cfg rm)) \<le> 0 then Inl (Panic ''non-positive interval for NewTicker'') else Inr rm)"

definition rm_IsReady :: "'m ResourceManager \<Rightarrow> bool" where
  "rm_IsReady rm = rm_ready rm"

section \<open>What the manager asks its prober\<close>

definition rm_NodeLeaderID :: "'m ResourceManager \<Rightarrow> u32" where
  "rm_NodeLeaderID rm = Prober_NodeLeaderID (rm_nodeProber rm)"

definition rm_IsNodeLeader :: "'m ResourceManager \<Rightarrow> bool" where
  "rm_IsNodeLeader rm = Prober_IsNodeLeader (rm_nodeProber rm)"

definition rm_GetNodeMembers :: "'m ResourceManager \<Rightarrow> raft_member option list" where
  "rm_GetNodeMembers rm = Prober_GetNodeMembers (rm_nodeProber rm)"

definition rm_GetCurNodeInfo :: "'m ResourceManager \<Rightarrow> (string + NodeInfo) \<times> 'm ResourceManager" where
  "rm_GetCurNodeInfo rm = (let (r, np) = Prober_GetCurNodeInfo (rm_nodeProber rm) in (r, rm\<lparr>rm_nodeProber := np\<rparr>))"

definition rm_GetPeerNodeInfo :: "u32 \<Rightarrow> 'm ResourceManager \<Rightarrow> (string + NodeInfo) \<times> 'm ResourceManager" where
  "rm_GetPeerNodeInfo nodeID rm =
     (let (r, np) = Prober_GetPeerNodeInfo nodeID (rm_nodeProber rm) in (r, rm\<lparr>rm_nodeProber := np\<rparr>))"

definition rm_UpdateNodeLoading :: "((nodeLoad \<Rightarrow> nodeLoad \<Rightarrow> int) \<Rightarrow> nodeLoad list \<Rightarrow> nodeLoad list) \<Rightarrow> (nat \<Rightarrow> nat) \<Rightarrow>
  instant \<Rightarrow> Metrics \<Rightarrow> 'm ResourceManager \<Rightarrow> 'm ResourceManager res" where
  "rm_UpdateNodeLoading srt rnd now metrics rm =
     bindR (Prober_UpdateNodeLoading srt rnd now metrics (rm_nodeProber rm)) (\<lambda>np. Inr (rm\<lparr>rm_nodeProber := np\<rparr>))"

section \<open>Events and updates\<close>

text \<open>Rebalancing is not written yet: new and active members leave the resources where they are.\<close>

definition rm_RebalanceResources :: "'m ResourceManager \<Rightarrow> 'm ResourceManager" where
  "rm_RebalanceResources rm = rm"

fun rm_checkResources :: "NodeEvent list \<Rightarrow> 'm ResourceManager \<Rightarrow> 'm ResourceManager" where
  "rm_checkResources [] rm = rm"
| "rm_checkResources (evt # events) rm =
     rm_checkResources events
       (if ev_Event evt = NewMember \<or> ev_Event evt = MemberActive then rm_RebalanceResources rm else rm)"

text \<open>An update of an existing resource's limiter, which no caller is left of.  A nil limiter is dereferenced.\<close>

definition rm_updateResourceByEntryPB :: "'m swiss_ops \<Rightarrow> u32 \<Rightarrow> PbResource \<Rightarrow> 'm ResourceManager \<Rightarrow> (bool \<times> 'm ResourceManager) res" where
  "rm_updateResourceByEntryPB M srcNodeID resource rm =
     (case sw_Get M (rm_store rm) (rs_Name resource) of
        None \<Rightarrow> Inr (False, rm)
      | Some a \<Rightarrow>
          (case res_Limiter (rm_res rm a) of
             None \<Rightarrow> Inl nil_deref
           | Some limiter \<Rightarrow>
               if Limiter_PBType limiter \<noteq> rs_LimiterType resource then Inr (False, rm)
               else if rm_AtSameNode srcNodeID rm \<or> rm_AtSameNode (rs_NodeId resource) rm then Inr (True, rm)
               else handleR (Limiter_FromResPB resource limiter) (\<lambda>err. Inr (False, rm))
                      (\<lambda>limiter. Inr (True, rm_write a ((rm_res rm a)\<lparr>res_Limiter := Some limiter\<rparr>) rm))))"

end
