(* ===== verification/ResMgrLaws.thy ===== *)
theory ResMgrLaws
  imports ResMgr
begin

text \<open>
  What the resource manager's store promises.  Clients see it as a map from names to resources
  (\<open>rm_view\<close>); the contract \<open>resource_store\<close> says what each of the three primitive updates does to
  that map, and the manager provides it in spite of the sharing by pointer.  On top of it, applying a log
  is the fold of the entries' effects over the map, whatever the node and its clock.
\<close>

section \<open>The store as a map of resources\<close>

definition rm_view :: "'m swiss_ops \<Rightarrow> 'm ResourceManager \<Rightarrow> string \<Rightarrow> Resource option" where
  "rm_view M rm name = (case sw_Get M (rm_store rm) name of None \<Rightarrow> None | Some a \<Rightarrow> rm_heap rm a)"

text \<open>
  Well-formedness: addresses in the maps are allocated, those in the store hold a resource, and no two
  names share one.
\<close>

definition rm_wf :: "'m swiss_ops \<Rightarrow> 'm ResourceManager \<Rightarrow> bool" where
  "rm_wf M rm \<longleftrightarrow> swiss_ok M \<and>
     (\<forall>n a. sw_Get M (rm_store rm) n = Some a \<longrightarrow> a < rm_next rm \<and> rm_heap rm a \<noteq> None) \<and>
     (\<forall>n n' a. sw_Get M (rm_store rm) n = Some a \<longrightarrow> sw_Get M (rm_store rm) n' = Some a \<longrightarrow> n = n') \<and>
     (\<forall>i m n a. rm_nodeStore rm i = Some m \<longrightarrow> sw_Get M m n = Some a \<longrightarrow> a < rm_next rm)"

lemma swiss_okD:
  assumes "swiss_ok M"
  shows "sw_Get M (sw_NewMap M n) = Map.empty" "sw_Get M (sw_Put M m k a) = (sw_Get M m)(k \<mapsto> a)"
    "sw_Get M (sw_Delete M m k) = (sw_Get M m)(k := None)" "sw_Has M m k \<longleftrightarrow> sw_Get M m k \<noteq> None"
    "distinct (map fst (sw_Iter M m))" "map_of (sw_Iter M m) = sw_Get M m"
  using assms by (auto simp: swiss_ok_def fun_eq_iff)

lemma rm_wfD:
  assumes "rm_wf M rm"
  shows "swiss_ok M" "sw_Get M (rm_store rm) n = Some a \<Longrightarrow> a < rm_next rm"
    "sw_Get M (rm_store rm) n = Some a \<Longrightarrow> \<exists>res. rm_heap rm a = Some res"
    "sw_Get M (rm_store rm) n = Some a \<Longrightarrow> sw_Get M (rm_store rm) n' = Some a \<Longrightarrow> n = n'"
    "rm_nodeStore rm i = Some m \<Longrightarrow> sw_Get M m n = Some a \<Longrightarrow> a < rm_next rm"
  using assms unfolding rm_wf_def by blast+

lemma rm_view_Some:
  assumes "rm_wf M rm" "sw_Get M (rm_store rm) name = Some a"
  shows "rm_view M rm name = Some (rm_res rm a)"
  using rm_wfD(3) [OF assms] assms(2) by (auto simp: rm_view_def rm_res_def)

lemma rm_view_None: "rm_wf M rm \<Longrightarrow> rm_view M rm name = None \<longleftrightarrow> sw_Get M (rm_store rm) name = None"
  using rm_wfD(3) [of M rm name] by (cases "sw_Get M (rm_store rm) name") (auto simp: rm_view_def)

lemma rm_wf_new: "swiss_ok M \<Longrightarrow> rm_wf M (NewResourceManager M cfg np)"
  by (simp add: rm_wf_def NewResourceManager_def swiss_okD)

lemma rm_view_new: "swiss_ok M \<Longrightarrow> rm_view M (NewResourceManager M cfg np) = Map.empty"
  by (rule ext) (simp add: rm_view_def NewResourceManager_def swiss_okD)

lemma index_put_Get:
  assumes "swiss_ok M" "index_put M i name a ns j = Some m" "sw_Get M m n = Some b"
  shows "(j = i \<and> n = name \<and> b = a) \<or> (\<exists>m'. ns j = Some m' \<and> sw_Get M m' n = Some b)"
  using assms(2,3) swiss_okD(1,2) [OF assms(1)]
  by (auto simp: index_put_def Let_def split: if_splits option.splits)

section \<open>The three updates\<close>

lemma putResource_view:
  assumes "rm_wf M rm"
  shows "rm_view M (rm_putResource M name res rm) = (rm_view M rm)(name \<mapsto> res)"
proof (rule ext)
  fix n
  have "a \<noteq> rm_next rm" if "sw_Get M (rm_store rm) n = Some a" for a
    using rm_wfD(2) [OF assms that] by simp
  then show "rm_view M (rm_putResource M name res rm) n = ((rm_view M rm)(name \<mapsto> res)) n"
    using swiss_okD(2) [OF rm_wfD(1) [OF assms]]
    by (auto simp: rm_view_def rm_putResource_def rm_new_def Let_def split: option.splits)
qed

lemma putResource_wf:
  assumes "rm_wf M rm"
  shows "rm_wf M (rm_putResource M name res rm)"
proof -
  let ?s = "rm_putResource M name res rm"
  note M = rm_wfD(1) [OF assms]
  have store: "rm_store ?s = sw_Put M (rm_store rm) name (rm_next rm)" "rm_next ?s = Suc (rm_next rm)"
    "rm_heap ?s = (rm_heap rm)(rm_next rm \<mapsto> res)"
    "rm_nodeStore ?s = index_put M (res_NodeID res) name (rm_next rm) (rm_nodeStore rm)"
    by (simp_all add: rm_putResource_def rm_new_def)
  show ?thesis unfolding rm_wf_def store swiss_okD(2) [OF M]
  proof (intro conjI allI impI)
    fix i m n a
    assume "index_put M (res_NodeID res) name (rm_next rm) (rm_nodeStore rm) i = Some m" "sw_Get M m n = Some a"
    then show "a < Suc (rm_next rm)" using index_put_Get [OF M] rm_wfD(5) [OF assms] less_SucI by blast
  qed (use M rm_wfD(2,3,4) [OF assms] in \<open>auto split: if_splits intro: less_SucI\<close>)
qed

lemma removeResource_parts:
  "rm_store (rm_removeResource M name rm) =
     (if sw_Get M (rm_store rm) name = None then rm_store rm else sw_Delete M (rm_store rm) name)"
  "rm_heap (rm_removeResource M name rm) = rm_heap rm" "rm_next (rm_removeResource M name rm) = rm_next rm"
  by (simp_all add: rm_removeResource_def Let_def split: option.split)

lemma removeResource_Get:
  assumes "swiss_ok M"
  shows "sw_Get M (rm_store (rm_removeResource M name rm)) = (sw_Get M (rm_store rm))(name := None)"
  by (auto simp: removeResource_parts swiss_okD(3) [OF assms])

lemma removeResource_view:
  assumes "rm_wf M rm"
  shows "rm_view M (rm_removeResource M name rm) = (rm_view M rm)(name := None)"
  by (rule ext)
    (simp add: rm_view_def removeResource_Get [OF rm_wfD(1) [OF assms]] removeResource_parts(2) cong: option.case_cong)

lemma removeResource_wf:
  assumes "rm_wf M rm"
  shows "rm_wf M (rm_removeResource M name rm)"
proof -
  note M = rm_wfD(1) [OF assms]
  have "a < rm_next rm"
    if "rm_nodeStore (rm_removeResource M name rm) i = Some m" "sw_Get M m n = Some a" for i m n a
    using that rm_wfD(5) [OF assms] swiss_okD(3) [OF M]
    by (fastforce simp: rm_removeResource_def Let_def split: option.splits if_splits)
  then show ?thesis
    unfolding rm_wf_def removeResource_parts(2,3) removeResource_Get [OF M]
    using M rm_wfD(2,3,4) [OF assms] by (auto split: if_splits)
qed

lemma updateNodeId_parts:
  "rm_store (rm_updateResourceNodeId M name dst rm) = rm_store rm"
  "rm_next (rm_updateResourceNodeId M name dst rm) = rm_next rm"
  "rm_heap (rm_updateResourceNodeId M name dst rm) =
     (case sw_Get M (rm_store rm) name of
        None \<Rightarrow> rm_heap rm
      | Some a \<Rightarrow> if res_NodeID (rm_res rm a) = dst then rm_heap rm
                  else (rm_heap rm)(a \<mapsto> (rm_res rm a)\<lparr>res_NodeID := dst\<rparr>))"
  by (simp_all add: rm_updateResourceNodeId_def rm_write_def Let_def split: option.split)

lemma updateNodeId_view:
  assumes "rm_wf M rm"
  shows "rm_view M (rm_updateResourceNodeId M name dst rm) =
    (case rm_view M rm name of None \<Rightarrow> rm_view M rm
     | Some res \<Rightarrow> (rm_view M rm)(name \<mapsto> res\<lparr>res_NodeID := dst\<rparr>))"
proof (cases "sw_Get M (rm_store rm) name")
  case None
  then show ?thesis by (simp add: rm_view_def updateNodeId_parts fun_eq_iff cong: option.case_cong)
next
  case (Some a)
  have view: "rm_view M rm name = Some (rm_res rm a)" by (rule rm_view_Some [OF assms Some])
  have heap: "rm_heap rm a = Some (rm_res rm a)" using rm_wfD(3) [OF assms Some] by (auto simp: rm_res_def)
  have other: "b \<noteq> a" if "sw_Get M (rm_store rm) n = Some b" "n \<noteq> name" for n b
    using rm_wfD(4) [OF assms Some] that by blast
  show ?thesis
  proof (rule ext)
    fix n
    show "rm_view M (rm_updateResourceNodeId M name dst rm) n =
      (case rm_view M rm name of None \<Rightarrow> rm_view M rm
       | Some res \<Rightarrow> (rm_view M rm)(name \<mapsto> res\<lparr>res_NodeID := dst\<rparr>)) n"
      using other [of n] heap unfolding view
      by (cases "n = name") (auto simp: rm_view_def updateNodeId_parts Some split: option.split)
  qed
qed

lemma updateNodeId_wf:
  assumes "rm_wf M rm"
  shows "rm_wf M (rm_updateResourceNodeId M name dst rm)"
proof -
  note M = rm_wfD(1) [OF assms]
  have "a < rm_next rm"
    if "rm_nodeStore (rm_updateResourceNodeId M name dst rm) i = Some m" "sw_Get M m n = Some a" for i m n a
  proof (cases "sw_Get M (rm_store rm) name")
    case None
    then show ?thesis using that rm_wfD(5) [OF assms] by (simp add: rm_updateResourceNodeId_def)
  next
    case (Some b)
    have b: "b < rm_next rm" by (rule rm_wfD(2) [OF assms Some])
    show ?thesis
      using that b rm_wfD(5) [OF assms] swiss_okD(1,2,3) [OF M] index_put_Get [OF M]
      by (fastforce simp: rm_updateResourceNodeId_def Some Let_def rm_write_def index_put_def rm_res_def
          split: option.splits if_splits)
  qed
  then show ?thesis
    unfolding rm_wf_def updateNodeId_parts
    using M rm_wfD(2,3,4) [OF assms] by (auto split: if_splits option.splits)
qed

section \<open>The contract of the store\<close>

datatype store_op = OpPut string Resource | OpRemove string | OpRetarget string u32

text \<open>What an update does to the map of resources.\<close>

fun spec_op :: "store_op \<Rightarrow> (string \<Rightarrow> Resource option) \<Rightarrow> string \<Rightarrow> Resource option" where
  "spec_op (OpPut name res) v = v(name \<mapsto> res)"
| "spec_op (OpRemove name) v = v(name := None)"
| "spec_op (OpRetarget name dst) v =
     (case v name of None \<Rightarrow> v | Some res \<Rightarrow> v(name \<mapsto> res\<lparr>res_NodeID := dst\<rparr>))"

fun store_step :: "(string \<Rightarrow> Resource \<Rightarrow> 's \<Rightarrow> 's) \<Rightarrow> (string \<Rightarrow> 's \<Rightarrow> 's) \<Rightarrow> (string \<Rightarrow> u32 \<Rightarrow> 's \<Rightarrow> 's) \<Rightarrow>
  store_op \<Rightarrow> 's \<Rightarrow> 's" where
  "store_step put remove retarget (OpPut name res) s = put name res s"
| "store_step put remove retarget (OpRemove name) s = remove name s"
| "store_step put remove retarget (OpRetarget name dst) s = retarget name dst s"

locale resource_store =
  fixes wf :: "'s \<Rightarrow> bool" and view :: "'s \<Rightarrow> string \<Rightarrow> Resource option"
    and put :: "string \<Rightarrow> Resource \<Rightarrow> 's \<Rightarrow> 's" and remove :: "string \<Rightarrow> 's \<Rightarrow> 's"
    and retarget :: "string \<Rightarrow> u32 \<Rightarrow> 's \<Rightarrow> 's"
  assumes put_law: "wf s \<Longrightarrow> wf (put n r s) \<and> view (put n r s) = (view s)(n \<mapsto> r)"
    and remove_law: "wf s \<Longrightarrow> wf (remove n s) \<and> view (remove n s) = (view s)(n := None)"
    and retarget_law: "wf s \<Longrightarrow> wf (retarget n dst s) \<and>
      view (retarget n dst s) = (case view s n of None \<Rightarrow> view s | Some r \<Rightarrow> (view s)(n \<mapsto> r\<lparr>res_NodeID := dst\<rparr>))"
begin

lemma step_refines:
  assumes "wf s"
  shows "wf (store_step put remove retarget oper s) \<and> view (store_step put remove retarget oper s) = spec_op oper (view s)"
  by (cases oper) (simp_all add: assms put_law remove_law retarget_law)

lemma steps_refine:
  "wf s \<Longrightarrow> wf (fold (store_step put remove retarget) ops s) \<and>
    view (fold (store_step put remove retarget) ops s) = fold spec_op ops (view s)"
  by (induction ops arbitrary: s) (simp_all add: step_refines)

end

interpretation mgr: resource_store "rm_wf M" "rm_view M" "rm_putResource M" "rm_removeResource M" "rm_updateResourceNodeId M"
  for M :: "'m swiss_ops"
  by unfold_locales
    (simp_all only: putResource_wf putResource_view removeResource_wf removeResource_view updateNodeId_wf updateNodeId_view simp_thms)

abbreviation (input) rm_step :: "'m swiss_ops \<Rightarrow> store_op \<Rightarrow> 'm ResourceManager \<Rightarrow> 'm ResourceManager" where
  "rm_step M \<equiv> store_step (rm_putResource M) (rm_removeResource M) (rm_updateResourceNodeId M)"

section \<open>What an entry does\<close>

text \<open>The update an entry stands for, from its bytes and the local clock; \<open>None\<close> for one that is skipped.\<close>

definition action_op :: "duration \<Rightarrow> instant \<Rightarrow> EntryAction \<Rightarrow> PbResource \<Rightarrow> store_op option res" where
  "action_op H now action resource =
     (if action = EntryAction_PutResource then
        handleR (newResourceFromPB H now (Some resource)) (\<lambda>err. Inr None) (\<lambda>res. Inr (Some (OpPut (rs_Name resource) res)))
      else if action = EntryAction_RemoveResource then Inr (Some (OpRemove (rs_Name resource)))
      else if action = EntryAction_UpdateResourceNodeId then Inr (Some (OpRetarget (rs_Name resource) (rs_NodeId resource)))
      else Inr None)"

definition entry_op :: "ts_codec \<Rightarrow> uuid_FromBytes \<Rightarrow> duration \<Rightarrow> instant \<Rightarrow> byte list \<Rightarrow> store_op option res" where
  "entry_op T FromBytes H now data =
     handleR (Entry_Unmarshal T Entry_zero data) (\<lambda>err. Inr None)
       (\<lambda>entryPB. case FromBytes (en_Id entryPB) of
            Inl err \<Rightarrow> Inr None
          | Inr entryID \<Rightarrow>
              (case en_Resource entryPB of None \<Rightarrow> Inl nil_deref
               | Some resource \<Rightarrow> action_op H now (en_Action entryPB) resource))"

definition opt_step :: "('a \<Rightarrow> 's \<Rightarrow> 's) \<Rightarrow> 'a option \<Rightarrow> 's \<Rightarrow> 's" where
  "opt_step f x s = (case x of None \<Rightarrow> s | Some x \<Rightarrow> f x s)"

lemma handleR_cases:
  "handleR r h k = (case r of Inr x \<Rightarrow> k x | Inl e \<Rightarrow> (case e of Fail s \<Rightarrow> h s | _ \<Rightarrow> Inl e))"
  by (cases r) (simp_all add: handleR_def)

lemma apply_action_op:
  "apply_action M H now action resource rm = bindR (action_op H now action resource) (\<lambda>oper. Inr (opt_step (rm_step M) oper rm))"
  by (auto simp: apply_action_def action_op_def opt_step_def handleR_cases bindR_def split: sum.splits fault.splits)

lemma Apply_op:
  "rm_Apply M T F H now data rm = bindR (entry_op T F H now data) (\<lambda>oper. Inr (opt_step (rm_step M) oper rm))"
  by (simp add: rm_Apply_def entry_op_def apply_action_op handleR_cases bindR_def opt_step_def
      split: sum.split fault.split option.split)

lemma opt_step_law:
  assumes "rm_wf M rm"
  shows "rm_wf M (opt_step (rm_step M) oper rm) \<and>
    rm_view M (opt_step (rm_step M) oper rm) = opt_step spec_op oper (rm_view M rm)"
  by (cases oper) (simp_all add: opt_step_def assms mgr.step_refines)

section \<open>Replicas agree\<close>

text \<open>
  A replica's rate history depends on its own clock (old entries are dropped when a resource arrives), so
  replicas are compared without it.
\<close>

definition res_core :: "Resource \<Rightarrow> Resource" where
  "res_core res = res\<lparr>res_RPS := RPS_zero\<rparr>"

definition core_view :: "'m swiss_ops \<Rightarrow> 'm ResourceManager \<Rightarrow> string \<Rightarrow> Resource option" where
  "core_view M rm name = map_option res_core (rm_view M rm name)"

fun core_op :: "store_op \<Rightarrow> store_op" where
  "core_op (OpPut name res) = OpPut name (res_core res)"
| "core_op (OpRemove name) = OpRemove name"
| "core_op (OpRetarget name dst) = OpRetarget name dst"

lemma res_core_retarget: "res_core (res\<lparr>res_NodeID := dst\<rparr>) = (res_core res)\<lparr>res_NodeID := dst\<rparr>"
  by (simp add: res_core_def)

lemma spec_op_core:
  "(\<lambda>n. map_option res_core (spec_op oper v n)) = spec_op (core_op oper) (\<lambda>n. map_option res_core (v n))"
  by (cases oper) (auto simp: fun_eq_iff res_core_retarget split: option.splits)

lemma fromPB_loop_clock:
  "fromPB_loop H now ps acc = Inl nil_deref \<and> fromPB_loop H now' ps acc' = Inl nil_deref \<or>
   (\<exists>h h'. fromPB_loop H now ps acc = Inr h \<and> fromPB_loop H now' ps acc' = Inr h')"
proof (induction ps arbitrary: acc acc')
  case (Cons p ps)
  then show ?case by (cases p) (auto simp: Let_def)
qed simp

lemma newResourceFromPB_clock:
  "map_sum id res_core (newResourceFromPB H now p) = map_sum id res_core (newResourceFromPB H now' p)"
proof (cases "NewLimiterFromResPB p")
  case (Inr l)
  show ?thesis
  proof (cases p)
    case (Some q)
    show ?thesis
    proof (cases "rs_Rps q")
      case r: (Some r)
      show ?thesis
        using fromPB_loop_clock [of H now "rq_Histories r" "[]" now' "[]"]
        using Inr unfolding Some
        by (auto simp: newResourceFromPB_def r rpsHistory_reset_def res_core_def simp del: NewLimiterFromResPB.simps)
    qed (use Inr Some in \<open>simp add: newResourceFromPB_def del: NewLimiterFromResPB.simps\<close>)
  qed (simp add: newResourceFromPB_def Inr)
qed (simp add: newResourceFromPB_def)

lemma action_op_clock:
  "map_sum id (map_option core_op) (action_op H now action resource) =
   map_sum id (map_option core_op) (action_op H now' action resource)"
  using newResourceFromPB_clock [of H now "Some resource" now']
  by (auto simp: action_op_def handleR_cases split: sum.splits fault.splits)

lemma entry_op_clock:
  "map_sum id (map_option core_op) (entry_op T F H now data) = map_sum id (map_option core_op) (entry_op T F H now' data)"
  using action_op_clock [of H now _ _ now']
  by (auto simp: entry_op_def handleR_cases split: sum.splits fault.splits option.splits)

text \<open>A node applies the log's entries in order, each at a reading of its own clock.\<close>

fun rm_ApplyLog :: "'m swiss_ops \<Rightarrow> ts_codec \<Rightarrow> uuid_FromBytes \<Rightarrow> duration \<Rightarrow> (instant \<times> byte list) list \<Rightarrow>
  'm ResourceManager \<Rightarrow> 'm ResourceManager res" where
  "rm_ApplyLog M T F H [] rm = Inr rm"
| "rm_ApplyLog M T F H ((now, data) # es) rm =
     bindR (rm_Apply M T F H now data rm) (rm_ApplyLog M T F H es)"

fun spec_log :: "ts_codec \<Rightarrow> uuid_FromBytes \<Rightarrow> duration \<Rightarrow> byte list list \<Rightarrow> (string \<Rightarrow> Resource option) \<Rightarrow>
  (string \<Rightarrow> Resource option) res" where
  "spec_log T F H [] v = Inr v"
| "spec_log T F H (data # es) v =
     bindR (map_sum id (map_option core_op) (entry_op T F H 0 data)) (\<lambda>oper. spec_log T F H es (opt_step spec_op oper v))"

lemma opt_step_core:
  assumes "rm_wf M rm"
  shows "core_view M (opt_step (rm_step M) oper rm) = opt_step spec_op (map_option core_op oper) (core_view M rm)"
  using opt_step_law [OF assms, of oper] spec_op_core
  by (cases oper) (simp_all add: opt_step_def core_view_def [abs_def])

lemma ApplyLog_spec:
  "rm_wf M rm \<Longrightarrow>
   map_sum id (core_view M) (rm_ApplyLog M T F H es rm) = spec_log T F H (map snd es) (core_view M rm)"
proof (induction es arbitrary: rm)
  case (Cons e es)
  obtain now data where e: "e = (now, data)" by (cases e)
  show ?case
  proof (cases "entry_op T F H now data")
    case (Inl f)
    then show ?thesis using entry_op_clock [of T F H now data 0]
      by (cases "entry_op T F H 0 data") (simp_all add: e Apply_op)
  next
    case (Inr oper)
    then obtain oper0 where op0: "entry_op T F H 0 data = Inr oper0" "map_option core_op oper0 = map_option core_op oper"
      using entry_op_clock [of T F H now data 0] by (cases "entry_op T F H 0 data") auto
    have "rm_wf M (opt_step (rm_step M) oper rm)" using opt_step_law [OF Cons.prems] by blast
    then show ?thesis
      using Cons.IH opt_step_core [OF Cons.prems] by (simp add: e Apply_op Inr op0)
  qed
qed simp

lemma ApplyLog_wf: "rm_wf M rm \<Longrightarrow> rm_ApplyLog M T F H es rm = Inr rm' \<Longrightarrow> rm_wf M rm'"
proof (induction es arbitrary: rm)
  case (Cons e es)
  then show ?case using opt_step_law
    by (cases e) (auto simp: Apply_op bindR_Inr_iff)
qed simp

end
