(* ===== verification/Replication.thy ===== *)
theory Replication
  imports ResMgrLaws
begin

text \<open>
  From a resource on one node to the same resource on another: through a log entry, and through a
  snapshot.  The lemmas join the round trips of the wire format, of limiters and of rate histories with
  the laws of the store.
\<close>

section \<open>Resources that can be sent\<close>

text \<open>
  Numbers the messages can carry: instants whose seconds fit 64 bits, no negative zeros.  \<open>res_received\<close>
  is what arrives: the resource without the part of its history that is too old for the receiver.
\<close>

definition res_sendable :: "Resource \<Rightarrow> bool" where
  "res_sendable res \<longleftrightarrow>
     (case res_Limiter res of
        None \<Rightarrow> False
      | Some l \<Rightarrow> Limiter_sendable l \<and> valid_TokenBucketLimiter (Limiter_ToLimiterPB l)) \<and>
     int64_range (res_LastUpdated res div 10 ^ 9) \<and>
     (\<forall>e \<in> set (rps_hist (res_RPS res)). int64_range (he_t e div 10 ^ 9) \<and> he_rps e \<noteq> 0x8000000000000000)"

definition res_received :: "duration \<Rightarrow> instant \<Rightarrow> Resource \<Rightarrow> Resource" where
  "res_received H now res = res\<lparr>res_RPS :=
     \<lparr>rps_reqCount = rps_reqCount (res_RPS res),
      rps_hist = filter (\<lambda>e. time_Sub now (he_t e) < H) (rps_hist (res_RPS res))\<rparr>\<rparr>"

lemma res_core_received [simp]: "res_core (res_received H now res) = res_core res"
  by (simp add: res_core_def res_received_def)

lemma res_received_empty: "rps_hist (res_RPS res) = [] \<Longrightarrow> res_received H now res = res"
  by (simp add: res_received_def)

text \<open>The message a resource becomes.\<close>

definition res_pb :: "string \<Rightarrow> Resource \<Rightarrow> PbResource" where
  "res_pb name res = (case Resource_ToPB name res of Inr p \<Rightarrow> p | Inl e \<Rightarrow> Resource_zero)"

lemma valid_rps:
  assumes "\<forall>e \<in> set (rps_hist r). he_rps e \<noteq> 0x8000000000000000"
  shows "\<exists>q. RPS_ToPB r = Some q \<and> valid_ReqPerSec q"
  using assms by (auto simp: RPS_ToPB_def valid_ReqPerSec_def valid_ReqPerSecEntry_def)

lemma AssignLimiterToResPB_eq:
  "AssignLimiterToResPB resPB l = Inr (resPB\<lparr>rs_LimiterType := LimiterType_TokenBucket,
     rs_Limiter := Some (Resource_TokenBucket (Some (Limiter_ToLimiterPB l)))\<rparr>)"
  by (cases l) (simp add: AssignLimiterToResPB_def Let_def)

lemma Resource_ToPB_sendable:
  assumes "res_sendable res"
  shows "Resource_ToPB name res = Inr (res_pb name res)" "rs_Name (res_pb name res) = name"
    "valid_Resource (res_pb name res)"
    "newResourceFromPB H now (Some (res_pb name res)) = Inr (res_received H now res)"
proof -
  obtain l where l: "res_Limiter res = Some l" "Limiter_sendable l" "valid_TokenBucketLimiter (Limiter_ToLimiterPB l)"
    using assms by (auto simp: res_sendable_def split: option.splits)
  obtain q where q: "RPS_ToPB (res_RPS res) = Some q" "valid_ReqPerSec q"
    using valid_rps assms by (auto simp: res_sendable_def)
  let ?p = "\<lparr>rs_Name = name, rs_NodeId = res_NodeID res, rs_LimiterType = LimiterType_TokenBucket,
     rs_Rps = Some q, rs_LastUpdated = TimeToTimestamp (res_LastUpdated res),
     rs_Limiter = Some (Resource_TokenBucket (Some (Limiter_ToLimiterPB l)))\<rparr>"
  have pb: "Resource_ToPB name res = Inr ?p"
    by (simp add: Resource_ToPB_def l q AssignLimiterToResPB_eq)
  then have res_pb: "res_pb name res = ?p" by (simp add: res_pb_def)
  have lim: "NewLimiterFromResPB (Some ?p) = Inr l"
    using LimiterFromResPB_Assign [OF l(2), of ?p] by (simp only: AssignLimiterToResPB_eq bindR_Inr) simp
  have "RPS_FromPB H now (Some q) RPS_zero = Inr (res_RPS (res_received H now res))"
    using RPS_FromPB_ToPB [of "res_RPS res" H now RPS_zero] assms q(1) by (simp add: res_sendable_def res_received_def)
  moreover have "TimestampToTime (TimeToTimestamp (res_LastUpdated res)) = res_LastUpdated res"
    using assms by (intro TimestampToTime_TimeToTimestamp) (simp add: res_sendable_def)
  ultimately have "newResourceFromPB H now (Some ?p) = Inr (res_received H now res)"
    using l(1) by (simp add: newResourceFromPB_def lim res_received_def del: NewLimiterFromResPB.simps)
  with pb q l(3) show "Resource_ToPB name res = Inr (res_pb name res)" "rs_Name (res_pb name res) = name"
    "valid_Resource (res_pb name res)" "newResourceFromPB H now (Some (res_pb name res)) = Inr (res_received H now res)"
    unfolding res_pb by (simp_all add: valid_Resource_def)
qed

section \<open>Through the log\<close>

definition put_entry :: "byte list \<Rightarrow> u32 \<Rightarrow> string \<Rightarrow> Resource \<Rightarrow> Entry" where
  "put_entry eid src name res = \<lparr>en_Id = eid, en_Action = EntryAction_PutResource, en_SrcNodeId = src,
     en_Resource = Some (res_pb name res)\<rparr>"

lemma put_entry_valid: "res_sendable res \<Longrightarrow> valid_Entry (put_entry eid src name res)"
  by (simp add: valid_Entry_def put_entry_def Resource_ToPB_sendable(3))

lemma newEntryPBWithRes_put:
  "res_sendable res \<Longrightarrow>
     newEntryPBWithRes eid now name EntryAction_PutResource src (Some res) = Inr (put_entry eid src name res)"
  by (simp add: newEntryPBWithRes_def put_entry_def Resource_ToPB_sendable(1))

lemma entry_op_put:
  assumes "ts_codec_ok T" "res_sendable res" "length (enc_Entry T (put_entry eid src name res)) < 2 ^ 63"
    and "F eid = Inr u"
  shows "entry_op T F H now (enc_Entry T (put_entry eid src name res)) = Inr (Some (OpPut name (res_received H now res)))"
proof -
  have "Entry_Unmarshal T Entry_zero (enc_Entry T (put_entry eid src name res)) = Inr (put_entry eid src name res)"
    by (rule Entry.Unmarshal_enc [OF assms(1) put_entry_valid [OF assms(2)] assms(3)])
  then show ?thesis
    using assms(4) Resource_ToPB_sendable(2,4) [OF assms(2)]
    by (simp add: entry_op_def put_entry_def action_op_def)
qed

section \<open>Through a snapshot\<close>

lemma snapshot_entries_eq:
  "\<forall>(name, res) \<in> set items. res_sendable res \<Longrightarrow>
     snapshot_entries eids now src items = Inr (map (\<lambda>(name, res). Some (put_entry (eids name) src name res)) items)"
  by (induction eids now src items rule: snapshot_entries.induct) (auto simp: newEntryPBWithRes_put)

lemma restore_loop_puts:
  "\<forall>(name, res) \<in> set items. res_sendable res \<Longrightarrow>
     restore_loop M H now (map (\<lambda>(name, res). Some (put_entry (eids name) src name res)) items) rm =
     Inr (None, fold (rm_step M) (map (\<lambda>(name, res). OpPut name (res_received H now res)) items) rm)"
proof (induction items arbitrary: rm)
  case (Cons it items)
  then show ?case
    using Resource_ToPB_sendable(2,4) by (cases it) (auto simp: put_entry_def)
qed simp

lemma fold_puts:
  "distinct (map fst items) \<Longrightarrow>
     fold spec_op (map (\<lambda>(name, res). OpPut name (f res)) items) v =
     (\<lambda>n. case map_of items n of None \<Rightarrow> v n | Some res \<Rightarrow> Some (f res))"
proof (induction items arbitrary: v)
  case (Cons it items)
  have "map_of items (fst it) = None" using Cons.prems by (simp add: map_of_eq_None_iff)
  then show ?case using Cons by (cases it) (auto simp: fun_eq_iff split: option.split)
qed simp

text \<open>The store's content as a list, and the snapshot of it.\<close>

definition rm_items :: "'m swiss_ops \<Rightarrow> 'm ResourceManager \<Rightarrow> (string \<times> Resource) list" where
  "rm_items M rm = map (\<lambda>(name, a). (name, rm_res rm a)) (sw_Iter M (rm_store rm))"

lemma rm_items:
  assumes "rm_wf M rm"
  shows "distinct (map fst (rm_items M rm))" "map_of (rm_items M rm) = rm_view M rm"
proof -
  note M = rm_wfD(1) [OF assms]
  have "map fst (rm_items M rm) = map fst (sw_Iter M (rm_store rm))"
    by (simp add: rm_items_def comp_def split_beta)
  then show "distinct (map fst (rm_items M rm))" using swiss_okD(5) [OF M] by simp
  have "map_of (rm_items M rm) n = map_option (rm_res rm) (map_of (sw_Iter M (rm_store rm)) n)" for n
    unfolding rm_items_def by (simp add: map_of_map)
  then show "map_of (rm_items M rm) = rm_view M rm"
    using rm_view_Some [OF assms] rm_view_None [OF assms]
    by (simp add: fun_eq_iff swiss_okD(6) [OF M] map_option_case split: option.split) (metis option.exhaust)
qed

definition rm_snapshot :: "'m swiss_ops \<Rightarrow> (string \<Rightarrow> byte list) \<Rightarrow> 'm ResourceManager \<Rightarrow> EntrySnapshot" where
  "rm_snapshot M eids rm =
     \<lparr>es_Entries = map (\<lambda>(name, res). Some (put_entry (eids name) (rm_CurNodeID rm) name res)) (rm_items M rm)\<rparr>"

lemma Snapshot_eq:
  assumes "ts_codec_ok T" "\<forall>(name, res) \<in> set (rm_items M rm). res_sendable res"
  shows "rm_Snapshot M T eids now rm = Inr (enc_EntrySnapshot T (rm_snapshot M eids rm))"
    and "valid_EntrySnapshot (rm_snapshot M eids rm)"
proof -
  show valid: "valid_EntrySnapshot (rm_snapshot M eids rm)"
    using assms(2) put_entry_valid by (auto simp: valid_EntrySnapshot_def rm_snapshot_def)
  have "rm_createSnapshotPB M eids now rm = Inr (rm_snapshot M eids rm)"
    using snapshot_entries_eq [OF assms(2)] by (simp add: rm_createSnapshotPB_def rm_snapshot_def rm_items_def)
  then show "rm_Snapshot M T eids now rm = Inr (enc_EntrySnapshot T (rm_snapshot M eids rm))"
    using EntrySnapshot.Marshal_enc [OF assms(1) valid] by (simp add: rm_Snapshot_def EntrySnapshot_Marshal_def)
qed

lemma Restore_Snapshot:
  assumes "ts_codec_ok T" "rm_wf M rm" "rm_wf M rm0" "\<forall>(name, res) \<in> set (rm_items M rm). res_sendable res"
    and "length (enc_EntrySnapshot T (rm_snapshot M eids rm)) < 2 ^ 63"
  shows "\<exists>rm'. bindR (rm_Snapshot M T eids now rm) (\<lambda>buf. rm_Restore M T H now' buf rm0) = Inr (None, rm') \<and> rm_wf M rm' \<and>
    rm_view M rm' = (\<lambda>n. case rm_view M rm n of None \<Rightarrow> rm_view M rm0 n | Some res \<Rightarrow> Some (res_received H now' res))"
proof -
  let ?ops = "map (\<lambda>(name, res). OpPut name (res_received H now' res)) (rm_items M rm)"
  have "EntrySnapshot_Unmarshal T EntrySnapshot_zero (enc_EntrySnapshot T (rm_snapshot M eids rm)) = Inr (rm_snapshot M eids rm)"
    by (rule EntrySnapshot.Unmarshal_enc [OF assms(1) Snapshot_eq(2) [OF assms(1,4)] assms(5)])
  then have "bindR (rm_Snapshot M T eids now rm) (\<lambda>buf. rm_Restore M T H now' buf rm0) =
      Inr (None, fold (rm_step M) ?ops rm0)"
    using restore_loop_puts [OF assms(4)] by (simp add: Snapshot_eq(1) [OF assms(1,4)] rm_Restore_def rm_snapshot_def)
  then show ?thesis
    using mgr.steps_refine [OF assms(3), of ?ops] fold_puts [OF rm_items(1) [OF assms(2)]] rm_items(2) [OF assms(2)]
    by (intro exI [of _ "fold (rm_step M) ?ops rm0"]) simp
qed

end
