(* ===== verification/Endec.thy ===== *)
theory Endec
  imports CmdErr ApiLaws TimestampCodec
begin

text \<open>
  The framing of commands and responses (\<^verbatim>\<open>internal/endec/codec.go\<close>).  The two connections it
  reads from are third-party or operating-system objects: \<^verbatim>\<open>gnet.Conn\<close> is the record
  \<open>gnet_Conn\<close> of the operations the program calls, on a state \<open>'c\<close>, with \<open>gnet_ok\<close> for what gnet
  documents about them; \<^verbatim>\<open>net.Conn\<close> is its \<^verbatim>\<open>Read\<close>, with \<open>full_reads\<close> for a peer
  whose bytes have arrived.
\<close>

section \<open>Messages\<close>

text \<open>\<^verbatim>\<open>proto.Message\<close>: one constructor for each message type the program passes as one.\<close>

datatype Message =
    Msg_CmdError "CmdError option"
  | Msg_MeowCmdResp "MeowCmdResp option"
  | Msg_AllowCmd "AllowCmd option"
  | Msg_AllowCmdResp "AllowCmdResp option"
  | Msg_RegResCmd "RegResCmd option"
  | Msg_RegResCmdResp "RegResCmdResp option"
  | Msg_GetResCmd "GetResCmd option"
  | Msg_Resource "PbResource option"

text \<open>\<^verbatim>\<open>proto.Marshal\<close> calls the message's own generated method.\<close>

fun proto_Marshal :: "ts_codec \<Rightarrow> Message \<Rightarrow> byte list res" where
  "proto_Marshal T (Msg_CmdError m) = CmdError_Marshal T m"
| "proto_Marshal T (Msg_MeowCmdResp m) = MeowCmdResp_Marshal T m"
| "proto_Marshal T (Msg_AllowCmd m) = AllowCmd_Marshal T m"
| "proto_Marshal T (Msg_AllowCmdResp m) = AllowCmdResp_Marshal T m"
| "proto_Marshal T (Msg_RegResCmd m) = RegResCmd_Marshal T m"
| "proto_Marshal T (Msg_RegResCmdResp m) = RegResCmdResp_Marshal T m"
| "proto_Marshal T (Msg_GetResCmd m) = GetResCmd_Marshal T m"
| "proto_Marshal T (Msg_Resource m) = Resource_Marshal T m"

section \<open>Connections\<close>

record 'c gnet_Conn =
  gc_Next :: "'c \<Rightarrow> nat \<Rightarrow> (byte list \<times> byte list \<times> string option) \<times> 'c"
  gc_InboundBuffered :: "'c \<Rightarrow> nat"
  gc_Writev :: "'c \<Rightarrow> byte list list \<Rightarrow> string option \<times> 'c"
  gc_AsyncWritev :: "'c \<Rightarrow> byte list list \<Rightarrow> string option \<times> 'c"
  gc_SetCodec :: "'c \<Rightarrow> 'c"
  gc_HasCodec :: "'c \<Rightarrow> bool"

text \<open>
  What gnet documents, in terms of the bytes received and not yet taken (\<open>inb\<close>) and the bytes written
  (\<open>out\<close>): \<^verbatim>\<open>Next(n)\<close> takes the next \<open>n\<close> bytes, and with fewer than \<open>n\<close> there it returns none
  and an error and takes nothing; a write adds its slices to the output.  The slice \<^verbatim>\<open>Next\<close> returns
  may have capacity beyond its length: its second component is what lies there, about which nothing is known.  Of
  the context of a connection what counts is whether it is a codec, which it is after \<^verbatim>\<open>SetContext\<close> with one.
\<close>

definition gnet_ok :: "'c gnet_Conn \<Rightarrow> ('c \<Rightarrow> byte list) \<Rightarrow> ('c \<Rightarrow> byte list) \<Rightarrow> bool" where
  "gnet_ok G inb out \<longleftrightarrow>
     (\<forall>c n. 0 < n \<longrightarrow> n \<le> length (inb c) \<longrightarrow>
        (\<exists>spare. fst (gc_Next G c n) = (take n (inb c), spare, None)) \<and>
        inb (snd (gc_Next G c n)) = drop n (inb c) \<and> out (snd (gc_Next G c n)) = out c) \<and>
     (\<forall>c n. length (inb c) < n \<longrightarrow> (\<exists>e. gc_Next G c n = (([], [], Some e), c))) \<and>
     (\<forall>c. gc_InboundBuffered G c = length (inb c)) \<and>
     (\<forall>c bs. fst (gc_Writev G c bs) = None \<and> inb (snd (gc_Writev G c bs)) = inb c \<and>
        out (snd (gc_Writev G c bs)) = out c @ concat bs) \<and>
     (\<forall>c bs. fst (gc_AsyncWritev G c bs) = None \<and> inb (snd (gc_AsyncWritev G c bs)) = inb c \<and>
        out (snd (gc_AsyncWritev G c bs)) = out c @ concat bs) \<and>
     (\<forall>c. gc_HasCodec G (gc_SetCodec G c) \<and> inb (gc_SetCodec G c) = inb c \<and> out (gc_SetCodec G c) = out c)"

text \<open>
  An instance, for the witnesses: a pair of byte lists.  As in gnet's own buffer, the capacity of a slice
  reaches over the bytes that follow.
\<close>

definition buf_conn :: "(byte list \<times> byte list) gnet_Conn" where
  "buf_conn = \<lparr>
     gc_Next = \<lambda>(i, w) n. if n \<le> length i then ((take n i, drop n i, None), (drop n i, w))
                           else (([], [], Some ''short buffer''), (i, w)),
     gc_InboundBuffered = \<lambda>(i, w). length i,
     gc_Writev = \<lambda>(i, w) bs. (None, (i, w @ concat bs)),
     gc_AsyncWritev = \<lambda>(i, w) bs. (None, (i, w @ concat bs)),
     gc_SetCodec = id, gc_HasCodec = \<lambda>_. True\<rparr>"

lemma buf_conn_codec [simp]: "gc_HasCodec buf_conn c"
  by (simp add: buf_conn_def)

lemma buf_conn_ok: "gnet_ok buf_conn fst snd"
  by (auto simp: gnet_ok_def buf_conn_def split: prod.splits)

text \<open>
  \<^verbatim>\<open>net.Conn\<close>'s \<^verbatim>\<open>Read(make([]byte, n))\<close> returns the bytes it read, at most \<open>n\<close>, and an
  error; \<open>full_reads\<close> says that it delivers what has already arrived.
\<close>

type_synonym 'c net_Read = "'c \<Rightarrow> nat \<Rightarrow> (byte list \<times> string option) \<times> 'c"

definition full_reads :: "'c net_Read \<Rightarrow> ('c \<Rightarrow> byte list) \<Rightarrow> bool" where
  "full_reads Read inb \<longleftrightarrow>
     (\<forall>c n. n \<le> length (inb c) \<longrightarrow>
        fst (Read c n) = (take n (inb c), None) \<and> inb (snd (Read c n)) = drop n (inb c))"

definition buf_Read :: "byte list net_Read" where
  "buf_Read i n = (if n \<le> length i then ((take n i, None), drop n i) else ((i, Some ''EOF''), []))"

lemma buf_Read_full: "full_reads buf_Read (\<lambda>i. i)"
  by (simp add: full_reads_def buf_Read_def)

section \<open>Constants\<close>

definition CmdReqMagicNum :: nat where "CmdReqMagicNum = 0x1015"
definition CmdRespSuccessMagicNum :: nat where "CmdRespSuccessMagicNum = 0x1016"
definition CmdRespErrorMagicNum :: nat where "CmdRespErrorMagicNum = 0x1017"
definition MagicNumSize :: nat where "MagicNumSize = 2"
definition TotalLenSize :: nat where "TotalLenSize = 4"
definition CmdMsgLenSize :: nat where "CmdMsgLenSize = 4"
definition HeaderMsgLenSize :: nat where "HeaderMsgLenSize = 2"
definition ReqHeaderSize :: nat where "ReqHeaderSize = MagicNumSize + TotalLenSize + HeaderMsgLenSize"
definition RespHeaderSize :: nat where "RespHeaderSize = MagicNumSize + CmdMsgLenSize"
definition MaxRespDataSize :: nat where "MaxRespDataSize = 4096"

definition cmdReqMagicNumBytes :: "byte list" where
  "cmdReqMagicNumBytes = le_bytes 2 CmdReqMagicNum"

definition cmdRespSuccessMagicNumBytes :: "byte list" where
  "cmdRespSuccessMagicNumBytes = le_bytes 2 CmdRespSuccessMagicNum"

definition cmdRespErrorMagicNumBytes :: "byte list" where
  "cmdRespErrorMagicNumBytes = le_bytes 2 CmdRespErrorMagicNum"

lemmas endec_sizes = MagicNumSize_def TotalLenSize_def CmdMsgLenSize_def HeaderMsgLenSize_def
  ReqHeaderSize_def RespHeaderSize_def MaxRespDataSize_def

section \<open>Requests\<close>

text \<open>
  \<^verbatim>\<open>s[:n]\<close> on a slice with spare capacity: the bound is the capacity, not the length.
\<close>

definition slice_to :: "byte list \<Rightarrow> byte list \<Rightarrow> nat \<Rightarrow> byte list res" where
  "slice_to s spare n =
     (if n \<le> length s + length spare then Inr (take n (s @ spare)) else Inl (Panic ''slice bounds out of range''))"

lemma slice_to_within [simp]: "n \<le> length s \<Longrightarrow> slice_to s spare n = Inr (take n s)"
  by (simp add: slice_to_def)

definition EncodeCmdReq :: "ts_codec \<Rightarrow> string \<Rightarrow> Message option \<Rightarrow> byte list cres" where
  "EncodeCmdReq T cmdName msg =
     handleR (CmdHeader_Marshal T (Some \<lparr>ch_Cmd = cmdName\<rparr>))
       (\<lambda>err. wrapC ErrorCode_InvalidMsg (Some err))
       (\<lambda>headerMsg.
     handleR (case msg of None \<Rightarrow> Inr [] | Some m \<Rightarrow> proto_Marshal T m)
       (\<lambda>err. wrapC ErrorCode_InvalidMsg (Some err))
       (\<lambda>cmdMsg.
         let headerMsgLen = length headerMsg; cmdMsgLen = length cmdMsg;
             totalLen = headerMsgLen + cmdMsgLen;
             cmd = replicate (ReqHeaderSize + totalLen) 0
         in bindR (copy_at cmd 0 cmdReqMagicNumBytes) (\<lambda>cmd.
            bindR (copy_at cmd (int MagicNumSize) (le_bytes 4 totalLen)) (\<lambda>cmd.
            bindR (copy_at cmd (int (MagicNumSize + TotalLenSize)) (le_bytes 2 headerMsgLen)) (\<lambda>cmd.
            bindR (copy_at cmd (int ReqHeaderSize) headerMsg) (\<lambda>cmd.
            bindR (if 0 < cmdMsgLen then copy_at cmd (int (ReqHeaderSize + headerMsgLen)) cmdMsg else Inr cmd)
              (\<lambda>cmd. Inr (Inr cmd))))))))"

text \<open>
  \<^verbatim>\<open>DecodeCmdReq\<close> returns the header and body, or a command error, and the connection behind the
  bytes it took.
\<close>

definition DecodeCmdReq :: "'c gnet_Conn \<Rightarrow> ts_codec \<Rightarrow> 'c \<Rightarrow> ((CmdError + CmdHeader \<times> byte list) \<times> 'c) res" where
  "DecodeCmdReq G T conn =
     (let ((buf, _, _), conn) = gc_Next G conn ReqHeaderSize
      in if length buf < ReqHeaderSize then
           Inr (Inl (NewCmdIncompletePacketError ''The buffer size %d less than %d''
             [FInt (int (length buf)), FInt (int ReqHeaderSize)]), conn)
         else if take MagicNumSize buf \<noteq> cmdReqMagicNumBytes then
           Inr (Inl (NewCmdInvalidMagicNumError ''Invalid magic number: %X''
             [FInt (int (le_val (take MagicNumSize buf)))]), conn)
         else
           let totalLen = le_val (take 4 (drop MagicNumSize buf))
           in if totalLen < HeaderMsgLenSize then
                Inr (Inl (NewCmdIncompletePacketError ''The total message size %d is less than %d''
                  [FInt (int totalLen), FInt (int HeaderMsgLenSize)]), conn)
              else
                let headerMsgLen = le_val (take 2 (drop (MagicNumSize + TotalLenSize) buf))
                in if headerMsgLen < 1 then
                     Inr (Inl (NewCmdIncompletePacketError ''The header message size %d is less than 1 byte''
                       [FInt (int headerMsgLen)]), conn)
                   else
                     let ((data, spare, err), conn) = gc_Next G conn totalLen
                     in if length data < totalLen then
                          bindR (WrapCmdError ErrorCode_IncompletePacket err) (\<lambda>e. Inr (Inl e, conn))
                        else
                          bindR (slice_to data spare headerMsgLen) (\<lambda>headerMsg.
                          handleR (CmdHeader_Unmarshal T CmdHeader_zero headerMsg)
                            (\<lambda>err. bindR (WrapCmdError ErrorCode_DecodeFail (Some err)) (\<lambda>e. Inr (Inl e, conn)))
                            (\<lambda>cmdHeader. bindR (get_slice data headerMsgLen (length data))
                               (\<lambda>body. Inr (Inr (cmdHeader, body), conn)))))"

section \<open>Responses\<close>

text \<open>\<open>None\<close> for \<open>resp\<close> is a nil slice.  An unknown magic number leaves the header's magic bytes 0.\<close>

definition EncodeCmdResp :: "nat \<Rightarrow> byte list option \<Rightarrow> byte list list" where
  "EncodeCmdResp respMagicNum resp =
     (let magic = (if respMagicNum = CmdRespSuccessMagicNum then cmdRespSuccessMagicNumBytes
                   else if respMagicNum = CmdRespErrorMagicNum then cmdRespErrorMagicNumBytes
                   else replicate MagicNumSize 0)
      in case resp of
           None \<Rightarrow> [magic @ replicate TotalLenSize 0]
         | Some resp \<Rightarrow> [magic @ le_bytes 4 (length resp), resp])"

definition DecodeCmdResp :: "'c net_Read \<Rightarrow> ts_codec \<Rightarrow> 'c \<Rightarrow> ((CmdError + byte list) \<times> 'c) res" where
  "DecodeCmdResp Read T conn =
     (let ((header, err), conn) = Read conn RespHeaderSize
      in if length header < RespHeaderSize then
           Inr (Inl (NewCmdIncompletePacketError ''The header message size %d is less than %d byte''
             [FInt (int (length header)), FInt (int RespHeaderSize)]), conn)
         else if err \<noteq> None then
           bindR (WrapCmdError ErrorCode_IncompletePacket err) (\<lambda>e. Inr (Inl e, conn))
         else if take MagicNumSize header \<noteq> cmdRespSuccessMagicNumBytes \<and>
                 take MagicNumSize header \<noteq> cmdRespErrorMagicNumBytes then
           Inr (Inl (NewCmdInvalidMagicNumError ''Invalid magic number: %X''
             [FInt (int (le_val (take MagicNumSize header)))]), conn)
         else
           let magicNum = (if take MagicNumSize header = cmdRespSuccessMagicNumBytes
                           then CmdRespSuccessMagicNum else CmdRespErrorMagicNum);
               cmdMsgLen = le_val (take 4 (drop MagicNumSize header))
           in if MaxRespDataSize < cmdMsgLen then
                Inr (Inl (NewCmdInvalidMsgError ''The message size %d is larger than max response size %d''
                  [FInt (int cmdMsgLen), FInt (int MaxRespDataSize)]), conn)
              else
                let ((cmdMsg, err), conn) = Read conn cmdMsgLen
                in if length cmdMsg < cmdMsgLen then
                     Inr (Inl (NewCmdIncompletePacketError ''The message size %d is less than %d byte''
                       [FInt (int (length cmdMsg)), FInt (int cmdMsgLen)]), conn)
                   else if err \<noteq> None then
                     bindR (WrapCmdError ErrorCode_IncompletePacket err) (\<lambda>e. Inr (Inl e, conn))
                   else if magicNum = CmdRespErrorMagicNum then
                     handleR (CmdError_Unmarshal T CmdError_zero cmdMsg)
                       (\<lambda>err. bindR (WrapCmdError ErrorCode_DecodeFail (Some err)) (\<lambda>e. Inr (Inl e, conn)))
                       (\<lambda>errResp. Inr (Inl errResp, conn))
                   else Inr (Inr cmdMsg, conn))"

section \<open>What the request encoder writes\<close>

text \<open>The bytes of a request: the fixed header, the header message, the body.\<close>

definition req_frame :: "byte list \<Rightarrow> byte list \<Rightarrow> byte list" where
  "req_frame h b = cmdReqMagicNumBytes @ le_bytes 4 (length h + length b) @ le_bytes 2 (length h) @ h @ b"

lemma length_magics [simp]:
  "length cmdReqMagicNumBytes = 2" "length cmdRespSuccessMagicNumBytes = 2" "length cmdRespErrorMagicNumBytes = 2"
  by (simp_all add: cmdReqMagicNumBytes_def cmdRespSuccessMagicNumBytes_def cmdRespErrorMagicNumBytes_def)

lemma magics_distinct: "cmdRespSuccessMagicNumBytes \<noteq> cmdRespErrorMagicNumBytes"
  by (simp add: cmdRespSuccessMagicNumBytes_def cmdRespErrorMagicNumBytes_def CmdRespSuccessMagicNum_def
    CmdRespErrorMagicNum_def numeral_2_eq_2)

lemma copy_at_behind:
  assumes "i = int (length pre)" "length s \<le> n"
  shows "copy_at (pre @ replicate n 0) i s = Inr (pre @ s @ replicate (n - length s) 0)"
  using assms by (simp add: copy_at_def min_def)

lemma EncodeCmdReq_frame:
  assumes "ts_codec_ok T"
    and "(case msg of None \<Rightarrow> Inr [] | Some m \<Rightarrow> proto_Marshal T m) = Inr body"
  shows "EncodeCmdReq T name msg = Inr (Inr (req_frame (enc_CmdHeader T \<lparr>ch_Cmd = name\<rparr>) body))"
proof -
  let ?h = "enc_CmdHeader T \<lparr>ch_Cmd = name\<rparr>"
  have h: "CmdHeader_Marshal T (Some \<lparr>ch_Cmd = name\<rparr>) = Inr ?h"
    unfolding CmdHeader_Marshal_def by (rule CmdHeader.Marshal_enc) (simp_all add: assms valid_CmdHeader_def)
  let ?n = "length ?h + length body"
  have "copy_at (replicate (8 + ?n) 0) 0 cmdReqMagicNumBytes = Inr (cmdReqMagicNumBytes @ replicate (6 + ?n) 0)"
    using copy_at_behind [of 0 "[]" cmdReqMagicNumBytes "8 + ?n"] by simp
  moreover have "copy_at (cmdReqMagicNumBytes @ replicate (6 + ?n) 0) 2 (le_bytes 4 ?n) =
      Inr ((cmdReqMagicNumBytes @ le_bytes 4 ?n) @ replicate (2 + ?n) 0)"
    using copy_at_behind [of 2 cmdReqMagicNumBytes "le_bytes 4 ?n" "6 + ?n"] by simp
  moreover have "copy_at ((cmdReqMagicNumBytes @ le_bytes 4 ?n) @ replicate (2 + ?n) 0) 6 (le_bytes 2 (length ?h)) =
      Inr ((cmdReqMagicNumBytes @ le_bytes 4 ?n @ le_bytes 2 (length ?h)) @ replicate ?n 0)"
    using copy_at_behind [of 6 "cmdReqMagicNumBytes @ le_bytes 4 ?n" "le_bytes 2 (length ?h)" "2 + ?n"] by simp
  moreover have "copy_at ((cmdReqMagicNumBytes @ le_bytes 4 ?n @ le_bytes 2 (length ?h)) @ replicate ?n 0) 8 ?h =
      Inr ((cmdReqMagicNumBytes @ le_bytes 4 ?n @ le_bytes 2 (length ?h) @ ?h) @ replicate (length body) 0)"
    using copy_at_behind [of 8 "cmdReqMagicNumBytes @ le_bytes 4 ?n @ le_bytes 2 (length ?h)" ?h ?n] by simp
  moreover have "copy_at ((cmdReqMagicNumBytes @ le_bytes 4 ?n @ le_bytes 2 (length ?h) @ ?h) @ replicate (length body) 0)
      (8 + int (length ?h)) body = Inr (req_frame ?h body)"
    using copy_at_behind [of "8 + int (length ?h)"
      "cmdReqMagicNumBytes @ le_bytes 4 ?n @ le_bytes 2 (length ?h) @ ?h" body "length body"]
    by (simp add: req_frame_def)
  ultimately show ?thesis
    using h assms(2) by (simp add: EncodeCmdReq_def Let_def endec_sizes)
      (simp add: req_frame_def)
qed

section \<open>Decoding what was encoded\<close>

lemma gnet_Next:
  assumes "gnet_ok G inb out" "inb c = bs @ rest" "length bs = n" "0 < n"
  shows "\<exists>spare c'. gc_Next G c n = ((bs, spare, None), c') \<and> inb c' = rest \<and> out c' = out c"
proof -
  have "0 < n \<longrightarrow> n \<le> length (inb c) \<longrightarrow> (\<exists>spare. fst (gc_Next G c n) = (take n (inb c), spare, None)) \<and>
      inb (snd (gc_Next G c n)) = drop n (inb c) \<and> out (snd (gc_Next G c n)) = out c"
    using assms(1) unfolding gnet_ok_def by blast
  then show ?thesis using assms(2-4) by (cases "gc_Next G c n") auto
qed

lemma gnet_Next_short:
  assumes "gnet_ok G inb out" "length (inb c) < n"
  shows "\<exists>e. gc_Next G c n = (([], [], Some e), c)"
  using assms unfolding gnet_ok_def by blast

lemma le_vals: "n < 2 ^ 32 \<Longrightarrow> le_val (le_bytes 4 n) = n" "n < 2 ^ 16 \<Longrightarrow> le_val (le_bytes 2 n) = n"
  by (rule le_val_le_bytes, simp)+

lemma DecodeCmdReq_frame:
  assumes "ts_codec_ok T" "gnet_ok G inb out" "inb c = req_frame (enc_CmdHeader T h) body @ rest"
    and "0 < length (enc_CmdHeader T h)" "length (enc_CmdHeader T h) < 2 ^ 16"
    and "2 \<le> length (enc_CmdHeader T h) + length body" "length (enc_CmdHeader T h) + length body < 2 ^ 32"
  shows "\<exists>c'. DecodeCmdReq G T c = Inr (Inr (h, body), c') \<and> inb c' = rest \<and> out c' = out c"
proof -
  let ?h = "enc_CmdHeader T h"
  let ?pre = "cmdReqMagicNumBytes @ le_bytes 4 (length ?h + length body) @ le_bytes 2 (length ?h)"
  have "inb c = ?pre @ (?h @ body @ rest)" using assms(3) by (simp add: req_frame_def)
  then obtain sp c1 where c1: "gc_Next G c ReqHeaderSize = ((?pre, sp, None), c1)" "inb c1 = ?h @ body @ rest" "out c1 = out c"
    using gnet_Next [OF assms(2), of c ?pre _ 8] by (auto simp: endec_sizes)
  obtain sp' c2 where c2: "gc_Next G c1 (length ?h + length body) = ((?h @ body, sp', None), c2)" "inb c2 = rest" "out c2 = out c1"
    using gnet_Next [OF assms(2), of c1 "?h @ body" rest] c1(2) assms(6) by auto
  have dec: "CmdHeader_Unmarshal T CmdHeader_zero ?h = Inr h"
    unfolding CmdHeader_Unmarshal_def
    by (rule unmarshal_with_decodes [OF CmdHeader_decodes]) (use assms in \<open>simp_all add: valid_CmdHeader_def\<close>)
  have "slice_to (?h @ body) sp' (length ?h) = Inr ?h" "get_slice (?h @ body) (length ?h) (length (?h @ body)) = Inr body"
    by (simp_all add: get_slice_def slice_def)
  then have "DecodeCmdReq G T c = Inr (Inr (h, body), c2)"
    using c1(1) c2(1) assms(4-) dec le_vals
    by (simp add: DecodeCmdReq_def Let_def endec_sizes)
  then show ?thesis using c1 c2 by simp
qed

lemma length_enc_CmdHeader:
  assumes "name \<noteq> []" "length name < 60000"
  shows "2 \<le> length (enc_CmdHeader T \<lparr>ch_Cmd = name\<rparr>)" "length (enc_CmdHeader T \<lparr>ch_Cmd = name\<rparr>) < 60011"
proof -
  have len: "length (enc_CmdHeader T \<lparr>ch_Cmd = name\<rparr>) =
      1 + length (enc_varint (word_of_nat (length name))) + length name"
    using assms(1) by (simp add: enc_CmdHeader_def)
  show "length (enc_CmdHeader T \<lparr>ch_Cmd = name\<rparr>) < 60011"
    using len length_enc_varint_le [of "word_of_nat (length name)"] assms(2) by linarith
  have "0 < length name" using assms(1) by simp
  then show "2 \<le> length (enc_CmdHeader T \<lparr>ch_Cmd = name\<rparr>)" using len by linarith
qed

section \<open>Which requests make the decoder panic\<close>

text \<open>The fields of a request header, read from the bytes in the buffer.\<close>

definition req_total :: "byte list \<Rightarrow> nat" where
  "req_total bs = le_val (take 4 (drop 2 bs))"

definition req_headerLen :: "byte list \<Rightarrow> nat" where
  "req_headerLen bs = le_val (take 2 (drop 6 bs))"

definition req_complete :: "byte list \<Rightarrow> bool" where
  "req_complete bs \<longleftrightarrow> 8 \<le> length bs \<and> take 2 bs = cmdReqMagicNumBytes \<and> 2 \<le> req_total bs \<and>
     1 \<le> req_headerLen bs \<and> req_total bs \<le> length bs - 8"

lemma take_take_drop: "m + k \<le> n \<Longrightarrow> take k (drop m (take n xs)) = take k (drop m xs)"
  by (simp add: drop_take min_def)

lemma drop_6_take_8: "drop 6 (take 8 xs) = take 2 (drop 6 xs)"
  by (simp add: drop_take)

lemma le_val_less: "le_val bs < 256 ^ length bs"
proof (induction bs)
  case (Cons b bs)
  have "unat b < 256" by (rule byte_unat_less)
  moreover have "Suc (le_val bs) \<le> 256 ^ length bs" using Cons by simp
  ultimately have "unat b + 256 * le_val bs < 256 * 256 ^ length bs" by linarith
  then show ?case by simp
qed simp

lemma panics_handleR:
  "panics (handleR r h k) \<longleftrightarrow> panics r \<or> (\<exists>s. r = Inl (Fail s) \<and> panics (h s)) \<or> (\<exists>x. r = Inr x \<and> panics (k x))"
  by (cases r rule: panics.cases) simp_all

lemma gnet_Next_take:
  assumes "gnet_ok G inb out" "n \<le> length (inb c)" "0 < n"
  obtains spare c' where "gc_Next G c n = ((take n (inb c), spare, None), c')" "inb c' = drop n (inb c)" "out c' = out c"
  using gnet_Next [OF assms(1), of c "take n (inb c)" "drop n (inb c)" n] assms(2,3) by auto

text \<open>A buffer that does not hold a complete request gives an error, and loses its header if that had come.\<close>

lemma DecodeCmdReq_incomplete:
  assumes "gnet_ok G inb out" "\<not> req_complete (inb c)"
  shows "\<exists>e c'. DecodeCmdReq G T c = Inr (Inl e, c') \<and> inb c' = drop (if 8 \<le> length (inb c) then 8 else 0) (inb c)
    \<and> out c' = out c"
proof (cases "8 \<le> length (inb c)")
  case False
  then obtain e where "gc_Next G c 8 = (([], [], Some e), c)" using gnet_Next_short [OF assms(1)] by fastforce
  then show ?thesis using False by (simp add: DecodeCmdReq_def endec_sizes)
next
  case True
  then obtain sp c1 where c1: "gc_Next G c 8 = ((take 8 (inb c), sp, None), c1)" "inb c1 = drop 8 (inb c)" "out c1 = out c"
    by (rule gnet_Next_take [OF assms(1)]) simp_all
  show ?thesis
  proof (cases "take 2 (inb c) = cmdReqMagicNumBytes \<and> 2 \<le> req_total (inb c) \<and> 1 \<le> req_headerLen (inb c)")
    case False
    then show ?thesis using True c1
      by (auto simp: DecodeCmdReq_def Let_def endec_sizes take_take_drop drop_6_take_8 req_total_def req_headerLen_def min_def)
  next
    case hd: True
    then have short: "length (inb c1) < req_total (inb c)" using assms(2) True c1(2) by (simp add: req_complete_def)
    then obtain e where "gc_Next G c1 (req_total (inb c)) = (([], [], Some e), c1)"
      using gnet_Next_short [OF assms(1)] by blast
    then show ?thesis using True hd c1 short
      by (auto simp: DecodeCmdReq_def Let_def endec_sizes take_take_drop drop_6_take_8 req_total_def req_headerLen_def min_def)
  qed
qed

lemma DecodeCmdReq_complete:
  assumes "gnet_ok G inb out" "req_complete (inb c)"
  shows "\<exists>spare c'. inb c' = drop (8 + req_total (inb c)) (inb c) \<and> out c' = out c \<and>
    DecodeCmdReq G T c =
      (let data = take (req_total (inb c)) (drop 8 (inb c))
       in bindR (slice_to data spare (req_headerLen (inb c))) (\<lambda>headerMsg.
          handleR (CmdHeader_Unmarshal T CmdHeader_zero headerMsg)
            (\<lambda>err. Inr (Inl \<lparr>ce_Code = ErrorCode_DecodeFail, ce_Msg = err\<rparr>, c'))
            (\<lambda>cmdHeader. bindR (get_slice data (req_headerLen (inb c)) (length data))
               (\<lambda>body. Inr (Inr (cmdHeader, body), c')))))"
proof -
  let ?total = "req_total (inb c)"
  have len: "8 \<le> length (inb c)" using assms(2) by (simp add: req_complete_def)
  then obtain sp c1 where c1: "gc_Next G c 8 = ((take 8 (inb c), sp, None), c1)" "inb c1 = drop 8 (inb c)" "out c1 = out c"
    by (rule gnet_Next_take [OF assms(1)]) simp_all
  have "?total \<le> length (inb c1)" using assms(2) c1(2) by (simp add: req_complete_def)
  then obtain sp' c2 where c2: "gc_Next G c1 ?total = ((take ?total (inb c1), sp', None), c2)" "inb c2 = drop ?total (inb c1)"
    "out c2 = out c1"
    by (rule gnet_Next_take [OF assms(1)]) (use assms(2) in \<open>simp add: req_complete_def\<close>)
  have "length (take ?total (drop 8 (inb c))) = ?total" using assms(2) by (simp add: req_complete_def)
  then show ?thesis using assms(2) c1 c2 len
    by (intro exI [of _ sp'] exI [of _ c2])
      (simp add: DecodeCmdReq_def Let_def endec_sizes take_take_drop drop_6_take_8 req_total_def req_headerLen_def min_def
        req_complete_def add.commute)
qed

lemma req_headerLen_less: "req_headerLen bs < 2 ^ 63"
proof -
  have "le_val (take 2 (drop 6 bs)) < 256 ^ 2"
    using le_val_less [of "take 2 (drop 6 bs)"] power_increasing [of "length (take 2 (drop 6 bs))" 2 "256 :: nat"] by simp
  then show ?thesis by (simp add: req_headerLen_def)
qed

lemma req_total_less: "req_total bs < 2 ^ 63"
proof -
  have "le_val (take 4 (drop 2 bs)) < 256 ^ 4"
    using le_val_less [of "take 4 (drop 2 bs)"] power_increasing [of "length (take 4 (drop 2 bs))" 4 "256 :: nat"] by simp
  then show ?thesis by (simp add: req_total_def)
qed

text \<open>A header length beyond the packet never gives a request: the body's slice bounds are then wrong.\<close>

lemma DecodeCmdReq_overlong:
  assumes "gnet_ok G inb out" "req_complete (inb c)" "req_total (inb c) < req_headerLen (inb c)"
    and "DecodeCmdReq G T c = Inr (r, c')"
  shows "\<exists>e. r = Inl e"
proof -
  let ?data = "take (req_total (inb c)) (drop 8 (inb c))"
  have len: "length ?data = req_total (inb c)" using assms(2) by (simp add: req_complete_def)
  have bad: "get_slice ?data (req_headerLen (inb c)) (length ?data) = Inl (Panic ''slice bounds out of range'')"
    using assms(3) by (simp add: get_slice_def del: length_take) (simp add: len del: length_take)
  obtain spare c'' where "DecodeCmdReq G T c =
      bindR (slice_to ?data spare (req_headerLen (inb c))) (\<lambda>headerMsg.
        handleR (CmdHeader_Unmarshal T CmdHeader_zero headerMsg)
          (\<lambda>err. Inr (Inl \<lparr>ce_Code = ErrorCode_DecodeFail, ce_Msg = err\<rparr>, c''))
          (\<lambda>cmdHeader. bindR (get_slice ?data (req_headerLen (inb c)) (length ?data))
             (\<lambda>body. Inr (Inr (cmdHeader, body), c''))))"
    using DecodeCmdReq_complete [OF assms(1,2), of T] by (auto simp: Let_def)
  then show ?thesis using assms(4) unfolding bad
    by (auto simp: bindR_Inr_iff handleR_Inr_iff dest!: sym [of "Inr (r, c')"])
qed

lemma DecodeCmdReq_panics:
  assumes "gnet_ok G inb out" "ts_safe T" "panics (DecodeCmdReq G T c)"
  shows "req_complete (inb c) \<and> req_total (inb c) < req_headerLen (inb c)"
proof (rule ccontr)
  assume not: "\<not> ?thesis"
  show False
  proof (cases "req_complete (inb c)")
    case False
    then show False using DecodeCmdReq_incomplete [OF assms(1) False, of T] assms(3) by auto
  next
    case True
    let ?data = "take (req_total (inb c)) (drop 8 (inb c))"
    have len: "length ?data = req_total (inb c)" using True by (simp add: req_complete_def)
    have le: "req_headerLen (inb c) \<le> length ?data" using not True len by simp
    have dec: "\<not> panics (CmdHeader_Unmarshal T CmdHeader_zero (take (req_headerLen (inb c)) ?data))"
      using req_headerLen_less [of "inb c"]
      by (intro safe_not_panics CmdHeader_reader.Unmarshal_safe assms) (simp add: min_less_iff_disj)
    obtain spare c' where eq: "DecodeCmdReq G T c =
        bindR (slice_to ?data spare (req_headerLen (inb c))) (\<lambda>headerMsg.
          handleR (CmdHeader_Unmarshal T CmdHeader_zero headerMsg)
            (\<lambda>err. Inr (Inl \<lparr>ce_Code = ErrorCode_DecodeFail, ce_Msg = err\<rparr>, c'))
            (\<lambda>cmdHeader. bindR (get_slice ?data (req_headerLen (inb c)) (length ?data))
               (\<lambda>body. Inr (Inr (cmdHeader, body), c'))))"
      using DecodeCmdReq_complete [OF assms(1) True, of T] by (auto simp: Let_def)
    show False using assms(3) le dec get_slice_ok [OF le order.refl] unfolding eq
      by (simp add: panics_handleR)
  qed
qed

section \<open>Responses\<close>

lemma full_Read:
  assumes "full_reads Read inb" "inb c = bs @ rest" "length bs = n"
  obtains c' where "Read c n = ((bs, None), c')" "inb c' = rest"
  using assms unfolding full_reads_def by (cases "Read c n") (auto dest!: spec [of _ c] spec [of _ n])

definition resp_magic :: "bool \<Rightarrow> nat" where
  "resp_magic ok = (if ok then CmdRespSuccessMagicNum else CmdRespErrorMagicNum)"

text \<open>What the client makes of a response frame: a body that is too long is refused, an error is decoded.\<close>

lemma DecodeCmdResp_frame:
  assumes "full_reads Read inb" "inb c = concat (EncodeCmdResp (resp_magic ok) (Some resp)) @ rest"
    and "length resp < 2 ^ 32"
  shows "\<exists>c'. DecodeCmdResp Read T c =
      (if 4096 < length resp then
         Inr (Inl (NewCmdInvalidMsgError ''The message size %d is larger than max response size %d''
           [FInt (int (length resp)), FInt 4096]), c')
       else if ok then Inr (Inr resp, c')
       else handleR (CmdError_Unmarshal T CmdError_zero resp)
         (\<lambda>err. Inr (Inl \<lparr>ce_Code = ErrorCode_DecodeFail, ce_Msg = err\<rparr>, c'))
         (\<lambda>e. Inr (Inl e, c'))) \<and>
    inb c' = (if 4096 < length resp then resp @ rest else rest)"
proof -
  let ?m = "if ok then cmdRespSuccessMagicNumBytes else cmdRespErrorMagicNumBytes"
  have ne: "CmdRespErrorMagicNum \<noteq> CmdRespSuccessMagicNum"
    by (simp add: CmdRespSuccessMagicNum_def CmdRespErrorMagicNum_def)
  have "inb c = (?m @ le_bytes 4 (length resp)) @ (resp @ rest)"
    using assms(2) ne by (simp add: EncodeCmdResp_def resp_magic_def Let_def)
  moreover have "length (?m @ le_bytes 4 (length resp)) = 6" by simp
  ultimately obtain c1 where c1: "Read c 6 = ((?m @ le_bytes 4 (length resp), None), c1)" "inb c1 = resp @ rest"
    by (rule full_Read [OF assms(1)])
  obtain c2 where c2: "Read c1 (length resp) = ((resp, None), c2)" "inb c2 = rest"
    using full_Read [OF assms(1) c1(2)] by blast
  show ?thesis
    using c1 c2 ne magics_distinct le_vals(1) [OF assms(3)]
    by (intro exI [of _ "if 4096 < length resp then c1 else c2"]) (simp add: DecodeCmdResp_def Let_def endec_sizes)
qed

end
