(* ===== verification/Cmd.thy ===== *)
theory Cmd
  imports ResMgr Endec
begin

text \<open>
  The commands of the API (\<^verbatim>\<open>internal/cmd\<close>): the dispatcher's table and its four handlers, over the
  resource manager.  A handler takes the world it runs in: the third-party maps and timestamp codec, the
  implementation-specific float conversion, a reading of the clock and a fresh entry identifier.  A
  handler's result is a command error or a message, and the dispatcher's new state.
\<close>

record 'm world =
  w_M :: "'m swiss_ops"
  w_T :: ts_codec
  w_cv :: "u64 \<Rightarrow> int"
  w_now :: instant
  w_eid :: "byte list"

record 'm CmdDispatcher =
  cd_cfg :: Config
  cd_resMgr :: "'m ResourceManager"
  cd_initTime :: instant

type_synonym ('m, 'a) cmd_result = "((CmdError + 'a) \<times> 'm CmdDispatcher) res"

section \<open>Allow\<close>

text \<open>
  \<^verbatim>\<open>AllowPbCmd\<close>: the resource's limiter is shared through the manager's heap, so granting a request
  changes the resource for everybody.  A resource of another node is asked for there.
\<close>

definition AllowPbCmd :: "'m world \<Rightarrow> AllowCmd \<Rightarrow> 'm CmdDispatcher \<Rightarrow> ('m, AllowCmdResp) cmd_result" where
  "AllowPbCmd w cmd c =
     (let rm = cd_resMgr c
      in if length (ac_Resource cmd) < 1 then Inr (Inl (NewCmdInvalidMsgError ''Empty resource name'' []), c)
         else case rm_GetResource (w_M w) (ac_Resource cmd) rm of
           None \<Rightarrow> Inr (Inl (NewCmdNotFoundError ''The resource %s doesn't exist'' [FStr (ac_Resource cmd)]), c)
         | Some a \<Rightarrow>
             (let res = rm_res rm a;
                  cmd = (if ac_Events cmd = 0 then cmd\<lparr>ac_Events := 1\<rparr> else cmd)
              in if \<not> rm_AtSameNode (res_NodeID res) rm then
                   (case rm_ForwardAllowCmd cmd (res_NodeID res) rm of
                      Inl err \<Rightarrow> bindR (WrapCmdError ErrorCode_ForwardFail (Some err)) (\<lambda>e. Inr (Inl e, c))
                    | Inr respMsg \<Rightarrow> Inr (Inr (respMsg\<lparr>ar_Redirected := True, ar_NodeId := res_NodeID res\<rparr>), c))
                 else case res_Limiter res of
                   None \<Rightarrow> Inl nil_deref
                 | Some l \<Rightarrow>
                     (let (ok, l) = Limiter_Allow (w_now w) (ac_Events cmd) l
                      in Inr (Inr \<lparr>ar_Redirected = False, ar_NodeId = res_NodeID res, ar_Ok = ok\<rparr>,
                           c\<lparr>cd_resMgr := rm_write a (res\<lparr>res_Limiter := Some l\<rparr>) rm\<rparr>))))"

text \<open>Decoding a command's body; \<open>as_msg\<close> turns a handler's response into a \<^verbatim>\<open>proto.Message\<close>.\<close>

definition with_body :: "'x res \<Rightarrow> ('x \<Rightarrow> ('m, 'a) cmd_result) \<Rightarrow> 'm CmdDispatcher \<Rightarrow> ('m, 'a) cmd_result" where
  "with_body r k c =
     handleR r (\<lambda>err. bindR (WrapCmdError ErrorCode_ProcessFail (Some err)) (\<lambda>e. Inr (Inl e, c))) k"

definition as_msg :: "('a \<Rightarrow> Message) \<Rightarrow> ('m, 'a) cmd_result \<Rightarrow> ('m, Message) cmd_result" where
  "as_msg f r = bindR r (\<lambda>(x, c). Inr (map_sum id f x, c))"

definition CmdDispatcher_Allow :: "'m world \<Rightarrow> byte list \<Rightarrow> 'm CmdDispatcher \<Rightarrow> ('m, Message) cmd_result" where
  "CmdDispatcher_Allow w body c =
     with_body (AllowCmd_Unmarshal (w_T w) AllowCmd_zero body)
       (\<lambda>cmd. as_msg (\<lambda>r. Msg_AllowCmdResp (Some r)) (AllowPbCmd w cmd c)) c"

section \<open>Resources\<close>

text \<open>
  \<^verbatim>\<open>RegisterResourcePbCmd\<close> answers a token bucket without parameters with \<^verbatim>\<open>return nil, nil\<close>,
  the \<open>None\<close> of its response: a nil pointer, not an error.
\<close>

definition RegisterResourcePbCmd :: "'m world \<Rightarrow> RegResCmd \<Rightarrow> 'm CmdDispatcher \<Rightarrow> ('m, RegResCmdResp option) cmd_result" where
  "RegisterResourcePbCmd w cmd c =
     (let rm = cd_resMgr c;
          existing = (if rc_Override cmd then None else rm_GetResource (w_M w) (rc_Resource cmd) rm)
      in case existing of
           Some a \<Rightarrow> Inr (Inr (Some \<lparr>rp_NodeId = res_NodeID (rm_res rm a)\<rparr>), c)
         | None \<Rightarrow>
             (if rc_Type cmd = LimiterType_TokenBucket then
                case RegResCmd_GetTokenBucket (Some cmd) of
                  None \<Rightarrow> Inr (Inr None, c)
                | Some params \<Rightarrow>
                    bindR (NewTokenBucketLimiter (w_cv w) (w_now w) (tp_Rate params) (tp_Burst params)) (\<lambda>l.
                    bindR (rm_PutResource (w_M w) (w_T w) (w_eid w) (w_now w) (rc_Resource cmd) (Some l) rm)
                      (\<lambda>((a, err, bufs), rm).
                        let c = c\<lparr>cd_resMgr := rm\<rparr>
                        in if err \<noteq> None then bindR (WrapCmdError ErrorCode_ProcessFail err) (\<lambda>e. Inr (Inl e, c))
                           else Inr (Inr (Some \<lparr>rp_NodeId = res_NodeID (rm_res rm a)\<rparr>), c)))
              else Inr (Inl (NewCmdInvalidLimiterError ''Unknown limiter type'' []), c)))"

definition CmdDispatcher_RegisterResource :: "'m world \<Rightarrow> byte list \<Rightarrow> 'm CmdDispatcher \<Rightarrow> ('m, Message) cmd_result" where
  "CmdDispatcher_RegisterResource w body c =
     with_body (RegResCmd_Unmarshal (w_T w) RegResCmd_zero body)
       (\<lambda>cmd. as_msg Msg_RegResCmdResp (RegisterResourcePbCmd w cmd c)) c"

definition GetResourcePbCmd :: "'m world \<Rightarrow> GetResCmd \<Rightarrow> 'm CmdDispatcher \<Rightarrow> ('m, PbResource) cmd_result" where
  "GetResourcePbCmd w cmd c =
     (case rm_GetResource (w_M w) (gr_Resource cmd) (cd_resMgr c) of
        None \<Rightarrow> Inr (Inl (NewCmdNotFoundError ''Failed to get resource: %s'' [FStr (gr_Resource cmd)]), c)
      | Some a \<Rightarrow>
          handleR (Resource_ToPB (gr_Resource cmd) (rm_res (cd_resMgr c) a))
            (\<lambda>err. bindR (WrapCmdError ErrorCode_DecodeFail (Some err)) (\<lambda>e. Inr (Inl e, c)))
            (\<lambda>respMsg. Inr (Inr respMsg, c)))"

definition CmdDispatcher_GetResource :: "'m world \<Rightarrow> byte list \<Rightarrow> 'm CmdDispatcher \<Rightarrow> ('m, Message) cmd_result" where
  "CmdDispatcher_GetResource w body c =
     with_body (GetResCmd_Unmarshal (w_T w) GetResCmd_zero body)
       (\<lambda>cmd. as_msg (\<lambda>r. Msg_Resource (Some r)) (GetResourcePbCmd w cmd c)) c"

section \<open>Meow\<close>

text \<open>
  Node information of every member; members whose information cannot be had are left out.  A nil member
  is dereferenced.
\<close>

fun meow_nodes :: "raft_member option list \<Rightarrow> 'm ResourceManager \<Rightarrow> (NodeInfo option list \<times> 'm ResourceManager) res" where
  "meow_nodes [] rm = Inr ([], rm)"
| "meow_nodes (None # ms) rm = Inl nil_deref"
| "meow_nodes (Some m # ms) rm =
     (let i = ucast (mb_ID m);
          (r, np) = (if rm_AtSameNode i rm then Prober_GetCurNodeInfo (rm_nodeProber rm)
                     else Prober_GetPeerNodeInfo i (rm_nodeProber rm));
          rm = rm\<lparr>rm_nodeProber := np\<rparr>
      in case r of
           Inl err \<Rightarrow> meow_nodes ms rm
         | Inr nodeInfo \<Rightarrow> bindR (meow_nodes ms rm) (\<lambda>(infos, rm). Inr (Some nodeInfo # infos, rm)))"

definition CmdDispatcher_Meow :: "byte list \<Rightarrow> 'm CmdDispatcher \<Rightarrow> ('m, Message) cmd_result" where
  "CmdDispatcher_Meow body c =
     (let rm = cd_resMgr c; nodeId = rm_CurNodeID rm
      in if \<not> cc_Enabled (cf_Cluster (cd_cfg c)) then
           Inr (Inr (Msg_MeowCmdResp (Some \<lparr>mr_NodeId = nodeId, mr_Nodes =
             [Some \<lparr>ni_Id = 0, ni_Name = [], ni_ApiEndpoint = u_String (cf_ApiAdvertiseUrl (cd_cfg c)), ni_GrpcEndpoint = [],
                    ni_Type = [], ni_Leader = True, ni_Active = True, ni_ActiveSince = TimeToTimestamp (cd_initTime c)\<rparr>]\<rparr>)), c)
         else
           bindR (meow_nodes (Prober_GetNodeMembers (rm_nodeProber rm)) rm) (\<lambda>(infos, rm).
             Inr (Inr (Msg_MeowCmdResp (Some \<lparr>mr_NodeId = nodeId, mr_Nodes = infos\<rparr>)), c\<lparr>cd_resMgr := rm\<rparr>)))"

section \<open>The dispatcher\<close>

definition NewCmdDispatcher :: "instant \<Rightarrow> Config \<Rightarrow> 'm ResourceManager \<Rightarrow> 'm CmdDispatcher" where
  "NewCmdDispatcher now cfg rs = \<lparr>cd_cfg = cfg, cd_resMgr = rs, cd_initTime = now\<rparr>"

definition CmdDispatcher_cmds :: "'m world \<Rightarrow> (string \<times> (byte list \<Rightarrow> 'm CmdDispatcher \<Rightarrow> ('m, Message) cmd_result)) list" where
  "CmdDispatcher_cmds w =
     [(''Meow'', CmdDispatcher_Meow), (''Allow'', CmdDispatcher_Allow w),
      (''GetRes'', CmdDispatcher_GetResource w), (''RegRes'', CmdDispatcher_RegisterResource w)]"

text \<open>A nil header is dereferenced.\<close>

fun CmdDispatcher_Process :: "'m world \<Rightarrow> CmdHeader option \<Rightarrow> byte list \<Rightarrow> 'm CmdDispatcher \<Rightarrow> ('m, Message) cmd_result" where
  "CmdDispatcher_Process w None body c = Inl nil_deref"
| "CmdDispatcher_Process w (Some header) body c =
     (case map_of (CmdDispatcher_cmds w) (ch_Cmd header) of
        None \<Rightarrow> Inr (Inl (NewCmdProcessFailError ''Invalid command: %s'' [FStr (ch_Cmd header)]), c)
      | Some handler \<Rightarrow> handler body c)"

end
