(* ===== verification/CmdLaws.thy ===== *)
theory CmdLaws
  imports Replication Cmd
begin

text \<open>
  What the commands do to the store.  Every operation of the manager and of the dispatcher keeps the
  store's invariant \<open>rm_inv\<close> (it is well-formed and every stored resource has a limiter), so it holds in
  every state the step relation \<open>disp_run\<close> reaches, however commands, log entries, snapshots and probes
  interleave.  A command on a local resource changes that resource and no other.
\<close>

section \<open>Updates that are not store operations\<close>

lemma rm_view_cong: "rm_store rm = rm_store rm' \<Longrightarrow> rm_heap rm = rm_heap rm' \<Longrightarrow> rm_view M rm = rm_view M rm'"
  by (simp add: rm_view_def [abs_def] cong: option.case_cong)

lemma rm_wf_cong:
  "rm_store rm = rm_store rm' \<Longrightarrow> rm_heap rm = rm_heap rm' \<Longrightarrow> rm_nodeStore rm = rm_nodeStore rm' \<Longrightarrow>
   rm_next rm = rm_next rm' \<Longrightarrow> rm_wf M rm = rm_wf M rm'"
  by (simp add: rm_wf_def)

lemma prober_law [simp]:
  "rm_wf M (rm\<lparr>rm_nodeProber := np\<rparr>) = rm_wf M rm" "rm_view M (rm\<lparr>rm_nodeProber := np\<rparr>) = rm_view M rm"
  "rm_wf M (rm\<lparr>rm_ready := r\<rparr>) = rm_wf M rm" "rm_view M (rm\<lparr>rm_ready := r\<rparr>) = rm_view M rm"
  by (rule rm_wf_cong rm_view_cong; simp)+

text \<open>An object nobody refers to yet.\<close>

lemma rm_new_law:
  assumes "rm_wf M rm"
  shows "rm_wf M (snd (rm_new res rm))" "rm_view M (snd (rm_new res rm)) = rm_view M rm"
    "rm_heap (snd (rm_new res rm)) (rm_next rm) = Some res"
proof -
  have ne: "a \<noteq> rm_next rm" if "sw_Get M (rm_store rm) n = Some a" for n a
    using rm_wfD(2) [OF assms that] by simp
  show "rm_wf M (snd (rm_new res rm))" unfolding rm_wf_def
    using rm_wfD [OF assms] by (auto simp: rm_new_def intro: less_SucI)
  show "rm_view M (snd (rm_new res rm)) = rm_view M rm"
    using ne by (auto simp: fun_eq_iff rm_view_def rm_new_def split: option.split)
qed (simp add: rm_new_def)

lemma put_standalone_law:
  assumes "rm_wf M rm"
  shows "\<exists>rm'. put_standalone M now name l rm = Inr ((rm_next rm, None, []), rm') \<and> rm_wf M rm' \<and>
    rm_view M rm' = (rm_view M rm)(name \<mapsto> newResource now (rm_CurNodeID rm) l) \<and>
    rm_res rm' (rm_next rm) = newResource now (rm_CurNodeID rm) l \<and> rm_nodeProber rm' = rm_nodeProber rm"
proof -
  let ?res = "newResource now (rm_CurNodeID rm) l"
  let ?s = "(snd (rm_new ?res rm))\<lparr>rm_store := sw_Put M (rm_store rm) name (rm_next rm)\<rparr>"
  note M = rm_wfD(1) [OF assms]
  have put: "put_standalone M now name l rm = Inr ((rm_next rm, None, []), ?s)"
    by (simp add: put_standalone_def rm_new_def)
  have parts: "rm_store ?s = sw_Put M (rm_store rm) name (rm_next rm)" "rm_next ?s = Suc (rm_next rm)"
    "rm_heap ?s = (rm_heap rm)(rm_next rm \<mapsto> ?res)" "rm_nodeStore ?s = rm_nodeStore rm"
    by (simp_all add: rm_new_def)
  have ne: "a \<noteq> rm_next rm" if "sw_Get M (rm_store rm) n = Some a" for n a
    using rm_wfD(2) [OF assms that] by simp
  have "rm_wf M ?s" unfolding rm_wf_def parts swiss_okD(2) [OF M]
    using rm_wfD [OF assms] ne by (auto split: if_splits intro: less_SucI)
  moreover have "rm_view M ?s = (rm_view M rm)(name \<mapsto> ?res)"
    using ne by (auto simp: fun_eq_iff rm_view_def parts swiss_okD(2) [OF M] split: option.split)
  ultimately show ?thesis using put by (simp add: rm_res_def parts) (simp add: rm_new_def)
qed

lemma remove_standalone_law:
  assumes "rm_wf M rm"
  shows "rm_wf M (rm\<lparr>rm_store := sw_Delete M (rm_store rm) name\<rparr>)"
    "rm_view M (rm\<lparr>rm_store := sw_Delete M (rm_store rm) name\<rparr>) = (rm_view M rm)(name := None)"
  unfolding rm_wf_def using rm_wfD [OF assms]
  by (auto simp: fun_eq_iff rm_view_def swiss_okD(3) [OF rm_wfD(1) [OF assms]] split: if_splits option.split)

text \<open>Writing to the object a name refers to changes that name's resource and no other's.\<close>

lemma rm_write_law:
  assumes "rm_wf M rm" "sw_Get M (rm_store rm) name = Some a"
  shows "rm_wf M (rm_write a res rm)" "rm_view M (rm_write a res rm) = (rm_view M rm)(name \<mapsto> res)"
proof -
  have other: "b \<noteq> a" if "sw_Get M (rm_store rm) n = Some b" "n \<noteq> name" for n b
    using rm_wfD(4) [OF assms] that by blast
  show "rm_wf M (rm_write a res rm)" unfolding rm_wf_def
    using rm_wfD [OF assms(1)] by (auto simp: rm_write_def)
  show "rm_view M (rm_write a res rm) = (rm_view M rm)(name \<mapsto> res)"
    using assms(2) other by (auto simp: fun_eq_iff rm_view_def rm_write_def split: option.split)
qed

section \<open>The invariant\<close>

definition rm_inv :: "'m swiss_ops \<Rightarrow> 'm ResourceManager \<Rightarrow> bool" where
  "rm_inv M rm \<longleftrightarrow> rm_wf M rm \<and> (\<forall>n res. rm_view M rm n = Some res \<longrightarrow> res_Limiter res \<noteq> None)"

lemma rm_invI: "rm_wf M rm \<Longrightarrow> (\<And>n res. rm_view M rm n = Some res \<Longrightarrow> res_Limiter res \<noteq> None) \<Longrightarrow> rm_inv M rm"
  by (simp add: rm_inv_def)

lemma rm_invD: "rm_inv M rm \<Longrightarrow> rm_wf M rm" "rm_inv M rm \<Longrightarrow> rm_view M rm n = Some res \<Longrightarrow> res_Limiter res \<noteq> None"
  by (auto simp: rm_inv_def)

lemma rm_inv_prober [simp]:
  "rm_inv M (rm\<lparr>rm_nodeProber := np\<rparr>) = rm_inv M rm" "rm_inv M (rm\<lparr>rm_ready := r\<rparr>) = rm_inv M rm"
  by (simp_all add: rm_inv_def)

lemma rm_inv_new: "swiss_ok M \<Longrightarrow> rm_inv M (NewResourceManager M cfg np)"
  by (simp add: rm_inv_def rm_wf_new rm_view_new)

text \<open>A store operation keeps it when the resources it puts have limiters.\<close>

fun op_ok :: "store_op \<Rightarrow> bool" where
  "op_ok (OpPut name res) = (res_Limiter res \<noteq> None)"
| "op_ok _ = True"

lemma step_inv: "rm_inv M rm \<Longrightarrow> op_ok oper \<Longrightarrow> rm_inv M (rm_step M oper rm)"
  using mgr.step_refines [of M rm oper]
  by (cases oper) (auto simp: rm_inv_def split: if_splits option.splits)

lemma retarget_inv: "rm_inv M rm \<Longrightarrow> rm_inv M (rm_updateResourceNodeId M name dst rm)"
  using step_inv [of M rm "OpRetarget name dst"] by simp

lemma newResourceFromPB_limiter: "newResourceFromPB H now p = Inr res \<Longrightarrow> res_Limiter res \<noteq> None"
  by (auto simp: newResourceFromPB_def bindR_Inr_iff split: option.splits simp del: NewLimiterFromResPB.simps)

lemma entry_op_ok: "entry_op T F H now data = Inr (Some oper) \<Longrightarrow> op_ok oper"
  by (clarsimp simp: entry_op_def handleR_Inr_iff)
    (clarsimp split: sum.split_asm option.split_asm, clarsimp simp: action_op_def split: if_split_asm,
      auto simp: handleR_Inr_iff newResourceFromPB_limiter)

lemma Apply_inv: "rm_inv M rm \<Longrightarrow> rm_Apply M T F H now data rm = Inr rm' \<Longrightarrow> rm_inv M rm'"
  using entry_op_ok step_inv by (fastforce simp: Apply_op bindR_Inr_iff opt_step_def split: option.splits)

lemma restore_loop_inv: "rm_inv M rm \<Longrightarrow> restore_loop M H now es rm = Inr (e, rm') \<Longrightarrow> rm_inv M rm'"
proof (induction es arbitrary: rm)
  case (Cons x es)
  have put: "rm_inv M (rm_putResource M name res rm)" if "newResourceFromPB H now p = Inr res" for name res p
    using step_inv [OF Cons.prems(1), of "OpPut name res"] newResourceFromPB_limiter [OF that] by simp
  show ?case using Cons.prems Cons.IH put
    by (auto simp: handleR_Inr_iff split: option.splits)
qed simp

lemma Restore_inv: "rm_inv M rm \<Longrightarrow> rm_Restore M T H now buf rm = Inr (e, rm') \<Longrightarrow> rm_inv M rm'"
  by (auto simp: rm_Restore_def handleR_Inr_iff dest: restore_loop_inv)

lemma put_standalone_inv:
  assumes "rm_inv M rm" "put_standalone M now name (Some l) rm = Inr (r, rm')"
  shows "rm_inv M rm'"
  using put_standalone_law [OF rm_invD(1) [OF assms(1)], of now name "Some l"] assms
  by (auto simp: rm_inv_def newResource_def split: if_splits)

lemma put_replicated_parts:
  "put_replicated T eid now name l i rm = Inr (r, rm') \<Longrightarrow> rm' = snd (rm_new (newResource now i l) rm)"
  by (auto simp: put_replicated_def Let_def handleR_Inr_iff bindR_Inr_iff split: prod.splits)

lemma put_replicated_inv:
  "rm_inv M rm \<Longrightarrow> put_replicated T eid now name l i rm = Inr (r, rm') \<Longrightarrow> rm_inv M rm'"
  using rm_new_law(1,2) [of M rm] by (auto simp: rm_inv_def dest!: put_replicated_parts)

lemma PutResource_inv:
  "rm_inv M rm \<Longrightarrow> rm_PutResource M T eid now name (Some l) rm = Inr (r, rm') \<Longrightarrow> rm_inv M rm'"
  by (auto simp: rm_PutResource_def split: if_splits intro: put_standalone_inv put_replicated_inv)

lemma RemoveResource_inv:
  "rm_inv M rm \<Longrightarrow> rm_RemoveResource M T eid now name rm = Inr (r, rm') \<Longrightarrow> rm_inv M rm'"
  using remove_standalone_law [of M rm name]
  by (auto simp: rm_RemoveResource_def rm_inv_def handleR_Inr_iff bindR_Inr_iff split: if_splits)

lemma UpdateResourceNodeId_inv:
  "rm_inv M rm \<Longrightarrow> rm_UpdateResourceNodeId M T eid now name i rm = Inr (r, rm') \<Longrightarrow> rm_inv M rm'"
  by (auto simp: rm_UpdateResourceNodeId_def bindR_Inr_iff retarget_inv split: if_splits)

lemma moveNodeResources_inv:
  "rm_inv M rm \<Longrightarrow> rm_moveNodeResources M T eids now upd i rm = Inr (bufs, rm') \<Longrightarrow> rm_inv M rm'"
  by (clarsimp simp: rm_moveNodeResources_def bindR_Inr_iff)
    (clarsimp simp: Let_def bindR_Inr_iff split: option.split_asm)

lemma Ready_inv: "rm_inv M rm \<Longrightarrow> rm_Ready rm = Inr rm' \<Longrightarrow> rm_inv M rm'"
  by (auto simp: rm_Ready_def bindR_Inr_iff)

section \<open>Allow\<close>

definition ac_count :: "AllowCmd \<Rightarrow> u32" where
  "ac_count cmd = (if ac_Events cmd = 0 then 1 else ac_Events cmd)"

text \<open>What the manager looks like after a grant or a denial of a local resource.\<close>

lemma AllowPbCmd_local:
  assumes "rm_wf (w_M w) (cd_resMgr c)" "ac_Resource cmd \<noteq> []"
    and "rm_view (w_M w) (cd_resMgr c) (ac_Resource cmd) = Some res"
    and "rm_AtSameNode (res_NodeID res) (cd_resMgr c)" "res_Limiter res = Some l"
  shows "\<exists>rm'. AllowPbCmd w cmd c =
      Inr (Inr \<lparr>ar_Redirected = False, ar_NodeId = res_NodeID res, ar_Ok = fst (Limiter_Allow (w_now w) (ac_count cmd) l)\<rparr>,
           c\<lparr>cd_resMgr := rm'\<rparr>) \<and> rm_wf (w_M w) rm' \<and>
    rm_view (w_M w) rm' = (rm_view (w_M w) (cd_resMgr c))
      (ac_Resource cmd \<mapsto> res\<lparr>res_Limiter := Some (snd (Limiter_Allow (w_now w) (ac_count cmd) l))\<rparr>) \<and>
    rm_nodeProber rm' = rm_nodeProber (cd_resMgr c)"
proof -
  let ?rm = "cd_resMgr c" and ?r = "Limiter_Allow (w_now w) (ac_count cmd) l"
  obtain a where a: "sw_Get (w_M w) (rm_store ?rm) (ac_Resource cmd) = Some a" "rm_res ?rm a = res"
    using assms(3) by (auto simp: rm_view_def rm_res_def split: option.splits)
  let ?rm' = "rm_write a (res\<lparr>res_Limiter := Some (snd ?r)\<rparr>) ?rm"
  have count: "ac_Events (if ac_Events cmd = 0 then cmd\<lparr>ac_Events := 1\<rparr> else cmd) = ac_count cmd"
    by (simp add: ac_count_def)
  have "AllowPbCmd w cmd c = Inr (Inr \<lparr>ar_Redirected = False, ar_NodeId = res_NodeID res, ar_Ok = fst ?r\<rparr>,
      c\<lparr>cd_resMgr := ?rm'\<rparr>)"
    using assms(2,4,5) a
    by (simp add: AllowPbCmd_def rm_GetResource_def Let_def count Suc_le_eq split_beta)
  then show ?thesis
    using rm_write_law [OF assms(1) a(1)]
    by (intro exI [of _ ?rm']) (simp add: rm_write_def)
qed

lemma AllowPbCmd_cases:
  assumes "AllowPbCmd w cmd c = Inr (r, c')"
  shows "c' = c \<or> (\<exists>a res l l'. sw_Get (w_M w) (rm_store (cd_resMgr c)) (ac_Resource cmd) = Some a \<and>
    res = rm_res (cd_resMgr c) a \<and> res_Limiter res = Some l \<and>
    c' = c\<lparr>cd_resMgr := rm_write a (res\<lparr>res_Limiter := Some l'\<rparr>) (cd_resMgr c)\<rparr>)"
  using assms
  by (auto simp: AllowPbCmd_def rm_GetResource_def Let_def bindR_Inr_iff
      split: if_split_asm option.split_asm sum.split_asm prod.split_asm)

lemma AllowPbCmd_inv:
  assumes "rm_inv (w_M w) (cd_resMgr c)" "AllowPbCmd w cmd c = Inr (r, c')"
  shows "rm_inv (w_M w) (cd_resMgr c')"
  using AllowPbCmd_cases [OF assms(2)]
proof (elim disjE exE conjE)
  fix a res l l'
  assume a: "sw_Get (w_M w) (rm_store (cd_resMgr c)) (ac_Resource cmd) = Some a"
    "c' = c\<lparr>cd_resMgr := rm_write a (res\<lparr>res_Limiter := Some l'\<rparr>) (cd_resMgr c)\<rparr>"
  show ?thesis
    using assms(1) rm_write_law [OF rm_invD(1) [OF assms(1)] a(1)]
    by (auto simp: a(2) rm_inv_def split: if_splits)
qed (use assms(1) in simp)

lemma AllowPbCmd_other:
  assumes "rm_wf (w_M w) (cd_resMgr c)" "AllowPbCmd w cmd c = Inr (r, c')" "ac_Resource cmd \<noteq> name"
  shows "rm_wf (w_M w) (cd_resMgr c') \<and> rm_view (w_M w) (cd_resMgr c') name = rm_view (w_M w) (cd_resMgr c) name \<and>
    rm_nodeProber (cd_resMgr c') = rm_nodeProber (cd_resMgr c)"
  using AllowPbCmd_cases [OF assms(2)]
proof (elim disjE exE conjE)
  fix a res l l'
  assume a: "sw_Get (w_M w) (rm_store (cd_resMgr c)) (ac_Resource cmd) = Some a"
    "c' = c\<lparr>cd_resMgr := rm_write a (res\<lparr>res_Limiter := Some l'\<rparr>) (cd_resMgr c)\<rparr>"
  show ?thesis using rm_write_law [OF assms(1) a(1)] assms(3) by (simp add: a(2)) (simp add: rm_write_def)
qed (use assms(1) in simp)

text \<open>Where the store's invariant holds, the handler returns an answer or a command error.\<close>

lemma AllowPbCmd_returns:
  assumes "rm_GetResource (w_M w) (ac_Resource cmd) (cd_resMgr c) = Some a"
    and "res_Limiter (rm_res (cd_resMgr c) a) = Some l"
  shows "\<not> isl (AllowPbCmd w cmd c)"
  unfolding AllowPbCmd_def Let_def assms(1) option.case
  apply (split if_split)
  apply (intro conjI impI)
   apply simp
  apply (simp only: assms(2) option.case split_beta)
  apply (split if_split)
  apply (auto simp: not_less split: sum.split)
  done

lemma AllowPbCmd_total:
  assumes "rm_inv (w_M w) (cd_resMgr c)"
  shows "\<exists>r c'. AllowPbCmd w cmd c = Inr (r, c')"
proof -
  have "\<not> isl (AllowPbCmd w cmd c)"
  proof (cases "rm_GetResource (w_M w) (ac_Resource cmd) (cd_resMgr c)")
    case None
    then show ?thesis by (simp add: AllowPbCmd_def Let_def)
  next
    case (Some a)
    then have "rm_view (w_M w) (cd_resMgr c) (ac_Resource cmd) = Some (rm_res (cd_resMgr c) a)"
      using rm_view_Some [OF rm_invD(1) [OF assms]] by (simp add: rm_GetResource_def)
    then obtain l where "res_Limiter (rm_res (cd_resMgr c) a) = Some l" using rm_invD(2) [OF assms] by blast
    then show ?thesis by (rule AllowPbCmd_returns [OF Some])
  qed
  then show ?thesis by (cases "AllowPbCmd w cmd c") auto
qed

section \<open>Every operation keeps the invariant\<close>

text \<open>A registration leaves the dispatcher alone or puts a resource with a limiter.\<close>

lemma RegisterResourcePbCmd_cases:
  assumes "RegisterResourcePbCmd w cmd c = Inr (r, c')"
  shows "c' = c \<or> (\<exists>l r' rm. rm_PutResource (w_M w) (w_T w) (w_eid w) (w_now w) (rc_Resource cmd) (Some l) (cd_resMgr c) = Inr (r', rm) \<and>
    c' = c\<lparr>cd_resMgr := rm\<rparr>)"
proof (cases "if rc_Override cmd then None else rm_GetResource (w_M w) (rc_Resource cmd) (cd_resMgr c)")
  case (Some a)
  then show ?thesis using assms by (simp add: RegisterResourcePbCmd_def Let_def)
next
  case None
  show ?thesis
  proof (cases "RegResCmd_GetTokenBucket (Some cmd)")
    case none: None
    then show ?thesis using assms None
      by (simp add: RegisterResourcePbCmd_def Let_def) (auto split: if_split_asm)
  next
    case (Some params)
    show ?thesis using assms None Some
      by (simp add: RegisterResourcePbCmd_def Let_def bindR_Inr_iff split_beta split: if_split_asm)
        (force split: if_split_asm simp: bindR_Inr_iff)+
  qed
qed

lemma RegisterResourcePbCmd_inv:
  "rm_inv (w_M w) (cd_resMgr c) \<Longrightarrow> RegisterResourcePbCmd w cmd c = Inr (r, c') \<Longrightarrow> rm_inv (w_M w) (cd_resMgr c')"
  using RegisterResourcePbCmd_cases [of w cmd c r c'] by (auto dest: PutResource_inv)

lemma meow_nodes_parts:
  "meow_nodes ms rm = Inr (infos, rm') \<Longrightarrow> \<exists>np. rm' = rm\<lparr>rm_nodeProber := np\<rparr>"
proof (induction ms rm arbitrary: infos rm' rule: meow_nodes.induct)
  case (1 rm)
  then show ?case by (auto intro: exI [of _ "rm_nodeProber rm"])
next
  case (3 m ms rm)
  obtain r np where r: "(if rm_AtSameNode (ucast (mb_ID m)) rm then Prober_GetCurNodeInfo (rm_nodeProber rm)
      else Prober_GetPeerNodeInfo (ucast (mb_ID m)) (rm_nodeProber rm)) = (r, np)" by (metis surj_pair)
  have "\<exists>infos. meow_nodes ms (rm\<lparr>rm_nodeProber := np\<rparr>) = Inr (infos, rm')"
    using "3.prems" by (cases r) (auto simp: r Let_def bindR_Inr_iff)
  then have "\<exists>np'. rm' = rm\<lparr>rm_nodeProber := np, rm_nodeProber := np'\<rparr>"
    using "3.IH" r by (cases r) (fastforce simp: Let_def)+
  then show ?case by auto
qed simp

lemma Process_inv:
  assumes "rm_inv (w_M w) (cd_resMgr c)" "CmdDispatcher_Process w header body c = Inr (r, c')"
  shows "rm_inv (w_M w) (cd_resMgr c')"
proof (cases header)
  case None
  then show ?thesis using assms(2) by simp
next
  case (Some h)
  have allow: "rm_inv (w_M w) (cd_resMgr c')" if "CmdDispatcher_Allow w body c = Inr (r, c')" for r c'
    using that assms(1)
    by (auto simp: CmdDispatcher_Allow_def with_body_def as_msg_def handleR_Inr_iff bindR_Inr_iff dest: AllowPbCmd_inv)
  have reg: "rm_inv (w_M w) (cd_resMgr c')" if "CmdDispatcher_RegisterResource w body c = Inr (r, c')" for r c'
    using that assms(1)
    by (auto simp: CmdDispatcher_RegisterResource_def with_body_def as_msg_def handleR_Inr_iff bindR_Inr_iff
        dest: RegisterResourcePbCmd_inv)
  have get: "rm_inv (w_M w) (cd_resMgr c')" if "CmdDispatcher_GetResource w body c = Inr (r, c')" for r c'
    using that assms(1)
    by (auto simp: CmdDispatcher_GetResource_def GetResourcePbCmd_def with_body_def as_msg_def handleR_Inr_iff
        bindR_Inr_iff split: option.split_asm)
  have meow: "rm_inv (w_M w) (cd_resMgr c')" if "CmdDispatcher_Meow body c = Inr (r, c')" for r c'
    using that assms(1)
    by (auto simp: CmdDispatcher_Meow_def Let_def bindR_Inr_iff dest!: meow_nodes_parts split: if_split_asm)
  show ?thesis using assms allow reg get meow
    by (auto simp: Some CmdDispatcher_cmds_def split: option.split_asm if_split_asm)
qed

text \<open>
  The dispatcher over time: commands from clients and from other nodes, log entries and snapshots from
  raft, probes, and the calls the cluster server makes, in any order.
\<close>

inductive disp_run :: "'m swiss_ops \<Rightarrow> 'm CmdDispatcher \<Rightarrow> bool" for M where
  start: "disp_run M (NewCmdDispatcher now cfg (NewResourceManager M cfg np))"
| command: "disp_run M c \<Longrightarrow> w_M w = M \<Longrightarrow> CmdDispatcher_Process w header body c = Inr (r, c') \<Longrightarrow> disp_run M c'"
| forwarded_allow: "disp_run M c \<Longrightarrow> w_M w = M \<Longrightarrow> AllowPbCmd w allow c = Inr (r, c') \<Longrightarrow> disp_run M c'"
| forwarded_reg: "disp_run M c \<Longrightarrow> w_M w = M \<Longrightarrow> RegisterResourcePbCmd w reg c = Inr (r, c') \<Longrightarrow> disp_run M c'"
| apply_entry: "disp_run M c \<Longrightarrow> rm_Apply M T F H now data (cd_resMgr c) = Inr rm \<Longrightarrow> disp_run M (c\<lparr>cd_resMgr := rm\<rparr>)"
| restore: "disp_run M c \<Longrightarrow> rm_Restore M T H now buf (cd_resMgr c) = Inr (e, rm) \<Longrightarrow> disp_run M (c\<lparr>cd_resMgr := rm\<rparr>)"
| remove: "disp_run M c \<Longrightarrow> rm_RemoveResource M T eid now name (cd_resMgr c) = Inr (r, rm) \<Longrightarrow> disp_run M (c\<lparr>cd_resMgr := rm\<rparr>)"
| retarget: "disp_run M c \<Longrightarrow> rm_UpdateResourceNodeId M T eid now name i (cd_resMgr c) = Inr (r, rm) \<Longrightarrow> disp_run M (c\<lparr>cd_resMgr := rm\<rparr>)"
| move: "disp_run M c \<Longrightarrow> rm_moveNodeResources M T eids now upd i (cd_resMgr c) = Inr (bufs, rm) \<Longrightarrow> disp_run M (c\<lparr>cd_resMgr := rm\<rparr>)"
| ready: "disp_run M c \<Longrightarrow> rm_Ready (cd_resMgr c) = Inr rm \<Longrightarrow> disp_run M (c\<lparr>cd_resMgr := rm\<rparr>)"
| stop: "disp_run M c \<Longrightarrow> disp_run M (c\<lparr>cd_resMgr := rm_Stop (cd_resMgr c)\<rparr>)"
| probe: "disp_run M c \<Longrightarrow> disp_run M (c\<lparr>cd_resMgr := (cd_resMgr c)\<lparr>rm_nodeProber := np\<rparr>\<rparr>)"

lemma disp_run_inv: "disp_run M c \<Longrightarrow> swiss_ok M \<Longrightarrow> rm_inv M (cd_resMgr c)"
proof (induction rule: disp_run.induct)
  case (start now cfg np)
  then show ?case by (simp add: NewCmdDispatcher_def rm_inv_new)
next
  case (stop c)
  then show ?case by (simp add: rm_Stop_def)
qed (auto intro: Process_inv AllowPbCmd_inv RegisterResourcePbCmd_inv Apply_inv Restore_inv RemoveResource_inv
    UpdateResourceNodeId_inv moveNodeResources_inv Ready_inv)

end
