(* ===== verification/CommandReturns.thy ===== *)
theory CommandReturns
  imports CmdLaws ProtoReturns
begin

text \<open>
  Every command comes back, with a response, a command error or a panic: no handler runs for ever or
  blocks, whatever the body holds and whatever state the node is in.
\<close>

section \<open>Helpers\<close>

lemma returns_constructors [returns_intros]:
  "returns (WrapCmdError code err)" "returns (AssignLimiterToResPB resPB l)" "returns (NewTokenBucketLimiter cv now rate burst)"
  by (cases err) (auto simp: AssignLimiterToResPB_def ErrUnknownLimiterType_def NewTokenBucketLimiter_def NewTokenBucket_def
      int64_div_def Let_def intro!: returns_intros)

lemma returns_Resource_ToPB [returns_intros]: "returns (Resource_ToPB name res)"
  by (auto simp: Resource_ToPB_def Let_def split: option.split intro!: returns_intros)

lemma returns_entries [returns_intros]: "returns (newEntryPBWithRes eid now name action src res)"
  by (auto simp: newEntryPBWithRes_def Let_def split: option.split intro!: returns_intros)

lemma returns_replicateEntryPB [returns_intros]: "ts_returns T \<Longrightarrow> returns (replicateEntryPB T entryPB rm)"
  by (auto simp: replicateEntryPB_def Entry_Marshal_def split: option.split intro!: returns_intros)

lemma returns_PutResource [returns_intros]: "ts_returns T \<Longrightarrow> returns (rm_PutResource M T eid now name limiter rm)"
  unfolding rm_PutResource_def put_standalone_def put_replicated_def rm_new_def Let_def
  by (auto intro!: returns_intros)

lemma returns_with_body [returns_intros]: "returns r \<Longrightarrow> (\<And>x. returns (k x)) \<Longrightarrow> returns (with_body r k c)"
  by (auto simp: with_body_def intro!: returns_intros)

lemma returns_as_msg [returns_intros]: "returns r \<Longrightarrow> returns (as_msg f r)"
  by (auto simp: as_msg_def intro!: returns_intros)

section \<open>Handlers\<close>

lemma returns_AllowPbCmd [returns_intros]: "returns (AllowPbCmd w cmd c)"
  unfolding AllowPbCmd_def Let_def
  by (auto split: option.split sum.split prod.split intro!: returns_intros)

lemma returns_RegisterResourcePbCmd [returns_intros]: "ts_returns (w_T w) \<Longrightarrow> returns (RegisterResourcePbCmd w cmd c)"
  unfolding RegisterResourcePbCmd_def Let_def
  by (auto split: option.split intro!: returns_intros)

lemma returns_GetResourcePbCmd [returns_intros]: "returns (GetResourcePbCmd w cmd c)"
  unfolding GetResourcePbCmd_def by (auto split: option.split intro!: returns_intros)

lemma returns_meow_nodes [returns_intros]: "returns (meow_nodes ms rm)"
  by (induction ms rm rule: meow_nodes.induct)
    (auto simp: Let_def split: prod.split sum.split intro!: returns_intros)

lemma returns_Meow: "returns (CmdDispatcher_Meow body c)"
  by (auto simp: CmdDispatcher_Meow_def Let_def intro!: returns_intros)

lemma returns_Process:
  assumes "ts_safe (w_T w)" "ts_returns (w_T w)" "length body < 2 ^ 63"
  shows "returns (CmdDispatcher_Process w header body c)"
proof (cases header)
  case (Some h)
  have "returns (CmdDispatcher_Allow w body c)" "returns (CmdDispatcher_GetResource w body c)"
    "returns (CmdDispatcher_RegisterResource w body c)"
    unfolding CmdDispatcher_Allow_def CmdDispatcher_GetResource_def CmdDispatcher_RegisterResource_def
    by (intro returns_intros safe_returns AllowCmd_reader.Unmarshal_safe GetResCmd_reader.Unmarshal_safe
        RegResCmd_reader.Unmarshal_safe assms)+
  then show ?thesis using Some returns_Meow [of body c]
    by (simp add: CmdDispatcher_cmds_def del: CmdDispatcher_Process.simps add: CmdDispatcher_Process.simps(2))
qed simp

lemma returns_proto_Marshal [returns_intros]: "ts_returns T \<Longrightarrow> returns (proto_Marshal T m)"
  by (cases m) (auto simp: CmdError_Marshal_def MeowCmdResp_Marshal_def AllowCmd_Marshal_def AllowCmdResp_Marshal_def
      RegResCmd_Marshal_def RegResCmdResp_Marshal_def GetResCmd_Marshal_def Resource_Marshal_def intro!: returns_intros)

end
