(* ===== verification/Server.thy ===== *)
theory Server
  imports CommandReturns
begin

text \<open>
  The API server's event handler (\<^verbatim>\<open>internal/server/api/event_handler.go\<close>): how bytes received on a
  connection become commands, and their results the bytes sent back.  The loop of \<^verbatim>\<open>OnTraffic\<close> need
  not end, so it runs on fuel; \<open>ws i\<close> is the world of its \<open>i\<close>-th iteration and \<open>submit i\<close> the worker
  pool's answer there.  Commands given to the pool are kept as tasks, each run by its own step.
\<close>

datatype gnet_Action = gnet_None | gnet_Close

record task =
  tk_header :: "CmdHeader option"
  tk_data :: "byte list"

record 'm tcpEventHandler =
  h_cfg :: Config
  h_disp :: "'m CmdDispatcher"
  h_metric :: Metrics
  h_workerPool :: bool
  h_tasks :: "task list"

definition newTCPEventHandler :: "Config \<Rightarrow> 'm CmdDispatcher \<Rightarrow> Metrics \<Rightarrow> 'm tcpEventHandler" where
  "newTCPEventHandler cfg disp metric =
     \<lparr>h_cfg = cfg, h_disp = disp, h_metric = metric, h_workerPool = cf_WorkerPool cfg, h_tasks = []\<rparr>"

section \<open>Errors\<close>

text \<open>
  \<^verbatim>\<open>errors.Is\<close> compares an error with a sentinel.  The sentinels of the codec are values of
  \<^verbatim>\<open>errors.New\<close>, told apart by their variable; a \<^verbatim>\<open>*pb.CmdError\<close> is another type, has neither an
  \<^verbatim>\<open>Is\<close> nor an \<^verbatim>\<open>Unwrap\<close> method, and so is none of them, nil or not.
\<close>

datatype go_error = CmdErrorPtr "CmdError option" | ErrIncompletePacket | ErrInvalidMagicNum | ErrInvalidMsg

definition errors_Is :: "go_error \<Rightarrow> go_error \<Rightarrow> bool" where
  "errors_Is err target \<longleftrightarrow> err = target"

section \<open>Responses\<close>

definition tcp_respCmdError :: "'c gnet_Conn \<Rightarrow> ts_codec \<Rightarrow> string \<Rightarrow> 'c \<Rightarrow> 'c res" where
  "tcp_respCmdError G T msg c =
     handleR (CmdError_Marshal T (Some \<lparr>ce_Code = 0, ce_Msg = msg\<rparr>))
       (\<lambda>err. Inr (snd (gc_Writev G c (EncodeCmdResp CmdRespErrorMagicNum None))))
       (\<lambda>resp. Inr (snd (gc_Writev G c (EncodeCmdResp CmdRespErrorMagicNum (Some resp)))))"

text \<open>\<^verbatim>\<open>process\<close>: an error is sent back with its text only; a response that does not marshal is sent empty.\<close>

definition tcp_process :: "'m world \<Rightarrow> CmdHeader option \<Rightarrow> byte list \<Rightarrow> 'm CmdDispatcher \<Rightarrow>
  (byte list list \<times> 'm CmdDispatcher) res" where
  "tcp_process w header data disp =
     bindR (CmdDispatcher_Process w header data disp) (\<lambda>(r, disp).
       let (magicNum, respMsg) =
             (case r of Inl err \<Rightarrow> (CmdRespErrorMagicNum, Msg_CmdError (Some \<lparr>ce_Code = 0, ce_Msg = ce_Msg err\<rparr>))
                      | Inr m \<Rightarrow> (CmdRespSuccessMagicNum, m))
       in handleR (proto_Marshal (w_T w) respMsg)
            (\<lambda>encodeErr. Inr (EncodeCmdResp magicNum None, disp))
            (\<lambda>resp. Inr (EncodeCmdResp magicNum (Some resp), disp)))"

section \<open>Traffic\<close>

text \<open>
  What follows the decoding of one request: the three error checks, the counter, then the command, at once
  or as a task.  \<open>None\<close> means the loop goes on.
\<close>

definition serve_request :: "'c gnet_Conn \<Rightarrow> 'm world \<Rightarrow> string option \<Rightarrow> CmdError + CmdHeader \<times> byte list \<Rightarrow>
  'c \<Rightarrow> 'm tcpEventHandler \<Rightarrow> (gnet_Action option \<times> 'c \<times> 'm tcpEventHandler) res" where
  "serve_request G w submitted r c h =
     (let err = CmdErrorPtr (case r of Inl e \<Rightarrow> Some e | Inr _ \<Rightarrow> None);
          msg = (case r of Inl e \<Rightarrow> ce_Msg e | Inr _ \<Rightarrow> []);
          header = (case r of Inl _ \<Rightarrow> None | Inr (hdr, _) \<Rightarrow> Some hdr);
          body = (case r of Inl _ \<Rightarrow> [] | Inr (_, b) \<Rightarrow> b)
      in if errors_Is err ErrIncompletePacket then
           bindR (tcp_respCmdError G (w_T w) msg c) (\<lambda>c. Inr (Some gnet_Close, c, h))
         else if errors_Is err ErrInvalidMagicNum then
           bindR (tcp_respCmdError G (w_T w) msg c) (\<lambda>c. Inr (Some gnet_Close, c, h))
         else if errors_Is err ErrInvalidMsg then
           bindR (tcp_respCmdError G (w_T w) msg c) (\<lambda>c. Inr (Some gnet_None, c, h))
         else
           let h = h\<lparr>h_metric := Metrics_AddAPICmdCount (h_metric h)\<rparr>
           in if \<not> h_workerPool h then
                bindR (tcp_process w header body (h_disp h)) (\<lambda>(respMsgs, disp).
                  let writev = (if cf_MultiCore (h_cfg h) then gc_AsyncWritev G else gc_Writev G)
                  in Inr (None, snd (writev c respMsgs), h\<lparr>h_disp := disp\<rparr>))
              else if submitted \<noteq> None then Inr (Some gnet_Close, c, h)
              else Inr (None, c, h\<lparr>h_tasks := h_tasks h @ [\<lparr>tk_header = header, tk_data = body\<rparr>]\<rparr>))"

fun OnTraffic_loop :: "nat \<Rightarrow> nat \<Rightarrow> 'c gnet_Conn \<Rightarrow> (nat \<Rightarrow> 'm world) \<Rightarrow> (nat \<Rightarrow> string option) \<Rightarrow> 'c \<Rightarrow> 'm tcpEventHandler \<Rightarrow>
  (gnet_Action \<times> 'c \<times> 'm tcpEventHandler) res" where
  "OnTraffic_loop 0 i G ws submit c h = Inl OutOfFuel"
| "OnTraffic_loop (Suc fuel) i G ws submit c h =
     (if gc_InboundBuffered G c = 0 then Inr (gnet_None, c, h)
      else bindR (DecodeCmdReq G (w_T (ws i)) c) (\<lambda>(r, c).
           bindR (serve_request G (ws i) (submit i) r c h) (\<lambda>(action, c, h).
             case action of
               Some a \<Rightarrow> Inr (a, c, h)
             | None \<Rightarrow> OnTraffic_loop fuel (Suc i) G ws submit c h)))"

declare OnTraffic_loop.simps [simp del]

definition tcp_OnTraffic :: "nat \<Rightarrow> 'c gnet_Conn \<Rightarrow> (nat \<Rightarrow> 'm world) \<Rightarrow> (nat \<Rightarrow> string option) \<Rightarrow> 'c \<Rightarrow> 'm tcpEventHandler \<Rightarrow>
  (gnet_Action \<times> 'c \<times> 'm tcpEventHandler) res" where
  "tcp_OnTraffic fuel G ws submit c h =
     (if \<not> gc_HasCodec G c then Inr (gnet_Close, c, h) else OnTraffic_loop fuel 0 G ws submit c h)"

text \<open>A connection is given its codec when it opens; closing one changes nothing.\<close>

definition tcp_OnOpen :: "'c gnet_Conn \<Rightarrow> 'c \<Rightarrow> (byte list \<times> gnet_Action) \<times> 'c" where
  "tcp_OnOpen G c = (([], gnet_None), gc_SetCodec G c)"

definition tcp_OnClose :: "'c \<Rightarrow> string option \<Rightarrow> gnet_Action" where
  "tcp_OnClose c err = gnet_None"

lemma opened_OnTraffic: "gc_HasCodec G c \<Longrightarrow> tcp_OnTraffic fuel G ws submit c h = OnTraffic_loop fuel 0 G ws submit c h"
  by (simp add: tcp_OnTraffic_def)

text \<open>A worker takes the oldest task, processes it and writes the answer.\<close>

definition run_task :: "'c gnet_Conn \<Rightarrow> 'm world \<Rightarrow> 'c \<Rightarrow> 'm tcpEventHandler \<Rightarrow> ('c \<times> 'm tcpEventHandler) res" where
  "run_task G w c h =
     (case h_tasks h of
        [] \<Rightarrow> Inr (c, h)
      | t # ts \<Rightarrow>
          bindR (tcp_process w (tk_header t) (tk_data t) (h_disp h)) (\<lambda>(respMsgs, disp).
            Inr (snd (gc_AsyncWritev G c respMsgs), h\<lparr>h_disp := disp, h_tasks := ts\<rparr>)))"

text \<open>\<^verbatim>\<open>OnTick\<close> reports the request rate of the last second and asks to be called again in a second.\<close>

definition tcp_OnTick :: "duration \<Rightarrow> instant \<Rightarrow> 'm tcpEventHandler \<Rightarrow> (duration \<times> gnet_Action) \<times> metric_line list \<times> 'm tcpEventHandler" where
  "tcp_OnTick H now h =
     (let delay = time_Second; ((err, out), m) = Metrics_ReportAPICmdRPS H now delay (h_metric h)
      in ((delay, gnet_None), out, h\<lparr>h_metric := m\<rparr>))"

section \<open>Laws of the loop\<close>

lemma errors_Is_never [simp]:
  "\<not> errors_Is (CmdErrorPtr e) ErrIncompletePacket" "\<not> errors_Is (CmdErrorPtr e) ErrInvalidMagicNum"
  "\<not> errors_Is (CmdErrorPtr e) ErrInvalidMsg"
  by (simp_all add: errors_Is_def)

lemma serve_direct:
  assumes "gnet_ok G inb out" "\<not> h_workerPool h" "tcp_process w (Some hdr) body (h_disp h) = Inr (resp, disp)"
  shows "\<exists>c'. serve_request G w s (Inr (hdr, body)) c h =
      Inr (None, c', h\<lparr>h_metric := Metrics_AddAPICmdCount (h_metric h), h_disp := disp\<rparr>) \<and>
    inb c' = inb c \<and> out c' = out c @ concat resp"
proof -
  let ?writev = "if cf_MultiCore (h_cfg h) then gc_AsyncWritev G else gc_Writev G"
  have "inb (snd (?writev c resp)) = inb c \<and> out (snd (?writev c resp)) = out c @ concat resp"
    using assms(1) unfolding gnet_ok_def by simp
  then show ?thesis using assms(2,3)
    by (intro exI [of _ "snd (?writev c resp)"]) (simp add: serve_request_def Let_def)
qed

text \<open>What arrives when requests are sent one after the other, and what they are answered.\<close>

fun frames :: "(byte list \<times> byte list) list \<Rightarrow> byte list" where
  "frames [] = []"
| "frames ((h, b) # rs) = req_frame h b @ frames rs"

fun process_all :: "nat \<Rightarrow> (nat \<Rightarrow> 'm world) \<Rightarrow> (CmdHeader \<times> byte list) list \<Rightarrow> 'm CmdDispatcher \<Rightarrow>
  (byte list \<times> 'm CmdDispatcher) res" where
  "process_all i ws [] d = Inr ([], d)"
| "process_all i ws ((hdr, b) # rs) d =
     bindR (tcp_process (ws i) (Some hdr) b d) (\<lambda>(resp, d).
     bindR (process_all (Suc i) ws rs d) (\<lambda>(more, d). Inr (concat resp @ more, d)))"

definition sendable_req :: "ts_codec \<Rightarrow> CmdHeader \<times> byte list \<Rightarrow> bool" where
  "sendable_req T r \<longleftrightarrow> 2 \<le> length (enc_CmdHeader T (fst r)) \<and> length (enc_CmdHeader T (fst r)) < 2 ^ 16 \<and>
     length (enc_CmdHeader T (fst r)) + length (snd r) < 2 ^ 32"

lemma OnTraffic_requests_keep:
  assumes "gnet_ok G inb out" "ts_codec_ok T" "\<And>i. w_T (ws i) = T"
  shows "\<lbrakk>\<forall>r \<in> set rs. sendable_req T r; \<not> h_workerPool h; process_all i ws rs (h_disp h) = Inr (bytes, disp);
     inb c = frames (map (\<lambda>(hdr, b). (enc_CmdHeader T hdr, b)) rs); length rs < fuel\<rbrakk> \<Longrightarrow>
   \<exists>c' h'. OnTraffic_loop fuel i G ws submit c h = Inr (gnet_None, c', h') \<and> inb c' = [] \<and>
     out c' = out c @ bytes \<and> h_disp h' = disp \<and> h_workerPool h' = h_workerPool h"
proof (induction rs arbitrary: fuel i c h bytes)
  case Nil
  have "gc_InboundBuffered G c = 0" using assms(1) Nil.prems(4) unfolding gnet_ok_def by simp
  then show ?case using Nil.prems by (cases fuel) (simp_all add: OnTraffic_loop.simps)
next
  case (Cons r rs)
  obtain hdr b where r: "r = (hdr, b)" by (cases r)
  obtain fuel' where fuel: "fuel = Suc fuel'" using Cons.prems(5) by (cases fuel) auto
  obtain resp d more where p: "tcp_process (ws i) (Some hdr) b (h_disp h) = Inr (resp, d)"
    "process_all (Suc i) ws rs d = Inr (more, disp)" "bytes = concat resp @ more"
    using Cons.prems(3) by (auto simp: r bindR_Inr_iff)
  have inb: "inb c = req_frame (enc_CmdHeader T hdr) b @ frames (map (\<lambda>(hdr, b). (enc_CmdHeader T hdr, b)) rs)"
    using Cons.prems(4) by (simp add: r)
  have s: "2 \<le> length (enc_CmdHeader T hdr)" "length (enc_CmdHeader T hdr) < 2 ^ 16"
    "length (enc_CmdHeader T hdr) + length b < 2 ^ 32" using Cons.prems(1) by (auto simp: r sendable_req_def)
  obtain c1 where c1: "DecodeCmdReq G T c = Inr (Inr (hdr, b), c1)"
    "inb c1 = frames (map (\<lambda>(hdr, b). (enc_CmdHeader T hdr, b)) rs)" "out c1 = out c"
    using DecodeCmdReq_frame [OF assms(2,1) inb _ s(2) _ s(3)] s(1) by fastforce
  have buffered: "gc_InboundBuffered G c \<noteq> 0"
    using assms(1) inb unfolding gnet_ok_def by (auto simp: req_frame_def)
  obtain c2 where c2: "serve_request G (ws i) (submit i) (Inr (hdr, b)) c1 h =
      Inr (None, c2, h\<lparr>h_metric := Metrics_AddAPICmdCount (h_metric h), h_disp := d\<rparr>)"
    "inb c2 = inb c1" "out c2 = out c1 @ concat resp"
    using serve_direct [OF assms(1) Cons.prems(2) p(1)] by blast
  show ?case
    using Cons.IH [where i = "Suc i" and fuel = fuel' and c = c2 and bytes = more
        and h = "h\<lparr>h_metric := Metrics_AddAPICmdCount (h_metric h), h_disp := d\<rparr>"]
      Cons.prems(1,2,5) buffered c1 c2 p(2,3)
    by (simp add: OnTraffic_loop.simps fuel assms(3))
qed

lemma OnTraffic_requests:
  assumes "gnet_ok G inb out" "ts_codec_ok T" "\<And>i. w_T (ws i) = T"
    and "\<forall>r \<in> set rs. sendable_req T r" "\<not> h_workerPool h" "process_all i ws rs (h_disp h) = Inr (bytes, disp)"
    and "inb c = frames (map (\<lambda>(hdr, b). (enc_CmdHeader T hdr, b)) rs)" "length rs < fuel"
  shows "\<exists>c' h'. OnTraffic_loop fuel i G ws submit c h = Inr (gnet_None, c', h') \<and> inb c' = [] \<and>
    out c' = out c @ bytes \<and> h_disp h' = disp"
  using OnTraffic_requests_keep [where ws = ws and submit = submit, OF assms] by blast

text \<open>A request that is not there yet.\<close>

lemma OnTraffic_incomplete:
  assumes "gnet_ok G inb out" "inb c \<noteq> []" "\<not> req_complete (inb c)" "\<not> h_workerPool h"
  shows "OnTraffic_loop (Suc fuel) i G ws submit c h = Inl nil_deref"
proof -
  have "gc_InboundBuffered G c \<noteq> 0" using assms(1,2) unfolding gnet_ok_def by simp
  moreover obtain e c' where "DecodeCmdReq G (w_T (ws i)) c = Inr (Inl e, c')"
    using DecodeCmdReq_incomplete [OF assms(1,3)] by blast
  ultimately show ?thesis using assms(4)
    by (simp add: OnTraffic_loop.simps serve_request_def Let_def tcp_process_def)
qed

text \<open>
  With the worker pool the same few bytes are decoded again and again, until the pool refuses a task.
\<close>

definition nil_task :: task where
  "nil_task = \<lparr>tk_header = None, tk_data = []\<rparr>"

lemma OnTraffic_pool_turn:
  assumes "gnet_ok G inb out" "0 < length (inb c)" "length (inb c) < 8" "h_workerPool h"
  shows "OnTraffic_loop (Suc fuel) i G ws submit c h =
    (let h = h\<lparr>h_metric := Metrics_AddAPICmdCount (h_metric h)\<rparr>
     in if submit i \<noteq> None then Inr (gnet_Close, c, h)
        else OnTraffic_loop fuel (Suc i) G ws submit c (h\<lparr>h_tasks := h_tasks h @ [nil_task]\<rparr>))"
proof -
  have "gc_InboundBuffered G c \<noteq> 0" using assms(1,2) unfolding gnet_ok_def by simp
  moreover have "DecodeCmdReq G (w_T (ws i)) c = Inr (Inl (NewCmdIncompletePacketError ''The buffer size %d less than %d''
      [FInt 0, FInt 8]), c)"
    using gnet_Next_short [OF assms(1,3)] by (auto simp: DecodeCmdReq_def endec_sizes)
  ultimately show ?thesis using assms(4)
    by (simp add: OnTraffic_loop.simps serve_request_def Let_def nil_task_def)
qed

lemma OnTraffic_pool_spins:
  assumes "gnet_ok G inb out" "0 < length (inb c)" "length (inb c) < 8"
  shows "h_workerPool h \<Longrightarrow> (\<And>j. j < fuel \<Longrightarrow> submit (i + j) = None) \<Longrightarrow> OnTraffic_loop fuel i G ws submit c h = Inl OutOfFuel"
proof (induction fuel arbitrary: i h)
  case (Suc fuel)
  have "submit i = None" "\<And>j. j < fuel \<Longrightarrow> submit (Suc i + j) = None" using Suc.prems(2) [of 0] Suc.prems(2) [of "Suc j" for j] by auto
  then show ?case using Suc.IH [of _ "Suc i"] Suc.prems(1) by (simp add: OnTraffic_pool_turn [OF assms Suc.prems(1)] Let_def)
qed (simp add: OnTraffic_loop.simps)

lemma OnTraffic_pool_refuses:
  assumes "gnet_ok G inb out" "0 < length (inb c)" "length (inb c) < 8"
  shows "h_workerPool h \<Longrightarrow> (\<And>j. j < k \<Longrightarrow> submit (i + j) = None) \<Longrightarrow> submit (i + k) \<noteq> None \<Longrightarrow>
    \<exists>h'. OnTraffic_loop (Suc k) i G ws submit c h = Inr (gnet_Close, c, h') \<and> h_tasks h' = h_tasks h @ replicate k nil_task"
proof (induction k arbitrary: i h)
  case 0
  then show ?case by (simp add: OnTraffic_pool_turn [OF assms 0(1)] Let_def)
next
  case (Suc k)
  let ?h = "h\<lparr>h_metric := Metrics_AddAPICmdCount (h_metric h), h_tasks := h_tasks h @ [nil_task]\<rparr>"
  have s: "submit i = None" "\<And>j. j < k \<Longrightarrow> submit (Suc i + j) = None" "submit (Suc i + k) \<noteq> None"
    using Suc.prems(2) [of 0] Suc.prems(2) [of "Suc j" for j] Suc.prems(3) by auto
  obtain h' where "OnTraffic_loop (Suc k) (Suc i) G ws submit c ?h = Inr (gnet_Close, c, h')" "h_tasks h' = h_tasks ?h @ replicate k nil_task"
    using Suc.IH [of ?h "Suc i"] Suc.prems(1) s(2,3) by auto
  then show ?case using s(1) by (subst OnTraffic_pool_turn [OF assms Suc.prems(1)]) (simp add: Let_def)
qed

section \<open>The loop ends\<close>

lemma DecodeCmdReq_shrinks:
  assumes "gnet_ok G inb out" "DecodeCmdReq G T c = Inr (Inr x, c')"
  shows "length (inb c') < length (inb c) \<and> length (snd x) < 2 ^ 63"
proof (cases "req_complete (inb c)")
  case True
  obtain c1 spare where c1: "inb c1 = drop (8 + req_total (inb c)) (inb c)"
    "DecodeCmdReq G T c =
      (let data = take (req_total (inb c)) (drop 8 (inb c))
       in bindR (slice_to data spare (req_headerLen (inb c))) (\<lambda>headerMsg.
          handleR (CmdHeader_Unmarshal T CmdHeader_zero headerMsg)
            (\<lambda>err. Inr (Inl \<lparr>ce_Code = ErrorCode_DecodeFail, ce_Msg = err\<rparr>, c1))
            (\<lambda>cmdHeader. bindR (get_slice data (req_headerLen (inb c)) (length data))
               (\<lambda>body. Inr (Inr (cmdHeader, body), c1)))))"
    using DecodeCmdReq_complete [OF assms(1) True, of T] by blast
  have "c' = c1" using assms(2) unfolding c1(2) by (auto simp: Let_def bindR_Inr_iff handleR_Inr_iff)
  moreover have "length (snd x) \<le> req_total (inb c)"
    using assms(2) unfolding c1(2) by (auto simp: Let_def bindR_Inr_iff handleR_Inr_iff get_slice_def slice_def split: if_splits)
  ultimately show ?thesis using c1(1) True req_total_less [of "inb c"] by (auto simp: req_complete_def)
qed (use DecodeCmdReq_incomplete [OF assms(1), of c T] assms(2) in auto)

lemma DecodeCmdReq_returns:
  assumes "gnet_ok G inb out" "ts_safe T"
  shows "panics (DecodeCmdReq G T c) \<or> (\<exists>r. DecodeCmdReq G T c = Inr r)"
proof (cases "req_complete (inb c)")
  case True
  obtain spare c1 where eq: "DecodeCmdReq G T c =
      (let data = take (req_total (inb c)) (drop 8 (inb c))
       in bindR (slice_to data spare (req_headerLen (inb c))) (\<lambda>headerMsg.
          handleR (CmdHeader_Unmarshal T CmdHeader_zero headerMsg)
            (\<lambda>err. Inr (Inl \<lparr>ce_Code = ErrorCode_DecodeFail, ce_Msg = err\<rparr>, c1))
            (\<lambda>cmdHeader. bindR (get_slice data (req_headerLen (inb c)) (length data))
               (\<lambda>body. Inr (Inr (cmdHeader, body), c1)))))"
    using DecodeCmdReq_complete [OF assms(1) True, of T] by blast
  let ?s = "slice_to (take (req_total (inb c)) (drop 8 (inb c))) spare (req_headerLen (inb c))"
  show ?thesis
  proof (cases ?s)
    case (Inl e)
    then show ?thesis by (auto simp: eq Let_def slice_to_def split: if_splits)
  next
    case (Inr m)
    then have "length m < 2 ^ 63"
      using req_headerLen_less [of "inb c"] by (auto simp: slice_to_def split: if_splits)
    from CmdHeader_reader.Unmarshal_safe [OF assms(2) this, of CmdHeader_zero] show ?thesis
      by (auto simp: eq Inr Let_def handleR_def bindR_def safe_def get_slice_def split: sum.splits fault.splits if_splits)
  qed
qed (use DecodeCmdReq_incomplete [OF assms(1), of c T] in auto)

text \<open>A command's result is marshalled, whatever it is, and every Go error is handled by then.\<close>

lemma returns_tcp_process:
  assumes "ts_safe (w_T w)" "ts_returns (w_T w)" "length body < 2 ^ 63"
  shows "returns (tcp_process w header body d)"
  unfolding tcp_process_def
  by (auto simp: Let_def CmdError_Marshal_def split: sum.split intro!: returns_intros returns_Process assms)

definition no_fail :: "'a res \<Rightarrow> bool" where
  "no_fail r \<longleftrightarrow> (\<forall>s. r \<noteq> Inl (Fail s))"

named_theorems no_fail_intros

lemma no_fail_simps [simp]: "no_fail (Inr x)" "no_fail (Inl (Panic s))" "no_fail (Inl nil_deref)"
  by (simp_all add: no_fail_def nil_deref_def)

lemma no_fail_bindR [no_fail_intros]: "no_fail r \<Longrightarrow> (\<And>x. no_fail (k x)) \<Longrightarrow> no_fail (bindR r k)"
  by (cases r) (simp_all add: no_fail_def)

lemma no_fail_handleR [no_fail_intros]: "(\<And>s. no_fail (g s)) \<Longrightarrow> (\<And>x. no_fail (k x)) \<Longrightarrow> no_fail (handleR r g k)"
  by (cases r rule: panics.cases) (simp_all add: no_fail_def)

lemma no_fail_Wrap [no_fail_intros]: "no_fail (WrapCmdError code err)"
  by (cases err) simp_all

lemma no_fail_with_body [no_fail_intros]: "(\<And>x. no_fail (k x)) \<Longrightarrow> no_fail (with_body r k c)"
  unfolding with_body_def by (intro no_fail_intros no_fail_simps)

lemma no_fail_as_msg [no_fail_intros]: "no_fail r \<Longrightarrow> no_fail (as_msg f r)"
  unfolding as_msg_def by (auto intro!: no_fail_intros)

lemma no_fail_Put [no_fail_intros]: "no_fail (rm_PutResource M T eid now name limiter rm)"
  by (auto simp: rm_PutResource_def put_standalone_def put_replicated_def replicateEntryPB_def rm_new_def Let_def
      split: option.split intro!: no_fail_intros)

lemma no_fail_handlers [no_fail_intros]:
  "no_fail (AllowPbCmd w allow c)" "no_fail (RegisterResourcePbCmd w reg c)" "no_fail (GetResourcePbCmd w get c)"
  by (auto simp: AllowPbCmd_def RegisterResourcePbCmd_def GetResourcePbCmd_def NewTokenBucketLimiter_def NewTokenBucket_def int64_div_def
      Let_def split: option.split sum.split prod.split intro!: no_fail_intros)

lemma no_fail_meow [no_fail_intros]: "no_fail (meow_nodes ms rm)"
  by (induction ms rm rule: meow_nodes.induct) (auto simp: Let_def split: prod.split sum.split intro!: no_fail_intros)

lemma no_fail_tcp_process: "no_fail (tcp_process w header body d)"
proof -
  have "no_fail (CmdDispatcher_Process w header body d)"
    by (cases header) (auto simp: CmdDispatcher_cmds_def CmdDispatcher_Allow_def CmdDispatcher_RegisterResource_def
        CmdDispatcher_GetResource_def CmdDispatcher_Meow_def Let_def intro!: no_fail_intros)
  then show ?thesis unfolding tcp_process_def by (auto simp: Let_def split: sum.split prod.split intro!: no_fail_intros)
qed

text \<open>
  Without the worker pool every turn of the loop takes a request off the input, so fuel for one turn more than
  there are bytes is enough; no turn answers with an action, so the loop goes on until nothing is left.
\<close>

lemma OnTraffic_returns:
  assumes "gnet_ok G inb out" "\<And>i. ts_safe (w_T (ws i))" "\<And>i. ts_returns (w_T (ws i))"
  shows "\<lbrakk>\<not> h_workerPool h; length (inb c) < fuel\<rbrakk> \<Longrightarrow> panics (OnTraffic_loop fuel i G ws submit c h) \<or>
    (\<exists>c' h'. OnTraffic_loop fuel i G ws submit c h = Inr (gnet_None, c', h') \<and> inb c' = [])"
proof (induction fuel arbitrary: i c h)
  case (Suc fuel)
  have none: "gc_InboundBuffered G c = 0 \<longleftrightarrow> inb c = []" using assms(1) unfolding gnet_ok_def by simp
  show ?case
  proof (cases "gc_InboundBuffered G c = 0 \<or> panics (DecodeCmdReq G (w_T (ws i)) c)")
    case True
    then show ?thesis using none by (cases "DecodeCmdReq G (w_T (ws i)) c" rule: panics.cases) (auto simp: OnTraffic_loop.simps)
  next
    case False
    then obtain r c1 where dec: "DecodeCmdReq G (w_T (ws i)) c = Inr (r, c1)"
      using DecodeCmdReq_returns [OF assms(1) assms(2) [of i], of c] by auto
    show ?thesis
    proof (cases r)
      case (Inl e)
      then show ?thesis using Suc.prems(1) False dec
        by (simp add: OnTraffic_loop.simps serve_request_def Let_def tcp_process_def nil_deref_def)
    next
      case (Inr x)
      have x: "length (inb c1) < length (inb c)" "length (snd x) < 2 ^ 63"
        using DecodeCmdReq_shrinks [OF assms(1), of "w_T (ws i)" c x c1] dec Inr by simp_all
      let ?p = "tcp_process (ws i) (Some (fst x)) (snd x) (h_disp h)"
      have p: "returns ?p" "no_fail ?p"
        by (rule returns_tcp_process [OF assms(2,3) x(2)], rule no_fail_tcp_process)
      show ?thesis
      proof (cases ?p)
        case (Inl e)
        then have "\<exists>s. e = Panic s" using p by (cases e) (simp_all add: returns_def no_fail_def)
        then show ?thesis using Suc.prems(1) False dec Inr Inl
          by (auto simp: OnTraffic_loop.simps serve_request_def Let_def split_beta)
      next
        case y: (Inr y)
        let ?h = "h\<lparr>h_metric := Metrics_AddAPICmdCount (h_metric h), h_disp := snd y\<rparr>"
        obtain c2 where c2: "serve_request G (ws i) (submit i) (Inr x) c1 h = Inr (None, c2, ?h)" "inb c2 = inb c1"
          using serve_direct [OF assms(1) Suc.prems(1), of "ws i" "fst x" "snd x" "fst y" "snd y" "submit i" c1] y by auto
        have "panics (OnTraffic_loop fuel (Suc i) G ws submit c2 ?h) \<or>
          (\<exists>c' h'. OnTraffic_loop fuel (Suc i) G ws submit c2 ?h = Inr (gnet_None, c', h') \<and> inb c' = [])"
          using Suc.prems x(1) c2(2) by (intro Suc.IH) simp_all
        then show ?thesis using False dec Inr c2(1) by (simp add: OnTraffic_loop.simps)
      qed
    qed
  qed
qed simp

end
