(* ===== verification/WireProperties.thy ===== *)
theory WireProperties
  imports ClusterLaws TimestampCodec
begin

text \<open>
  What the wire format of both message files gives the rest of the program: a message sent is the message
  received, two messages never share an encoding, and no input bytes make a decoder panic.  The
  statements are about the largest message (a snapshot contains entries, resources, limiters, request
  histories and timestamps) and about the commands a client sends.
\<close>

definition sample_entry :: Entry where
  "sample_entry = \<lparr>en_Id = [1, 2], en_Action = EntryAction_PutResource, en_SrcNodeId = 3,
     en_Resource = Some \<lparr>rs_Name = ''r1'', rs_NodeId = 7, rs_LimiterType = LimiterType_TokenBucket,
       rs_Rps = Some \<lparr>rq_ReqCount = 3, rq_Histories = [Some \<lparr>re_Rps = 0x3FF0000000000000, re_Time = None\<rparr>]\<rparr>,
       rs_LastUpdated = Some \<lparr>ts_Seconds = 1, ts_Nanos = 2\<rparr>,
       rs_Limiter = Some (Resource_TokenBucket (Some \<lparr>tl_Rate = 0x3FF0000000000000, tl_Burst = 5,
         tl_TokenCount = 0, tl_FillPeriod = 100, tl_LastFilled = None,
         tl_NextFill = Some \<lparr>ts_Seconds = 1, ts_Nanos = 0\<rparr>\<rparr>))\<rparr>\<rparr>"

lemmas enc_lengths = enc_EntrySnapshot_def enc_Entry_def enc_Resource_def enc_ReqPerSec_def
  enc_ReqPerSecEntry_def enc_TokenBucketLimiter_def enc_RegResCmd_def enc_TokenBucketParam_def
  ts_bytes_wire_ts wire_ts_bytes_def length_enc_varint sov_small f64_nonzero_def

lemmas valid_evals = valid_EntrySnapshot_def valid_Entry_def valid_Resource_def valid_ReqPerSec_def
  valid_ReqPerSecEntry_def valid_TokenBucketLimiter_def

lemma sample_valid: "valid_EntrySnapshot \<lparr>es_Entries = [Some sample_entry]\<rparr>"
  by (simp add: valid_evals sample_entry_def)

lemma sample_length: "length (enc_EntrySnapshot wire_ts \<lparr>es_Entries = [Some sample_entry]\<rparr>) < 2 ^ 63"
  by (simp add: enc_lengths sample_entry_def)

text \<open>
  C17 A snapshot of the replicated store survives the wire: \<^verbatim>\<open>Marshal\<close> of a snapshot whose parts
  are present and free of negative zeros succeeds, and \<^verbatim>\<open>Unmarshal\<close> of its bytes into a fresh
  snapshot gives the same snapshot, down to every entry, resource, limiter, history and timestamp.
\<close>

theorem snapshot_roundtrip:
  assumes "ts_codec_ok T" "valid_EntrySnapshot m" "length (enc_EntrySnapshot T m) < 2 ^ 63"
  shows "bindR (EntrySnapshot_Marshal T (Some m)) (EntrySnapshot_Unmarshal T EntrySnapshot_zero) = Inr m"
  unfolding EntrySnapshot_Marshal_def by (rule EntrySnapshot.roundtrip [OF assms])

theorem snapshot_roundtrip_witness:
  "bindR (EntrySnapshot_Marshal wire_ts (Some \<lparr>es_Entries = [Some sample_entry]\<rparr>))
     (EntrySnapshot_Unmarshal wire_ts EntrySnapshot_zero) = Inr \<lparr>es_Entries = [Some sample_entry]\<rparr>"
  by (rule snapshot_roundtrip [OF wire_ts_ok sample_valid sample_length])

text \<open>
  The registration command survives the wire too: the bytes a client marshals are the ones the
  dispatcher decodes back to the same resource name, limiter type, override flag and bucket parameters.
\<close>

theorem RegResCmd_roundtrip:
  assumes "ts_codec_ok T" "valid_RegResCmd r" "length (enc_RegResCmd T r) < 2 ^ 63"
  shows "bindR (RegResCmd_Marshal T (Some r)) (RegResCmd_Unmarshal T RegResCmd_zero) = Inr r"
  unfolding RegResCmd_Marshal_def by (rule RegResCmd.roundtrip [OF assms])

definition sample_RegResCmd :: RegResCmd where
  "sample_RegResCmd = \<lparr>rc_Resource = ''r1'', rc_Type = LimiterType_TokenBucket, rc_Override = True,
     rc_Option = Some (RegResCmd_TokenBucket (Some \<lparr>tp_Rate = 0x3FF0000000000000, tp_Burst = 5\<rparr>))\<rparr>"

theorem RegResCmd_roundtrip_witness:
  "bindR (RegResCmd_Marshal wire_ts (Some sample_RegResCmd)) (RegResCmd_Unmarshal wire_ts RegResCmd_zero)
     = Inr sample_RegResCmd"
  by (rule RegResCmd_roundtrip [OF wire_ts_ok])
    (simp_all add: sample_RegResCmd_def valid_RegResCmd_def valid_TokenBucketParam_def enc_lengths)

text \<open>
  Two different snapshots never have the same bytes, so a replica that receives a snapshot cannot
  take it for another.
\<close>

theorem snapshot_encoding_injective:
  assumes "ts_codec_ok T" "valid_EntrySnapshot m" "valid_EntrySnapshot m'"
    and "length (enc_EntrySnapshot T m) < 2 ^ 63"
    and "EntrySnapshot_Marshal T (Some m) = EntrySnapshot_Marshal T (Some m')"
  shows "m = m'"
proof (rule EntrySnapshot.enc_inject [OF assms(1-4)])
  show "enc_EntrySnapshot T m = enc_EntrySnapshot T m'"
    using assms(5) EntrySnapshot.Marshal_enc [OF assms(1,2)] EntrySnapshot.Marshal_enc [OF assms(1,3)]
    by (simp add: EntrySnapshot_Marshal_def)
qed

theorem snapshot_encoding_injective_witness:
  "EntrySnapshot_Marshal wire_ts (Some \<lparr>es_Entries = [Some sample_entry]\<rparr>)
     \<noteq> EntrySnapshot_Marshal wire_ts (Some \<lparr>es_Entries = []\<rparr>)"
proof
  assume eq: "EntrySnapshot_Marshal wire_ts (Some \<lparr>es_Entries = [Some sample_entry]\<rparr>)
     = EntrySnapshot_Marshal wire_ts (Some \<lparr>es_Entries = []\<rparr>)"
  have "valid_EntrySnapshot \<lparr>es_Entries = []\<rparr>" by (simp add: valid_EntrySnapshot_def)
  from snapshot_encoding_injective [OF wire_ts_ok sample_valid this sample_length eq] show False by simp
qed

text \<open>
  C29 No bytes from the network make a decoder panic or run on: the header and the three command bodies a
  server decodes, and the log entry and snapshot a cluster node decodes, give a message or an error for
  every input, well-formed or not.
\<close>

theorem decoders_never_panic:
  assumes "ts_safe T" "length d < 2 ^ 63"
  shows "safe (CmdHeader_Unmarshal T CmdHeader_zero d) \<and> safe (AllowCmd_Unmarshal T AllowCmd_zero d) \<and>
    safe (RegResCmd_Unmarshal T RegResCmd_zero d) \<and> safe (GetResCmd_Unmarshal T GetResCmd_zero d) \<and>
    safe (Entry_Unmarshal T Entry_zero d) \<and> safe (EntrySnapshot_Unmarshal T EntrySnapshot_zero d)"
  using assms
  by (simp add: CmdHeader_reader.Unmarshal_safe AllowCmd_reader.Unmarshal_safe
      RegResCmd_reader.Unmarshal_safe GetResCmd_reader.Unmarshal_safe Entry_reader.Unmarshal_safe
      EntrySnapshot_reader.Unmarshal_safe)

theorem decoders_never_panic_witness:
  "safe (CmdHeader_Unmarshal wire_ts CmdHeader_zero [0x0a, 0xff, 0xff]) \<and>
     safe (EntrySnapshot_Unmarshal wire_ts EntrySnapshot_zero [0x0a, 0xff, 0xff])"
  using decoders_never_panic [OF wire_ts_safe, of "[0x0a, 0xff, 0xff]"] by simp

end
