(* ===== verification/StoreProperties.thy ===== *)
theory StoreProperties
  imports CmdLaws WireProperties
begin

text \<open>
  What the replicated store promises: it is a map from names to resources whatever happens to the dispatcher,
  replicas that apply the same log agree, and a resource put on one node arrives on every node, through the
  log and through a snapshot.  The last two properties show where the code falls short.
\<close>

section \<open>Samples for the witnesses\<close>

definition sample_url :: URL where
  "sample_url = \<lparr>u_Scheme = ''tcp'', u_Host = ''a:1'', u_Username = ''n1'', u_String = ''tcp://n1@a:1'', u_hash = None\<rparr>"

definition sample_cfg :: "bool \<Rightarrow> Config" where
  "sample_cfg cluster = \<lparr>cf_Env = ''test'', cf_LogLevel = ''info'', cf_ApiListenUrl = sample_url,
     cf_ApiAdvertiseUrl = sample_url, cf_MultiCore = False, cf_WorkerPool = False,
     cf_Cluster = \<lparr>cc_Enabled = cluster, cc_Url = sample_url, cc_PeerUrls = [], cc_StateDir = [], cc_CheckInterval = 1000000000\<rparr>,
     cf_MetricsEnabled = False\<rparr>"

text \<open>Node 1 of a cluster in which node 2 is the lightest.\<close>

definition sample_raft :: raft_node where
  "sample_raft = \<lparr>rn_Members = [], rn_Leader = 1, rn_GetMemebr = \<lambda>_. None, rn_Replicate = \<lambda>_. None\<rparr>"

definition sample_np :: NodeProber where
  "sample_np = clusterProber \<lparr>np_cfg = sample_cfg True, np_peerClients = \<lparr>pm_clients = [], pm_raftNode = Some sample_raft\<rparr>,
     np_curNodeID = 1, np_raftNode = Some sample_raft, np_mu = False, np_ready = True, np_loadDiff = 0, np_lightNodeID = 2,
     np_heavyNodeID = 1, np_nodeInfoCache = []\<rparr>"

definition sample_limiter :: Limiter where
  "sample_limiter = tokenBucketLimiter \<lparr>tb_rate = 0x416312D000000000, tb_burst = 10, tb_tokenCount = 0x4024000000000000,
     tb_fillPeriod = 100, tb_lastFilled = 0, tb_nextFill = 100\<rparr>"

definition sample_res :: Resource where
  "sample_res = newResource 0 2 (Some sample_limiter)"

definition sample_rm :: "(string \<times> addr) list ResourceManager" where
  "sample_rm = NewResourceManager alist_swiss (sample_cfg True) (Some sample_np)"

lemma sample_rm_wf: "rm_wf alist_swiss sample_rm" "rm_view alist_swiss sample_rm = Map.empty"
  by (simp_all add: sample_rm_def rm_wf_new rm_view_new alist_swiss_ok)

lemma sample_sendable: "Limiter_sendable sample_limiter" "valid_TokenBucketLimiter (Limiter_ToLimiterPB sample_limiter)"
  "res_sendable sample_res"
  by (simp_all add: sample_limiter_def sample_res_def res_sendable_def newResource_def RPS_zero_def
    valid_TokenBucketLimiter_def int64_range_def min_int64_def max_int64_def)

section \<open>One store\<close>

text \<open>
  C8 The invariant of the resource manager.  In every state of a dispatcher, reached by any interleaving of
  client commands, forwarded commands, log entries, snapshots, removals, moves and probes, the manager's maps
  hold allocated addresses only, every name has its own resource object, and every resource has a limiter.
\<close>

theorem manager_invariant:
  assumes "disp_run M c" "swiss_ok M"
  shows "rm_wf M (cd_resMgr c) \<and> (\<forall>name res. rm_view M (cd_resMgr c) name = Some res \<longrightarrow> res_Limiter res \<noteq> None)"
  using disp_run_inv [OF assms] unfolding rm_inv_def .

theorem manager_invariant_witness:
  "rm_wf alist_swiss (rm_Stop sample_rm)"
  using manager_invariant [OF disp_run.stop [OF disp_run.start [of alist_swiss 0 "sample_cfg True" "Some sample_np"]] alist_swiss_ok]
  by (simp add: NewCmdDispatcher_def sample_rm_def)

text \<open>
  C11 The store refines a map.  Any sequence of the three updates a log entry can stand for, run on the manager's
  hash map, per-node index and shared resource objects, has on the resources clients see exactly the effect of
  the same updates on a plain map from names to resources.
\<close>

theorem store_refines_map:
  assumes "rm_wf M rm"
  shows "rm_wf M (fold (rm_step M) ops rm) \<and> rm_view M (fold (rm_step M) ops rm) = fold spec_op ops (rm_view M rm)"
  by (rule mgr.steps_refine [OF assms])

theorem store_refines_map_witness:
  "rm_view alist_swiss (fold (rm_step alist_swiss)
     [OpPut ''a'' sample_res, OpPut ''b'' sample_res, OpRetarget ''a'' 9, OpRemove ''b''] sample_rm)
   = [''a'' \<mapsto> sample_res\<lparr>res_NodeID := 9\<rparr>]"
  unfolding store_refines_map [OF sample_rm_wf(1), THEN conjunct2] sample_rm_wf(2)
  by (simp add: fun_upd_twist)

section \<open>Many stores\<close>

text \<open>
  C4 Replicas agree.  Two nodes whose stores agree apply the same log, each entry at its own clock reading:
  both fail with the same fault or both succeed, and then their stores agree again in every resource's name,
  node, limiter and time of update.
\<close>

theorem replicas_agree:
  assumes "rm_wf M rm" "rm_wf M rm'" "core_view M rm = core_view M rm'" "map snd es = map snd es'"
  shows "map_sum id (core_view M) (rm_ApplyLog M T F H es rm) = map_sum id (core_view M) (rm_ApplyLog M T F H es' rm')"
  unfolding ApplyLog_spec [OF assms(1)] ApplyLog_spec [OF assms(2)] assms(3,4) ..

theorem replicas_agree_witness:
  "map_sum id (core_view alist_swiss) (rm_ApplyLog alist_swiss wire_ts (\<lambda>b. Inr b) 5 [(1, [1, 2]), (3, [])] sample_rm) =
   map_sum id (core_view alist_swiss) (rm_ApplyLog alist_swiss wire_ts (\<lambda>b. Inr b) 5 [(9, [1, 2]), (9, [])]
     (NewResourceManager alist_swiss (sample_cfg True) None))"
  by (rule replicas_agree)
    (simp_all add: sample_rm_wf rm_wf_new rm_view_new alist_swiss_ok core_view_def [abs_def])

text \<open>
  C9 A put arrives everywhere.  In a cluster \<^verbatim>\<open>PutResource\<close> hands one entry to raft and changes
  nothing a client sees; the entry, applied on any node at any time, installs under that name a fresh resource
  with the given limiter on the node that was the lightest when it was put.
\<close>

theorem put_reaches_every_node:
  assumes "ts_codec_ok T" "cc_Enabled (cf_Cluster (rm_cfg rm))" "rm_wf M rm"
    and "Prober_GetRaftNode (rm_nodeProber rm) = Some node" "\<And>buf. rn_Replicate node buf = None"
    and "Limiter_sendable l" "valid_TokenBucketLimiter (Limiter_ToLimiterPB l)" "int64_range (now div 10 ^ 9)"
    and "F eid = Inr u"
    and "res = newResource now (Prober_GetLightestNodeID (rm_nodeProber rm)) (Some l)"
    and "length (enc_Entry T (put_entry eid (rm_CurNodeID rm) name res)) < 2 ^ 63"
  shows "\<exists>a buf rm'. rm_PutResource M T eid now name (Some l) rm = Inr ((a, None, [buf]), rm') \<and>
    rm_view M rm' = rm_view M rm \<and>
    (\<forall>rm2 t. rm_wf M rm2 \<longrightarrow>
       (\<exists>rm3. rm_Apply M T F H t buf rm2 = Inr rm3 \<and> rm_view M rm3 = (rm_view M rm2)(name \<mapsto> res)))"
proof -
  let ?e = "put_entry eid (rm_CurNodeID rm) name res"
  have send: "res_sendable res" "rps_hist (res_RPS res) = []"
    using assms(6-8) by (simp_all add: assms(10) res_sendable_def newResource_def RPS_zero_def)
  have marshal: "Entry_Marshal T (Some ?e) = Inr (enc_Entry T ?e)"
    unfolding Entry_Marshal_def by (rule Entry.Marshal_enc [OF assms(1) put_entry_valid [OF send(1)]])
  have put: "rm_PutResource M T eid now name (Some l) rm =
      Inr ((rm_next rm, None, [enc_Entry T ?e]), snd (rm_new res rm))"
    using assms(2,4,5) newEntryPBWithRes_put [OF send(1)]
    by (simp add: rm_PutResource_def put_replicated_def assms(10) [symmetric] rm_new_def replicateEntryPB_def
        rm_CurNodeID_def)
      (simp add: rm_CurNodeID_def [symmetric] marshal)
  have "\<exists>rm3. rm_Apply M T F H t (enc_Entry T ?e) rm2 = Inr rm3 \<and> rm_view M rm3 = (rm_view M rm2)(name \<mapsto> res)"
    if "rm_wf M rm2" for rm2 t
    using entry_op_put [where F = F and eid = eid and H = H and now = t, OF assms(1) send(1) assms(11,9)] opt_step_law [OF that, of "Some (OpPut name res)"]
    by (simp add: Apply_op res_received_empty [OF send(2)] opt_step_def)
  then show ?thesis using put rm_new_law(2) [OF assms(3)] by blast
qed

lemma sample_entry_length:
  "length (enc_Entry wire_ts (put_entry [7] 1 ''a'' sample_res)) < 2 ^ 63"
  by (simp add: enc_lengths put_entry_def res_pb_def Resource_ToPB_def sample_res_def newResource_def sample_limiter_def
    AssignLimiterToResPB_def RPS_ToPB_def RPS_zero_def TimeToTimestamp_def)

theorem put_reaches_every_node_witness:
  "\<exists>a buf rm' rm3. rm_PutResource alist_swiss wire_ts [7] 0 ''a'' (Some sample_limiter) sample_rm = Inr ((a, None, [buf]), rm') \<and>
    rm_Apply alist_swiss wire_ts (\<lambda>b. Inr b) 5 99 buf (NewResourceManager alist_swiss (sample_cfg True) None) = Inr rm3 \<and>
    rm_view alist_swiss rm3 = [''a'' \<mapsto> sample_res]"
proof -
  have node: "rm_CurNodeID sample_rm = 1" "Prober_GetLightestNodeID (rm_nodeProber sample_rm) = 2"
    "Prober_GetRaftNode (rm_nodeProber sample_rm) = Some sample_raft" "cc_Enabled (cf_Cluster (rm_cfg sample_rm))"
    by (simp_all add: rm_CurNodeID_def sample_rm_def NewResourceManager_def sample_np_def nodeProber_CurNodeID_def sample_cfg_def)
  have "rm_wf alist_swiss (NewResourceManager alist_swiss (sample_cfg True) None)" by (rule rm_wf_new [OF alist_swiss_ok])
  moreover have "\<exists>a buf rm'. rm_PutResource alist_swiss wire_ts [7] 0 ''a'' (Some sample_limiter) sample_rm = Inr ((a, None, [buf]), rm') \<and>
    rm_view alist_swiss rm' = rm_view alist_swiss sample_rm \<and>
    (\<forall>rm2 t. rm_wf alist_swiss rm2 \<longrightarrow> (\<exists>rm3. rm_Apply alist_swiss wire_ts (\<lambda>b. Inr b) 5 t buf rm2 = Inr rm3 \<and>
       rm_view alist_swiss rm3 = (rm_view alist_swiss rm2)(''a'' \<mapsto> sample_res)))"
    using sample_entry_length
    by (intro put_reaches_every_node [OF wire_ts_ok node(4) sample_rm_wf(1) node(3) _ sample_sendable(1,2)])
      (simp_all add: node sample_raft_def sample_res_def int64_range_def min_int64_def max_int64_def)
  ultimately show ?thesis using rm_view_new [OF alist_swiss_ok] by metis
qed

text \<open>
  C12 A snapshot transfers the store.  \<^verbatim>\<open>Snapshot\<close> on one node, its bytes given to
  \<^verbatim>\<open>Restore\<close> on a node with an empty store, leaves that node with exactly the same resources: name, node,
  limiter and time of update.
\<close>

theorem snapshot_transfers_store:
  assumes "ts_codec_ok T" "rm_wf M rm" "rm_wf M rm0" "rm_view M rm0 = Map.empty"
    and "\<forall>(name, res) \<in> set (rm_items M rm). res_sendable res"
    and "length (enc_EntrySnapshot T (rm_snapshot M eids rm)) < 2 ^ 63"
  shows "\<exists>rm'. bindR (rm_Snapshot M T eids now rm) (\<lambda>buf. rm_Restore M T H now' buf rm0) = Inr (None, rm') \<and> rm_wf M rm' \<and>
    core_view M rm' = core_view M rm"
proof -
  obtain rm' where "bindR (rm_Snapshot M T eids now rm) (\<lambda>buf. rm_Restore M T H now' buf rm0) = Inr (None, rm')" "rm_wf M rm'"
    "rm_view M rm' = (\<lambda>n. case rm_view M rm n of None \<Rightarrow> rm_view M rm0 n | Some res \<Rightarrow> Some (res_received H now' res))"
    using Restore_Snapshot [OF assms(1-3,5,6)] by blast
  then show ?thesis
    by (intro exI [of _ rm']) (simp add: core_view_def [abs_def] fun_eq_iff assms(4) split: option.split)
qed

text \<open>A store with one resource.\<close>

definition sample_one :: "(string \<times> addr) list ResourceManager" where
  "sample_one = rm_putResource alist_swiss ''a'' sample_res sample_rm"

lemma sample_one: "rm_wf alist_swiss sample_one" "rm_items alist_swiss sample_one = [(''a'', sample_res)]"
  "rm_CurNodeID sample_one = 1" "rm_view alist_swiss sample_one = [''a'' \<mapsto> sample_res]"
  by (simp_all add: sample_one_def putResource_wf putResource_view sample_rm_wf)
    (simp_all add: rm_items_def rm_putResource_def rm_new_def rm_res_def rm_CurNodeID_def alist_swiss_def sample_rm_def
      NewResourceManager_def sample_np_def nodeProber_CurNodeID_def)

lemma sample_one_snapshot:
  "rm_snapshot alist_swiss (\<lambda>_. [7]) sample_one = \<lparr>es_Entries = [Some (put_entry [7] 1 ''a'' sample_res)]\<rparr>"
  by (simp add: rm_snapshot_def sample_one(2,3))

lemma sample_one_length: "length (enc_EntrySnapshot wire_ts (rm_snapshot alist_swiss (\<lambda>_. [7]) sample_one)) < 2 ^ 63"
  unfolding sample_one_snapshot
  by (simp add: enc_lengths put_entry_def res_pb_def Resource_ToPB_def sample_res_def newResource_def sample_limiter_def
    AssignLimiterToResPB_def RPS_ToPB_def RPS_zero_def TimeToTimestamp_def)

theorem snapshot_transfers_store_witness:
  "\<exists>rm'. bindR (rm_Snapshot alist_swiss wire_ts (\<lambda>_. [7]) 0 sample_one)
      (\<lambda>buf. rm_Restore alist_swiss wire_ts 5 99 buf (NewResourceManager alist_swiss (sample_cfg True) None)) = Inr (None, rm') \<and>
    core_view alist_swiss rm' ''a'' = Some (res_core sample_res)"
proof -
  let ?rm0 = "NewResourceManager alist_swiss (sample_cfg True) None"
  have "rm_wf alist_swiss ?rm0" "rm_view alist_swiss ?rm0 = Map.empty"
    by (simp_all add: rm_wf_new rm_view_new alist_swiss_ok)
  from snapshot_transfers_store [OF wire_ts_ok sample_one(1) this _ sample_one_length, of 0 5 99]
  show ?thesis by (auto simp: sample_one(2,4) sample_sendable(3) core_view_def [of _ sample_one])
qed

section \<open>Where the code falls short\<close>

text \<open>
  C34 \<^verbatim>\<open>Restore\<close> does not replace the store, it adds to it: a resource the receiver has and the snapshot
  does not stays, so a node that missed a removal and catches up by snapshot keeps the removed resource and
  disagrees with the node the snapshot came from.
\<close>

theorem restore_keeps_removed:
  assumes "ts_codec_ok T" "rm_wf M rm" "rm_wf M rm0"
    and "\<forall>(name, res) \<in> set (rm_items M rm). res_sendable res"
    and "length (enc_EntrySnapshot T (rm_snapshot M eids rm)) < 2 ^ 63"
    and "rm_view M rm name = None" "rm_view M rm0 name = Some old"
  shows "\<exists>rm'. bindR (rm_Snapshot M T eids now rm) (\<lambda>buf. rm_Restore M T H now' buf rm0) = Inr (None, rm') \<and>
    rm_view M rm' name = Some old \<and> core_view M rm' \<noteq> core_view M rm"
proof -
  obtain rm' where rm': "bindR (rm_Snapshot M T eids now rm) (\<lambda>buf. rm_Restore M T H now' buf rm0) = Inr (None, rm')"
    "rm_view M rm' = (\<lambda>n. case rm_view M rm n of None \<Rightarrow> rm_view M rm0 n | Some res \<Rightarrow> Some (res_received H now' res))"
    using Restore_Snapshot [OF assms(1-5)] by blast
  then have "rm_view M rm' name = Some old" using assms(6,7) by simp
  then have "core_view M rm' name \<noteq> core_view M rm name" using assms(6) by (simp add: core_view_def)
  then show ?thesis using rm' \<open>rm_view M rm' name = Some old\<close> by metis
qed

theorem restore_keeps_removed_witness:
  "\<exists>rm'. bindR (rm_Snapshot alist_swiss wire_ts (\<lambda>_. [7]) 0 sample_one)
      (\<lambda>buf. rm_Restore alist_swiss wire_ts 5 99 buf (rm_putResource alist_swiss ''gone'' sample_res sample_rm)) = Inr (None, rm') \<and>
    rm_view alist_swiss rm' ''gone'' = Some sample_res"
proof -
  let ?rm0 = "rm_putResource alist_swiss ''gone'' sample_res sample_rm"
  have "rm_wf alist_swiss ?rm0" "rm_view alist_swiss ?rm0 ''gone'' = Some sample_res"
    by (simp_all add: putResource_wf putResource_view sample_rm_wf)
  from restore_keeps_removed [OF wire_ts_ok sample_one(1) this(1) _ sample_one_length _ this(2), of 0 5 99]
  show ?thesis by (auto simp: sample_one(2,4) sample_sendable(3))
qed

text \<open>
  Retargeting a resource leaves the index by node wrong.  \<^verbatim>\<open>updateResourceNodeId\<close> looks up the source
  node after overwriting it, so when the destination has an index the name is not in it afterwards, while it
  still is in the index of the node the resource left: moving the destination's resources later misses it.
\<close>

theorem retarget_leaves_index_wrong:
  assumes "rm_wf M rm" "sw_Get M (rm_store rm) name = Some a" "res_NodeID (rm_res rm a) = src" "src \<noteq> dst"
    and "rm_nodeStore rm src = Some srcMap" "sw_Get M srcMap name = Some a" "rm_nodeStore rm dst = Some dstMap"
  shows "\<exists>dstMap'. rm_view M (rm_updateResourceNodeId M name dst rm) name = Some ((rm_res rm a)\<lparr>res_NodeID := dst\<rparr>) \<and>
    rm_nodeStore (rm_updateResourceNodeId M name dst rm) src = Some srcMap \<and>
    rm_nodeStore (rm_updateResourceNodeId M name dst rm) dst = Some dstMap' \<and> sw_Get M dstMap' name = None"
proof -
  have "rm_view M rm name = Some (rm_res rm a)" by (rule rm_view_Some [OF assms(1,2)])
  then have "rm_view M (rm_updateResourceNodeId M name dst rm) name = Some ((rm_res rm a)\<lparr>res_NodeID := dst\<rparr>)"
    by (simp add: updateNodeId_view [OF assms(1)])
  then show ?thesis using assms swiss_okD(3) [OF rm_wfD(1) [OF assms(1)]]
    by (auto simp: rm_updateResourceNodeId_def rm_write_def rm_res_def index_put_def Let_def)
qed

theorem retarget_leaves_index_wrong_witness:
  "let rm = rm_putResource alist_swiss ''b'' (sample_res\<lparr>res_NodeID := 9\<rparr>) sample_one;
       rm' = rm_updateResourceNodeId alist_swiss ''a'' 9 rm
   in rm_view alist_swiss rm' ''a'' = Some (sample_res\<lparr>res_NodeID := 9\<rparr>) \<and>
      (\<exists>m. rm_nodeStore rm' 9 = Some m \<and> map_of m ''a'' = None)"
proof -
  let ?rm = "rm_putResource alist_swiss ''b'' (sample_res\<lparr>res_NodeID := 9\<rparr>) sample_one"
  have wf: "rm_wf alist_swiss ?rm" by (simp add: putResource_wf sample_one)
  have parts: "sw_Get alist_swiss (rm_store ?rm) ''a'' = Some 0" "rm_res ?rm 0 = sample_res" "res_NodeID sample_res = 2"
    "rm_nodeStore ?rm 2 = Some [(''a'', 0)]" "sw_Get alist_swiss [(''a'', 0)] ''a'' = Some 0"
    "rm_nodeStore ?rm 9 = Some [(''b'', 1)]"
    by (simp_all add: sample_one_def rm_putResource_def rm_new_def rm_res_def alist_swiss_def sample_rm_def
      NewResourceManager_def index_put_def sample_res_def newResource_def)
  show ?thesis
    using retarget_leaves_index_wrong [OF wf parts(1) _ _ parts(4,5,6)] parts
    by (auto simp: Let_def alist_swiss_def)
qed

end
