(* ===== verification/CommandProperties.thy ===== *)
theory CommandProperties
  imports CmdLaws Server StoreProperties
begin

text \<open>
  What a client of the API observes of the commands: the answers to Allow commands enforce the limiter's rate
  over any mix of commands, no Allow command stops the server, and what a registration does to the store.
\<close>

section \<open>Samples\<close>

text \<open>A standalone dispatcher with one resource, for the witnesses.\<close>

definition sample_world :: "instant \<Rightarrow> (string \<times> addr) list world" where
  "sample_world t = \<lparr>w_M = alist_swiss, w_T = wire_ts, w_cv = \<lambda>_. 0, w_now = t, w_eid = [7]\<rparr>"

definition sample_disp :: "(string \<times> addr) list CmdDispatcher" where
  "sample_disp = NewCmdDispatcher 0 (sample_cfg False)
     (rm_putResource alist_swiss ''a'' (sample_res\<lparr>res_NodeID := 0\<rparr>) (NewResourceManager alist_swiss (sample_cfg False) None))"

lemma sample_disp_inv: "rm_inv alist_swiss (cd_resMgr sample_disp)"
  using step_inv [OF rm_inv_new [OF alist_swiss_ok], of "OpPut ''a'' (sample_res\<lparr>res_NodeID := 0\<rparr>)"]
  by (simp add: sample_disp_def NewCmdDispatcher_def sample_res_def newResource_def)

lemma sample_disp_view: "rm_view alist_swiss (cd_resMgr sample_disp) = [''a'' \<mapsto> sample_res\<lparr>res_NodeID := 0\<rparr>]"
  by (simp add: sample_disp_def NewCmdDispatcher_def putResource_view rm_wf_new rm_view_new alist_swiss_ok)

lemma sample_disp_node: "rm_CurNodeID (cd_resMgr sample_disp) = 0" "rm_AtSameNode 0 (cd_resMgr sample_disp)"
  "\<not> cc_Enabled (cf_Cluster (rm_cfg (cd_resMgr sample_disp)))"
  by (simp_all add: sample_disp_def NewCmdDispatcher_def rm_putResource_def rm_new_def NewResourceManager_def
    NewNullNodeProber_def rm_CurNodeID_def rm_AtSameNode_def sample_cfg_def)

lemma f64_ten: "f64_finite 0x4024000000000000" "f64_val 0x4024000000000000 = 10"
  by (simp_all add: f64_finite_def f64_val_def f64_mag_def f64_inf_mag_def f64_neg_def mag_units_def f64_units_def)

definition sample_bucket :: TokenBucket where
  "sample_bucket = \<lparr>tb_rate = 0x416312D000000000, tb_burst = 10, tb_tokenCount = 0x4024000000000000,
     tb_fillPeriod = 100, tb_lastFilled = 0, tb_nextFill = 100\<rparr>"

lemma sample_bucket: "TokenBucket_inv sample_bucket" "tokens sample_bucket = 10"
  "res_Limiter (sample_res\<lparr>res_NodeID := 0\<rparr>) = Some (tokenBucketLimiter sample_bucket)"
proof -
  show t: "tokens sample_bucket = 10" by (simp add: tokens_def sample_bucket_def f64_ten)
  show "TokenBucket_inv sample_bucket"
    by (rule inv_intro) (simp_all add: t, simp_all add: sample_bucket_def f64_ten burst_of_def)
qed (simp add: sample_res_def newResource_def sample_limiter_def sample_bucket_def)

section \<open>Allow\<close>

text \<open>The limiter requests that a list of \<^verbatim>\<open>Allow\<close> commands makes on one resource.\<close>

definition allow_reqs :: "string \<Rightarrow> ('m world \<times> AllowCmd) list \<Rightarrow> (instant \<times> u32) list" where
  "allow_reqs name rs = map (\<lambda>(w, cmd). (w_now w, ac_count cmd)) (filter (\<lambda>(w, cmd). ac_Resource cmd = name) rs)"

text \<open>The events granted for it when the dispatcher serves them one after the other.\<close>

fun allow_run :: "string \<Rightarrow> ('m world \<times> AllowCmd) list \<Rightarrow> 'm CmdDispatcher \<Rightarrow> (int \<times> 'm CmdDispatcher) res" where
  "allow_run name [] c = Inr (0, c)"
| "allow_run name ((w, cmd) # rs) c =
     bindR (AllowPbCmd w cmd c) (\<lambda>(r, c).
     bindR (allow_run name rs c) (\<lambda>(k, c).
       Inr ((case r of Inr resp \<Rightarrow> if ac_Resource cmd = name \<and> ar_Ok resp then uint (ac_count cmd) else 0 | Inl e \<Rightarrow> 0) + k, c)))"

lemma allow_run_bucket:
  assumes "name \<noteq> []"
  shows "\<lbrakk>rm_inv M (cd_resMgr c); \<forall>(w, cmd) \<in> set rs. w_M w = M; rm_view M (cd_resMgr c) name = Some res;
     rm_AtSameNode (res_NodeID res) (cd_resMgr c); res_Limiter res = Some (tokenBucketLimiter b)\<rbrakk> \<Longrightarrow>
   \<exists>c'. allow_run name rs c = Inr (fst (TokenBucket_run (allow_reqs name rs) b), c') \<and>
     rm_view M (cd_resMgr c') name = Some (res\<lparr>res_Limiter := Some (tokenBucketLimiter (snd (TokenBucket_run (allow_reqs name rs) b)))\<rparr>)"
proof (induction rs arbitrary: c res b)
  case Nil
  then show ?case by (simp add: allow_reqs_def)
next
  case (Cons r rs)
  obtain w cmd where r: "r = (w, cmd)" by (cases r)
  have w: "w_M w = M" "\<forall>(w, cmd) \<in> set rs. w_M w = M" using Cons.prems(2) by (auto simp: r)
  show ?case
  proof (cases "ac_Resource cmd = name")
    case True
    let ?b = "snd (TokenBucket_Allow (w_now w) (ac_count cmd) b)"
    let ?res = "res\<lparr>res_Limiter := Some (tokenBucketLimiter ?b)\<rparr>"
    obtain rm' where rm': "AllowPbCmd w cmd c =
        Inr (Inr \<lparr>ar_Redirected = False, ar_NodeId = res_NodeID res, ar_Ok = fst (TokenBucket_Allow (w_now w) (ac_count cmd) b)\<rparr>,
          c\<lparr>cd_resMgr := rm'\<rparr>)" "rm_view M rm' = (rm_view M (cd_resMgr c))(name \<mapsto> ?res)"
      "rm_nodeProber rm' = rm_nodeProber (cd_resMgr c)"
      using AllowPbCmd_local [of w c cmd res] rm_invD(1) [OF Cons.prems(1)] Cons.prems(3-5) assms w(1) True
      by (auto simp: Limiter_Allow_parts simp del: Limiter_Allow.simps)
    have inv: "rm_inv M rm'" using AllowPbCmd_inv [of w c cmd] rm'(1) Cons.prems(1) w(1) by auto
    obtain c' where "allow_run name rs (c\<lparr>cd_resMgr := rm'\<rparr>) = Inr (fst (TokenBucket_run (allow_reqs name rs) ?b), c')"
      "rm_view M (cd_resMgr c') name = Some (?res\<lparr>res_Limiter := Some (tokenBucketLimiter (snd (TokenBucket_run (allow_reqs name rs) ?b)))\<rparr>)"
      using Cons.IH [of "c\<lparr>cd_resMgr := rm'\<rparr>" ?res ?b] inv w(2) rm'(2,3) Cons.prems(4)
      by (auto simp: rm_AtSameNode_def)
    moreover have "allow_reqs name (r # rs) = (w_now w, ac_count cmd) # allow_reqs name rs"
      by (simp add: allow_reqs_def r True)
    ultimately show ?thesis using True by (simp add: r rm'(1) run_Cons)
  next
    case False
    obtain a c1 where c1: "AllowPbCmd w cmd c = Inr (a, c1)" using AllowPbCmd_total [of w c cmd] Cons.prems(1) w(1) by blast
    have "rm_inv M (cd_resMgr c1)" "rm_view M (cd_resMgr c1) name = Some res" "rm_AtSameNode (res_NodeID res) (cd_resMgr c1)"
      using AllowPbCmd_other [of w c cmd a c1 name] AllowPbCmd_inv [of w c cmd a c1] c1 False w(1) Cons.prems(1,3,4)
        rm_invD(1) [OF Cons.prems(1)] by (auto simp: rm_AtSameNode_def)
    from Cons.IH [OF this(1) w(2) this(2,3) Cons.prems(5)] show ?thesis
      using False by (auto simp: r c1 allow_reqs_def split: sum.split)
  qed
qed

text \<open>
  C1 The rate limit, end to end.  However many \<^verbatim>\<open>Allow\<close> commands for however many resources the
  dispatcher serves, the events it grants on one local token bucket resource, plus the tokens left in it, are
  at most the tokens it had plus one per fill period, up to the rounding of the float refills: no command is
  answered from a stale copy of the limiter and none is charged to another resource.
\<close>

theorem dispatcher_enforces_rate:
  assumes "rm_inv M (cd_resMgr c)" "\<forall>(w, cmd) \<in> set rs. w_M w = M \<and> w_now w \<le> T" "name \<noteq> []"
    and "rm_view M (cd_resMgr c) name = Some res" "rm_AtSameNode (res_NodeID res) (cd_resMgr c)"
    and "res_Limiter res = Some (tokenBucketLimiter b)"
    and "TokenBucket_inv b" "0 < tb_fillPeriod b" "tb_lastFilled b \<le> T"
  shows "\<exists>k c' b'. allow_run name rs c = Inr (k, c') \<and>
    rm_view M (cd_resMgr c') name = Some (res\<lparr>res_Limiter := Some (tokenBucketLimiter b')\<rparr>) \<and>
    of_int k + tokens b' \<le> tokens b + of_int (T - tb_lastFilled b) / of_int (tb_fillPeriod b) * (1 + 1 / 2 ^ 18)"
proof -
  have "\<forall>(t, n) \<in> set (allow_reqs name rs). t \<le> T" using assms(2) by (auto simp: allow_reqs_def)
  from run_rate [OF assms(7-9) this]
  show ?thesis using allow_run_bucket [OF assms(3,1) _ assms(4-6), of rs] assms(2) by fastforce
qed

theorem dispatcher_enforces_rate_witness:
  "\<exists>k c' b'. allow_run ''a'' [(sample_world 5, \<lparr>ac_Resource = ''a'', ac_Events = 3\<rparr>),
      (sample_world 7, \<lparr>ac_Resource = ''b'', ac_Events = 1\<rparr>), (sample_world 150, \<lparr>ac_Resource = ''a'', ac_Events = 0\<rparr>)]
      sample_disp = Inr (k, c') \<and> of_int k + tokens b' \<le> 10 + 2 * (1 + 1 / 2 ^ 18)"
  using dispatcher_enforces_rate [OF sample_disp_inv, where T = 200 and name = "''a''"
      and res = "sample_res\<lparr>res_NodeID := 0\<rparr>" and b = sample_bucket
      and rs = "[(sample_world 5, \<lparr>ac_Resource = ''a'', ac_Events = 3\<rparr>),
        (sample_world 7, \<lparr>ac_Resource = ''b'', ac_Events = 1\<rparr>), (sample_world 150, \<lparr>ac_Resource = ''a'', ac_Events = 0\<rparr>)]"]
  by (simp add: sample_disp_view sample_disp_node sample_bucket del: allow_run.simps)
    (force simp: sample_world_def sample_bucket_def simp del: allow_run.simps)

text \<open>
  C13 An \<^verbatim>\<open>Allow\<close> request never takes the server down.  In every state the dispatcher can reach, any
  bytes whatsoever as the body of an \<^verbatim>\<open>Allow\<close> command are answered with a response frame.
\<close>

theorem allow_always_answered:
  assumes "disp_run (w_M w) c" "swiss_ok (w_M w)" "ts_codec_ok (w_T w)" "ts_safe (w_T w)" "length body < 2 ^ 63"
  shows "\<exists>frame c'. tcp_process w (Some \<lparr>ch_Cmd = ''Allow''\<rparr>) body c = Inr (frame, c')"
proof -
  note inv = disp_run_inv [OF assms(1,2)]
  have err: "\<exists>e. CmdError_Marshal (w_T w) (Some x) = Inr e" for x
    using CmdError.Marshal_enc [OF assms(3), of x] by (simp add: CmdError_Marshal_def valid_CmdError_def)
  have ok: "\<exists>e. AllowCmdResp_Marshal (w_T w) (Some x) = Inr e" for x
    using AllowCmdResp.Marshal_enc [OF assms(3), of x] by (simp add: AllowCmdResp_Marshal_def valid_AllowCmdResp_def)
  have "safe (AllowCmd_Unmarshal (w_T w) AllowCmd_zero body)"
    by (rule AllowCmd_reader.Unmarshal_safe [OF assms(4,5)])
  then consider s where "AllowCmd_Unmarshal (w_T w) AllowCmd_zero body = Inl (Fail s)"
    | cmd where "AllowCmd_Unmarshal (w_T w) AllowCmd_zero body = Inr cmd"
    by (auto simp: safe_def split: sum.splits fault.splits)
  then have "\<exists>r c'. CmdDispatcher_Process w (Some \<lparr>ch_Cmd = ''Allow''\<rparr>) body c =
      Inr (case r of Inl e \<Rightarrow> Inl e | Inr x \<Rightarrow> Inr (Msg_AllowCmdResp (Some x)), c')"
  proof cases
    case 1
    then show ?thesis
      by (simp add: CmdDispatcher_cmds_def CmdDispatcher_Allow_def with_body_def)
        (rule exI [of _ "Inl \<lparr>ce_Code = ErrorCode_ProcessFail, ce_Msg = s\<rparr>"], simp)
  next
    case 2
    obtain r c' where "AllowPbCmd w cmd c = Inr (r, c')" using AllowPbCmd_total [OF inv] by blast
    then show ?thesis
      by (intro exI [of _ r] exI [of _ c'])
        (simp add: CmdDispatcher_cmds_def CmdDispatcher_Allow_def with_body_def as_msg_def 2 map_sum_def split: sum.split)
  qed
  then obtain r c' where p: "CmdDispatcher_Process w (Some \<lparr>ch_Cmd = ''Allow''\<rparr>) body c =
      Inr (case r of Inl e \<Rightarrow> Inl e | Inr x \<Rightarrow> Inr (Msg_AllowCmdResp (Some x)), c')" by blast
  show ?thesis
  proof (cases r)
    case (Inl e)
    then show ?thesis using p err [of "\<lparr>ce_Code = 0, ce_Msg = ce_Msg e\<rparr>"]
      by (auto simp: tcp_process_def simp del: CmdDispatcher_Process.simps)
  next
    case (Inr x)
    then show ?thesis using p ok [of x]
      by (auto simp: tcp_process_def simp del: CmdDispatcher_Process.simps)
  qed
qed

theorem allow_always_answered_witness:
  "\<exists>frame c'. tcp_process (sample_world 5) (Some \<lparr>ch_Cmd = ''Allow''\<rparr>) [0xff, 0xff]
     (NewCmdDispatcher 0 (sample_cfg False) (NewResourceManager alist_swiss (sample_cfg False) None)) = Inr (frame, c')"
  by (rule allow_always_answered) (simp_all add: sample_world_def disp_run.start alist_swiss_ok wire_ts_ok wire_ts_safe)

section \<open>Registration\<close>

text \<open>
  C16 What a registration does on a standalone server.  A resource that exists keeps its limiter and its node is
  the answer, unless the command says override; otherwise the name gets, on this node and with the clock's reading as
  time of update, a fresh bucket with the given parameters that holds its whole burst, replacing what was there, and no
  other resource changes.  The fill period is a second divided by the rate's whole part, and a rate below one is the
  panic of that division.
\<close>

theorem register_spec:
  assumes "rm_wf (w_M w) (cd_resMgr c)" "\<not> cc_Enabled (cf_Cluster (rm_cfg (cd_resMgr c)))"
    and "rc_Type cmd = LimiterType_TokenBucket" "RegResCmd_GetTokenBucket (Some cmd) = Some params"
    and "existing = (if rc_Override cmd then None else rm_view (w_M w) (cd_resMgr c) (rc_Resource cmd))"
    and "perSec = f64_to_int64 (w_cv w) (tp_Rate params)"
  shows "if existing = None \<and> perSec = 0 then panics (RegisterResourcePbCmd w cmd c)
    else \<exists>rm'. RegisterResourcePbCmd w cmd c =
        Inr (Inr (Some \<lparr>rp_NodeId = (case existing of Some res \<Rightarrow> res_NodeID res | None \<Rightarrow> rm_CurNodeID (cd_resMgr c))\<rparr>),
             c\<lparr>cd_resMgr := rm'\<rparr>) \<and>
      (case existing of
         Some res \<Rightarrow> rm_view (w_M w) rm' = rm_view (w_M w) (cd_resMgr c)
       | None \<Rightarrow> \<exists>b. rm_view (w_M w) rm' = (rm_view (w_M w) (cd_resMgr c))
             (rc_Resource cmd \<mapsto> newResource (w_now w) (rm_CurNodeID (cd_resMgr c)) (Some (tokenBucketLimiter b))) \<and>
           tb_rate b = tp_Rate params \<and> tb_burst b = tp_Burst params \<and> tokens b = of_int (uint (tp_Burst params)) \<and>
           tb_fillPeriod b = wrap64 (time_Second sdiv perSec) \<and> tb_lastFilled b = w_now w)"
proof (cases existing)
  case (Some res)
  then obtain a where "sw_Get (w_M w) (rm_store (cd_resMgr c)) (rc_Resource cmd) = Some a" "rm_res (cd_resMgr c) a = res"
    using assms(5) by (auto simp: rm_view_def rm_res_def split: if_splits option.splits)
  moreover have "\<not> rc_Override cmd" using Some assms(5) by (cases "rc_Override cmd") simp_all
  ultimately show ?thesis using Some
    by (auto intro!: exI [of _ "cd_resMgr c"] simp: RegisterResourcePbCmd_def rm_GetResource_def)
next
  case None
  then have none: "(if rc_Override cmd then None else rm_GetResource (w_M w) (rc_Resource cmd) (cd_resMgr c)) = None"
    using assms(5) rm_view_None [OF assms(1)] by (auto simp: rm_GetResource_def split: if_splits)
  show ?thesis
  proof (cases "perSec = 0")
    case True
    then show ?thesis using assms(3,4,6) None
      by (simp add: RegisterResourcePbCmd_def Let_def none NewTokenBucketLimiter_def NewTokenBucket_def int64_div_def)
  next
    case False
    define b where "b = \<lparr>tb_rate = tp_Rate params, tb_burst = tp_Burst params, tb_tokenCount = f64_of_int (uint (tp_Burst params)),
      tb_fillPeriod = wrap64 (time_Second sdiv perSec), tb_lastFilled = w_now w,
      tb_nextFill = time_Add (w_now w) (wrap64 (time_Second sdiv perSec))\<rparr>"
    have l: "NewTokenBucketLimiter (w_cv w) (w_now w) (tp_Rate params) (tp_Burst params) = Inr (tokenBucketLimiter b)"
      using False assms(6) by (simp add: NewTokenBucketLimiter_def NewTokenBucket_def int64_div_def b_def)
    have b: "tb_rate b = tp_Rate params" "tb_burst b = tp_Burst params" "tokens b = of_int (uint (tp_Burst params))"
      "tb_fillPeriod b = wrap64 (time_Second sdiv perSec)" "tb_lastFilled b = w_now w"
      by (simp_all add: b_def tokens_def)
    show ?thesis
      using put_standalone_law [OF assms(1), of "w_now w" "rc_Resource cmd" "Some (tokenBucketLimiter b)"] assms(2-4) None False l b
      by (auto simp: RegisterResourcePbCmd_def Let_def none rm_PutResource_def newResource_def)
  qed
qed

theorem register_spec_witness:
  "\<exists>rm' b. RegisterResourcePbCmd (sample_world 5) \<lparr>rc_Resource = ''b'', rc_Type = LimiterType_TokenBucket, rc_Override = False,
      rc_Option = Some (RegResCmd_TokenBucket (Some \<lparr>tp_Rate = 0x3FF0000000000000, tp_Burst = 10\<rparr>))\<rparr> sample_disp =
      Inr (Inr (Some \<lparr>rp_NodeId = 0\<rparr>), sample_disp\<lparr>cd_resMgr := rm'\<rparr>) \<and>
    rm_view alist_swiss rm' ''b'' = Some (newResource 5 0 (Some (tokenBucketLimiter b))) \<and> tokens b = 10"
proof -
  have rate: "f64_finite 0x3FF0000000000000" "f64_val 0x3FF0000000000000 = 1" by (rule f64_one_val)+
  have one: "f64_to_int64 (w_cv (sample_world 5)) 0x3FF0000000000000 = 1"
    using rate by (simp add: f64_to_int64_def rat_trunc_def)
  have wf: "rm_wf (w_M (sample_world 5)) (cd_resMgr sample_disp)"
    using rm_invD(1) [OF sample_disp_inv] by (simp add: sample_world_def)
  have par: "RegResCmd_GetTokenBucket (Some \<lparr>rc_Resource = ''b'', rc_Type = LimiterType_TokenBucket, rc_Override = False,
      rc_Option = Some (RegResCmd_TokenBucket (Some \<lparr>tp_Rate = 0x3FF0000000000000, tp_Burst = 10\<rparr>))\<rparr>) =
      Some \<lparr>tp_Rate = 0x3FF0000000000000, tp_Burst = 10\<rparr>" by simp
  obtain rm' b where "RegisterResourcePbCmd (sample_world 5) \<lparr>rc_Resource = ''b'', rc_Type = LimiterType_TokenBucket, rc_Override = False,
      rc_Option = Some (RegResCmd_TokenBucket (Some \<lparr>tp_Rate = 0x3FF0000000000000, tp_Burst = 10\<rparr>))\<rparr> sample_disp =
      Inr (Inr (Some \<lparr>rp_NodeId = 0\<rparr>), sample_disp\<lparr>cd_resMgr := rm'\<rparr>)"
    "rm_view alist_swiss rm' ''b'' = Some (newResource 5 0 (Some (tokenBucketLimiter b)))" "tokens b = 10"
    using register_spec [OF wf sample_disp_node(3) _ par refl refl] one
    by (auto simp: sample_disp_node(1) sample_world_def sample_disp_view)
  then show ?thesis by blast
qed

end
