(* ===== verification/ServerProperties.thy ===== *)
theory ServerProperties
  imports CommandProperties
begin

text \<open>
  The API server on the wire: requests in, responses out, from the client's encoder to the client's decoder.
  The second half states which inputs the request path does not survive.
\<close>

section \<open>Requests and responses\<close>

text \<open>
  C3 A call, end to end.  The client encodes a command; its bytes, arrived at the server, are read, processed and
  answered in one call of \<^verbatim>\<open>OnTraffic\<close>, which leaves no input behind; the bytes written, read by the
  client, decode to exactly the marshalled message the command's handler returned, and nothing is left over.
\<close>

theorem call_returns_handler_result:
  assumes "ts_codec_ok T" "gnet_ok G inb out" "full_reads Read cinb" "\<And>i. w_T (ws i) = T" "\<not> h_workerPool h"
    and "name \<noteq> []" "length name < 60000"
    and "(case msg of None \<Rightarrow> Inr [] | Some m \<Rightarrow> proto_Marshal T m) = Inr body" "length body < 2 ^ 31"
    and "CmdDispatcher_Process (ws 0) (Some \<lparr>ch_Cmd = name\<rparr>) body (h_disp h) = Inr (Inr m, disp)"
    and "proto_Marshal T m = Inr resp" "length resp \<le> 4096"
  shows "\<exists>req. EncodeCmdReq T name msg = Inr (Inr req) \<and>
    (\<forall>c. inb c = req \<longrightarrow> gc_HasCodec G c \<longrightarrow>
      (\<exists>c' h' answer. tcp_OnTraffic 2 G ws submit c h = Inr (gnet_None, c', h') \<and> h_disp h' = disp \<and>
         inb c' = [] \<and> out c' = out c @ answer \<and>
         (\<forall>cl rest. cinb cl = answer @ rest \<longrightarrow>
            (\<exists>cl'. DecodeCmdResp Read T cl = Inr (Inr resp, cl') \<and> cinb cl' = rest))))"
proof -
  let ?h = "enc_CmdHeader T \<lparr>ch_Cmd = name\<rparr>" and ?answer = "concat (EncodeCmdResp (resp_magic True) (Some resp))"
  have req: "EncodeCmdReq T name msg = Inr (Inr (req_frame ?h body))" by (rule EncodeCmdReq_frame [OF assms(1,8)])
  have send: "sendable_req T (\<lparr>ch_Cmd = name\<rparr>, body)"
    using length_enc_CmdHeader [OF assms(6,7), of T] assms(9) by (simp add: sendable_req_def)
  have p: "tcp_process (ws 0) (Some \<lparr>ch_Cmd = name\<rparr>) body (h_disp h) =
      Inr (EncodeCmdResp CmdRespSuccessMagicNum (Some resp), disp)"
    using assms(10,11) by (simp add: tcp_process_def assms(4))
  have serve: "\<exists>c' h'. tcp_OnTraffic 2 G ws submit c h = Inr (gnet_None, c', h') \<and> inb c' = [] \<and>
      out c' = out c @ ?answer \<and> h_disp h' = disp" if "inb c = req_frame ?h body" "gc_HasCodec G c" for c
    unfolding opened_OnTraffic [OF that(2)]
    by (rule OnTraffic_requests [OF assms(2,1,4), where rs = "[(\<lparr>ch_Cmd = name\<rparr>, body)]"])
      (use send p assms(5) that(1) in \<open>simp_all add: resp_magic_def\<close>)
  have "length resp < 2 ^ 32" using assms(12) by simp
  then have decode: "\<exists>cl'. DecodeCmdResp Read T cl = Inr (Inr resp, cl') \<and> cinb cl' = rest"
    if "cinb cl = ?answer @ rest" for cl rest
    using DecodeCmdResp_frame [OF assms(3) that, of T] assms(12) by auto
  show ?thesis
    unfolding req using serve decode by (intro exI [of _ "req_frame ?h body"] conjI refl allI impI) blast
qed

lemma sample_process:
  "CmdDispatcher_Process (sample_world 5) (Some \<lparr>ch_Cmd = ''Meow''\<rparr>) [] sample_disp =
   Inr (Inr (Msg_MeowCmdResp (Some \<lparr>mr_NodeId = 0, mr_Nodes = [Some \<lparr>ni_Id = 0, ni_Name = [], ni_ApiEndpoint = ''tcp://n1@a:1'',
      ni_GrpcEndpoint = [], ni_Type = [], ni_Leader = True, ni_Active = True, ni_ActiveSince = TimeToTimestamp 0\<rparr>]\<rparr>)), sample_disp)"
  using sample_disp_node(1)
  by (simp add: CmdDispatcher_cmds_def CmdDispatcher_Meow_def)
    (simp add: sample_disp_def NewCmdDispatcher_def sample_cfg_def sample_url_def)

definition sample_handler :: "(string \<times> addr) list tcpEventHandler" where
  "sample_handler = newTCPEventHandler (sample_cfg False) sample_disp (NewMetrics None)"

lemma sample_handler: "\<not> h_workerPool sample_handler" "h_disp sample_handler = sample_disp"
  by (simp_all add: sample_handler_def newTCPEventHandler_def sample_cfg_def)

theorem call_returns_handler_result_witness:
  "\<exists>req c' h' cl' resp. EncodeCmdReq wire_ts ''Meow'' None = Inr (Inr req) \<and>
    tcp_OnTraffic 2 buf_conn (\<lambda>_. sample_world 5) (\<lambda>_. None) (req, []) sample_handler = Inr (gnet_None, c', h') \<and>
    DecodeCmdResp buf_Read wire_ts (snd c') = Inr (Inr resp, cl') \<and> cl' = []"
proof -
  let ?n = "\<lparr>ni_Id = 0, ni_Name = [], ni_ApiEndpoint = ''tcp://n1@a:1'', ni_GrpcEndpoint = [], ni_Type = [],
    ni_Leader = True, ni_Active = True, ni_ActiveSince = TimeToTimestamp 0\<rparr>"
  let ?m = "\<lparr>mr_NodeId = 0, mr_Nodes = [Some ?n]\<rparr>"
  have valid: "valid_MeowCmdResp ?m" by (simp add: valid_MeowCmdResp_def valid_NodeInfo_def)
  have marshal: "proto_Marshal wire_ts (Msg_MeowCmdResp (Some ?m)) = Inr (enc_MeowCmdResp wire_ts ?m)"
    using MeowCmdResp.Marshal_enc [OF wire_ts_ok valid] by (simp add: MeowCmdResp_Marshal_def)
  have len: "length (enc_MeowCmdResp wire_ts ?m) \<le> 4096"
    by (simp add: enc_MeowCmdResp_def enc_NodeInfo_def enc_lengths TimeToTimestamp_def)
  have T: "w_T (sample_world 5) = wire_ts" by (simp add: sample_world_def)
  have none: "(case None of None \<Rightarrow> Inr [] | Some m \<Rightarrow> proto_Marshal wire_ts m) = Inr []" by simp
  have "\<exists>req. EncodeCmdReq wire_ts ''Meow'' None = Inr (Inr req) \<and>
    (\<forall>c. fst c = req \<longrightarrow> gc_HasCodec buf_conn c \<longrightarrow>
      (\<exists>c' h' answer. tcp_OnTraffic 2 buf_conn (\<lambda>_. sample_world 5) (\<lambda>_. None) c sample_handler = Inr (gnet_None, c', h') \<and>
         h_disp h' = sample_disp \<and> fst c' = [] \<and> snd c' = snd c @ answer \<and>
         (\<forall>cl rest. cl = answer @ rest \<longrightarrow>
            (\<exists>cl'. DecodeCmdResp buf_Read wire_ts cl = Inr (Inr (enc_MeowCmdResp wire_ts ?m), cl') \<and> cl' = rest))))"
    by (rule call_returns_handler_result [OF wire_ts_ok buf_conn_ok buf_Read_full T sample_handler(1) _ _ none _ _ marshal len])
      (simp_all only: sample_handler(2) sample_process, simp_all)
  then obtain req where req: "EncodeCmdReq wire_ts ''Meow'' None = Inr (Inr req)"
    "\<exists>c' h' answer. tcp_OnTraffic 2 buf_conn (\<lambda>_. sample_world 5) (\<lambda>_. None) (req, []) sample_handler = Inr (gnet_None, c', h') \<and>
      snd c' = answer \<and> (\<forall>cl rest. cl = answer @ rest \<longrightarrow>
            (\<exists>cl'. DecodeCmdResp buf_Read wire_ts cl = Inr (Inr (enc_MeowCmdResp wire_ts ?m), cl') \<and> cl' = rest))"
    by (metis append_Nil fst_conv snd_conv buf_conn_codec)
  then show ?thesis by (metis append_Nil2)
qed

text \<open>
  C15 Pipelined requests are answered in order.  Requests sent back to back on one connection are all taken in one
  call of \<^verbatim>\<open>OnTraffic\<close>, each is processed in the state its predecessor left, and the bytes written are
  the response frames in the order of the requests.
\<close>

theorem pipelined_requests_answered_in_order:
  assumes "ts_codec_ok T" "gnet_ok G inb out" "\<And>i. w_T (ws i) = T" "\<not> h_workerPool h"
    and "\<forall>r \<in> set rs. sendable_req T r" "inb c = frames (map (\<lambda>(hdr, b). (enc_CmdHeader T hdr, b)) rs)"
    and "process_all 0 ws rs (h_disp h) = Inr (bytes, disp)" "gc_HasCodec G c"
  shows "\<exists>c' h'. tcp_OnTraffic (Suc (length rs)) G ws submit c h = Inr (gnet_None, c', h') \<and>
    inb c' = [] \<and> out c' = out c @ bytes \<and> h_disp h' = disp"
  unfolding opened_OnTraffic [OF assms(8)]
  by (rule OnTraffic_requests [OF assms(2,1,3,5,4,7,6)]) simp

lemma sample_meow:
  obtains resp where "tcp_process (sample_world 5) (Some \<lparr>ch_Cmd = ''Meow''\<rparr>) [] sample_disp = Inr (resp, sample_disp)"
proof -
  have valid: "valid_MeowCmdResp \<lparr>mr_NodeId = 0, mr_Nodes = [Some \<lparr>ni_Id = 0, ni_Name = [], ni_ApiEndpoint = ''tcp://n1@a:1'',
      ni_GrpcEndpoint = [], ni_Type = [], ni_Leader = True, ni_Active = True, ni_ActiveSince = TimeToTimestamp 0\<rparr>]\<rparr>"
    by (simp add: valid_MeowCmdResp_def valid_NodeInfo_def)
  show ?thesis
    using that MeowCmdResp.Marshal_enc [OF wire_ts_ok valid] sample_process
    by (simp add: tcp_process_def MeowCmdResp_Marshal_def sample_world_def del: CmdDispatcher_Process.simps)
qed

theorem pipelined_requests_answered_in_order_witness:
  "\<exists>c' h'. tcp_OnTraffic 3 buf_conn (\<lambda>_. sample_world 5) (\<lambda>_. None)
      (frames [(enc_CmdHeader wire_ts \<lparr>ch_Cmd = ''Meow''\<rparr>, []), (enc_CmdHeader wire_ts \<lparr>ch_Cmd = ''Meow''\<rparr>, [])], [])
      sample_handler = Inr (gnet_None, c', h') \<and> fst c' = []"
proof -
  let ?r = "(\<lparr>ch_Cmd = ''Meow''\<rparr>, []) :: CmdHeader \<times> byte list"
  obtain resp where p: "tcp_process (sample_world 5) (Some \<lparr>ch_Cmd = ''Meow''\<rparr>) [] sample_disp = Inr (resp, sample_disp)"
    by (rule sample_meow)
  have "sendable_req wire_ts ?r"
    using length_enc_CmdHeader [of "''Meow''" wire_ts] by (simp add: sendable_req_def)
  then show ?thesis
    using pipelined_requests_answered_in_order [OF wire_ts_ok buf_conn_ok _ sample_handler(1), where ws = "\<lambda>_. sample_world 5"
        and rs = "[?r, ?r]" and submit = "\<lambda>_. None"
        and c = "(frames [(enc_CmdHeader wire_ts \<lparr>ch_Cmd = ''Meow''\<rparr>, []), (enc_CmdHeader wire_ts \<lparr>ch_Cmd = ''Meow''\<rparr>, [])], [])"] p
    by (force simp: sample_handler(2) sample_world_def eval_nat_numeral simp del: frames.simps)
qed

text \<open>
  C14 \<^verbatim>\<open>OnTraffic\<close> comes to an end.  Without the worker pool, whatever bytes have arrived on an open connection,
  well-formed or not, and whatever commands they hold, the loop takes at most one turn more than there are bytes and
  no turn runs for ever, waits or passes an error on: the call either panics or consumes every byte and leaves the
  connection open.
\<close>

theorem OnTraffic_terminates:
  assumes "gnet_ok G inb out" "\<And>i. ts_safe (w_T (ws i))" "\<And>i. ts_returns (w_T (ws i))" "\<not> h_workerPool h"
    and "length (inb c) < fuel" "gc_HasCodec G c"
  shows "panics (tcp_OnTraffic fuel G ws submit c h) \<or>
    (\<exists>c' h'. tcp_OnTraffic fuel G ws submit c h = Inr (gnet_None, c', h') \<and> inb c' = [])"
  unfolding opened_OnTraffic [OF assms(6)] by (rule OnTraffic_returns [OF assms(1-5)])

theorem OnTraffic_terminates_witness:
  "panics (tcp_OnTraffic 100 buf_conn (\<lambda>_. sample_world 5) (\<lambda>_. None)
     ([0x15, 0x10, 4, 0, 0, 0, 9, 0, 1, 2, 3, 4, 5], []) sample_handler) \<or>
   (\<exists>c' h'. tcp_OnTraffic 100 buf_conn (\<lambda>_. sample_world 5) (\<lambda>_. None)
     ([0x15, 0x10, 4, 0, 0, 0, 9, 0, 1, 2, 3, 4, 5], []) sample_handler = Inr (gnet_None, c', h') \<and> fst c' = [])"
  by (rule OnTraffic_terminates [OF buf_conn_ok _ _ sample_handler(1)]) (simp_all add: sample_world_def wire_ts_safe)

section \<open>What the request path does not survive\<close>

text \<open>
  C30 A partial packet takes the server down.  When fewer bytes have arrived than the request needs (or its magic
  number or lengths are wrong), the decoder's error is none of the sentinels \<^verbatim>\<open>errors.Is\<close> is asked for,
  so instead of closing the connection the handler goes on to process a nil header, and dereferences it.
\<close>

theorem partial_request_panics:
  assumes "gnet_ok G inb out" "inb c \<noteq> []" "\<not> req_complete (inb c)" "\<not> h_workerPool h" "gc_HasCodec G c"
  shows "tcp_OnTraffic (Suc fuel) G ws submit c h = Inl nil_deref"
  unfolding opened_OnTraffic [OF assms(5)] by (rule OnTraffic_incomplete [OF assms(1-4)])

theorem partial_request_panics_witness:
  "panics (tcp_OnTraffic 1 buf_conn (\<lambda>_. sample_world 5) (\<lambda>_. None) ([0x15, 0x10, 4], []) sample_handler)"
  using partial_request_panics [OF buf_conn_ok _ _ sample_handler(1), of "([0x15, 0x10, 4], [])" 0]
  by (simp add: req_complete_def nil_deref_def)

text \<open>
  C31 With the worker pool the same partial packet makes \<^verbatim>\<open>OnTraffic\<close> loop until the pool refuses a task: as
  long as one to seven bytes are buffered nothing is consumed, and every turn submits another task with the nil header
  that \<^verbatim>\<open>process\<close> will dereference.  When the pool refuses its \<open>k\<close>-th task, \<open>k\<close> such tasks have been queued, the
  bytes are still there and the connection is closed; a pool that refuses none is given tasks for ever.
\<close>

theorem partial_request_spins_with_pool:
  assumes "gnet_ok G inb out" "0 < length (inb c)" "length (inb c) < 8" "h_workerPool h" "gc_HasCodec G c"
    and "\<And>i. i < k \<Longrightarrow> submit i = None"
  shows "tcp_OnTraffic k G ws submit c h = Inl OutOfFuel \<and>
    (submit k \<noteq> None \<longrightarrow> (\<exists>h'. tcp_OnTraffic (Suc k) G ws submit c h = Inr (gnet_Close, c, h') \<and>
      h_tasks h' = h_tasks h @ replicate k nil_task)) \<and>
    tcp_process w (tk_header nil_task) (tk_data nil_task) d = Inl nil_deref"
  using OnTraffic_pool_spins [OF assms(1-4), of k submit 0] OnTraffic_pool_refuses [OF assms(1-4), of k submit 0] assms(6)
  by (simp add: opened_OnTraffic [OF assms(5)] tcp_process_def nil_task_def)

theorem partial_request_spins_with_pool_witness:
  "\<exists>h'. tcp_OnTraffic 1001 buf_conn (\<lambda>_. sample_world 5) (\<lambda>i. if i = 1000 then Some ''overload'' else None) ([0x15], [])
     (sample_handler\<lparr>h_workerPool := True\<rparr>) = Inr (gnet_Close, ([0x15], []), h') \<and> length (h_tasks h') = 1000"
proof -
  have "h_tasks sample_handler = []" by (simp add: sample_handler_def newTCPEventHandler_def)
  then obtain h' where "tcp_OnTraffic 1001 buf_conn (\<lambda>_. sample_world 5) (\<lambda>i. if i = 1000 then Some ''overload'' else None) ([0x15], [])
     (sample_handler\<lparr>h_workerPool := True\<rparr>) = Inr (gnet_Close, ([0x15], []), h')" "h_tasks h' = replicate 1000 nil_task"
    using partial_request_spins_with_pool [OF buf_conn_ok, of "([0x15], [])" "sample_handler\<lparr>h_workerPool := True\<rparr>" 1000
        "\<lambda>i. if i = 1000 then Some ''overload'' else None" "\<lambda>_. sample_world 5" "sample_world 5" sample_disp]
    by auto
  then show ?thesis by (intro exI [of _ h']) simp
qed

text \<open>
  A header length beyond the packet.  \<^verbatim>\<open>DecodeCmdReq\<close> panics on no other input; and a complete packet
  whose header length exceeds its total length never decodes to a request, it panics or (when the slice's spare
  capacity covers the length and the bytes there are no header) is an error.
\<close>

theorem request_decoder_panics:
  assumes "gnet_ok G inb out" "ts_safe T"
  shows "(panics (DecodeCmdReq G T c) \<longrightarrow> req_complete (inb c) \<and> req_total (inb c) < req_headerLen (inb c)) \<and>
    (req_complete (inb c) \<and> req_total (inb c) < req_headerLen (inb c) \<longrightarrow>
       panics (DecodeCmdReq G T c) \<or> (\<exists>e c'. DecodeCmdReq G T c = Inr (Inl e, c')))"
proof -
  have "panics (DecodeCmdReq G T c) \<or> (\<exists>e c'. DecodeCmdReq G T c = Inr (Inl e, c'))"
    if "req_complete (inb c)" "req_total (inb c) < req_headerLen (inb c)"
    using DecodeCmdReq_returns [OF assms, of c] DecodeCmdReq_overlong [OF assms(1) that] by fast
  then show ?thesis using DecodeCmdReq_panics [OF assms] by blast
qed

theorem request_decoder_panics_witness:
  "\<not> (\<exists>x c'. DecodeCmdReq buf_conn wire_ts ([0x15, 0x10, 2, 0, 0, 0, 0xff, 0xff, 1, 2], []) = Inr (Inr x, c'))"
proof -
  let ?c = "([0x15, 0x10, 2, 0, 0, 0, 0xff, 0xff, 1, 2], []) :: byte list \<times> byte list"
  have "cmdReqMagicNumBytes = [0x15, 0x10]"
    by (simp add: cmdReqMagicNumBytes_def CmdReqMagicNum_def numeral_2_eq_2)
  then have "req_complete (fst ?c)" "req_total (fst ?c) < req_headerLen (fst ?c)"
    by (simp_all add: req_complete_def req_total_def req_headerLen_def)
  then have "panics (DecodeCmdReq buf_conn wire_ts ?c) \<or> (\<exists>e c'. DecodeCmdReq buf_conn wire_ts ?c = Inr (Inl e, c'))"
    using request_decoder_panics [OF buf_conn_ok wire_ts_safe, of ?c] by blast
  then show ?thesis by auto
qed

text \<open>
  A token bucket registration without parameters takes the server down: the handler's nil response becomes a
  non-nil interface value, so the check for an empty response does not see it, and marshalling it dereferences nil.
\<close>

theorem register_without_params_panics:
  assumes "rm_GetResource (w_M w) (rc_Resource cmd) (cd_resMgr d) = None"
    and "RegResCmd_Unmarshal (w_T w) RegResCmd_zero body = Inr cmd"
    and "rc_Type cmd = LimiterType_TokenBucket" "RegResCmd_GetTokenBucket (Some cmd) = None"
  shows "tcp_process w (Some \<lparr>ch_Cmd = ''RegRes''\<rparr>) body d = Inl nil_deref"
  using assms
  by (simp add: tcp_process_def CmdDispatcher_cmds_def CmdDispatcher_RegisterResource_def with_body_def as_msg_def
      RegisterResourcePbCmd_def Let_def RegResCmdResp_Marshal_def marshal_with_def nil_deref_def)

theorem register_without_params_panics_witness:
  "tcp_process (sample_world 5) (Some \<lparr>ch_Cmd = ''RegRes''\<rparr>)
     (enc_RegResCmd wire_ts \<lparr>rc_Resource = ''b'', rc_Type = LimiterType_TokenBucket, rc_Override = False, rc_Option = None\<rparr>)
     sample_disp = Inl nil_deref"
proof -
  let ?cmd = "\<lparr>rc_Resource = ''b'', rc_Type = LimiterType_TokenBucket, rc_Override = False, rc_Option = None\<rparr>"
  have "RegResCmd_Unmarshal (w_T (sample_world 5)) RegResCmd_zero (enc_RegResCmd wire_ts ?cmd) = Inr ?cmd"
    using RegResCmd.Unmarshal_enc [OF wire_ts_ok, of ?cmd]
    by (simp add: sample_world_def valid_RegResCmd_def enc_lengths)
  moreover have "rm_GetResource (w_M (sample_world 5)) ''b'' (cd_resMgr sample_disp) = None"
    using rm_view_None [OF rm_invD(1) [OF sample_disp_inv], of "''b''"] sample_disp_view
    by (simp add: sample_world_def rm_GetResource_def)
  ultimately show ?thesis by (intro register_without_params_panics [where cmd = ?cmd]) simp_all
qed

end
