(* ===== verification/ClientConn.thy ===== *)
theory ClientConn
  imports Endec GoTime "HOL-Library.AList"
begin

text \<open>
  The client's connections (\<^verbatim>\<open>client/conn.go\<close>, \<^verbatim>\<open>client/option.go\<close>).  Connections are shared by
  pointer between the pool and the resource bindings, so they live on a heap and the two maps hold addresses; a
  \<^verbatim>\<open>sync.Map\<close> that is ranged over is an association list in the order of the visit.  The network is the
  record \<open>net\<close> of the operations called, on a state \<open>'s\<close>: dialing, the operations of a \<^verbatim>\<open>net.Conn\<close>,
  and \<^verbatim>\<open>url.Parse\<close>.  Log lines are not kept, but a call on a nil logger is the library's
  \<open>nw_NilLog\<close>.  The function that sends a command is a parameter here, as it is in the code.
\<close>

section \<open>Options\<close>

record clientOptions =
  co_dialTimeout :: duration
  co_checkInterval :: duration
  co_logger :: bool

type_synonym ClientOption = "clientOptions \<Rightarrow> clientOptions"

definition WithDialTimeout :: "duration \<Rightarrow> ClientOption" where
  "WithDialTimeout t = (\<lambda>opts. opts\<lparr>co_dialTimeout := t\<rparr>)"

definition WithCheckInterval :: "duration \<Rightarrow> ClientOption" where
  "WithCheckInterval t = (\<lambda>opts. opts\<lparr>co_checkInterval := t\<rparr>)"

text \<open>The argument says whether the logger is not nil.\<close>

definition WithLogger :: "bool \<Rightarrow> ClientOption" where
  "WithLogger logger = (\<lambda>opts. if logger then opts\<lparr>co_logger := True\<rparr> else opts)"

section \<open>State\<close>

type_synonym sock = nat

record client_url =
  cu_Host :: string
  cu_String :: string

record 's net =
  nw_Dial :: "bool \<Rightarrow> duration \<Rightarrow> string \<Rightarrow> string \<Rightarrow> 's \<Rightarrow> (string + sock) \<times> 's"
  nw_SetDeadline :: "sock \<Rightarrow> duration \<Rightarrow> 's \<Rightarrow> 's"
  nw_Write :: "sock \<Rightarrow> byte list \<Rightarrow> 's \<Rightarrow> (nat \<times> string option) \<times> 's"
  nw_Read :: "sock \<Rightarrow> 's net_Read"
  nw_Close :: "sock \<Rightarrow> 's \<Rightarrow> string option \<times> 's"
  nw_url_Parse :: "string \<Rightarrow> string + client_url"
  nw_NilLog :: "unit res"

text \<open>\<open>cn_cmdFunc\<close> and \<open>cn_logger\<close> say whether the pointer is not nil, \<open>cn_mu\<close> whether the lock is held.\<close>

record Connection =
  cn_logger :: bool
  cn_mu :: bool
  cn_network :: string
  cn_conn :: "sock option"
  cn_connected :: bool
  cn_cmdFunc :: bool
  cn_nodeID :: u32
  cn_addr :: "client_url option"
  cn_leader :: bool
  cn_active :: bool

definition Connection_zero :: Connection where
  "Connection_zero = \<lparr>cn_logger = False, cn_mu = False, cn_network = [], cn_conn = None, cn_connected = False,
     cn_cmdFunc = False, cn_nodeID = 0, cn_addr = None, cn_leader = False, cn_active = False\<rparr>"

text \<open>
  \<open>cp_checkers\<close> counts the goroutines \<^verbatim>\<open>checkConns\<close> has started and that have not ended;
  \<open>cp_stopCh\<close> is the number of values in the channel, whose capacity is 1.
\<close>

record ConnectionPool =
  cp_logger :: bool
  cp_cancelled :: bool
  cp_initAddrs :: "string list"
  cp_mu :: bool
  cp_pool :: "(u32 \<times> nat) list"
  cp_resPool :: "string \<Rightarrow> nat option"
  cp_running :: bool
  cp_checkers :: nat
  cp_stopCh :: nat

record 's TCPClient =
  tc_addrs :: "string list"
  tc_opts :: clientOptions
  tc_connPool :: ConnectionPool
  tc_logger :: bool
  tc_heap :: "nat \<Rightarrow> Connection"
  tc_next :: nat
  tc_net :: 's

text \<open>An error value: a command error, or another error with its text.\<close>

datatype cerror = Err_Cmd CmdError | Err_Text string

fun cerror_Error :: "cerror \<Rightarrow> string" where
  "cerror_Error (Err_Cmd e) = CmdError_Error (Some e)"
| "cerror_Error (Err_Text s) = s"

type_synonym ('s, 'a) client_op = "'s TCPClient \<Rightarrow> ('a \<times> 's TCPClient) res"

type_synonym 's cmdFunc = "nat \<Rightarrow> string \<Rightarrow> Message option \<Rightarrow> ('s, CmdError + byte list) client_op"

definition conn_upd :: "nat \<Rightarrow> (Connection \<Rightarrow> Connection) \<Rightarrow> 's TCPClient \<Rightarrow> 's TCPClient" where
  "conn_upd a f st = st\<lparr>tc_heap := (tc_heap st)(a := f (tc_heap st a))\<rparr>"

definition pool_upd :: "(ConnectionPool \<Rightarrow> ConnectionPool) \<Rightarrow> 's TCPClient \<Rightarrow> 's TCPClient" where
  "pool_upd f st = st\<lparr>tc_connPool := f (tc_connPool st)\<rparr>"

text \<open>A call of a method of a logger that may be nil.\<close>

definition log_call :: "'s net \<Rightarrow> bool \<Rightarrow> unit res" where
  "log_call N logger = (if logger then Inr () else nw_NilLog N)"

section \<open>A connection\<close>

definition newConnection :: "'s TCPClient \<Rightarrow> nat \<times> 's TCPClient" where
  "newConnection st =
     (let c = Connection_zero\<lparr>cn_cmdFunc := True, cn_logger := co_logger (tc_opts st)\<rparr>
      in (tc_next st, st\<lparr>tc_heap := (tc_heap st)(tc_next st := c), tc_next := Suc (tc_next st)\<rparr>))"

definition Connection_Dial :: "'s net \<Rightarrow> string \<Rightarrow> string \<Rightarrow> nat \<Rightarrow> ('s, string option) client_op" where
  "Connection_Dial N network address a st =
     (let c = tc_heap st a
      in if cn_mu c then Inl Blocked
         else bindR (log_call N (cn_logger c)) (\<lambda>_.
           let (r, s) = nw_Dial N (cp_cancelled (tc_connPool st)) (co_dialTimeout (tc_opts st)) network address (tc_net st);
               st = st\<lparr>tc_net := s\<rparr>
           in case r of
                Inl err \<Rightarrow> Inr (Some err, st)
              | Inr conn \<Rightarrow>
                  Inr (None, conn_upd a (\<lambda>c. c\<lparr>cn_network := network, cn_conn := Some conn, cn_connected := True\<rparr>) st)))"

definition Connection_Connected :: "nat \<Rightarrow> 's TCPClient \<Rightarrow> bool" where
  "Connection_Connected a st = cn_connected (tc_heap st a)"

text \<open>The lock is held while the command function runs.\<close>

definition Connection_SendCmd :: "'s cmdFunc \<Rightarrow> 's cmdFunc" where
  "Connection_SendCmd send a cmdName cmdMsg st =
     (if cn_mu (tc_heap st a) then Inl Blocked
      else
        let st = conn_upd a (\<lambda>c. c\<lparr>cn_mu := True\<rparr>) st
        in bindR (if \<not> cn_cmdFunc (tc_heap st a) then
                    Inr (Inl (NewCmdProcessFailError ''The send command callback function is empty'' []), st)
                  else send a cmdName cmdMsg st)
             (\<lambda>(r, st). Inr (r, conn_upd a (\<lambda>c. c\<lparr>cn_mu := False\<rparr>) st)))"

text \<open>A nil \<^verbatim>\<open>net.Conn\<close> is dereferenced by every method but \<^verbatim>\<open>Close\<close>.\<close>

definition with_conn :: "nat \<Rightarrow> (sock \<Rightarrow> 's \<Rightarrow> 'a \<times> 's) \<Rightarrow> ('s, 'a) client_op" where
  "with_conn a f st =
     (case cn_conn (tc_heap st a) of
        None \<Rightarrow> Inl nil_deref
      | Some conn \<Rightarrow> let (r, s) = f conn (tc_net st) in Inr (r, st\<lparr>tc_net := s\<rparr>))"

definition Connection_Read :: "'s net \<Rightarrow> nat \<Rightarrow> byte list \<Rightarrow> ('s, nat \<times> string option) client_op" where
  "Connection_Read N a b = with_conn a (\<lambda>conn. nw_Write N conn b)"

definition Connection_Write :: "'s net \<Rightarrow> nat \<Rightarrow> byte list \<Rightarrow> ('s, nat \<times> string option) client_op" where
  "Connection_Write N a b = with_conn a (\<lambda>conn. nw_Write N conn b)"

definition Connection_SetDeadline :: "'s net \<Rightarrow> nat \<Rightarrow> duration \<Rightarrow> ('s, unit) client_op" where
  "Connection_SetDeadline N a d = with_conn a (\<lambda>conn s. ((), nw_SetDeadline N conn d s))"

definition Connection_Close :: "'s net \<Rightarrow> nat \<Rightarrow> ('s, string option) client_op" where
  "Connection_Close N a st =
     (case cn_conn (tc_heap st a) of
        None \<Rightarrow> Inr (None, st)
      | Some conn \<Rightarrow> let (r, s) = nw_Close N conn (tc_net st) in Inr (r, st\<lparr>tc_net := s\<rparr>))"

text \<open>Sending a command and decoding its response, as all callers do it.\<close>

definition call_cmd :: "'s cmdFunc \<Rightarrow> (byte list \<Rightarrow> 'a res) \<Rightarrow> nat \<Rightarrow> string \<Rightarrow> Message option \<Rightarrow> ('s, CmdError + 'a) client_op" where
  "call_cmd send unm a cmdName msg st =
     bindR (Connection_SendCmd send a cmdName msg st) (\<lambda>(r, st).
       case r of
         Inl err \<Rightarrow> Inr (Inl err, st)
       | Inr resp \<Rightarrow>
           handleR (unm resp)
             (\<lambda>err. bindR (WrapCmdError ErrorCode_ProcessFail (Some err)) (\<lambda>e. Inr (Inl e, st)))
             (\<lambda>respMsg. Inr (Inr respMsg, st)))"

definition Connection_meowCmd :: "'s cmdFunc \<Rightarrow> ts_codec \<Rightarrow> nat \<Rightarrow> ('s, CmdError + MeowCmdResp) client_op" where
  "Connection_meowCmd send T a st = call_cmd send (MeowCmdResp_Unmarshal T MeowCmdResp_zero) a ''Meow'' None st"

end
