(* ===== verification/ConfigText.thy ===== *)
theory ConfigText
  imports Config CmdErr "HOL-Library.Sublist"
begin

text \<open>
  The text of a configuration (\<^verbatim>\<open>internal/config\<close>): addresses without a scheme are completed before they are
  parsed.  \<^verbatim>\<open>net.SplitHostPort\<close> and \<^verbatim>\<open>net.JoinHostPort\<close> are written out; \<^verbatim>\<open>url.Parse\<close> is the
  argument \<open>Parse\<close>, which returns the readings the program takes of a URL, and the reading of the environment,
  the work of a library, is its outcome.
\<close>

section \<open>Searching text\<close>

text \<open>The index of the first and of the last place of a character.\<close>

fun IndexByte :: "string \<Rightarrow> char \<Rightarrow> nat option" where
  "IndexByte [] c = None"
| "IndexByte (x # s) c = (if x = c then Some 0 else map_option Suc (IndexByte s c))"

fun LastIndexByte :: "string \<Rightarrow> char \<Rightarrow> nat option" where
  "LastIndexByte [] c = None"
| "LastIndexByte (x # s) c =
     (case LastIndexByte s c of Some i \<Rightarrow> Some (Suc i) | None \<Rightarrow> if x = c then Some 0 else None)"

definition strings_Contains :: "string \<Rightarrow> string \<Rightarrow> bool" where
  "strings_Contains s substr = list_ex (prefix substr) (suffixes s)"

lemma IndexByte_None [simp]: "IndexByte s c = None \<longleftrightarrow> c \<notin> set s"
  by (induction s) auto

lemma IndexByte_append: "c \<notin> set s \<Longrightarrow> IndexByte (s @ c # t) c = Some (length s)"
  by (induction s) auto

lemma LastIndexByte_None [simp]: "LastIndexByte s c = None \<longleftrightarrow> c \<notin> set s"
  by (induction s) (auto split: option.splits)

lemma LastIndexByte_append: "c \<notin> set t \<Longrightarrow> LastIndexByte (s @ c # t) c = Some (length s)"
  by (induction s) (simp_all add: iffD2 [OF LastIndexByte_None])

section \<open>Host and port\<close>

definition AddrError :: "string \<Rightarrow> string \<Rightarrow> string" where
  "AddrError addr why = (if addr = [] then why else ''address '' @ addr @ '': '' @ why)"

text \<open>The bracketed and the plain form: the host, and from where no bracket may follow.\<close>

definition split_host :: "string \<Rightarrow> nat \<Rightarrow> string + string \<times> nat \<times> nat" where
  "split_host hostport i =
     (if hostport ! 0 = CHR ''['' then
        (case IndexByte hostport (CHR '']'') of
           None \<Rightarrow> Inl (AddrError hostport ''missing ']' in address'')
         | Some end' \<Rightarrow>
             if end' + 1 = length hostport then Inl (AddrError hostport ''missing port in address'')
             else if end' + 1 = i then Inr (drop 1 (take end' hostport), 1, end' + 1)
             else if hostport ! (end' + 1) = CHR '':'' then Inl (AddrError hostport ''too many colons in address'')
             else Inl (AddrError hostport ''missing port in address''))
      else
        let host = take i hostport
        in if CHR '':'' \<in> set host then Inl (AddrError hostport ''too many colons in address'') else Inr (host, 0, 0))"

definition SplitHostPort :: "string \<Rightarrow> string + string \<times> string" where
  "SplitHostPort hostport =
     (case LastIndexByte hostport (CHR '':'') of
        None \<Rightarrow> Inl (AddrError hostport ''missing port in address'')
      | Some i \<Rightarrow>
          (case split_host hostport i of
             Inl err \<Rightarrow> Inl err
           | Inr (host, j, k) \<Rightarrow>
               if CHR ''['' \<in> set (drop j hostport) then Inl (AddrError hostport ''unexpected '[' in address'')
               else if CHR '']'' \<in> set (drop k hostport) then Inl (AddrError hostport ''unexpected ']' in address'')
               else Inr (host, drop (i + 1) hostport)))"

definition JoinHostPort :: "string \<Rightarrow> string \<Rightarrow> string" where
  "JoinHostPort host port =
     (if CHR '':'' \<in> set host then ''['' @ host @ '']:'' @ port else host @ '':'' @ port)"

text \<open>\<^verbatim>\<open>Hostname\<close> and \<^verbatim>\<open>Port\<close> of a URL.\<close>

definition validOptionalPort :: "string \<Rightarrow> bool" where
  "validOptionalPort port =
     (case port of [] \<Rightarrow> True
      | c # ds \<Rightarrow> c = CHR '':'' \<and> list_all (\<lambda>d. 48 \<le> (of_char d :: nat) \<and> (of_char d :: nat) \<le> 57) ds)"

definition url_splitHostPort :: "string \<Rightarrow> string \<times> string" where
  "url_splitHostPort hostPort =
     (let (host, port) =
            (case LastIndexByte hostPort (CHR '':'') of
               None \<Rightarrow> (hostPort, [])
             | Some colon \<Rightarrow>
                 if validOptionalPort (drop colon hostPort) then (take colon hostPort, drop (colon + 1) hostPort)
                 else (hostPort, []))
      in (if prefix ''['' host \<and> suffix '']'' host then take (length host - 2) (drop 1 host) else host, port))"

section \<open>URLs\<close>

text \<open>Decoding sets the receiver: an error and the URL after the call.\<close>

definition complete_addr :: "string \<Rightarrow> string + string" where
  "complete_addr val =
     (if IndexByte val (CHR '':'') = None then Inl (sprintf ''invalid url: %s'' [FStr val])
      else case SplitHostPort val of
             Inl err \<Rightarrow> Inl err
           | Inr (host, port) \<Rightarrow>
               if length host = 0 then Inr (sprintf ''tcp://127.0.0.1:%s'' [FStr port])
               else Inr (sprintf ''tcp://%s'' [FStr (JoinHostPort host port)]))"

definition URL_Decode :: "(string \<Rightarrow> string + URL) \<Rightarrow> string \<Rightarrow> URL \<Rightarrow> string option \<times> URL" where
  "URL_Decode Parse val u =
     (case (if strings_Contains val ''://'' then Inr val else complete_addr val) of
        Inl err \<Rightarrow> (Some err, u)
      | Inr val \<Rightarrow> (case Parse val of Inl err \<Rightarrow> (Some err, u) | Inr parsed \<Rightarrow> (None, parsed\<lparr>u_hash := None\<rparr>)))"

definition URL_IsValid :: "URL \<Rightarrow> bool" where
  "URL_IsValid u = (fst (url_splitHostPort (u_Host u)) \<noteq> [] \<and> snd (url_splitHostPort (u_Host u)) \<noteq> [])"

definition URL_zero :: URL where
  "URL_zero = \<lparr>u_Scheme = [], u_Host = [], u_Username = [], u_String = [], u_hash = None\<rparr>"

definition ParseURL :: "(string \<Rightarrow> string + URL) \<Rightarrow> string \<Rightarrow> string option \<times> URL" where
  "ParseURL Parse v = URL_Decode Parse v URL_zero"

section \<open>The configuration\<close>

text \<open>What \<^verbatim>\<open>Init\<close> makes of the environment as \<^verbatim>\<open>envconfig\<close> read it: the default configuration.\<close>

definition config_Init :: "string + Config \<Rightarrow> string + Config" where
  "config_Init env =
     (case env of
        Inl err \<Rightarrow> Inl err
      | Inr cfg \<Rightarrow>
          if cc_Enabled (cf_Cluster cfg) \<and> length (u_String (cc_Url (cf_Cluster cfg))) = 0 then
            Inl (sprintf ''Invalid cluster.url: %s'' [FStr (u_String (cc_Url (cf_Cluster cfg)))])
          else Inr cfg)"

section \<open>Laws\<close>

lemma Split_Join:
  assumes "CHR '':'' \<notin> set port" "CHR ''['' \<notin> set (host @ port)" "CHR '']'' \<notin> set (host @ port)"
  shows "SplitHostPort (JoinHostPort host port) = Inr (host, port)"
proof (cases "CHR '':'' \<in> set host")
  case True
  have last: "LastIndexByte (''['' @ host @ '']:'' @ port) (CHR '':'') = Some (length host + 2)"
    using LastIndexByte_append [of "CHR '':''" port "''['' @ host @ '']''"] assms(1) by simp
  have first: "IndexByte (''['' @ host @ '']:'' @ port) (CHR '']'') = Some (Suc (length host))"
    using IndexByte_append [of "CHR '']''" "''['' @ host" "'':'' @ port"] assms(3) by simp
  have "split_host (''['' @ host @ '']:'' @ port) (length host + 2) = Inr (host, 1, length host + 2)"
    unfolding split_host_def first by simp
  then show ?thesis
    using True assms last by (simp add: JoinHostPort_def SplitHostPort_def)
next
  case False
  have last: "LastIndexByte (host @ CHR '':'' # port) (CHR '':'') = Some (length host)"
    by (rule LastIndexByte_append [OF assms(1)])
  have "(host @ CHR '':'' # port) ! 0 \<noteq> CHR ''[''" using assms(2) by (cases host) auto
  then have "split_host (host @ CHR '':'' # port) (length host) = Inr (host, 0, 0)"
    using False by (simp add: split_host_def)
  then show ?thesis
    using False assms last by (simp add: JoinHostPort_def SplitHostPort_def)
qed

end
