(* ===== verification/ClientPool.thy ===== *)
theory ClientPool
  imports ClientConn ConfigText
begin

text \<open>
  The connection pool (\<^verbatim>\<open>client/conn.go\<close>): one connection per server node, kept up to date with what the
  servers report of the cluster, and the bindings of resources to connections.  Two values a Go function returns
  together, a response and an error of which either may be nil, are a pair of options.
\<close>

section \<open>The maps\<close>

definition newConnectionPool :: "string list \<Rightarrow> clientOptions \<Rightarrow> ConnectionPool" where
  "newConnectionPool initAddrs opts =
     \<lparr>cp_logger = co_logger opts, cp_cancelled = False, cp_initAddrs = initAddrs, cp_mu = False, cp_pool = [],
      cp_resPool = (\<lambda>_. None), cp_running = False, cp_checkers = 0, cp_stopCh = 0\<rparr>"

definition pool_set :: "u32 \<Rightarrow> nat \<Rightarrow> 's TCPClient \<Rightarrow> 's TCPClient" where
  "pool_set nodeID a st =
     pool_upd (\<lambda>p. p\<lparr>cp_pool := AList.update nodeID a (cp_pool p)\<rparr>) (conn_upd a (\<lambda>c. c\<lparr>cn_nodeID := nodeID\<rparr>) st)"

definition pool_get :: "u32 \<Rightarrow> 's TCPClient \<Rightarrow> string + nat" where
  "pool_get nodeID st =
     (case map_of (cp_pool (tc_connPool st)) nodeID of
        None \<Rightarrow> Inl (sprintf ''Failed to get connection of node %d'' [FInt (uint nodeID)])
      | Some a \<Rightarrow> Inr a)"

definition pool_has :: "u32 \<Rightarrow> 's TCPClient \<Rightarrow> bool" where
  "pool_has nodeID st = (map_of (cp_pool (tc_connPool st)) nodeID \<noteq> None)"

text \<open>
  \<^verbatim>\<open>hasAddr\<close>, which nothing calls: the address of a connection that was made from an initial address is nil
  until the servers have reported it.
\<close>

fun hasAddr_iter :: "string \<Rightarrow> (nat \<Rightarrow> Connection) \<Rightarrow> (u32 \<times> nat) list \<Rightarrow> bool res" where
  "hasAddr_iter addr h [] = Inr False"
| "hasAddr_iter addr h ((nodeID, a) # es) =
     (case cn_addr (h a) of
        None \<Rightarrow> Inl nil_deref
      | Some url \<Rightarrow> if strings_Contains (cu_String url) addr then Inr True else hasAddr_iter addr h es)"

definition pool_hasAddr :: "string \<Rightarrow> 's TCPClient \<Rightarrow> bool res" where
  "pool_hasAddr addr st = hasAddr_iter addr (tc_heap st) (cp_pool (tc_connPool st))"

text \<open>\<^verbatim>\<open>iter\<close> with a callback that looks for a connection and stops there.\<close>

fun iter_find :: "(Connection \<Rightarrow> bool) \<Rightarrow> (nat \<Rightarrow> Connection) \<Rightarrow> (u32 \<times> nat) list \<Rightarrow> nat option" where
  "iter_find P h [] = None"
| "iter_find P h ((nodeID, a) # es) = (if P (h a) then Some a else iter_find P h es)"

definition bindResourceConn :: "nat \<Rightarrow> string \<Rightarrow> 's TCPClient \<Rightarrow> 's TCPClient" where
  "bindResourceConn a name st = pool_upd (\<lambda>p. p\<lparr>cp_resPool := (cp_resPool p)(name \<mapsto> a)\<rparr>) st"

section \<open>Asking the servers\<close>

type_synonym info_result = "MeowCmdResp option \<times> cerror option"

definition info_of :: "CmdError + MeowCmdResp \<Rightarrow> info_result" where
  "info_of r = (case r of Inl e \<Rightarrow> (None, Some (Err_Cmd e)) | Inr m \<Rightarrow> (Some m, None))"

text \<open>Up to three times per connection, then the next connection.\<close>

fun meow_tries :: "'s cmdFunc \<Rightarrow> ts_codec \<Rightarrow> nat \<Rightarrow> nat \<Rightarrow> info_result \<Rightarrow> ('s, info_result) client_op" where
  "meow_tries send T 0 a p st = Inr (p, st)"
| "meow_tries send T (Suc i) a p st =
     bindR (Connection_meowCmd send T a st) (\<lambda>(r, st).
       let p = info_of r in if snd p = None then Inr (p, st) else meow_tries send T i a p st)"

fun range_meow :: "'s cmdFunc \<Rightarrow> ts_codec \<Rightarrow> (u32 \<times> nat) list \<Rightarrow> info_result \<Rightarrow> ('s, info_result) client_op" where
  "range_meow send T [] p st = Inr (p, st)"
| "range_meow send T ((nodeID, a) # es) p st =
     bindR (meow_tries send T 3 a p st) (\<lambda>(p, st).
       if snd p \<noteq> None then range_meow send T es p st else Inr (p, st))"

text \<open>
  The initial addresses are all dialed, whether or not an earlier one has answered: the error of the last
  one dialed is the error returned.
\<close>

fun init_loop :: "'s net \<Rightarrow> 's cmdFunc \<Rightarrow> ts_codec \<Rightarrow> string list \<Rightarrow> info_result \<Rightarrow> ('s, info_result) client_op" where
  "init_loop N send T [] p st = Inr (p, st)"
| "init_loop N send T (addr # addrs) p st =
     (let (a, st) = newConnection st
      in bindR (Connection_Dial N ''tcp'' addr a st) (\<lambda>(err, st).
        case err of
          Some e \<Rightarrow>
            bindR (log_call N (cp_logger (tc_connPool st))) (\<lambda>_. init_loop N send T addrs (fst p, Some (Err_Text e)) st)
        | None \<Rightarrow>
            bindR (Connection_meowCmd send T a st) (\<lambda>(r, st).
              case r of
                Inl e \<Rightarrow> bindR (Connection_Close N a st) (\<lambda>(_, st). Inr (info_of r, st))
              | Inr m \<Rightarrow> init_loop N send T addrs (info_of r) (pool_set (mr_NodeId m) a st))))"

definition getServerInfo :: "'s net \<Rightarrow> 's cmdFunc \<Rightarrow> ts_codec \<Rightarrow> ('s, info_result) client_op" where
  "getServerInfo N send T st =
     bindR (range_meow send T (cp_pool (tc_connPool st)) (None, None) st) (\<lambda>(p, st).
       if fst p \<noteq> None then Inr (p, st) else init_loop N send T (cp_initAddrs (tc_connPool st)) p st)"

section \<open>Establishing connections\<close>

text \<open>
  The loop over the nodes reported: the count of connections, or the error of an endpoint that does not parse.
  A node that has a connection keeps it; only its description is updated.
\<close>

fun nodes_loop :: "'s net \<Rightarrow> NodeInfo option list \<Rightarrow> nat \<Rightarrow> ('s, string + nat) client_op" where
  "nodes_loop N [] connCount st = Inr (Inr connCount, st)"
| "nodes_loop N (None # nodes) connCount st = Inl nil_deref"
| "nodes_loop N (Some node # nodes) connCount st =
     (case nw_url_Parse N (ni_ApiEndpoint node) of
        Inl err \<Rightarrow> bindR (log_call N (cp_logger (tc_connPool st))) (\<lambda>_. Inr (Inl err, st))
      | Inr addr \<Rightarrow>
          (let upd = (\<lambda>c. c\<lparr>cn_addr := Some addr, cn_leader := ni_Leader node, cn_active := ni_Active node\<rparr>)
           in case pool_get (ni_Id node) st of
                Inr a \<Rightarrow>
                  bindR (log_call N (cp_logger (tc_connPool st))) (\<lambda>_.
                    nodes_loop N nodes (Suc connCount) (conn_upd a upd st))
              | Inl err \<Rightarrow>
                  (let (a, st) = newConnection st
                   in bindR (Connection_Dial N ''tcp'' (cu_Host addr) a st) (\<lambda>(err, st).
                     if err \<noteq> None then
                       bindR (log_call N (cp_logger (tc_connPool st))) (\<lambda>_. nodes_loop N nodes connCount st)
                     else nodes_loop N nodes (Suc connCount) (pool_set (ni_Id node) a (conn_upd a upd st))))))"

definition remove_zombies :: "NodeInfo option list \<Rightarrow> 's TCPClient \<Rightarrow> 's TCPClient" where
  "remove_zombies nodes st =
     pool_upd (\<lambda>p. p\<lparr>cp_pool := filter (\<lambda>(nodeID, a). \<exists>node \<in> set nodes. map_option ni_Id node = Some nodeID) (cp_pool p)\<rparr>) st"

definition ErrNoConnection :: cerror where
  "ErrNoConnection = Err_Text ''No connection established''"

text \<open>The body of \<^verbatim>\<open>establishConns\<close>, and the function itself with its lock.\<close>

definition establish_locked :: "'s net \<Rightarrow> 's cmdFunc \<Rightarrow> ts_codec \<Rightarrow> ('s, cerror option) client_op" where
  "establish_locked N send T st =
     bindR (getServerInfo N send T st) (\<lambda>((respMsg, err), st).
       if err \<noteq> None then Inr (err, st)
       else case respMsg of
              None \<Rightarrow> Inl nil_deref
            | Some m \<Rightarrow>
                bindR (nodes_loop N (mr_Nodes m) 0 st) (\<lambda>(r, st).
                  case r of
                    Inl err \<Rightarrow> Inr (Some (Err_Text err), st)
                  | Inr connCount \<Rightarrow>
                      Inr (if connCount = 0 then Some ErrNoConnection else None, remove_zombies (mr_Nodes m) st)))"

definition establishConns :: "'s net \<Rightarrow> 's cmdFunc \<Rightarrow> ts_codec \<Rightarrow> ('s, cerror option) client_op" where
  "establishConns N send T st =
     (if cp_mu (tc_connPool st) then Inl Blocked
      else bindR (establish_locked N send T (pool_upd (\<lambda>p. p\<lparr>cp_mu := True\<rparr>) st))
             (\<lambda>(err, st). Inr (err, pool_upd (\<lambda>p. p\<lparr>cp_mu := False\<rparr>) st)))"

section \<open>Choosing a connection\<close>

fun leader_tries :: "'s net \<Rightarrow> 's cmdFunc \<Rightarrow> ts_codec \<Rightarrow> nat \<Rightarrow> ('s, nat option) client_op" where
  "leader_tries N send T 0 st = Inr (None, st)"
| "leader_tries N send T (Suc i) st =
     (case iter_find cn_leader (tc_heap st) (cp_pool (tc_connPool st)) of
        Some a \<Rightarrow> Inr (Some a, st)
      | None \<Rightarrow>
          bindR (log_call N (cp_logger (tc_connPool st))) (\<lambda>_.
          bindR (establishConns N send T st) (\<lambda>(err, st).
            bindR (if err \<noteq> None then log_call N (cp_logger (tc_connPool st)) else Inr ()) (\<lambda>_.
              leader_tries N send T i st))))"

definition getLeaderConn :: "'s net \<Rightarrow> 's cmdFunc \<Rightarrow> ts_codec \<Rightarrow> ('s, nat option) client_op" where
  "getLeaderConn N send T st =
     bindR (leader_tries N send T 3 st) (\<lambda>(leader, st).
       Inr (case leader of
              Some a \<Rightarrow> Some a
            | None \<Rightarrow> iter_find cn_active (tc_heap st) (cp_pool (tc_connPool st)), st))"

definition getResourceConn :: "'s net \<Rightarrow> 's cmdFunc \<Rightarrow> ts_codec \<Rightarrow> string \<Rightarrow> ('s, nat option) client_op" where
  "getResourceConn N send T name st =
     (case cp_resPool (tc_connPool st) name of
        None \<Rightarrow> getLeaderConn N send T st
      | Some a \<Rightarrow> Inr (Some a, st))"

section \<open>The background check\<close>

text \<open>
  \<^verbatim>\<open>checkConns\<close> starts a goroutine each time it is called: \<open>checker_run\<close> is its start,
  \<open>checker_tick\<close> what it does at a tick and \<open>checker_exit\<close> its end once the context is cancelled, for which it
  needs room in \<^verbatim>\<open>stopCh\<close>.  \<^verbatim>\<open>shutdown\<close> cancels the context, waits for a goroutine that runs,
  and closes the connections in the pool.  \<open>None\<close> says that a channel operation has to wait; a wait for
  \<^verbatim>\<open>stopCh\<close> goes on with \<open>pool_recv\<close>.
\<close>

definition checkConns :: "'s TCPClient \<Rightarrow> 's TCPClient" where
  "checkConns st = pool_upd (\<lambda>p. p\<lparr>cp_checkers := Suc (cp_checkers p)\<rparr>) st"

definition checker_run :: "'s TCPClient \<Rightarrow> 's TCPClient res" where
  "checker_run st =
     (if co_checkInterval (tc_opts st) \<le> 0 then Inl (Panic ''non-positive interval for NewTicker'')
      else Inr (pool_upd (\<lambda>p. p\<lparr>cp_running := True\<rparr>) st))"

definition checker_tick :: "'s net \<Rightarrow> 's cmdFunc \<Rightarrow> ts_codec \<Rightarrow> ('s, cerror option) client_op" where
  "checker_tick N send T st = establishConns N send T st"

definition checker_exit :: "'s TCPClient \<Rightarrow> 's TCPClient option" where
  "checker_exit st =
     (if 1 \<le> cp_stopCh (tc_connPool st) then None
      else Some (pool_upd (\<lambda>p. p\<lparr>cp_stopCh := Suc (cp_stopCh p), cp_running := False, cp_checkers := cp_checkers p - 1\<rparr>) st))"

definition pool_cancel :: "'s TCPClient \<Rightarrow> 's TCPClient" where
  "pool_cancel st = pool_upd (\<lambda>p. p\<lparr>cp_cancelled := True\<rparr>) st"

definition pool_recv :: "'s TCPClient \<Rightarrow> 's TCPClient option" where
  "pool_recv st =
     (if cp_stopCh (tc_connPool st) = 0 then None
      else Some (pool_upd (\<lambda>p. p\<lparr>cp_stopCh := cp_stopCh p - 1\<rparr>) st))"

definition pool_wait :: "'s TCPClient \<Rightarrow> 's TCPClient option" where
  "pool_wait st = (if \<not> cp_running (tc_connPool st) then Some st else pool_recv st)"

fun close_all :: "'s net \<Rightarrow> (u32 \<times> nat) list \<Rightarrow> ('s, unit) client_op" where
  "close_all N [] st = Inr ((), st)"
| "close_all N ((nodeID, a) # es) st = bindR (Connection_Close N a st) (\<lambda>(_, st). close_all N es st)"

definition shutdown :: "'s net \<Rightarrow> 's TCPClient \<Rightarrow> (unit \<times> 's TCPClient) res option" where
  "shutdown N st =
     map_option (\<lambda>st. close_all N (cp_pool (tc_connPool st)) st) (pool_wait (pool_cancel st))"

end
