(* ===== verification/Client.thy ===== *)
theory Client
  imports ClientPool
begin

text \<open>
  The client (\<^verbatim>\<open>client/client.go\<close>): the commands a program calls, over the connection pool.
  \<^verbatim>\<open>sendCmd\<close>, which the connections call back, dials again when its connection is not connected, and
  dialing asks the servers with it: that recursion is on fuel.  \<^verbatim>\<open>Allow\<close> calls itself again for a
  redirected resource and has fuel of its own.
\<close>

definition ErrLeaderNonexist :: cerror where
  "ErrLeaderNonexist = Err_Cmd (NewCmdNotFoundError ''The leader connection doesn't exist'' [])"

text \<open>The pool is made before the default logger is set: it keeps the nil logger of the options.\<close>

definition TCPClient_New :: "string list \<Rightarrow> ClientOption list \<Rightarrow> 's \<Rightarrow> 's TCPClient" where
  "TCPClient_New addrs opts s =
     (let o0 = \<lparr>co_dialTimeout = 2 * time_Second, co_checkInterval = 10 * time_Second, co_logger = False\<rparr>;
          o1 = fold (\<lambda>opt. opt) opts o0;
          pool = newConnectionPool addrs o1;
          o2 = (if \<not> co_logger o1 then o1\<lparr>co_logger := True\<rparr> else o1)
      in \<lparr>tc_addrs = addrs, tc_opts = o2, tc_connPool = pool, tc_logger = co_logger o2,
          tc_heap = (\<lambda>_. Connection_zero), tc_next = 0, tc_net = s\<rparr>)"

definition TCPClient_Dial :: "'s net \<Rightarrow> 's cmdFunc \<Rightarrow> ts_codec \<Rightarrow> ('s, cerror option) client_op" where
  "TCPClient_Dial N send T st =
     bindR (log_call N (tc_logger st)) (\<lambda>_.
     bindR (establishConns N send T st) (\<lambda>(err, st). Inr (err, checkConns st)))"

definition TCPClient_Close :: "'s net \<Rightarrow> 's TCPClient \<Rightarrow> (unit \<times> 's TCPClient) res option" where
  "TCPClient_Close N st = shutdown N st"

section \<open>Sending\<close>

text \<open>What \<^verbatim>\<open>sendCmd\<close> does with a connection it takes to be connected.\<close>

definition send_connected :: "'s net \<Rightarrow> ts_codec \<Rightarrow> 's cmdFunc" where
  "send_connected N T a cmdName cmdMsg st =
     bindR (EncodeCmdReq T cmdName cmdMsg) (\<lambda>r.
       case r of
         Inl err \<Rightarrow> bindR (log_call N (tc_logger st)) (\<lambda>_. Inr (Inl err, st))
       | Inr cmd \<Rightarrow>
           bindR (Connection_SetDeadline N a time_Second st) (\<lambda>(_, st).
           bindR (Connection_Write N a cmd st) (\<lambda>((sent, wErr), st).
             if wErr \<noteq> None then bindR (WrapCmdError ErrorCode_ProcessFail wErr) (\<lambda>e. Inr (Inl e, st))
             else if sent \<noteq> length cmd then
               Inr (Inl (NewCmdProcessFailError (''Expect to send %d bytes, sent %d bytes'' @ [CHR 0x0A])
                 [FInt (int (length cmd)), FInt (int sent)]), st)
             else case cn_conn (tc_heap st a) of
                    None \<Rightarrow> Inl nil_deref
                  | Some conn \<Rightarrow>
                      bindR (DecodeCmdResp (nw_Read N conn) T (tc_net st)) (\<lambda>(r, s). Inr (r, st\<lparr>tc_net := s\<rparr>)))))"

fun TCPClient_sendCmd :: "'s net \<Rightarrow> ts_codec \<Rightarrow> nat \<Rightarrow> 's cmdFunc" where
  "TCPClient_sendCmd N T 0 a cmdName cmdMsg st = Inl OutOfFuel"
| "TCPClient_sendCmd N T (Suc n) a cmdName cmdMsg st =
     (if \<not> Connection_Connected a st then
        bindR (TCPClient_Dial N (TCPClient_sendCmd N T n) T st) (\<lambda>(err, st).
          case err of
            Some e \<Rightarrow> bindR (WrapCmdError ErrorCode_ProcessFail (Some (cerror_Error e))) (\<lambda>e. Inr (Inl e, st))
          | None \<Rightarrow> send_connected N T a cmdName cmdMsg st)
      else send_connected N T a cmdName cmdMsg st)"

section \<open>The commands\<close>

definition TCPClient_Meow :: "'s net \<Rightarrow> 's cmdFunc \<Rightarrow> ts_codec \<Rightarrow> ('s, cerror + MeowCmdResp) client_op" where
  "TCPClient_Meow N send T st =
     bindR (getLeaderConn N send T st) (\<lambda>(conn, st).
       case conn of
         None \<Rightarrow> Inr (Inl ErrLeaderNonexist, st)
       | Some a \<Rightarrow> bindR (Connection_meowCmd send T a st) (\<lambda>(r, st). Inr (map_sum Err_Cmd id r, st)))"

definition ErrNoResourceConn :: "string \<Rightarrow> cerror" where
  "ErrNoResourceConn resource = Err_Text (sprintf ''connection for resource %s doesnt exist'' [FStr resource])"

definition TCPClient_GetResource :: "'s net \<Rightarrow> 's cmdFunc \<Rightarrow> ts_codec \<Rightarrow> string \<Rightarrow> ('s, cerror + PbResource) client_op" where
  "TCPClient_GetResource N send T resource st =
     bindR (getResourceConn N send T resource st) (\<lambda>(conn, st).
       case conn of
         None \<Rightarrow> Inr (Inl (ErrNoResourceConn resource), st)
       | Some a \<Rightarrow>
           bindR (call_cmd send (Resource_Unmarshal T Resource_zero) a ''GetRes''
             (Some (Msg_GetResCmd (Some \<lparr>gr_Resource = resource\<rparr>))) st) (\<lambda>(r, st). Inr (map_sum Err_Cmd id r, st)))"

definition registerTokenBucketCmd :: "'s cmdFunc \<Rightarrow> ts_codec \<Rightarrow> nat \<Rightarrow> string \<Rightarrow> u64 \<Rightarrow> u32 \<Rightarrow> bool \<Rightarrow>
  ('s, CmdError + RegResCmdResp) client_op" where
  "registerTokenBucketCmd send T a resource rate burst override st =
     call_cmd send (RegResCmdResp_Unmarshal T RegResCmdResp_zero) a ''RegRes''
       (Some (Msg_RegResCmd (Some \<lparr>rc_Resource = resource, rc_Type = LimiterType_TokenBucket, rc_Override = override,
          rc_Option = Some (RegResCmd_TokenBucket (Some \<lparr>tp_Rate = rate, tp_Burst = burst\<rparr>))\<rparr>))) st"

definition TCPClient_RegisterTokenBucket :: "'s net \<Rightarrow> 's cmdFunc \<Rightarrow> ts_codec \<Rightarrow> string \<Rightarrow> u64 \<Rightarrow> u32 \<Rightarrow> bool \<Rightarrow>
  ('s, u32 \<times> cerror option) client_op" where
  "TCPClient_RegisterTokenBucket N send T resource rate burst override st =
     bindR (getLeaderConn N send T st) (\<lambda>(conn, st).
       case conn of
         None \<Rightarrow> Inr ((0, Some ErrLeaderNonexist), st)
       | Some a \<Rightarrow>
           bindR (registerTokenBucketCmd send T a resource rate burst override st) (\<lambda>(r, st).
             case r of
               Inl e \<Rightarrow> Inr ((0, Some (Err_Cmd e)), st)
             | Inr respMsg \<Rightarrow>
                 (if cn_nodeID (tc_heap st a) \<noteq> rp_NodeId respMsg then
                    (case pool_get (rp_NodeId respMsg) st of
                       Inl err \<Rightarrow> Inr ((0, Some (Err_Text err)), st)
                     | Inr newConn \<Rightarrow> Inr ((rp_NodeId respMsg, None), bindResourceConn newConn resource st))
                  else Inr ((rp_NodeId respMsg, None), st))))"

definition allowCmd :: "'s cmdFunc \<Rightarrow> ts_codec \<Rightarrow> nat \<Rightarrow> string \<Rightarrow> u32 \<Rightarrow> ('s, CmdError + AllowCmdResp) client_op" where
  "allowCmd send T a resource events st =
     call_cmd send (AllowCmdResp_Unmarshal T AllowCmdResp_zero) a ''Allow''
       (Some (Msg_AllowCmd (Some \<lparr>ac_Resource = resource, ac_Events = events\<rparr>))) st"

fun TCPClient_Allow :: "'s net \<Rightarrow> 's cmdFunc \<Rightarrow> ts_codec \<Rightarrow> nat \<Rightarrow> string \<Rightarrow> u32 \<Rightarrow> ('s, bool \<times> cerror option) client_op" where
  "TCPClient_Allow N send T 0 resource events st = Inl OutOfFuel"
| "TCPClient_Allow N send T (Suc m) resource events st =
     bindR (getResourceConn N send T resource st) (\<lambda>(conn, st).
       case conn of
         None \<Rightarrow> Inr ((True, Some (ErrNoResourceConn resource)), st)
       | Some a \<Rightarrow>
           bindR (allowCmd send T a resource events st) (\<lambda>(r, st).
             case r of
               Inl e \<Rightarrow> Inr ((True, Some (Err_Cmd e)), st)
             | Inr respMsg \<Rightarrow>
                 (if ar_Redirected respMsg then
                    bindR (log_call N (tc_logger st)) (\<lambda>_.
                      case pool_get (ar_NodeId respMsg) st of
                        Inl err \<Rightarrow> Inr ((True, Some (Err_Text err)), st)
                      | Inr newConn \<Rightarrow>
                          TCPClient_Allow N send T m resource events (bindResourceConn newConn resource st))
                  else Inr ((ar_Ok respMsg, None), st))))"

end
