(* ===== verification/ClientLaws.thy ===== *)
theory ClientLaws
  imports Client ApiLaws ProtoReturns
begin

text \<open>
  What a client's state keeps, and that its operations come back.  The contract \<open>command_sender\<close> is what the
  pool relies on of the command function it calls back: on a connection that is open it answers, and
  changes nothing but the network.  \<open>pool_ok\<close> says of the pool that its connections are open and unlocked, so that
  this applies to all of them; every operation keeps it, and with it none panics or waits for a lock it holds.
\<close>

section \<open>Operations that return\<close>

definition runs :: "('a \<times> 's TCPClient) res \<Rightarrow> ('a \<Rightarrow> 's TCPClient \<Rightarrow> bool) \<Rightarrow> bool" where
  "runs r Q \<longleftrightarrow> (\<exists>x st. r = Inr (x, st) \<and> Q x st)"

lemma runs_Inr [simp]: "runs (Inr (x, st)) Q \<longleftrightarrow> Q x st"
  by (simp add: runs_def)

lemma runs_bindR: "runs r Q \<Longrightarrow> (\<And>x st. Q x st \<Longrightarrow> runs (k (x, st)) R) \<Longrightarrow> runs (bindR r k) R"
  by (auto simp: runs_def)

lemma runs_mono: "runs r Q \<Longrightarrow> (\<And>x st. Q x st \<Longrightarrow> R x st) \<Longrightarrow> runs r R"
  by (auto simp: runs_def)

lemma runsD: "runs r Q \<Longrightarrow> r = Inr (x, st) \<Longrightarrow> Q x st"
  by (simp add: runs_def)

section \<open>Reports of the cluster\<close>

text \<open>A list of nodes that was decoded has no nil element.\<close>

lemma unmarshal_loop_inv:
  assumes step: "\<And>d f w i m r m' j. P m \<Longrightarrow> sw d f w i m = Some r \<Longrightarrow> r = Inr (m', j) \<Longrightarrow> P m'"
  shows "P m \<Longrightarrow> unmarshal_loop fuel name sw d i m = Inr m' \<Longrightarrow> P m'"
proof (induction fuel arbitrary: i m)
  case (Suc fuel)
  have next_inv: "P m2" if "(case sw d f w j m of None \<Rightarrow> skip_field d i m | Some r \<Rightarrow> r) = Inr (m2, k)" for f w j m2 k
    using that step [OF Suc.prems(1)] Suc.prems(1)
    by (auto simp: skip_field_def bindR_Inr_iff Let_def split: option.splits if_splits)
  from Suc.prems show ?case
    by (auto simp: unmarshal_loop.simps bindR_Inr_iff Let_def split: if_splits dest!: next_inv Suc.IH [rotated])
qed (simp add: unmarshal_loop.simps)

lemma MeowCmdResp_nodes:
  assumes "MeowCmdResp_Unmarshal T MeowCmdResp_zero d = Inr m"
  shows "None \<notin> set (mr_Nodes m)"
proof (rule unmarshal_loop_inv [where P = "\<lambda>m. None \<notin> set (mr_Nodes m)"])
  show "unmarshal_loop (Suc (length d)) ''MeowCmdResp'' (MeowCmdResp_switch T) d 0 MeowCmdResp_zero = Inr m"
    using assms by (simp add: MeowCmdResp_Unmarshal_def unmarshal_with_def)
next
  fix d f w i and m m' :: MeowCmdResp and r j
  assume "None \<notin> set (mr_Nodes m)" "MeowCmdResp_switch T d f w i m = Some r" "r = Inr (m', j)"
  then show "None \<notin> set (mr_Nodes m')"
    by (auto simp: MeowCmdResp_switch_def switch_on_def on_varint_def on_new_def bindR_Inr_iff split: if_splits)
qed (simp add: MeowCmdResp_zero_def)

section \<open>The contract of the command function\<close>

text \<open>An \<^verbatim>\<open>io.Reader\<close> never gives more bytes than it was asked for.\<close>

definition net_ok :: "'s net \<Rightarrow> bool" where
  "net_ok N \<longleftrightarrow> (\<forall>sock s n. length (fst (fst (nw_Read N sock s n))) \<le> n)"

definition link_ok :: "'s net \<Rightarrow> ts_codec \<Rightarrow> bool" where
  "link_ok N T \<longleftrightarrow> net_ok N \<and> ts_codec_ok T \<and> ts_safe T"

definition sendable_msg :: "ts_codec \<Rightarrow> Message option \<Rightarrow> bool" where
  "sendable_msg T msg \<longleftrightarrow> (\<exists>body. (case msg of None \<Rightarrow> Inr [] | Some m \<Rightarrow> proto_Marshal T m) = Inr body)"

lemma sendable_None [simp]: "sendable_msg T None"
  by (simp add: sendable_msg_def)

definition conn_open :: "'s TCPClient \<Rightarrow> nat \<Rightarrow> bool" where
  "conn_open st a \<longleftrightarrow> cn_connected (tc_heap st a) \<and> cn_conn (tc_heap st a) \<noteq> None"

definition conn_ok :: "'s TCPClient \<Rightarrow> nat \<Rightarrow> bool" where
  "conn_ok st a \<longleftrightarrow> a < tc_next st \<and> conn_open st a \<and> cn_logger (tc_heap st a) \<and> \<not> cn_mu (tc_heap st a) \<and> cn_cmdFunc (tc_heap st a)"

lemma conn_net [simp]: "conn_open (st\<lparr>tc_net := s\<rparr>) a = conn_open st a" "conn_ok (st\<lparr>tc_net := s\<rparr>) a = conn_ok st a"
  by (simp_all add: conn_open_def conn_ok_def)

locale command_sender =
  fixes send :: "'s net \<Rightarrow> ts_codec \<Rightarrow> 's cmdFunc"
  assumes answers: "link_ok N T \<Longrightarrow> sendable_msg T msg \<Longrightarrow> conn_open st a \<Longrightarrow>
    \<exists>r s. send N T a name msg st = Inr (r, st\<lparr>tc_net := s\<rparr>) \<and> (\<forall>resp. r = Inr resp \<longrightarrow> length resp < 2 ^ 63)"
begin

lemma SendCmd_answers:
  assumes "link_ok N T" "sendable_msg T msg" "conn_ok st a"
  shows "\<exists>r s. Connection_SendCmd (send N T) a name msg st = Inr (r, st\<lparr>tc_net := s\<rparr>) \<and> (\<forall>resp. r = Inr resp \<longrightarrow> length resp < 2 ^ 63)"
proof -
  let ?st = "conn_upd a (\<lambda>c. c\<lparr>cn_mu := True\<rparr>) st"
  have "conn_open ?st a" using assms(3) by (simp add: conn_ok_def conn_open_def conn_upd_def)
  from answers [OF assms(1,2) this] obtain r s where
    "send N T a name msg ?st = Inr (r, ?st\<lparr>tc_net := s\<rparr>)" "\<forall>resp. r = Inr resp \<longrightarrow> length resp < 2 ^ 63" by blast
  moreover have "conn_upd a (\<lambda>c. c\<lparr>cn_mu := False\<rparr>) (?st\<lparr>tc_net := s\<rparr>) = st\<lparr>tc_net := s\<rparr>"
    using assms(3) by (simp add: conn_ok_def conn_upd_def fun_upd_idem)
  ultimately show ?thesis
    using assms(3) by (intro exI [of _ r] exI [of _ s]) (simp add: Connection_SendCmd_def Let_def conn_ok_def, simp add: conn_upd_def)
qed

lemma call_cmd_answers:
  assumes "link_ok N T" "sendable_msg T msg" "conn_ok st a" "\<And>d. length d < 2 ^ 63 \<Longrightarrow> safe (unm d)"
  shows "\<exists>r s. call_cmd (send N T) unm a name msg st = Inr (r, st\<lparr>tc_net := s\<rparr>) \<and> (\<forall>m. r = Inr m \<longrightarrow> (\<exists>d. unm d = Inr m))"
proof -
  obtain r s where r: "Connection_SendCmd (send N T) a name msg st = Inr (r, st\<lparr>tc_net := s\<rparr>)"
    "\<forall>resp. r = Inr resp \<longrightarrow> length resp < 2 ^ 63" using SendCmd_answers [OF assms(1-3)] by blast
  show ?thesis
  proof (cases r)
    case (Inl e)
    with r(1) show ?thesis by (intro exI [of _ "Inl e"] exI [of _ s]) (simp add: call_cmd_def)
  next
    case (Inr resp)
    then have "safe (unm resp)" using r(2) assms(4) by blast
    then show ?thesis
      by (cases "unm resp" rule: panics.cases) (auto simp: call_cmd_def r(1) Inr safe_def)
  qed
qed

lemma meowCmd_answers:
  assumes "link_ok N T" "conn_ok st a"
  shows "\<exists>r s. Connection_meowCmd (send N T) T a st = Inr (r, st\<lparr>tc_net := s\<rparr>) \<and> (\<forall>m. r = Inr m \<longrightarrow> None \<notin> set (mr_Nodes m))"
proof -
  have safe: "safe (MeowCmdResp_Unmarshal T MeowCmdResp_zero d)" if "length d < 2 ^ 63" for d
    using assms(1) that by (intro MeowCmdResp_reader.Unmarshal_safe) (simp_all add: link_ok_def)
  obtain r s where
    "call_cmd (send N T) (MeowCmdResp_Unmarshal T MeowCmdResp_zero) a ''Meow'' None st = Inr (r, st\<lparr>tc_net := s\<rparr>)"
    "\<forall>m. r = Inr m \<longrightarrow> (\<exists>d. MeowCmdResp_Unmarshal T MeowCmdResp_zero d = Inr m)"
    using call_cmd_answers [OF assms(1) sendable_None assms(2), where unm = "MeowCmdResp_Unmarshal T MeowCmdResp_zero" and name = "''Meow''"] safe by blast
  then show ?thesis unfolding Connection_meowCmd_def using MeowCmdResp_nodes by blast
qed

end

section \<open>The pool's invariant\<close>

definition pool_ok :: "'s TCPClient \<Rightarrow> bool" where
  "pool_ok st \<longleftrightarrow>
     (\<forall>(i, a) \<in> set (cp_pool (tc_connPool st)). conn_ok st a \<and> cn_nodeID (tc_heap st a) = i) \<and>
     distinct (map fst (cp_pool (tc_connPool st))) \<and>
     (\<forall>name a. cp_resPool (tc_connPool st) name = Some a \<longrightarrow> conn_ok st a) \<and>
     tc_logger st \<and> co_logger (tc_opts st) \<and> cp_logger (tc_connPool st) \<and> cp_initAddrs (tc_connPool st) \<noteq> []"

text \<open>The invariant looks only at connections that exist, so what is done to new ones does not matter.\<close>

lemma pool_ok_frame:
  assumes "pool_ok st" "tc_connPool st' = tc_connPool st" "tc_opts st' = tc_opts st" "tc_logger st' = tc_logger st"
    and "tc_next st \<le> tc_next st'" "\<And>b. b < tc_next st \<Longrightarrow> tc_heap st' b = tc_heap st b"
  shows "pool_ok st'"
proof -
  have "conn_ok st b \<Longrightarrow> conn_ok st' b \<and> tc_heap st' b = tc_heap st b" for b
    using assms(5,6) by (auto simp: conn_ok_def conn_open_def)
  then show ?thesis using assms(1-4) by (fastforce simp: pool_ok_def)
qed

lemma pool_ok_net [simp]: "pool_ok (st\<lparr>tc_net := s\<rparr>) = pool_ok st"
  by (simp add: pool_ok_def)

lemma pool_okD:
  "pool_ok st \<Longrightarrow> (i, a) \<in> set (cp_pool (tc_connPool st)) \<Longrightarrow> conn_ok st a"
  "pool_ok st \<Longrightarrow> cp_resPool (tc_connPool st) name = Some a \<Longrightarrow> conn_ok st a"
  "pool_ok st \<Longrightarrow> tc_logger st" "pool_ok st \<Longrightarrow> cp_logger (tc_connPool st)"
  by (auto simp: pool_ok_def)

lemma pool_get_ok: "pool_ok st \<Longrightarrow> pool_get i st = Inr a \<Longrightarrow> conn_ok st a \<and> cn_nodeID (tc_heap st a) = i"
  by (auto simp: pool_get_def pool_ok_def split: option.splits dest!: map_of_SomeD)

text \<open>The primitive updates.\<close>

lemma pool_ok_mu [simp]: "pool_ok (pool_upd (\<lambda>p. p\<lparr>cp_mu := b\<rparr>) st) = pool_ok st"
  by (simp add: pool_ok_def pool_upd_def conn_ok_def conn_open_def)

lemma cp_mu_upd [simp]: "cp_mu (tc_connPool (pool_upd (\<lambda>p. p\<lparr>cp_mu := b\<rparr>) st)) = b"
  by (simp add: pool_upd_def)

lemma conn_ok_upd:
  "conn_ok (conn_upd a (\<lambda>c. c\<lparr>cn_addr := x, cn_leader := l, cn_active := v\<rparr>) st) b = conn_ok st b"
  by (simp add: conn_ok_def conn_open_def conn_upd_def)

lemma pool_ok_upd: "pool_ok st \<Longrightarrow> pool_ok (conn_upd a (\<lambda>c. c\<lparr>cn_addr := x, cn_leader := l, cn_active := v\<rparr>) st)"
  by (simp add: pool_ok_def conn_ok_upd) (auto simp: conn_upd_def)

lemma newConnection_ok:
  assumes "pool_ok st" "newConnection st = (a, st')"
  shows "a = tc_next st" "pool_ok st'" "tc_connPool st' = tc_connPool st" "tc_next st' = Suc a"
    "cn_logger (tc_heap st' a)" "\<not> cn_mu (tc_heap st' a)" "cn_cmdFunc (tc_heap st' a)"
proof -
  have st': "a = tc_next st" "st' = st\<lparr>tc_heap := (tc_heap st)(a := Connection_zero\<lparr>cn_cmdFunc := True, cn_logger := co_logger (tc_opts st)\<rparr>),
      tc_next := Suc a\<rparr>" using assms(2) by (auto simp: newConnection_def Let_def)
  show "pool_ok st'" by (rule pool_ok_frame [OF assms(1)]) (simp_all add: st')
  show "a = tc_next st" "tc_connPool st' = tc_connPool st" "tc_next st' = Suc a"
    "cn_logger (tc_heap st' a)" "\<not> cn_mu (tc_heap st' a)" "cn_cmdFunc (tc_heap st' a)"
    using assms(1) by (simp_all add: st' Connection_zero_def pool_ok_def)
qed

lemma update_entries: "(j, b) \<in> set (AList.update i a es) \<Longrightarrow> (j = i \<and> b = a) \<or> (j, b) \<in> set es"
  by (induction es) (auto split: if_splits)

lemma pool_set_ok:
  assumes "pool_ok st" "conn_ok st a" "\<And>i. (i, a) \<notin> set (cp_pool (tc_connPool st))"
  shows "pool_ok (pool_set i a st)"
proof -
  have conn: "conn_ok (pool_set i a st) b = conn_ok st b"
    "cn_nodeID (tc_heap (pool_set i a st) b) = (if b = a then i else cn_nodeID (tc_heap st b))" for b
    by (simp_all add: pool_set_def conn_ok_def conn_open_def conn_upd_def pool_upd_def)
  have entry: "conn_ok (pool_set i a st) b \<and> cn_nodeID (tc_heap (pool_set i a st) b) = j"
    if "(j, b) \<in> set (AList.update i a (cp_pool (tc_connPool st)))" for j b
    using update_entries [OF that] assms by (auto simp: conn pool_ok_def)
  have "tc_connPool (pool_set i a st) = (tc_connPool st)\<lparr>cp_pool := AList.update i a (cp_pool (tc_connPool st))\<rparr>"
    "tc_logger (pool_set i a st) = tc_logger st" "tc_opts (pool_set i a st) = tc_opts st"
    by (simp_all add: pool_set_def conn_upd_def pool_upd_def)
  note fields = this
  have "\<forall>(j, b) \<in> set (AList.update i a (cp_pool (tc_connPool st))).
      conn_ok (pool_set i a st) b \<and> cn_nodeID (tc_heap (pool_set i a st) b) = j"
    using entry by blast
  then show ?thesis
    using assms(1) unfolding pool_ok_def fields by (simp add: conn(1) distinct_update)
qed

lemma bind_ok: "pool_ok st \<Longrightarrow> conn_ok st a \<Longrightarrow> pool_ok (bindResourceConn a name st)"
  by (simp add: pool_ok_def bindResourceConn_def pool_upd_def conn_ok_def conn_open_def split_beta)

lemma remove_zombies_ok: "pool_ok st \<Longrightarrow> pool_ok (remove_zombies nodes st)"
  by (auto simp: pool_ok_def remove_zombies_def pool_upd_def conn_ok_def conn_open_def
      intro: distinct_map_filter)

section \<open>Every operation keeps it\<close>

text \<open>
  \<open>keeps st\<close> is the postcondition all operations of the pool share: the invariant, and the lock as it was.
\<close>

definition keeps :: "'s TCPClient \<Rightarrow> 's TCPClient \<Rightarrow> bool" where
  "keeps st st' \<longleftrightarrow> pool_ok st' \<and> cp_mu (tc_connPool st') = cp_mu (tc_connPool st)"

lemma keeps_trans: "keeps st st1 \<Longrightarrow> keeps st1 st2 \<Longrightarrow> keeps st st2"
  by (simp add: keeps_def)

lemma keeps_refl: "pool_ok st \<Longrightarrow> keeps st st"
  by (simp add: keeps_def)

lemma keeps_net [simp]: "keeps st (st'\<lparr>tc_net := s\<rparr>) = keeps st st'"
  by (simp add: keeps_def)

lemma keepsD: "keeps st st' \<Longrightarrow> pool_ok st'"
  by (simp add: keeps_def)

lemma log_call_True [simp]: "log_call N True = Inr ()"
  by (simp add: log_call_def)

text \<open>A new connection that is dialed: an error, or a connection that is open and in no map yet.\<close>

definition fresh_conn :: "nat \<Rightarrow> 's TCPClient \<Rightarrow> bool" where
  "fresh_conn a st \<longleftrightarrow> conn_ok st a \<and> (\<forall>i. (i, a) \<notin> set (cp_pool (tc_connPool st)))"

lemma fresh_net [simp]: "fresh_conn a (st\<lparr>tc_net := s\<rparr>) = fresh_conn a st"
  by (simp add: fresh_conn_def)

lemma dial_new_runs:
  assumes "pool_ok st" "newConnection st = (a, st1)"
  shows "runs (Connection_Dial N network addr a st1) (\<lambda>err st'. keeps st st' \<and> (err = None \<longrightarrow> fresh_conn a st'))"
proof -
  note new = newConnection_ok [OF assms]
  have notin: "(i, a) \<notin> set (cp_pool (tc_connPool st1))" for i
  proof
    assume "(i, a) \<in> set (cp_pool (tc_connPool st1))"
    then show False using pool_okD(1) [OF assms(1)] new(1,3) by (fastforce simp: conn_ok_def)
  qed
  show ?thesis
  proof (cases "nw_Dial N (cp_cancelled (tc_connPool st1)) (co_dialTimeout (tc_opts st1)) network addr (tc_net st1)")
    case (Pair r s)
    show ?thesis
    proof (cases r)
      case (Inl err)
      then show ?thesis using new unfolding Connection_Dial_def Let_def Pair by (simp add: keeps_def)
    next
      case (Inr sock)
      let ?st = "conn_upd a (\<lambda>c. c\<lparr>cn_network := network, cn_conn := Some sock, cn_connected := True\<rparr>) (st1\<lparr>tc_net := s\<rparr>)"
      have "pool_ok ?st"
        by (rule pool_ok_frame [OF assms(1)])
          (use new assms(2) in \<open>auto simp: conn_upd_def newConnection_def Let_def\<close>)
      moreover have "fresh_conn a ?st" using new notin by (simp add: fresh_conn_def conn_ok_def conn_open_def conn_upd_def)
      moreover have "cp_mu (tc_connPool ?st) = cp_mu (tc_connPool st)" using new(3) by (simp add: conn_upd_def)
      ultimately show ?thesis using new unfolding Connection_Dial_def Let_def Pair by (simp add: Inr keeps_def)
    qed
  qed
qed

lemma pool_set_keeps: "keeps st st' \<Longrightarrow> fresh_conn a st' \<Longrightarrow> keeps st (pool_set i a st')"
  using pool_set_ok [of st' a i] by (simp add: keeps_def fresh_conn_def) (simp add: pool_set_def pool_upd_def conn_upd_def)

lemma upd_keeps: "keeps st st' \<Longrightarrow> keeps st (conn_upd a (\<lambda>c. c\<lparr>cn_addr := x, cn_leader := l, cn_active := v\<rparr>) st')"
  by (simp add: keeps_def pool_ok_upd) (simp add: conn_upd_def)

lemma fresh_upd: "fresh_conn a st \<Longrightarrow> fresh_conn a (conn_upd a (\<lambda>c. c\<lparr>cn_addr := x, cn_leader := l, cn_active := v\<rparr>) st)"
  by (simp add: fresh_conn_def conn_ok_upd) (simp add: conn_upd_def)

text \<open>A report that is complete: an answer whose nodes are there, or an error.\<close>

definition nodes_there :: "info_result \<Rightarrow> bool" where
  "nodes_there p \<longleftrightarrow> (\<forall>m. fst p = Some m \<longrightarrow> None \<notin> set (mr_Nodes m))"

lemma nodes_there_simps [simp]:
  "nodes_there (None, e)" "nodes_there (Some m, e) \<longleftrightarrow> None \<notin> set (mr_Nodes m)" "nodes_there (fst p, e) = nodes_there p"
  by (simp_all add: nodes_there_def)

text \<open>What the servers were asked for is known: an answer or an error.\<close>

definition info_given :: "info_result \<Rightarrow> bool" where
  "info_given p \<longleftrightarrow> nodes_there p \<and> (fst p \<noteq> None \<or> snd p \<noteq> None)"

lemma info_given_simps [simp]:
  "info_given (x, Some e) = nodes_there (x, Some e)" "info_given (Some m, e2) \<longleftrightarrow> None \<notin> set (mr_Nodes m)"
  "info_given (info_of (Inl e'))" "info_given (info_of (Inr m)) \<longleftrightarrow> None \<notin> set (mr_Nodes m)"
  by (simp_all add: info_given_def nodes_there_def info_of_def)

lemma info_given_there: "info_given p \<Longrightarrow> nodes_there p"
  by (simp add: info_given_def)

lemma nodes_loop_runs:
  "pool_ok st \<Longrightarrow> None \<notin> set nodes \<Longrightarrow> runs (nodes_loop N nodes n st) (\<lambda>_. keeps st)"
proof (induction nodes arbitrary: n st)
  case (Cons no nodes)
  have lg: "cp_logger (tc_connPool st') = True" if "keeps st st'" for st' using pool_okD(4) [OF keepsD [OF that]] by simp
  have IH: "runs (nodes_loop N nodes k st') (\<lambda>_. keeps st)" if "keeps st st'" for k st'
    by (rule runs_mono [OF Cons.IH]) (use Cons.prems that keepsD keeps_trans in auto)
  obtain node where node: "no = Some node" using Cons.prems(2) by (cases no) auto
  show ?case
  proof (cases "nw_url_Parse N (ni_ApiEndpoint node)")
    case (Inl err)
    then show ?thesis using Cons.prems(1) by (simp add: node lg keeps_refl)
  next
    case url: (Inr addr)
    show ?thesis
    proof (cases "pool_get (ni_Id node) st")
      case (Inr a)
      then show ?thesis using Cons.prems(1) by (simp add: node url Let_def lg keeps_refl IH upd_keeps)
    next
      case (Inl e)
      obtain a st1 where new: "newConnection st = (a, st1)" by (cases "newConnection st")
      show ?thesis
        unfolding nodes_loop.simps node url Inl sum.case Let_def new prod.case
        by (rule runs_bindR [OF dial_new_runs [OF Cons.prems(1) new]])
          (auto simp: lg intro!: IH pool_set_keeps upd_keeps fresh_upd)
    qed
  qed
qed (simp add: keeps_refl)

text \<open>Between the operations the pool is not locked.\<close>

definition client_inv :: "'s TCPClient \<Rightarrow> bool" where
  "client_inv st \<longleftrightarrow> pool_ok st \<and> \<not> cp_mu (tc_connPool st)"

lemma client_inv_net [simp]: "client_inv (st\<lparr>tc_net := s\<rparr>) = client_inv st"
  by (simp add: client_inv_def)

lemma client_invD:
  "client_inv st \<Longrightarrow> pool_ok st" "client_inv st \<Longrightarrow> \<not> cp_mu (tc_connPool st)"
  "client_inv st \<Longrightarrow> tc_logger st = True" "client_inv st \<Longrightarrow> cp_logger (tc_connPool st) = True"
  by (simp_all add: client_inv_def pool_ok_def)

lemma iter_find_entry: "iter_find P h es = Some a \<Longrightarrow> P (h a) \<and> (\<exists>i. (i, a) \<in> set es)"
  by (induction es) (auto split: if_splits)

lemma iter_find_ok: "pool_ok st \<Longrightarrow> iter_find P (tc_heap st) (cp_pool (tc_connPool st)) = Some a \<Longrightarrow> conn_ok st a"
  using iter_find_entry pool_okD(1) by metis

lemma remove_zombies_keeps: "keeps st st' \<Longrightarrow> keeps st (remove_zombies nodes st')"
  by (simp add: keeps_def remove_zombies_ok) (simp add: remove_zombies_def pool_upd_def)

context command_sender begin

lemma meow_tries_runs:
  assumes "link_ok N T" "pool_ok st" "conn_ok st a"
  shows "runs (meow_tries (send N T) T (Suc i) a p st)
    (\<lambda>p st'. keeps st st' \<and> nodes_there p \<and> (fst p = None \<or> snd p = None) \<and> (snd p = None \<longrightarrow> fst p \<noteq> None) \<and> (\<exists>s. st' = st\<lparr>tc_net := s\<rparr>))"
  using assms(2,3)
proof (induction i arbitrary: p st)
  case 0
  obtain r s where r: "Connection_meowCmd (send N T) T a st = Inr (r, st\<lparr>tc_net := s\<rparr>)" "\<forall>m. r = Inr m \<longrightarrow> None \<notin> set (mr_Nodes m)"
    using meowCmd_answers [OF assms(1) 0(2)] by blast
  then show ?case using 0(1) by (cases r) (auto simp: info_of_def nodes_there_def keeps_refl)
next
  case (Suc i)
  obtain r s where r: "Connection_meowCmd (send N T) T a st = Inr (r, st\<lparr>tc_net := s\<rparr>)" "\<forall>m. r = Inr m \<longrightarrow> None \<notin> set (mr_Nodes m)"
    using meowCmd_answers [OF assms(1) Suc.prems(2)] by blast
  show ?case
  proof (cases r)
    case (Inl e)
    have "runs (meow_tries (send N T) T (Suc i) a (info_of r) (st\<lparr>tc_net := s\<rparr>))
        (\<lambda>p st'. keeps st st' \<and> nodes_there p \<and> (fst p = None \<or> snd p = None) \<and> (snd p = None \<longrightarrow> fst p \<noteq> None) \<and> (\<exists>s. st' = st\<lparr>tc_net := s\<rparr>))"
      by (rule runs_mono [OF Suc.IH]) (use Suc.prems in \<open>auto simp: keeps_def\<close>)
    then show ?thesis by (simp add: r(1) Inl info_of_def Let_def)
  next
    case (Inr m)
    then show ?thesis using r Suc.prems(1) by (auto simp: info_of_def nodes_there_def keeps_refl)
  qed
qed

lemma range_meow_runs:
  assumes "link_ok N T"
  shows "pool_ok st \<Longrightarrow> (\<And>i a. (i, a) \<in> set es \<Longrightarrow> conn_ok st a) \<Longrightarrow> nodes_there p \<Longrightarrow> (fst p = None \<or> snd p = None) \<Longrightarrow>
    runs (range_meow (send N T) T es p st)
      (\<lambda>p st'. keeps st st' \<and> nodes_there p \<and> (fst p = None \<or> snd p = None))"
proof (induction es arbitrary: p st)
  case (Cons e es)
  obtain i a where e: "e = (i, a)" by (cases e)
  have "runs (meow_tries (send N T) T (Suc 2) a p st)
      (\<lambda>p st'. keeps st st' \<and> nodes_there p \<and> (fst p = None \<or> snd p = None) \<and> (snd p = None \<longrightarrow> fst p \<noteq> None) \<and> (\<exists>s. st' = st\<lparr>tc_net := s\<rparr>))"
    by (rule meow_tries_runs [OF assms Cons.prems(1)]) (use Cons.prems(2) e in auto)
  then have m: "runs (meow_tries (send N T) T 3 a p st)
      (\<lambda>p st'. keeps st st' \<and> nodes_there p \<and> (fst p = None \<or> snd p = None) \<and> (snd p = None \<longrightarrow> fst p \<noteq> None) \<and> (\<exists>s. st' = st\<lparr>tc_net := s\<rparr>))" by (simp add: eval_nat_numeral)
  have IH: "runs (range_meow (send N T) T es p (st\<lparr>tc_net := s\<rparr>)) (\<lambda>p st'. keeps st st' \<and> nodes_there p \<and> (fst p = None \<or> snd p = None))"
    if "nodes_there p" "fst p = None \<or> snd p = None" for p s
    by (rule runs_mono [OF Cons.IH]) (use Cons.prems that in \<open>auto simp: keeps_def\<close>)
  show ?case
    unfolding e range_meow.simps by (rule runs_bindR [OF m]) (auto intro!: IH)
qed (simp add: keeps_refl)

lemma init_loop_runs:
  assumes "link_ok N T"
  shows "pool_ok st \<Longrightarrow> nodes_there p \<Longrightarrow> addrs \<noteq> [] \<or> info_given p \<Longrightarrow>
    runs (init_loop N (send N T) T addrs p st)
      (\<lambda>p st'. keeps st st' \<and> info_given p)"
proof (induction addrs arbitrary: p st)
  case (Cons addr addrs)
  obtain a st1 where new: "newConnection st = (a, st1)" by (cases "newConnection st")
  have lg: "cp_logger (tc_connPool st') = True" if "keeps st st'" for st' using pool_okD(4) [OF keepsD [OF that]] by simp
  have IH: "runs (init_loop N (send N T) T addrs p st') (\<lambda>p st'. keeps st st' \<and> info_given p)"
    if "keeps st st'" "info_given p" for p st'
    by (rule runs_mono [OF Cons.IH]) (use that keepsD keeps_trans info_given_there in blast)+
  have answered: "runs (bindR (Connection_meowCmd (send N T) T a st2) (\<lambda>(r, st).
              case r of
                Inl e \<Rightarrow> bindR (Connection_Close N a st) (\<lambda>(_, st). Inr (info_of r, st))
              | Inr m \<Rightarrow> init_loop N (send N T) T addrs (info_of r) (pool_set (mr_NodeId m) a st)))
       (\<lambda>p st'. keeps st st' \<and> info_given p)"
    if k: "keeps st st2" "fresh_conn a st2" for st2
  proof -
    obtain r s where r: "Connection_meowCmd (send N T) T a st2 = Inr (r, st2\<lparr>tc_net := s\<rparr>)" "\<forall>m. r = Inr m \<longrightarrow> None \<notin> set (mr_Nodes m)"
      using meowCmd_answers [OF assms] k(2) unfolding fresh_conn_def by blast
    show ?thesis
    proof (cases r)
      case (Inl e)
      then show ?thesis using k(1)
        by (auto simp: r(1) Connection_Close_def split: option.split prod.split)
    next
      case (Inr m)
      have "runs (init_loop N (send N T) T addrs (info_of r) (pool_set (mr_NodeId m) a (st2\<lparr>tc_net := s\<rparr>)))
          (\<lambda>p st'. keeps st st' \<and> info_given p)"
        using k r(2) by (intro IH pool_set_keeps) (simp_all add: Inr)
      then show ?thesis by (simp add: r(1) Inr)
    qed
  qed
  show ?case
    unfolding init_loop.simps new Let_def prod.case
    by (rule runs_bindR [OF dial_new_runs [OF Cons.prems(1) new]])
      (use Cons.prems(2) in \<open>auto simp: lg split: option.split intro!: IH answered\<close>)
qed (simp add: keeps_refl)

lemma getServerInfo_runs:
  assumes "link_ok N T" "pool_ok st"
  shows "runs (getServerInfo N (send N T) T st) (\<lambda>p st'. keeps st st' \<and> info_given p)"
proof -
  have r: "runs (range_meow (send N T) T (cp_pool (tc_connPool st)) (None, None) st)
      (\<lambda>p st'. keeps st st' \<and> nodes_there p \<and> (fst p = None \<or> snd p = None))"
    by (rule range_meow_runs [OF assms]) (use pool_okD(1) [OF assms(2)] in auto)
  have ask: "runs (init_loop N (send N T) T (cp_initAddrs (tc_connPool st1)) p st1) (\<lambda>p st'. keeps st st' \<and> info_given p)"
    if k: "keeps st st1" "nodes_there p" for p st1
  proof -
    have "cp_initAddrs (tc_connPool st1) \<noteq> []" using keepsD [OF k(1)] by (simp add: pool_ok_def)
    then show ?thesis
      by (intro runs_mono [OF init_loop_runs [OF assms(1)]]) (use k keepsD keeps_trans in auto)
  qed
  show ?thesis unfolding getServerInfo_def
    by (rule runs_bindR [OF r]) (auto intro!: ask)
qed

lemma establish_locked_runs:
  assumes "link_ok N T" "pool_ok st"
  shows "runs (establish_locked N (send N T) T st) (\<lambda>_. keeps st)"
proof -
  have nodes: "runs (bindR (nodes_loop N (mr_Nodes m) 0 st1) (\<lambda>(r, st).
                  case r of
                    Inl err \<Rightarrow> Inr (Some (Err_Text err), st)
                  | Inr connCount \<Rightarrow>
                      Inr (if connCount = 0 then Some ErrNoConnection else None, remove_zombies (mr_Nodes m) st))) (\<lambda>_. keeps st)"
    if "keeps st st1" "None \<notin> set (mr_Nodes m)" for m st1
    by (rule runs_bindR [OF nodes_loop_runs [OF keepsD [OF that(1)] that(2)]])
      (use that(1) keeps_trans in \<open>auto split: sum.split intro!: remove_zombies_keeps\<close>)
  show ?thesis
    unfolding establish_locked_def
    by (rule runs_bindR [OF getServerInfo_runs [OF assms]])
      (auto simp: info_given_def nodes_there_def split: option.split intro!: nodes)
qed

lemma establishConns_runs:
  assumes "link_ok N T" "client_inv st"
  shows "runs (establishConns N (send N T) T st) (\<lambda>_. client_inv)"
proof -
  have "runs (establish_locked N (send N T) T (pool_upd (\<lambda>p. p\<lparr>cp_mu := True\<rparr>) st)) (\<lambda>_. keeps (pool_upd (\<lambda>p. p\<lparr>cp_mu := True\<rparr>) st))"
    by (rule establish_locked_runs [OF assms(1)]) (use assms(2) in \<open>simp add: client_inv_def\<close>)
  then show ?thesis
    unfolding establishConns_def using assms(2)
    by (auto elim!: runs_bindR simp: keeps_def client_inv_def)
qed

lemma leader_tries_runs:
  assumes "link_ok N T"
  shows "client_inv st \<Longrightarrow> runs (leader_tries N (send N T) T i st) (\<lambda>r st'. client_inv st' \<and> (\<forall>a. r = Some a \<longrightarrow> conn_ok st' a))"
proof (induction i arbitrary: st)
  case (Suc i)
  show ?case
  proof (cases "iter_find cn_leader (tc_heap st) (cp_pool (tc_connPool st))")
    case None
    show ?thesis
      unfolding leader_tries.simps None option.case client_invD(4) [OF Suc.prems] log_call_True bindR_Inr
      by (rule runs_bindR [OF establishConns_runs [OF assms Suc.prems]]) (auto simp: client_invD(4) intro: Suc.IH)
  next
    case (Some a)
    then show ?thesis using Suc.prems iter_find_ok client_invD(1) by fastforce
  qed
qed simp

lemma getLeaderConn_runs:
  assumes "link_ok N T" "client_inv st"
  shows "runs (getLeaderConn N (send N T) T st) (\<lambda>r st'. client_inv st' \<and> (\<forall>a. r = Some a \<longrightarrow> conn_ok st' a))"
  unfolding getLeaderConn_def
  by (rule runs_bindR [OF leader_tries_runs [OF assms]])
    (auto split: option.split dest: client_invD(1) iter_find_ok)

lemma getResourceConn_runs:
  assumes "link_ok N T" "client_inv st"
  shows "runs (getResourceConn N (send N T) T name st) (\<lambda>r st'. client_inv st' \<and> (\<forall>a. r = Some a \<longrightarrow> conn_ok st' a))"
  using getLeaderConn_runs [OF assms] client_invD(1) [OF assms(2)] pool_okD(2) assms(2)
  by (auto simp: getResourceConn_def split: option.split)

end

end
