(* ===== verification/ClientRun.thy ===== *)
theory ClientRun
  imports ClientLaws
begin

text \<open>
  The client as a whole: \<^verbatim>\<open>sendCmd\<close> keeps the contract of the command function, so every command,
  every tick of the background check and every change of the network keeps the pool's invariant, and in every
  state a client reaches (\<open>client_run\<close>) its operations return.
\<close>

section \<open>The messages a client sends\<close>

lemma whenW_False: "whenW False w = whenW False w'"
  by (simp add: whenW_def fun_eq_iff)

text \<open>A rate of negative zero is written as no rate at all, like a rate of zero.\<close>

lemma RegResCmd_negative_zero:
  "RegResCmd_Marshal T (Some \<lparr>rc_Resource = name, rc_Type = t, rc_Override = ov,
     rc_Option = Some (RegResCmd_TokenBucket (Some \<lparr>tp_Rate = 0x8000000000000000, tp_Burst = burst\<rparr>))\<rparr>) =
   RegResCmd_Marshal T (Some \<lparr>rc_Resource = name, rc_Type = t, rc_Override = ov,
     rc_Option = Some (RegResCmd_TokenBucket (Some \<lparr>tp_Rate = 0, tp_Burst = burst\<rparr>))\<rparr>)"
proof -
  let ?p = "\<lambda>r. Some \<lparr>tp_Rate = r :: u64, tp_Burst = burst\<rparr>"
  have p: "TokenBucketParam_MarshalToSizedBuffer T (?p 0x8000000000000000) = TokenBucketParam_MarshalToSizedBuffer T (?p 0)"
    "TokenBucketParam_Size T (?p 0x8000000000000000) = TokenBucketParam_Size T (?p 0)"
    by (simp_all add: fun_eq_iff f64_nonzero_def whenW_False [of "put_double 9 0x8000000000000000" "put_double 9 0"])
  let ?w = "\<lambda>r. RegResCmd_TokenBucket (?p r)"
  have w: "RegResCmd_TokenBucket_MarshalToSizedBuffer T (?w 0x8000000000000000) = RegResCmd_TokenBucket_MarshalToSizedBuffer T (?w 0)"
    "RegResCmd_TokenBucket_Size T (?w 0x8000000000000000) = RegResCmd_TokenBucket_Size T (?w 0)"
    by (intro ext, simp only: RegResCmd_TokenBucket_MarshalToSizedBuffer.simps p option.simps simp_thms)
      (simp only: RegResCmd_TokenBucket_Size.simps p option.simps)
  let ?m = "\<lambda>r. Some \<lparr>rc_Resource = name, rc_Type = t, rc_Override = ov, rc_Option = Some (?w r)\<rparr>"
  have "RegResCmd_MarshalToSizedBuffer T (?m 0x8000000000000000) = RegResCmd_MarshalToSizedBuffer T (?m 0)"
    by (intro ext) (simp only: RegResCmd_MarshalToSizedBuffer.simps w RegResCmd.simps option.simps option.sel simp_thms)
  moreover have "RegResCmd_Size T (?m 0x8000000000000000) = RegResCmd_Size T (?m 0)"
    by (simp only: RegResCmd_Size.simps w RegResCmd.simps option.simps)
  ultimately show ?thesis by (simp only: RegResCmd_Marshal_def)
qed

lemma sendable_msgs:
  assumes "ts_codec_ok T"
  shows "sendable_msg T (Some (Msg_GetResCmd (Some g)))" "sendable_msg T (Some (Msg_AllowCmd (Some a)))"
    "sendable_msg T (Some (Msg_RegResCmd (Some \<lparr>rc_Resource = name, rc_Type = t, rc_Override = ov,
       rc_Option = Some (RegResCmd_TokenBucket (Some \<lparr>tp_Rate = rate, tp_Burst = burst\<rparr>))\<rparr>)))"
proof -
  let ?m = "\<lambda>r. \<lparr>rc_Resource = name, rc_Type = t, rc_Override = ov,
       rc_Option = Some (RegResCmd_TokenBucket (Some \<lparr>tp_Rate = r, tp_Burst = burst\<rparr>))\<rparr>"
  show "sendable_msg T (Some (Msg_GetResCmd (Some g)))" "sendable_msg T (Some (Msg_AllowCmd (Some a)))"
    using GetResCmd.Marshal_enc [OF assms, of g] AllowCmd.Marshal_enc [OF assms, of a]
    by (auto simp: sendable_msg_def GetResCmd_Marshal_def AllowCmd_Marshal_def valid_GetResCmd_def valid_AllowCmd_def)
  have reg: "\<exists>bs. RegResCmd_Marshal T (Some (?m r)) = Inr bs" if "r \<noteq> 0x8000000000000000" for r
    using RegResCmd.Marshal_enc [OF assms, of "?m r"] that
    by (auto simp: RegResCmd_Marshal_def valid_RegResCmd_def valid_TokenBucketParam_def)
  have "\<exists>bs. RegResCmd_Marshal T (Some (?m rate)) = Inr bs"
    by (cases "rate = 0x8000000000000000") (use reg [of 0] reg [of rate] RegResCmd_negative_zero in auto)
  then show "sendable_msg T (Some (Msg_RegResCmd (Some (?m rate))))" by (simp add: sendable_msg_def)
qed

section \<open>Sending keeps the contract\<close>

lemma DecodeCmdResp_answers:
  assumes "ts_safe T" "\<And>s n. length (fst (fst (Read s n))) \<le> n"
  shows "\<exists>r s'. DecodeCmdResp Read T s = Inr (r, s') \<and> (\<forall>resp. r = Inr resp \<longrightarrow> length resp < 2 ^ 63)"
proof -
  obtain h e s1 where 1: "Read s RespHeaderSize = ((h, e), s1)" by (metis prod.exhaust)
  let ?n = "le_val (take 4 (drop MagicNumSize h))"
  obtain b e2 s2 where 2: "Read s1 ?n = ((b, e2), s2)" by (metis prod.exhaust)
  have b: "length b \<le> ?n" using assms(2) [of s1 ?n] 2 by simp
  have "safe (CmdError_Unmarshal T CmdError_zero b)" if "?n \<le> 4096"
    using b that by (intro CmdError_reader.Unmarshal_safe [OF assms(1)]) simp
  then have "\<exists>r. ?n \<le> 4096 \<longrightarrow> handleR (CmdError_Unmarshal T CmdError_zero b)
      (\<lambda>err. bindR (WrapCmdError ErrorCode_DecodeFail (Some err)) (\<lambda>e. Inr (Inl e, s2))) (\<lambda>errResp. Inr (Inl errResp, s2)) =
      Inr (Inl r :: CmdError + byte list, s2)"
    by (cases "CmdError_Unmarshal T CmdError_zero b" rule: panics.cases) (auto simp: safe_def)
  then obtain r where "?n \<le> 4096 \<longrightarrow> handleR (CmdError_Unmarshal T CmdError_zero b)
      (\<lambda>err. bindR (WrapCmdError ErrorCode_DecodeFail (Some err)) (\<lambda>e. Inr (Inl e, s2))) (\<lambda>errResp. Inr (Inl errResp, s2)) =
      Inr (Inl r :: CmdError + byte list, s2)" ..
  then show ?thesis
    unfolding DecodeCmdResp_def 1 Let_def prod.case 2 using b
    by (cases e; cases e2; cases "?n \<le> 4096") (simp_all add: endec_sizes not_less)
qed

lemma send_connected_answers:
  assumes "link_ok N T" "sendable_msg T msg" "conn_open st a"
  shows "\<exists>r s. send_connected N T a name msg st = Inr (r, st\<lparr>tc_net := s\<rparr>) \<and> (\<forall>resp. r = Inr resp \<longrightarrow> length resp < 2 ^ 63)"
proof -
  obtain conn where conn: "cn_conn (tc_heap st a) = Some conn" using assms(3) by (auto simp: conn_open_def)
  obtain cmd where cmd: "EncodeCmdReq T name msg = Inr (Inr cmd)"
    using assms(1,2) EncodeCmdReq_frame by (auto simp: sendable_msg_def link_ok_def)
  let ?s = "nw_SetDeadline N conn time_Second (tc_net st)"
  obtain sent e s1 where w: "nw_Write N conn cmd ?s = ((sent, e), s1)" by (metis prod.exhaust)
  obtain r s2 where d: "DecodeCmdResp (nw_Read N conn) T s1 = Inr (r, s2)" "\<forall>resp. r = Inr resp \<longrightarrow> length resp < 2 ^ 63"
    using DecodeCmdResp_answers [of T "nw_Read N conn" s1] assms(1) by (auto simp: link_ok_def net_ok_def)
  show ?thesis
  proof (cases "e = None \<and> sent = length cmd")
    case True
    then show ?thesis using d
      by (intro exI [of _ r] exI [of _ s2])
        (simp add: send_connected_def cmd Connection_SetDeadline_def Connection_Write_def with_conn_def conn w)
  next
    case False
    then show ?thesis
      by (cases e) (auto simp: send_connected_def cmd Connection_SetDeadline_def Connection_Write_def with_conn_def conn w)
  qed
qed

interpretation sender: command_sender "\<lambda>N T. TCPClient_sendCmd N T (Suc n)" for n
proof unfold_locales
  fix N :: "'a net" and T msg and st :: "'a TCPClient" and a name
  assume "link_ok N T" "sendable_msg T msg" "conn_open st a"
  then show "\<exists>r s. TCPClient_sendCmd N T (Suc n) a name msg st = Inr (r, st\<lparr>tc_net := s\<rparr>) \<and>
      (\<forall>resp. r = Inr resp \<longrightarrow> length resp < 2 ^ 63)"
    using send_connected_answers [of N T msg st a name] by (simp add: Connection_Connected_def conn_open_def)
qed

section \<open>The commands\<close>

lemma client_inv_checkers: "client_inv st \<Longrightarrow> client_inv (checkConns st)"
  by (simp add: client_inv_def pool_ok_def checkConns_def pool_upd_def conn_ok_def conn_open_def)

text \<open>The commands' first step: a connection, or their answer when there is none.\<close>

lemma runs_conn:
  assumes "runs r (\<lambda>c st'. client_inv st' \<and> (\<forall>a. c = Some a \<longrightarrow> conn_ok st' a))"
    and "\<And>st1. client_inv st1 \<Longrightarrow> Q x st1"
    and "\<And>st1 a. client_inv st1 \<Longrightarrow> conn_ok st1 a \<Longrightarrow> runs (k a st1) Q"
  shows "runs (bindR r (\<lambda>(conn, st). case conn of None \<Rightarrow> Inr (x, st) | Some a \<Rightarrow> k a st)) Q"
  by (rule runs_bindR [OF assms(1)]) (auto split: option.split intro: assms(2,3))

text \<open>A client that is redirected in each of its first \<open>m\<close> rounds.\<close>

fun redirected :: "'s net \<Rightarrow> 's cmdFunc \<Rightarrow> ts_codec \<Rightarrow> nat \<Rightarrow> string \<Rightarrow> u32 \<Rightarrow> 's TCPClient \<Rightarrow> bool" where
  "redirected N send T 0 name events st = True"
| "redirected N send T (Suc m) name events st =
     (case getResourceConn N send T name st of
        Inr (Some a, st) \<Rightarrow>
          (case allowCmd send T a name events st of
             Inr (Inr resp, st) \<Rightarrow>
               ar_Redirected resp \<and>
               (case pool_get (ar_NodeId resp) st of Inl err \<Rightarrow> False | Inr b \<Rightarrow> redirected N send T m name events (bindResourceConn b name st))
           | _ \<Rightarrow> False)
      | _ \<Rightarrow> False)"

lemma bindResourceConn_inv: "client_inv st \<Longrightarrow> pool_get i st = Inr a \<Longrightarrow> client_inv (bindResourceConn a name st)"
  using bind_ok [of st a name] pool_get_ok [of st i a]
  by (simp add: client_inv_def) (simp add: bindResourceConn_def pool_upd_def)

context command_sender begin

lemma call_cmd_runs:
  assumes "link_ok N T" "client_inv st" "conn_ok st a" "sendable_msg T msg" "\<And>d. length d < 2 ^ 63 \<Longrightarrow> safe (unm d)"
  shows "runs (call_cmd (send N T) unm a name msg st) (\<lambda>r st'. \<exists>s. st' = st\<lparr>tc_net := s\<rparr>)"
proof -
  obtain r s where "call_cmd (send N T) unm a name msg st = Inr (r, st\<lparr>tc_net := s\<rparr>)"
    using call_cmd_answers [where unm = unm and name = name, OF assms(1,4,3)] assms(5) by blast
  then show ?thesis by auto
qed

lemma Dial_runs: "link_ok N T \<Longrightarrow> client_inv st \<Longrightarrow> runs (TCPClient_Dial N (send N T) T st) (\<lambda>_. client_inv)"
  unfolding TCPClient_Dial_def
  by (auto simp: client_invD(3) client_inv_checkers intro: runs_bindR [OF establishConns_runs])

lemma meow_runs: "link_ok N T \<Longrightarrow> client_inv st \<Longrightarrow> conn_ok st a \<Longrightarrow> runs (Connection_meowCmd (send N T) T a st) (\<lambda>_. client_inv)"
  using meowCmd_answers [of N T st a] by auto

lemma Meow_runs:
  assumes "link_ok N T" "client_inv st"
  shows "runs (TCPClient_Meow N (send N T) T st) (\<lambda>_. client_inv)"
  unfolding TCPClient_Meow_def
  by (rule runs_conn [OF getLeaderConn_runs [OF assms]]) (auto intro: runs_bindR [OF meow_runs [OF assms(1)]])

lemma GetResource_runs:
  assumes "link_ok N T" "client_inv st"
  shows "runs (TCPClient_GetResource N (send N T) T name st) (\<lambda>_. client_inv)"
proof -
  have T: "ts_safe T" "ts_codec_ok T" using assms(1) by (simp_all add: link_ok_def)
  have call: "runs (call_cmd (send N T) (Resource_Unmarshal T Resource_zero) a ''GetRes''
      (Some (Msg_GetResCmd (Some \<lparr>gr_Resource = name\<rparr>))) st1) (\<lambda>_. client_inv)"
    if "client_inv st1" "conn_ok st1 a" for a st1
    by (rule runs_mono [OF call_cmd_runs [OF assms(1) that sendable_msgs(1) [OF T(2)]]])
      (use that T Resource_reader.Unmarshal_safe in auto)
  show ?thesis
    unfolding TCPClient_GetResource_def
    by (rule runs_conn [OF getResourceConn_runs [OF assms]], simp, rule runs_bindR [OF call]) auto
qed

lemma Register_runs:
  assumes "link_ok N T" "client_inv st"
  shows "runs (TCPClient_RegisterTokenBucket N (send N T) T name rate burst ov st) (\<lambda>_. client_inv)"
proof -
  have T: "ts_safe T" "ts_codec_ok T" using assms(1) by (simp_all add: link_ok_def)
  have call: "runs (registerTokenBucketCmd (send N T) T a name rate burst ov st1) (\<lambda>_. client_inv)"
    if "client_inv st1" "conn_ok st1 a" for a st1
    unfolding registerTokenBucketCmd_def
    by (rule runs_mono [OF call_cmd_runs [OF assms(1) that sendable_msgs(3) [OF T(2)]]])
      (use that T RegResCmdResp_reader.Unmarshal_safe in auto)
  show ?thesis
    unfolding TCPClient_RegisterTokenBucket_def
    by (rule runs_conn [OF getLeaderConn_runs [OF assms]], simp, rule runs_bindR [OF call])
      (auto split: sum.split intro: bindResourceConn_inv)
qed

text \<open>\<^verbatim>\<open>Allow\<close> returns, unless each of its \<open>m\<close> rounds is answered with a redirection it can follow.\<close>

lemma Allow_runs:
  assumes "link_ok N T"
  shows "client_inv st \<Longrightarrow>
    if redirected N (send N T) T m name events st then TCPClient_Allow N (send N T) T m name events st = Inl OutOfFuel
    else runs (TCPClient_Allow N (send N T) T m name events st) (\<lambda>_. client_inv)"
proof (induction m arbitrary: st)
  case (Suc m)
  have T: "ts_safe T" "ts_codec_ok T" using assms(1) by (simp_all add: link_ok_def)
  have call: "runs (allowCmd (send N T) T a name events st1) (\<lambda>_. client_inv)"
    if "client_inv st1" "conn_ok st1 a" for a st1
    unfolding allowCmd_def
    by (rule runs_mono [OF call_cmd_runs [OF assms(1) that sendable_msgs(2) [OF T(2)]]])
      (use that T AllowCmdResp_reader.Unmarshal_safe in auto)
  obtain c st1 where c: "getResourceConn N (send N T) T name st = Inr (c, st1)" "client_inv st1" "\<And>a. c = Some a \<Longrightarrow> conn_ok st1 a"
    using getResourceConn_runs [OF assms Suc.prems(1), of name] by (auto simp: runs_def)
  show ?case
  proof (cases c)
    case None
    then show ?thesis using c by simp
  next
    case (Some a)
    obtain r st2 where r: "allowCmd (send N T) T a name events st1 = Inr (r, st2)" "client_inv st2"
      using call [OF c(2) c(3) [OF Some]] by (auto simp: runs_def)
    show ?thesis
    proof (cases "\<exists>resp b. r = Inr resp \<and> ar_Redirected resp \<and> pool_get (ar_NodeId resp) st2 = Inr b")
      case True
      then obtain resp b where b: "r = Inr resp" "ar_Redirected resp" "pool_get (ar_NodeId resp) st2 = Inr b" by blast
      have "TCPClient_Allow N (send N T) T (Suc m) name events st =
          TCPClient_Allow N (send N T) T m name events (bindResourceConn b name st2)"
        "redirected N (send N T) T (Suc m) name events st = redirected N (send N T) T m name events (bindResourceConn b name st2)"
        using c(1) r b by (simp_all add: Some client_invD(3))
      then show ?thesis using Suc.IH [OF bindResourceConn_inv [OF r(2) b(3)]] by simp
    next
      case False
      then show ?thesis using c(1) r
        by (cases r) (auto simp: Some client_invD(3) split: sum.split)
    qed
  qed
qed simp

end

lemma close_all_runs: "client_inv st \<Longrightarrow> runs (close_all N es st) (\<lambda>_. client_inv)"
proof (induction es arbitrary: st)
  case (Cons e es)
  have "runs (Connection_Close N (snd e) st) (\<lambda>_. client_inv)"
    using Cons.prems by (auto simp: Connection_Close_def split: option.split prod.split)
  then show ?case using Cons.IH by (cases e) (auto elim: runs_bindR)
qed simp

section \<open>The states a client reaches\<close>

lemma New_inv:
  assumes "addrs \<noteq> []" "co_logger (fold (\<lambda>opt. opt) opts
    \<lparr>co_dialTimeout = 2 * time_Second, co_checkInterval = 10 * time_Second, co_logger = False\<rparr>)"
  shows "client_inv (TCPClient_New addrs opts s)"
  using assms by (simp add: TCPClient_New_def Let_def client_inv_def pool_ok_def newConnectionPool_def)

lemma checker_inv:
  "client_inv st \<Longrightarrow> checker_run st = Inr st' \<Longrightarrow> client_inv st'" "client_inv st \<Longrightarrow> client_inv (pool_cancel st)"
  "client_inv st \<Longrightarrow> checker_exit st = Some st' \<Longrightarrow> client_inv st'"
  "client_inv st \<Longrightarrow> pool_wait st = Some st' \<Longrightarrow> client_inv st'"
  by (auto simp: client_inv_def pool_ok_def checker_run_def pool_cancel_def checker_exit_def pool_wait_def pool_recv_def pool_upd_def
      conn_ok_def conn_open_def split: if_splits)

text \<open>
  A client made with a logger and at least one address; then any of its operations, the steps of the background
  goroutines, and whatever the network does in between.  Any fuel from 1 on gives \<^verbatim>\<open>sendCmd\<close>.
\<close>

inductive client_run :: "'s net \<Rightarrow> ts_codec \<Rightarrow> 's TCPClient \<Rightarrow> bool" for N T where
  start: "addrs \<noteq> [] \<Longrightarrow> co_logger (fold (\<lambda>opt. opt) opts
    \<lparr>co_dialTimeout = 2 * time_Second, co_checkInterval = 10 * time_Second, co_logger = False\<rparr>) \<Longrightarrow>
    client_run N T (TCPClient_New addrs opts s)"
| env: "client_run N T st \<Longrightarrow> client_run N T (st\<lparr>tc_net := s\<rparr>)"
| dial: "client_run N T st \<Longrightarrow> TCPClient_Dial N (TCPClient_sendCmd N T (Suc n)) T st = Inr (e, st') \<Longrightarrow> client_run N T st'"
| meow: "client_run N T st \<Longrightarrow> TCPClient_Meow N (TCPClient_sendCmd N T (Suc n)) T st = Inr (r, st') \<Longrightarrow> client_run N T st'"
| getres: "client_run N T st \<Longrightarrow> TCPClient_GetResource N (TCPClient_sendCmd N T (Suc n)) T name st = Inr (g, st') \<Longrightarrow> client_run N T st'"
| register: "client_run N T st \<Longrightarrow>
    TCPClient_RegisterTokenBucket N (TCPClient_sendCmd N T (Suc n)) T name rate burst ov st = Inr (i, st') \<Longrightarrow> client_run N T st'"
| allow: "client_run N T st \<Longrightarrow> TCPClient_Allow N (TCPClient_sendCmd N T (Suc n)) T m name events st = Inr (ok, st') \<Longrightarrow> client_run N T st'"
| check_start: "client_run N T st \<Longrightarrow> checker_run st = Inr st' \<Longrightarrow> client_run N T st'"
| check_tick: "client_run N T st \<Longrightarrow> checker_tick N (TCPClient_sendCmd N T (Suc n)) T st = Inr (e, st') \<Longrightarrow> client_run N T st'"
| check_exit: "client_run N T st \<Longrightarrow> checker_exit st = Some st' \<Longrightarrow> client_run N T st'"
| cancel: "client_run N T st \<Longrightarrow> client_run N T (pool_cancel st)"
| close: "client_run N T st \<Longrightarrow> TCPClient_Close N st = Some (Inr (u, st')) \<Longrightarrow> client_run N T st'"

lemma Close_runs:
  assumes "client_inv st" "TCPClient_Close N st = Some r"
  shows "runs r (\<lambda>_. client_inv)"
  using assms(2) close_all_runs checker_inv(4) [OF checker_inv(2) [OF assms(1)]]
  by (auto simp: TCPClient_Close_def shutdown_def)

text \<open>Closing waits at most for the end of a background check, which the cancelled context brings about.\<close>

definition closes :: "'s net \<Rightarrow> 's TCPClient \<Rightarrow> bool" where
  "closes N st \<longleftrightarrow>
     (case TCPClient_Close N st of
        Some r \<Rightarrow> runs r (\<lambda>_. client_inv)
      | None \<Rightarrow> cp_running (tc_connPool st) \<and>
          (case Option.bind (checker_exit (pool_cancel st)) pool_recv of
             Some st' \<Rightarrow> runs (close_all N (cp_pool (tc_connPool st')) st') (\<lambda>_. client_inv)
           | None \<Rightarrow> False))"

lemma Close_closes:
  assumes "client_inv st"
  shows "closes N st"
proof (cases "TCPClient_Close N st")
  case None
  then have w: "cp_running (tc_connPool st)" "cp_stopCh (tc_connPool st) = 0"
    by (auto simp: TCPClient_Close_def shutdown_def pool_wait_def pool_recv_def pool_cancel_def pool_upd_def split: if_splits)
  obtain st1 where st1: "checker_exit (pool_cancel st) = Some st1" "cp_stopCh (tc_connPool st1) = 1"
    using w(2) by (simp add: checker_exit_def pool_cancel_def pool_upd_def)
  then obtain st2 where st2: "pool_recv st1 = Some st2" by (simp add: pool_recv_def)
  have "client_inv st1" using checker_inv(3) [OF checker_inv(2) [OF assms]] st1(1) by blast
  then have "client_inv st2" using st2
    by (auto simp: pool_recv_def client_inv_def pool_ok_def pool_upd_def conn_ok_def conn_open_def split: if_splits)
  then show ?thesis using None w(1) st1(1) st2 close_all_runs by (simp add: closes_def)
next
  case (Some r)
  then show ?thesis using Close_runs [OF assms] by (simp add: closes_def)
qed

lemma client_run_inv:
  assumes "link_ok N T"
  shows "client_run N T st \<Longrightarrow> client_inv st"
proof (induction rule: client_run.induct)
  case (start addrs opts s)
  then show ?case by (rule New_inv)
next
  case (dial st n e st')
  show ?case by (rule runsD [OF sender.Dial_runs [OF assms dial(3)] dial(2)])
next
  case (meow st n r st')
  show ?case by (rule runsD [OF sender.Meow_runs [OF assms meow(3)] meow(2)])
next
  case (getres st n name g st')
  show ?case by (rule runsD [OF sender.GetResource_runs [OF assms getres(3)] getres(2)])
next
  case (register st n name rate burst ov i st')
  show ?case by (rule runsD [OF sender.Register_runs [OF assms register(3)] register(2)])
next
  case (allow st n m name events ok st')
  show ?case using sender.Allow_runs [OF assms allow(3), of n m name events] allow(2) by (simp split: if_splits)
next
  case (check_tick st n e st')
  show ?case by (rule runsD [OF sender.establishConns_runs [OF assms check_tick(3)] check_tick(2) [unfolded checker_tick_def]])
next
  case (close st u st')
  show ?case by (rule runsD [OF Close_runs [OF close(3,2)] refl])
qed (auto intro: checker_inv)

end
