(* ===== verification/ClientLink.thy ===== *)
theory ClientLink
  imports ClientRun Server
begin

text \<open>
  A client and a server joined.  The network of the client's model is instantiated with one server: what the
  client writes arrives in one piece, is handled by \<^verbatim>\<open>OnTraffic\<close>, and what the handler writes is
  there for the client to read.  On it, an \<^verbatim>\<open>Allow\<close> of the client is a decision of the limiter
  on the server.
\<close>

record 'm loop =
  lp_srv :: "'m tcpEventHandler"
  lp_in :: "byte list"
  lp_turn :: nat

text \<open>\<open>W i\<close> is the world the server runs in when the \<open>i\<close>-th request arrives.\<close>

definition loop_write :: "(nat \<Rightarrow> 'm world) \<Rightarrow> byte list \<Rightarrow> 'm loop \<Rightarrow> 'm loop" where
  "loop_write W bs s =
     (case tcp_OnTraffic (Suc (length bs)) buf_conn (\<lambda>_. W (lp_turn s)) (\<lambda>_. None) (bs, []) (lp_srv s) of
        Inl e \<Rightarrow> s
      | Inr (action, c, h) \<Rightarrow> s\<lparr>lp_srv := h, lp_in := lp_in s @ snd c, lp_turn := Suc (lp_turn s)\<rparr>)"

definition loop_net :: "(nat \<Rightarrow> 'm world) \<Rightarrow> 'm loop net" where
  "loop_net W = \<lparr>
     nw_Dial = \<lambda>_ _ _ _ s. (Inr 0, s),
     nw_SetDeadline = \<lambda>_ _ s. s,
     nw_Write = \<lambda>_ bs s. ((length bs, None), loop_write W bs s),
     nw_Read = \<lambda>_ s n. let (r, i) = buf_Read (lp_in s) n in (r, s\<lparr>lp_in := i\<rparr>),
     nw_Close = \<lambda>_ s. (None, s),
     nw_url_Parse = \<lambda>x. Inr \<lparr>cu_Host = x, cu_String = x\<rparr>,
     nw_NilLog = Inr ()\<rparr>"

lemma loop_net_ok: "net_ok (loop_net W)"
  by (auto simp: net_ok_def loop_net_def buf_Read_def Let_def split: if_splits)

lemma loop_reads: "full_reads (nw_Read (loop_net W) sock) lp_in"
  by (simp add: full_reads_def loop_net_def buf_Read_def Let_def)

text \<open>Reading changes nothing on the server.\<close>

lemma loop_read_srv:
  assumes "DecodeCmdResp (nw_Read (loop_net W) conn) T s = Inr (r, s')"
  shows "lp_srv s' = lp_srv s"
proof -
  have read: "lp_srv (snd (nw_Read (loop_net W) conn s n)) = lp_srv s" for s n
    by (simp add: loop_net_def Let_def split_beta)
  obtain h e s1 where 1: "nw_Read (loop_net W) conn s RespHeaderSize = ((h, e), s1)" by (metis prod.exhaust)
  let ?n = "le_val (take 4 (drop MagicNumSize h))"
  obtain b e2 s2 where 2: "nw_Read (loop_net W) conn s1 ?n = ((b, e2), s2)" by (metis prod.exhaust)
  have "lp_srv s1 = lp_srv s" "lp_srv s2 = lp_srv s1" using read [of s RespHeaderSize] read [of s1 ?n] 1 2 by simp_all
  then show ?thesis
    using assms unfolding DecodeCmdResp_def 1 Let_def prod.case 2
    by (auto simp: bindR_Inr_iff handleR_Inr_iff split: if_splits)
qed

text \<open>A command over it: the frame of the handler's answer is what the client decodes.\<close>

lemma loop_command:
  assumes "link_ok (loop_net W) T" "w_T (W (lp_turn (tc_net st))) = T" "\<not> h_workerPool (lp_srv (tc_net st))"
    and "lp_in (tc_net st) = []" "conn_open st a" "name \<noteq> []" "length name < 60000"
    and "(case msg of None \<Rightarrow> Inr [] | Some m \<Rightarrow> proto_Marshal T m) = Inr body" "length body < 2 ^ 31"
    and "CmdDispatcher_Process (W (lp_turn (tc_net st))) (Some \<lparr>ch_Cmd = name\<rparr>) body (h_disp (lp_srv (tc_net st))) = Inr (Inr m, disp)"
    and "proto_Marshal T m = Inr resp" "length resp \<le> 4096"
  shows "\<exists>s. TCPClient_sendCmd (loop_net W) T (Suc n) a name msg st = Inr (Inr resp, st\<lparr>tc_net := s\<rparr>) \<and>
    h_disp (lp_srv s) = disp \<and> lp_in s = [] \<and> \<not> h_workerPool (lp_srv s)"
proof -
  let ?h = "enc_CmdHeader T \<lparr>ch_Cmd = name\<rparr>" and ?s = "tc_net st"
  let ?answer = "concat (EncodeCmdResp (resp_magic True) (Some resp))"
  have T: "ts_codec_ok T" using assms(1) by (simp add: link_ok_def)
  have send: "sendable_req T (\<lparr>ch_Cmd = name\<rparr>, body)"
    using length_enc_CmdHeader [OF assms(6,7), of T] assms(9) by (simp add: sendable_req_def)
  have p: "tcp_process (W (lp_turn ?s)) (Some \<lparr>ch_Cmd = name\<rparr>) body (h_disp (lp_srv ?s)) = Inr (EncodeCmdResp CmdRespSuccessMagicNum (Some resp), disp)"
    using assms(10,11) by (simp add: tcp_process_def assms(2))
  have len: "1 \<le> length (req_frame ?h body)" by (simp add: req_frame_def)
  obtain c' h' where serve: "OnTraffic_loop (Suc (length (req_frame ?h body))) 0 buf_conn (\<lambda>_. W (lp_turn ?s)) (\<lambda>_. None)
      (req_frame ?h body, []) (lp_srv ?s) = Inr (gnet_None, c', h')" "snd c' = ?answer" "h_disp h' = disp" "\<not> h_workerPool h'"
    using OnTraffic_requests_keep [OF buf_conn_ok T, where ws = "\<lambda>_. W (lp_turn ?s)" and rs = "[(\<lparr>ch_Cmd = name\<rparr>, body)]" and i = 0
        and h = "lp_srv ?s" and submit = "\<lambda>_. None" and c = "(req_frame ?h body, [])" and fuel = "Suc (length (req_frame ?h body))"]
      assms(2,3) send p len by (force simp: resp_magic_def)
  have enc: "EncodeCmdReq T name msg = Inr (Inr (req_frame ?h body))" by (rule EncodeCmdReq_frame [OF T assms(8)])
  let ?s1 = "?s\<lparr>lp_srv := h', lp_in := ?answer, lp_turn := Suc (lp_turn ?s)\<rparr>"
  have written: "loop_write W (req_frame ?h body) ?s = ?s1"
    using serve(1,2) assms(4) by (simp add: loop_write_def opened_OnTraffic split_beta)
  obtain conn where conn: "cn_conn (tc_heap st a) = Some conn" "cn_connected (tc_heap st a)"
    using assms(5) by (auto simp: conn_open_def)
  have "lp_in ?s1 = ?answer @ []" "length resp < 2 ^ 32" using assms(12) by simp_all
  then obtain s where s: "DecodeCmdResp (nw_Read (loop_net W) conn) T ?s1 = Inr (Inr resp, s)" "lp_in s = []"
    using DecodeCmdResp_frame [OF loop_reads [of W conn], where c = ?s1 and ok = True and resp = resp and rest = "[]" and T = T ] assms(12) by fastforce
  have keep: "lp_srv s = h'"
    using loop_read_srv [OF s(1)] by simp
  show ?thesis
    using conn enc written s keep serve(3,4)
    by (intro exI [of _ s])
      (simp add: Connection_Connected_def send_connected_def Connection_SetDeadline_def Connection_Write_def with_conn_def
        loop_net_def)
qed

end
