(* ===== verification/ClientProperties.thy ===== *)
theory ClientProperties
  imports ClientLink CommandProperties
begin

text \<open>
  What a program that uses the client library can rely on, and where it cannot: its operations return, it refuses
  an event only on a server's word, and over a network with one server its answer is the decision of the
  server's bucket.  The second half states when dialing fails or panics although servers answer.
\<close>

section \<open>A client for the witnesses\<close>

definition sample_conn :: Connection where
  "sample_conn = \<lparr>cn_logger = True, cn_mu = False, cn_network = ''tcp'', cn_conn = Some 0, cn_connected = True, cn_cmdFunc = True,
     cn_nodeID = 0, cn_addr = None, cn_leader = True, cn_active = True\<rparr>"

definition sample_client :: "'s \<Rightarrow> 's TCPClient" where
  "sample_client s = \<lparr>tc_addrs = [''a:1''], tc_opts = \<lparr>co_dialTimeout = 2, co_checkInterval = 10, co_logger = True\<rparr>,
     tc_connPool = \<lparr>cp_logger = True, cp_cancelled = False, cp_initAddrs = [''a:1''], cp_mu = False, cp_pool = [(0, 0)],
       cp_resPool = (\<lambda>_. None), cp_running = False, cp_checkers = 0, cp_stopCh = 0\<rparr>,
     tc_logger = True, tc_heap = (\<lambda>_. sample_conn), tc_next = 1, tc_net = s\<rparr>"

lemma sample_client: "client_inv (sample_client s)" "tc_net (sample_client s) = s" "conn_ok (sample_client s) 0"
  "getResourceConn N send T name (sample_client s) = Inr (Some 0, sample_client s)"
  by (simp_all add: client_inv_def pool_ok_def conn_ok_def conn_open_def sample_client_def sample_conn_def
      getResourceConn_def getLeaderConn_def eval_nat_numeral)

section \<open>Answers\<close>

lemma length_enc_small:
  "length (enc_AllowCmdResp T r) \<le> 4096" "length name < 10 ^ 6 \<Longrightarrow> length (enc_AllowCmd T \<lparr>ac_Resource = name, ac_Events = e\<rparr>) < 2 ^ 31"
proof -
  have v: "length (enc_varint v) \<le> 10" for v by (rule length_enc_varint_le)
  show "length (enc_AllowCmdResp T r) \<le> 4096"
    using v [of "ucast (ar_NodeId r)"] by (simp add: enc_AllowCmdResp_def)
  assume "length name < 10 ^ 6"
  then show "length (enc_AllowCmd T \<lparr>ac_Resource = name, ac_Events = e\<rparr>) < 2 ^ 31"
    using v [of "ucast e"] v [of "word_of_nat (length name)"] by (simp add: enc_AllowCmd_def)
qed

lemma allowCmd_local:
  fixes st :: "'m loop TCPClient"
  assumes "link_ok (loop_net W) T" "w_T (W (lp_turn (tc_net st))) = T" "w_M (W (lp_turn (tc_net st))) = M"
    and "\<not> h_workerPool (lp_srv (tc_net st))" "lp_in (tc_net st) = []" "conn_ok st a" "name \<noteq> []" "length name < 10 ^ 6"
    and "rm_wf M (cd_resMgr (h_disp (lp_srv (tc_net st))))" "rm_view M (cd_resMgr (h_disp (lp_srv (tc_net st)))) name = Some res"
    and "rm_AtSameNode (res_NodeID res) (cd_resMgr (h_disp (lp_srv (tc_net st))))" "res_Limiter res = Some l"
    and cmd: "cmd = \<lparr>ac_Resource = name, ac_Events = events\<rparr>"
    and dec: "dec = Limiter_Allow (w_now (W (lp_turn (tc_net st)))) (ac_count cmd) l"
  shows "\<exists>s. allowCmd (TCPClient_sendCmd (loop_net W) T (Suc n)) T a name events st =
      Inr (Inr \<lparr>ar_Redirected = False, ar_NodeId = res_NodeID res, ar_Ok = fst dec\<rparr>, st\<lparr>tc_net := s\<rparr>) \<and>
    rm_view M (cd_resMgr (h_disp (lp_srv s))) = (rm_view M (cd_resMgr (h_disp (lp_srv (tc_net st)))))
      (name \<mapsto> res\<lparr>res_Limiter := Some (snd dec)\<rparr>) \<and>
    lp_in s = [] \<and> \<not> h_workerPool (lp_srv s)"
proof -
  let ?w = "W (lp_turn (tc_net st))" and ?c = "h_disp (lp_srv (tc_net st))"
  let ?resp = "\<lparr>ar_Redirected = False, ar_NodeId = res_NodeID res, ar_Ok = fst dec\<rparr>"
  have T: "ts_codec_ok T" "ts_safe T" using assms(1) by (simp_all add: link_ok_def)
  have small: "length (enc_AllowCmd T cmd) < 2 ^ 31" using length_enc_small(2) [OF assms(8)] cmd by simp
  have body: "AllowCmd_Unmarshal T AllowCmd_zero (enc_AllowCmd T cmd) = Inr cmd"
    by (rule AllowCmd.Unmarshal_enc [OF T(1)]) (use small in \<open>simp_all add: valid_AllowCmd_def\<close>)
  obtain rm' where rm': "AllowPbCmd ?w cmd ?c = Inr (Inr ?resp, ?c\<lparr>cd_resMgr := rm'\<rparr>)"
    "rm_view M rm' = (rm_view M (cd_resMgr ?c))(name \<mapsto> res\<lparr>res_Limiter := Some (snd dec)\<rparr>)"
    using AllowPbCmd_local [of ?w ?c cmd res l] assms(3,7,9-12) by (auto simp: cmd dec simp del: Limiter_Allow.simps)
  have proc: "CmdDispatcher_Process ?w (Some \<lparr>ch_Cmd = ''Allow''\<rparr>) (enc_AllowCmd T cmd) ?c =
      Inr (Inr (Msg_AllowCmdResp (Some ?resp)), ?c\<lparr>cd_resMgr := rm'\<rparr>)"
    by (simp add: CmdDispatcher_cmds_def CmdDispatcher_Allow_def with_body_def as_msg_def assms(2) body rm'(1))
  have req: "proto_Marshal T (Msg_AllowCmd (Some cmd)) = Inr (enc_AllowCmd T cmd)"
    and ans: "proto_Marshal T (Msg_AllowCmdResp (Some ?resp)) = Inr (enc_AllowCmdResp T ?resp)"
    using AllowCmd.Marshal_enc [OF T(1), of cmd] AllowCmdResp.Marshal_enc [OF T(1), of ?resp]
    by (simp_all only: simp_thms proto_Marshal.simps AllowCmd_Marshal_def AllowCmdResp_Marshal_def valid_AllowCmd_def valid_AllowCmdResp_def)
  have ret: "AllowCmdResp_Unmarshal T AllowCmdResp_zero (enc_AllowCmdResp T ?resp) = Inr ?resp"
    by (rule AllowCmdResp.Unmarshal_enc [OF T(1)])
      (use length_enc_small(1) [of T ?resp] in \<open>simp_all add: valid_AllowCmdResp_def\<close>)
  let ?st = "conn_upd a (\<lambda>c. c\<lparr>cn_mu := True\<rparr>) st"
  have up: "tc_net ?st = tc_net st" "conn_open ?st a" using assms(6) by (simp_all add: conn_upd_def conn_ok_def conn_open_def)
  obtain s where s: "TCPClient_sendCmd (loop_net W) T (Suc n) a ''Allow'' (Some (Msg_AllowCmd (Some cmd))) ?st =
      Inr (Inr (enc_AllowCmdResp T ?resp), ?st\<lparr>tc_net := s\<rparr>)"
    "h_disp (lp_srv s) = ?c\<lparr>cd_resMgr := rm'\<rparr>" "lp_in s = []" "\<not> h_workerPool (lp_srv s)"
    using loop_command [where st = ?st and W = W and T = T and n = n and a = a and name = "''Allow''" and body = "enc_AllowCmd T cmd"
        and msg = "Some (Msg_AllowCmd (Some cmd))" and m = "Msg_AllowCmdResp (Some ?resp)" and resp = "enc_AllowCmdResp T ?resp"
        and disp = "?c\<lparr>cd_resMgr := rm'\<rparr>"] assms(1,2,4,5) up small req ans proc length_enc_small(1) by auto
  have "conn_upd a (\<lambda>c. c\<lparr>cn_mu := False\<rparr>) (?st\<lparr>tc_net := s\<rparr>) = st\<lparr>tc_net := s\<rparr>"
    using assms(6) by (simp add: conn_ok_def conn_upd_def fun_upd_idem)
  moreover have "\<not> cn_mu (tc_heap st a)" "cn_cmdFunc (tc_heap ?st a)" using assms(6) by (simp_all add: conn_ok_def conn_upd_def)
  ultimately have "allowCmd (TCPClient_sendCmd (loop_net W) T (Suc n)) T a name events st = Inr (Inr ?resp, st\<lparr>tc_net := s\<rparr>)"
    using s(1) ret by (simp add: allowCmd_def call_cmd_def Connection_SendCmd_def Let_def cmd del: TCPClient_sendCmd.simps)
  then show ?thesis using s rm'(2) by (intro exI [of _ s]) simp
qed

text \<open>
  C18 The client's answer is the server's decision.  Over a network with one server that has the resource, an
  \<^verbatim>\<open>Allow\<close> of the client, through both encoders, the frames, the event handler, the dispatcher and back,
  returns without error exactly what the resource's limiter decides at the server's clock, takes the events from
  that limiter and from nothing else on the server, and leaves the connection clean for the next command.
\<close>

theorem client_allow_decided_by_limiter:
  fixes st :: "'m loop TCPClient"
  assumes "link_ok (loop_net W) T" "w_T (W (lp_turn (tc_net st))) = T" "w_M (W (lp_turn (tc_net st))) = M"
    and "\<not> h_workerPool (lp_srv (tc_net st))" "lp_in (tc_net st) = []" "name \<noteq> []" "length name < 10 ^ 6"
    and "getResourceConn (loop_net W) (TCPClient_sendCmd (loop_net W) T (Suc n)) T name st = Inr (Some a, st)" "conn_ok st a"
    and "rm_wf M (cd_resMgr (h_disp (lp_srv (tc_net st))))" "rm_view M (cd_resMgr (h_disp (lp_srv (tc_net st)))) name = Some res"
    and "rm_AtSameNode (res_NodeID res) (cd_resMgr (h_disp (lp_srv (tc_net st))))" "res_Limiter res = Some l"
  shows "\<exists>s. TCPClient_Allow (loop_net W) (TCPClient_sendCmd (loop_net W) T (Suc n)) T (Suc m) name events st =
      Inr ((fst (Limiter_Allow (w_now (W (lp_turn (tc_net st)))) (if events = 0 then 1 else events) l), None), st\<lparr>tc_net := s\<rparr>) \<and>
    rm_view M (cd_resMgr (h_disp (lp_srv s))) = (rm_view M (cd_resMgr (h_disp (lp_srv (tc_net st)))))
      (name \<mapsto> res\<lparr>res_Limiter := Some (snd (Limiter_Allow (w_now (W (lp_turn (tc_net st)))) (if events = 0 then 1 else events) l))\<rparr>) \<and>
    lp_in s = [] \<and> \<not> h_workerPool (lp_srv s)"
proof -
  have "ac_count \<lparr>ac_Resource = name, ac_Events = events\<rparr> = (if events = 0 then 1 else events)" by (simp add: ac_count_def)
  then show ?thesis
    using allowCmd_local [OF assms(1-5,9,6,7,10-13) refl refl, of n events] assms(8)
    by (auto simp del: Limiter_Allow.simps TCPClient_sendCmd.simps)
qed

theorem client_allow_decided_by_limiter_witness:
  "\<exists>s. TCPClient_Allow (loop_net (\<lambda>_. sample_world 5)) (TCPClient_sendCmd (loop_net (\<lambda>_. sample_world 5)) wire_ts 1) wire_ts 1 ''a'' 3
      (sample_client \<lparr>lp_srv = newTCPEventHandler (sample_cfg False) sample_disp (NewMetrics None), lp_in = [], lp_turn = 0\<rparr>) =
    Inr ((fst (Limiter_Allow 5 3 (tokenBucketLimiter sample_bucket)), None), s)"
proof -
  let ?s = "\<lparr>lp_srv = newTCPEventHandler (sample_cfg False) sample_disp (NewMetrics None), lp_in = [], lp_turn = 0\<rparr>"
  have "link_ok (loop_net (\<lambda>_. sample_world 5)) wire_ts"
    by (simp add: link_ok_def loop_net_ok wire_ts_ok wire_ts_safe)
  moreover have "h_disp (lp_srv ?s) = sample_disp" "\<not> h_workerPool (lp_srv ?s)"
    by (simp_all add: newTCPEventHandler_def sample_cfg_def)
  ultimately show ?thesis
    using client_allow_decided_by_limiter [where st = "sample_client ?s" and W = "\<lambda>_. sample_world 5" and T = wire_ts
        and M = alist_swiss and name = "''a''" and events = 3 and n = 0 and m = 0 and a = 0
        and l = "tokenBucketLimiter sample_bucket"]
      sample_client(2,3) [of ?s] sample_client(4) [where s = ?s] sample_disp_view rm_invD(1) [OF sample_disp_inv] sample_disp_node sample_bucket(3)
    by (fastforce simp: sample_world_def sample_res_def newResource_def simp del: Limiter_Allow.simps TCPClient_Allow.simps TCPClient_sendCmd.simps)
qed

text \<open>
  C28 The client fails open.  \<^verbatim>\<open>Allow\<close> returns false only when a server answered, for this resource and this
  number of events, that they are not granted; on every error, of the network, of the pool or of the server, it
  returns true together with the error.
\<close>

theorem allow_refused_only_by_server:
  assumes "TCPClient_Allow N send T m name events st = Inr ((False, e), st')"
  shows "e = None \<and> (\<exists>a st1 resp. allowCmd send T a name events st1 = Inr (Inr resp, st') \<and> \<not> ar_Ok resp \<and> \<not> ar_Redirected resp)"
  using assms
proof (induction m arbitrary: st)
  case (Suc m)
  obtain c st1 where c: "getResourceConn N send T name st = Inr (c, st1)" using Suc.prems by (auto simp: bindR_Inr_iff)
  then obtain a where a: "c = Some a" using Suc.prems by (cases c) auto
  then obtain r st2 where r: "allowCmd send T a name events st1 = Inr (r, st2)" using Suc.prems c by (auto simp: bindR_Inr_iff)
  then obtain resp where resp: "r = Inr resp" using Suc.prems c a by (cases r) auto
  show ?case
  proof (cases "ar_Redirected resp")
    case True
    then obtain b where "TCPClient_Allow N send T m name events (bindResourceConn b name st2) = Inr ((False, e), st')"
      using Suc.prems c a r resp by (auto simp: bindR_Inr_iff split: sum.split_asm)
    then show ?thesis by (rule Suc.IH)
  next
    case False
    then show ?thesis using Suc.prems c a r resp by auto
  qed
qed simp

lemma sample_denied:
  "TCPClient_Allow (loop_net W) (\<lambda>_ _ _ st. Inr (Inr [], st)) wire_ts 1 ''a'' 3 (sample_client s) = Inr ((False, None), sample_client s)"
proof -
  have "AllowCmdResp_Unmarshal wire_ts AllowCmdResp_zero [] = Inr AllowCmdResp_zero"
    by (simp add: AllowCmdResp_Unmarshal_def unmarshal_with_def unmarshal_loop.simps)
  moreover have "conn_upd 0 (\<lambda>c. c\<lparr>cn_mu := False\<rparr>) (conn_upd 0 (\<lambda>c. c\<lparr>cn_mu := True\<rparr>) (sample_client s)) = sample_client s"
    by (simp add: conn_upd_def sample_client_def sample_conn_def fun_eq_iff)
  ultimately show ?thesis
    by (simp add: sample_client(4) allowCmd_def call_cmd_def Connection_SendCmd_def AllowCmdResp_zero_def)
      (simp add: sample_client_def sample_conn_def conn_upd_def)
qed

theorem allow_refused_only_by_server_witness:
  "\<exists>a st1 resp. allowCmd (\<lambda>_ _ _ st. Inr (Inr [], st)) wire_ts a ''a'' 3 st1 =
     Inr (Inr resp, sample_client (undefined :: (string \<times> addr) list loop)) \<and> \<not> ar_Ok resp \<and> \<not> ar_Redirected resp"
  using allow_refused_only_by_server [OF sample_denied [where W = "\<lambda>_. sample_world 5" and s = undefined]] by blast

section \<open>States and operations\<close>

text \<open>
  C27 The client's state is well-formed in every reachable state: the pool is a map, each of its connections and of
  the connections resources are bound to is dialed, has a socket, is not locked, and carries the identifier of the
  node it is filed under; the pool's own lock is free between operations.
\<close>

theorem client_state_wellformed:
  assumes "client_run N T st" "link_ok N T"
  shows "distinct (map fst (cp_pool (tc_connPool st))) \<and> \<not> cp_mu (tc_connPool st) \<and>
    list_all (\<lambda>(i, a). conn_ok st a \<and> cn_nodeID (tc_heap st a) = i) (cp_pool (tc_connPool st)) \<and>
    (\<forall>name. pred_option (conn_ok st) (cp_resPool (tc_connPool st) name))"
  using client_run_inv [OF assms(2,1)]
  by (auto simp: client_inv_def pool_ok_def list_all_iff option.pred_set)

text \<open>
  C26 No deadlock and no panic.  A client made with a logger and at least one address, in any state it can reach,
  however the network behaves: dialing, the information command, reading and registering a resource return;
  \<^verbatim>\<open>Allow\<close> returns unless servers redirect it in every round; and closing returns, if a background check runs then
  after its end, which closing itself brings about.  In particular \<^verbatim>\<open>sendCmd\<close>, which holds its connection's lock,
  never comes to dial, which would take that lock again.
\<close>

theorem client_operations_return:
  assumes "client_run N T st" "link_ok N T"
  shows "runs (TCPClient_Dial N (TCPClient_sendCmd N T (Suc n)) T st) (\<lambda>_. client_inv) \<and>
    runs (TCPClient_Meow N (TCPClient_sendCmd N T (Suc n)) T st) (\<lambda>_. client_inv) \<and>
    runs (TCPClient_GetResource N (TCPClient_sendCmd N T (Suc n)) T name st) (\<lambda>_. client_inv) \<and>
    runs (TCPClient_RegisterTokenBucket N (TCPClient_sendCmd N T (Suc n)) T name rate burst ov st) (\<lambda>_. client_inv) \<and>
    (if redirected N (TCPClient_sendCmd N T (Suc n)) T m name events st
     then TCPClient_Allow N (TCPClient_sendCmd N T (Suc n)) T m name events st = Inl OutOfFuel
     else runs (TCPClient_Allow N (TCPClient_sendCmd N T (Suc n)) T m name events st) (\<lambda>_. client_inv)) \<and>
    closes N st"
  using client_run_inv [OF assms(2,1)] assms(2)
  by (intro conjI sender.Dial_runs sender.Meow_runs sender.GetResource_runs sender.Register_runs sender.Allow_runs Close_closes)

lemma sample_start: "client_run N T (TCPClient_New [''a:1''] [WithLogger True] s)"
  by (rule client_run.start) (simp_all add: WithLogger_def)

lemma loop_link_ok: "link_ok (loop_net W) wire_ts"
  by (simp add: link_ok_def loop_net_ok wire_ts_ok wire_ts_safe)

theorem client_state_wellformed_witness:
  "\<not> cp_mu (tc_connPool (TCPClient_New [''a:1''] [WithLogger True]
     \<lparr>lp_srv = newTCPEventHandler (sample_cfg False) sample_disp (NewMetrics None), lp_in = [], lp_turn = 0\<rparr>))"
  using client_state_wellformed [OF sample_start loop_link_ok] by blast

theorem client_operations_return_witness:
  "runs (TCPClient_Dial (loop_net (\<lambda>_. sample_world 5)) (TCPClient_sendCmd (loop_net (\<lambda>_. sample_world 5)) wire_ts 1) wire_ts
     (TCPClient_New [''a:1''] [WithLogger True]
       \<lparr>lp_srv = newTCPEventHandler (sample_cfg False) sample_disp (NewMetrics None), lp_in = [], lp_turn = 0\<rparr>)) (\<lambda>_. client_inv)"
  using conjunct1 [OF client_operations_return [OF sample_start loop_link_ok [where W = "\<lambda>_. sample_world 5"], where n = 0]] by simp

section \<open>When dialing fails\<close>

text \<open>The first dial of a client: the pool is empty, so the initial addresses are asked.\<close>

lemma getServerInfo_first:
  "cp_pool (tc_connPool st) = [] \<Longrightarrow> getServerInfo N send T st = init_loop N send T (cp_initAddrs (tc_connPool st)) (None, None) st"
  by (simp add: getServerInfo_def)

lemma init_loop_last_fails:
  assumes "\<And>c d s. \<exists>e s'. nw_Dial N c d ''tcp'' addr s = (Inl e, s')"
  shows "init_loop N send T (addrs @ [addr]) p st = Inr (p', st') \<Longrightarrow> snd p' \<noteq> None"
proof (induction addrs arbitrary: p st)
  case Nil
  obtain a st1 where new: "newConnection st = (a, st1)" by (cases "newConnection st")
  show ?case using Nil new
      assms [of "cp_cancelled (tc_connPool st1)" "co_dialTimeout (tc_opts st1)" "tc_net st1"]
    by (auto simp: bindR_Inr_iff Connection_Dial_def Let_def split: if_splits)
next
  case (Cons x addrs)
  obtain a st1 where new: "newConnection st = (a, st1)" by (cases "newConnection st")
  obtain err st2 where d: "Connection_Dial N ''tcp'' x a st1 = Inr (err, st2)" using Cons.prems new by (auto simp: bindR_Inr_iff)
  show ?case
  proof (cases err)
    case (Some e)
    then show ?thesis using Cons new d by (auto simp: bindR_Inr_iff)
  next
    case None
    then obtain r st3 where "Connection_meowCmd send T a st2 = Inr (r, st3)" using Cons.prems new d by (auto simp: bindR_Inr_iff)
    then show ?thesis using Cons new d None by (cases r) (auto simp: bindR_Inr_iff info_of_def)
  qed
qed

text \<open>
  One unreachable address spoils the others.  The first dial of a client returns an error whenever the last of
  its addresses cannot be dialed, whatever the servers before it answered: the loop over the addresses does not
  stop at the first answer, and keeps the error of the last.
\<close>

theorem first_dial_fails_on_last_address:
  assumes "\<And>c d s. \<exists>e s'. nw_Dial N c d ''tcp'' addr s = (Inl e, s')"
    and "TCPClient_Dial N send T (TCPClient_New (addrs @ [addr]) opts s) = Inr (err, st)"
  shows "err \<noteq> None"
proof -
  let ?st = "pool_upd (\<lambda>p. p\<lparr>cp_mu := True\<rparr>) (TCPClient_New (addrs @ [addr]) opts s)"
  have st: "cp_pool (tc_connPool ?st) = []" "cp_initAddrs (tc_connPool ?st) = addrs @ [addr]"
    "\<not> cp_mu (tc_connPool (TCPClient_New (addrs @ [addr]) opts s))"
    by (simp_all add: TCPClient_New_def Let_def newConnectionPool_def pool_upd_def)
  obtain st1 where "establish_locked N send T ?st = Inr (err, st1)"
    using assms(2) st(3) by (auto simp: TCPClient_Dial_def establishConns_def bindR_Inr_iff)
  then show ?thesis
    using init_loop_last_fails [OF assms(1)] st(2)
    by (auto simp: establish_locked_def getServerInfo_first [OF st(1)] bindR_Inr_iff split: if_splits option.split_asm dest!: init_loop_last_fails [OF assms(1)])
qed

text \<open>With a nil logger the loop over the nodes does not get past a node that has a connection.\<close>

lemma nodes_loop_nil_logger:
  assumes "nw_NilLog N = Inl f"
  shows "\<lbrakk>\<not> cp_logger (tc_connPool st); map_of (cp_pool (tc_connPool st)) i \<noteq> None; Some node \<in> set nodes; ni_Id node = i\<rbrakk> \<Longrightarrow>
    nodes_loop N nodes n st \<noteq> Inr r"
proof (induction nodes arbitrary: n st r)
  case (Cons no nodes)
  show ?case
  proof (cases no)
    case (Some nd)
    show ?thesis
    proof (cases "nw_url_Parse N (ni_ApiEndpoint nd)")
      case (Inl e)
      then show ?thesis using Cons.prems(1) assms by (simp add: Some log_call_def)
    next
      case url: (Inr addr)
      show ?thesis
      proof (cases "pool_get (ni_Id nd) st")
        case (Inr a)
        then show ?thesis using Cons.prems(1) assms by (simp add: Some url Let_def log_call_def)
      next
        case (Inl e)
        then have ne: "ni_Id nd \<noteq> i" using Cons.prems(2) by (auto simp: pool_get_def split: option.splits)
        then have node: "Some node \<in> set nodes" using Cons.prems(3,4) Some by auto
        obtain a st1 where new: "newConnection st = (a, st1)" by (cases "newConnection st")
        have pool: "tc_connPool st1 = tc_connPool st" using new by (auto simp: newConnection_def Let_def)
        show ?thesis
        proof (cases "Connection_Dial N ''tcp'' (cu_Host addr) a st1")
          case (Inr d)
          obtain err st2 where d: "d = (err, st2)" by (cases d)
          have pool2: "tc_connPool st2 = tc_connPool st"
            using Inr pool by (auto simp: d Connection_Dial_def Let_def bindR_Inr_iff conn_upd_def split: if_splits prod.splits sum.splits)
          let ?upd = "\<lambda>c. c\<lparr>cn_addr := Some addr, cn_leader := ni_Leader nd, cn_active := ni_Active nd\<rparr>"
          have "nodes_loop N nodes (Suc n) (pool_set (ni_Id nd) a (conn_upd a ?upd st2)) \<noteq> Inr r" for r
            using Cons.prems(1,2,4) pool2 node by (intro Cons.IH) (auto simp: pool_set_def pool_upd_def conn_upd_def update_conv')
          then show ?thesis
            using Inl Inr assms Cons.prems(1) pool2 by (auto simp: Some url new d Let_def log_call_def)
        qed (simp add: Some url Inl new Let_def)
      qed
    qed
  qed simp
qed simp

lemma with_conn_frame: "with_conn a g st = Inr (x, st') \<Longrightarrow> tc_connPool st' = tc_connPool st"
  by (auto simp: with_conn_def split: option.splits prod.splits)

lemma send_connected_frame:
  assumes "send_connected N T a name msg st = Inr (r, st')"
  shows "tc_connPool st' = tc_connPool st"
proof -
  obtain q where q: "EncodeCmdReq T name msg = Inr q" using assms by (auto simp: send_connected_def bindR_Inr_iff)
  show ?thesis
  proof (cases q)
    case (Inl e)
    then show ?thesis using assms q by (auto simp: send_connected_def bindR_Inr_iff)
  next
    case (Inr cmd)
    obtain u st1 where s1: "Connection_SetDeadline N a time_Second st = Inr (u, st1)"
      using assms q Inr by (auto simp: send_connected_def bindR_Inr_iff)
    obtain sent wErr st2 where s2: "Connection_Write N a cmd st1 = Inr ((sent, wErr), st2)"
      using assms q Inr s1 by (auto simp: send_connected_def bindR_Inr_iff)
    have pool: "tc_connPool st2 = tc_connPool st"
      using with_conn_frame [OF s1 [unfolded Connection_SetDeadline_def]] with_conn_frame [OF s2 [unfolded Connection_Write_def]] by simp
    show ?thesis
    proof (cases "wErr = None \<and> sent = length cmd")
      case True
      then show ?thesis using assms q Inr s1 s2 pool
        by (cases "cn_conn (tc_heap st2 a)") (auto simp: send_connected_def bindR_Inr_iff)
    next
      case False
      then show ?thesis using assms q Inr s1 s2 pool
        by (cases wErr) (auto simp: send_connected_def bindR_Inr_iff)
    qed
  qed
qed

lemma sendCmd_frame:
  "cn_connected (tc_heap st a) \<Longrightarrow> TCPClient_sendCmd N T (Suc n) a name msg st = Inr (r, st') \<Longrightarrow> tc_connPool st' = tc_connPool st"
  by (auto simp: Connection_Connected_def dest: send_connected_frame)

declare TCPClient_sendCmd.simps [simp del]

lemma SendCmd_frame:
  assumes "cn_connected (tc_heap st a)" "Connection_SendCmd (TCPClient_sendCmd N T (Suc n)) a name msg st = Inr (r, st')"
  shows "tc_connPool st' = tc_connPool st"
proof -
  let ?st = "conn_upd a (\<lambda>c. c\<lparr>cn_mu := True\<rparr>) st"
  have st: "tc_connPool ?st = tc_connPool st" "cn_connected (tc_heap ?st a)" using assms(1) by (simp_all add: conn_upd_def)
  have upd: "tc_connPool (conn_upd a g st1) = tc_connPool st1" for g and st1 :: "'a TCPClient" by (simp add: conn_upd_def)
  show ?thesis
    using assms(2) sendCmd_frame [OF st(2)] st(1)
    by (auto simp: Connection_SendCmd_def Let_def bindR_Inr_iff upd split: if_splits)
qed

lemma meowCmd_frame:
  assumes "cn_connected (tc_heap st a)" "Connection_meowCmd (TCPClient_sendCmd N T (Suc n)) T a st = Inr (r, st')"
  shows "tc_connPool st' = tc_connPool st"
proof -
  obtain x st1 where x: "Connection_SendCmd (TCPClient_sendCmd N T (Suc n)) a ''Meow'' None st = Inr (x, st1)"
    using assms(2) by (auto simp: Connection_meowCmd_def call_cmd_def bindR_Inr_iff)
  have "st' = st1" using assms(2) x
    by (cases x) (auto simp: Connection_meowCmd_def call_cmd_def handleR_Inr_iff)
  then show ?thesis using SendCmd_frame [OF assms(1) x] by simp
qed

definition self_listed :: "MeowCmdResp \<Rightarrow> bool" where
  "self_listed m \<longleftrightarrow> (\<exists>node. Some node \<in> set (mr_Nodes m) \<and> ni_Id node = mr_NodeId m)"

definition asked_nil_logger :: "info_result \<Rightarrow> 's TCPClient \<Rightarrow> bool" where
  "asked_nil_logger p st \<longleftrightarrow> \<not> cp_logger (tc_connPool st) \<and>
     (\<forall>m. p = (Some m, None) \<longrightarrow> self_listed m \<and> map_of (cp_pool (tc_connPool st)) (mr_NodeId m) \<noteq> None)"

lemma init_loop_nil_logger:
  assumes "nw_NilLog N = Inl f"
    and "\<And>a st m st'. cn_connected (tc_heap st a) \<Longrightarrow>
      Connection_meowCmd (TCPClient_sendCmd N T (Suc n)) T a st = Inr (Inr m, st') \<Longrightarrow> self_listed m"
  shows "init_loop N (TCPClient_sendCmd N T (Suc n)) T addrs p st = Inr (p', st') \<Longrightarrow> asked_nil_logger p st \<Longrightarrow> asked_nil_logger p' st'"
proof (induction addrs arbitrary: p st)
  case (Cons addr addrs)
  obtain a st1 where new: "newConnection st = (a, st1)" by (cases "newConnection st")
  obtain err st2 where d: "Connection_Dial N ''tcp'' addr a st1 = Inr (err, st2)" using Cons.prems(1) new by (auto simp: bindR_Inr_iff)
  have pool: "tc_connPool st2 = tc_connPool st" "err = None \<Longrightarrow> cn_connected (tc_heap st2 a)"
    using new d by (auto simp: newConnection_def Connection_Dial_def Let_def bindR_Inr_iff conn_upd_def split: if_splits prod.splits sum.splits)
  then have nl: "\<not> cp_logger (tc_connPool st2)" using Cons.prems(2) by (simp add: asked_nil_logger_def)
  have err: "err = None" using Cons.prems(1) new d nl assms(1) by (cases err) (auto simp: log_call_def)
  obtain r st3 where m: "Connection_meowCmd (TCPClient_sendCmd N T (Suc n)) T a st2 = Inr (r, st3)"
    using Cons.prems(1) new d err by (auto simp: bindR_Inr_iff)
  have pool3: "tc_connPool st3 = tc_connPool st" using meowCmd_frame [OF pool(2) [OF err] m] pool(1) by simp
  show ?case
  proof (cases r)
    case (Inl e)
    then show ?thesis using Cons.prems new d err m nl pool pool3
      by (auto simp: bindR_Inr_iff info_of_def asked_nil_logger_def Connection_Close_def split: option.splits prod.splits)
  next
    case (Inr resp)
    have "asked_nil_logger (info_of r) (pool_set (mr_NodeId resp) a st3)"
      using assms(2) [OF pool(2) [OF err]] m nl pool pool3 Inr
      by (auto simp: asked_nil_logger_def info_of_def pool_set_def pool_upd_def conn_upd_def update_conv')
    then show ?thesis using Cons.IH Cons.prems(1) new d err m Inr by auto
  qed
qed simp

text \<open>
  Without a logger a client never connects.  The pool of a client made without \<^verbatim>\<open>WithLogger\<close> keeps a
  nil logger.  If calling that panics, and every server lists itself among the nodes it reports, then no dial of such
  a client ever succeeds, on any network: the update of the node it has just connected to logs a line.
\<close>

theorem client_without_logger_never_connects:
  assumes "nw_NilLog N = Inl f" "\<not> co_logger (fold (\<lambda>opt. opt) opts
      \<lparr>co_dialTimeout = 2 * time_Second, co_checkInterval = 10 * time_Second, co_logger = False\<rparr>)"
    and "\<And>a st m st'. cn_connected (tc_heap st a) \<Longrightarrow>
      Connection_meowCmd (TCPClient_sendCmd N T (Suc n)) T a st = Inr (Inr m, st') \<Longrightarrow> self_listed m"
  shows "TCPClient_Dial N (TCPClient_sendCmd N T (Suc n)) T (TCPClient_New addrs opts s) \<noteq> Inr (None, st)"
proof
  assume dial: "TCPClient_Dial N (TCPClient_sendCmd N T (Suc n)) T (TCPClient_New addrs opts s) = Inr (None, st)"
  let ?st = "pool_upd (\<lambda>p. p\<lparr>cp_mu := True\<rparr>) (TCPClient_New addrs opts s)"
  have st: "cp_pool (tc_connPool ?st) = []" "\<not> cp_logger (tc_connPool ?st)"
    using assms(2) by (simp_all add: TCPClient_New_def Let_def newConnectionPool_def pool_upd_def)
  obtain st1 where "establish_locked N (TCPClient_sendCmd N T (Suc n)) T ?st = Inr (None, st1)"
    using dial by (auto simp: TCPClient_Dial_def establishConns_def bindR_Inr_iff simp del: TCPClient_sendCmd.simps split: if_splits)
  then obtain m st2 r where m: "init_loop N (TCPClient_sendCmd N T (Suc n)) T (cp_initAddrs (tc_connPool ?st)) (None, None) ?st = Inr ((Some m, None), st2)"
    "nodes_loop N (mr_Nodes m) 0 st2 = Inr r"
    by (auto simp: establish_locked_def getServerInfo_first [OF st(1)] bindR_Inr_iff simp del: TCPClient_sendCmd.simps
        split: if_splits option.split_asm)
  have "asked_nil_logger (Some m, None) st2"
    by (rule init_loop_nil_logger [OF assms(1,3) m(1)]) (simp_all add: asked_nil_logger_def st(2))
  then show False
    using nodes_loop_nil_logger [OF assms(1), of st2 "mr_NodeId m" _ "mr_Nodes m" 0 r] m(2)
    by (auto simp: asked_nil_logger_def self_listed_def)
qed

text \<open>A network whose servers give one answer to everything.\<close>

definition canned_net :: "byte list \<Rightarrow> (string \<Rightarrow> bool) \<Rightarrow> byte list net" where
  "canned_net resp dead = \<lparr>
     nw_Dial = \<lambda>_ _ _ addr s. if dead addr then (Inl ''connection refused'', s) else (Inr 0, s),
     nw_SetDeadline = \<lambda>_ _ s. s,
     nw_Write = \<lambda>_ bs s. ((length bs, None), concat (EncodeCmdResp (resp_magic True) (Some resp))),
     nw_Read = \<lambda>_. buf_Read,
     nw_Close = \<lambda>_ s. (None, s),
     nw_url_Parse = \<lambda>x. Inr \<lparr>cu_Host = x, cu_String = x\<rparr>,
     nw_NilLog = Inl nil_deref\<rparr>"

definition sample_report :: MeowCmdResp where
  "sample_report = \<lparr>mr_NodeId = 3, mr_Nodes = [Some \<lparr>ni_Id = 3, ni_Name = [], ni_ApiEndpoint = ''a:1'', ni_GrpcEndpoint = [],
     ni_Type = [], ni_Leader = True, ni_Active = True, ni_ActiveSince = None\<rparr>]\<rparr>"

lemma sample_report: "self_listed sample_report" "MeowCmdResp_Unmarshal wire_ts MeowCmdResp_zero (enc_MeowCmdResp wire_ts sample_report) = Inr sample_report"
  "length (enc_MeowCmdResp wire_ts sample_report) \<le> 4096"
proof -
  show len: "length (enc_MeowCmdResp wire_ts sample_report) \<le> 4096"
    using length_enc_varint_le [of 3] length_enc_varint_le [of 11] length_enc_varint_le [of 14]
    by (simp add: sample_report_def enc_MeowCmdResp_def enc_NodeInfo_def enc_varint.simps sov_small)
  show "MeowCmdResp_Unmarshal wire_ts MeowCmdResp_zero (enc_MeowCmdResp wire_ts sample_report) = Inr sample_report"
    by (rule MeowCmdResp.Unmarshal_enc [OF wire_ts_ok])
      (use len in \<open>simp_all add: valid_MeowCmdResp_def valid_NodeInfo_def sample_report_def\<close>)
qed (simp add: self_listed_def sample_report_def)

lemma canned_answer:
  assumes "cn_connected (tc_heap st a)" "length resp \<le> 4096"
    and "Connection_SendCmd (TCPClient_sendCmd (canned_net resp dead) T (Suc n)) a name msg st = Inr (Inr d, st')"
  shows "d = resp"
proof -
  let ?st = "conn_upd a (\<lambda>c. c\<lparr>cn_mu := True\<rparr>) st" and ?frame = "concat (EncodeCmdResp (resp_magic True) (Some resp))"
  obtain s where s: "DecodeCmdResp buf_Read T ?frame = Inr (Inr resp, s)"
    using DecodeCmdResp_frame [OF buf_Read_full, where c = ?frame and ok = True and resp = resp and rest = "[]" and T = T] assms(2)
    by auto
  have con: "cn_connected (tc_heap ?st a)" using assms(1) by (simp add: conn_upd_def)
  obtain st1 where st1: "send_connected (canned_net resp dead) T a name msg ?st = Inr (Inr d, st1)"
    using assms(3) con by (auto simp: Connection_SendCmd_def Let_def bindR_Inr_iff TCPClient_sendCmd.simps Connection_Connected_def split: if_splits)
  obtain q where q: "EncodeCmdReq T name msg = Inr q" using st1 by (auto simp: send_connected_def bindR_Inr_iff)
  then obtain cmd where "q = Inr cmd" using st1 by (cases q) (auto simp: send_connected_def bindR_Inr_iff)
  then show ?thesis
    using st1 q s by (cases "cn_conn (tc_heap ?st a)")
      (auto simp: send_connected_def Connection_SetDeadline_def Connection_Write_def with_conn_def canned_net_def bindR_Inr_iff)
qed

lemma canned_meow:
  assumes "cn_connected (tc_heap st a)"
    and "Connection_meowCmd (TCPClient_sendCmd (canned_net (enc_MeowCmdResp wire_ts sample_report) dead) wire_ts (Suc n)) wire_ts a st = Inr (Inr m, st')"
  shows "self_listed m"
proof -
  let ?send = "TCPClient_sendCmd (canned_net (enc_MeowCmdResp wire_ts sample_report) dead) wire_ts (Suc n)"
  obtain x st1 where x: "Connection_SendCmd ?send a ''Meow'' None st = Inr (x, st1)"
    using assms(2) by (auto simp: Connection_meowCmd_def call_cmd_def bindR_Inr_iff)
  then obtain d where d: "x = Inr d" "MeowCmdResp_Unmarshal wire_ts MeowCmdResp_zero d = Inr m"
    using assms(2) by (cases x) (auto simp: Connection_meowCmd_def call_cmd_def handleR_Inr_iff)
  have "Connection_SendCmd ?send a ''Meow'' None st = Inr (Inr d, st1)" using x d(1) by simp
  from canned_answer [OF assms(1) sample_report(3) this] have "d = enc_MeowCmdResp wire_ts sample_report" .
  then have "m = sample_report" using d(2) sample_report(2) by simp
  then show ?thesis using sample_report(1) by simp
qed

theorem client_without_logger_never_connects_witness:
  "TCPClient_Dial (canned_net (enc_MeowCmdResp wire_ts sample_report) (\<lambda>_. False))
     (TCPClient_sendCmd (canned_net (enc_MeowCmdResp wire_ts sample_report) (\<lambda>_. False)) wire_ts 1) wire_ts
     (TCPClient_New [''a:1''] [] []) \<noteq> Inr (None, sample_client [])"
proof -
  have "nw_NilLog (canned_net (enc_MeowCmdResp wire_ts sample_report) (\<lambda>_. False)) = Inl nil_deref" by (simp add: canned_net_def)
  then show ?thesis
    using client_without_logger_never_connects [where n = 0 and opts = "[]", OF _ _ canned_meow] by simp
qed

theorem first_dial_fails_on_last_address_witness:
  "\<exists>err st. TCPClient_Dial (canned_net (enc_MeowCmdResp wire_ts sample_report) (\<lambda>addr. addr = ''b:1''))
     (TCPClient_sendCmd (canned_net (enc_MeowCmdResp wire_ts sample_report) (\<lambda>addr. addr = ''b:1'')) wire_ts 1) wire_ts
     (TCPClient_New [''a:1'', ''b:1''] [WithLogger True] []) = Inr (err, st) \<and> err \<noteq> None"
proof -
  let ?N = "canned_net (enc_MeowCmdResp wire_ts sample_report) (\<lambda>addr. addr = ''b:1'')"
  have "client_run ?N wire_ts (TCPClient_New [''a:1'', ''b:1''] [WithLogger True] [])"
    by (rule client_run.start) (simp_all add: WithLogger_def)
  note run = this
  have link: "link_ok ?N wire_ts"
    by (auto simp: link_ok_def net_ok_def canned_net_def buf_Read_def wire_ts_ok wire_ts_safe)
  obtain err st where d: "TCPClient_Dial ?N (TCPClient_sendCmd ?N wire_ts (Suc 0)) wire_ts
      (TCPClient_New ([''a:1''] @ [''b:1'']) [WithLogger True] []) = Inr (err, st)"
    using sender.Dial_runs [OF link client_run_inv [OF link run], of 0] by (auto simp: runs_def)
  have "err \<noteq> None"
    by (rule first_dial_fails_on_last_address [OF _ d]) (simp add: canned_net_def)
  then show ?thesis using d by auto
qed

end
