(* ===== verification/Bench.thy ===== *)
theory Bench
  imports ClientProperties
begin

text \<open>
  The benchmark program (\<^verbatim>\<open>benchmark/bench.go\<close>): clients that each connect and register a resource of
  their own, and then send commands at once.  Every client works on a network state of its own; what it prints is
  left out.  Exit code 1 is \<open>Inl 1\<close>.
\<close>

section \<open>Connecting\<close>

definition bench_resource :: "nat \<Rightarrow> string" where
  "bench_resource idx = sprintf ''test%d'' [FInt (int idx)]"

text \<open>Ticks of the goroutines that the client's earlier calls of \<^verbatim>\<open>Dial\<close> have started.\<close>

fun checker_ticks :: "'s net \<Rightarrow> 's cmdFunc \<Rightarrow> ts_codec \<Rightarrow> nat \<Rightarrow> 's TCPClient \<Rightarrow> 's TCPClient res" where
  "checker_ticks N send T 0 c = Inr c"
| "checker_ticks N send T (Suc k) c =
     (if cp_checkers (tc_connPool c) = 0 then Inr c
      else bindR (checker_tick N send T c) (\<lambda>(_, c). checker_ticks N send T k c))"

text \<open>
  One client's goroutine: it dials until that succeeds.  The list has for each attempt the number of ticks before
  it; a run that is still dialing at its end is \<open>OutOfFuel\<close>.
\<close>

fun bench_connect :: "'s net \<Rightarrow> 's cmdFunc \<Rightarrow> ts_codec \<Rightarrow> nat list \<Rightarrow> nat \<Rightarrow> 's TCPClient \<Rightarrow> (nat + 's TCPClient) res" where
  "bench_connect N send T [] idx c = Inl OutOfFuel"
| "bench_connect N send T (k # ks) idx c =
     bindR (checker_ticks N send T k c) (\<lambda>c.
     bindR (TCPClient_Dial N send T c) (\<lambda>(err, c).
       case err of
         Some e \<Rightarrow> bench_connect N send T ks idx c
       | None \<Rightarrow>
           bindR (TCPClient_RegisterTokenBucket N send T (bench_resource idx) (f64_of_int 10000) 10 False c) (\<lambda>((_, err), c).
             Inr (if err \<noteq> None then Inl 1 else Inr c))))"

fun bench_connect_all :: "'s net \<Rightarrow> 's cmdFunc \<Rightarrow> ts_codec \<Rightarrow> string \<Rightarrow> (nat \<Rightarrow> nat list) \<Rightarrow> nat list \<Rightarrow> 's \<Rightarrow>
  (nat + 's TCPClient list) res" where
  "bench_connect_all N send T addr ticks [] s = Inr (Inr [])"
| "bench_connect_all N send T addr ticks (idx # idxs) s =
     bindR (bench_connect N send T (ticks idx) idx (TCPClient_New [addr] [] s)) (\<lambda>r.
       case r of
         Inl code \<Rightarrow> Inr (Inl code)
       | Inr c \<Rightarrow>
           bindR (bench_connect_all N send T addr ticks idxs s) (\<lambda>r.
             Inr (case r of Inl code \<Rightarrow> Inl code | Inr cs \<Rightarrow> Inr (c # cs))))"

section \<open>Measuring\<close>

text \<open>A goroutine's commands, until one fails.\<close>

fun bench_worker :: "string \<Rightarrow> (nat \<Rightarrow> ('s, cerror option) client_op) \<Rightarrow> nat \<Rightarrow> nat \<Rightarrow> ('s, string option) client_op" where
  "bench_worker name cmdFunc idx 0 c = Inr (None, c)"
| "bench_worker name cmdFunc idx (Suc j) c =
     bindR (cmdFunc idx c) (\<lambda>(err, c).
       case err of
         Some e \<Rightarrow>
           Inr (Some (sprintf ''Client[%d]: %s command error: %s'' [FInt (int idx), FStr name, FStr (cerror_Error e)] @ [char_of (10 :: nat)]), c)
       | None \<Rightarrow> bench_worker name cmdFunc idx j c)"

text \<open>
  The loop that starts the goroutines looks at the error of each right after it has started it: \<open>seen\<close> says
  whether the goroutine had failed by then.  It returns the error then, and starts no more.
\<close>

fun bench_start :: "(nat \<Rightarrow> bool) \<Rightarrow> (nat \<Rightarrow> ('s, string option) client_op) \<Rightarrow> nat \<Rightarrow> 's TCPClient list \<Rightarrow>
  (string option \<times> 's TCPClient list) res" where
  "bench_start seen worker i [] = Inr (None, [])"
| "bench_start seen worker i (c # cs) =
     bindR (worker i c) (\<lambda>(firstErr, c).
       if firstErr \<noteq> None \<and> seen i then Inr (firstErr, c # cs)
       else bindR (bench_start seen worker (Suc i) cs) (\<lambda>(err, cs). Inr (err, c # cs)))"

text \<open>The rate divides by the whole milliseconds that have passed.\<close>

definition benchmarkCmd :: "(nat \<Rightarrow> bool) \<Rightarrow> duration \<Rightarrow> string \<Rightarrow> 's TCPClient list \<Rightarrow> nat \<Rightarrow>
  (nat \<Rightarrow> ('s, cerror option) client_op) \<Rightarrow> ((string + int) \<times> 's TCPClient list) res" where
  "benchmarkCmd seen elapsed name clients cmdCount cmdFunc =
     bindR (bench_start seen (\<lambda>idx. bench_worker name cmdFunc idx cmdCount) 0 clients) (\<lambda>(err, clients).
       case err of
         Some e \<Rightarrow> Inr (Inl e, clients)
       | None \<Rightarrow>
           bindR (int64_div (wrap64 (int (length clients) * int cmdCount * 1000)) (elapsed sdiv 1000000)) (\<lambda>rps.
             Inr (Inr rps, clients)))"

definition bench_allow :: "'s net \<Rightarrow> 's cmdFunc \<Rightarrow> ts_codec \<Rightarrow> nat \<Rightarrow> nat \<Rightarrow> ('s, cerror option) client_op" where
  "bench_allow N send T m idx c = bindR (TCPClient_Allow N send T m (bench_resource idx) 1 c) (\<lambda>((_, err), c). Inr (err, c))"

definition bench_get :: "'s net \<Rightarrow> 's cmdFunc \<Rightarrow> ts_codec \<Rightarrow> nat \<Rightarrow> ('s, cerror option) client_op" where
  "bench_get N send T idx c =
     bindR (TCPClient_GetResource N send T (bench_resource idx) c) (\<lambda>(r, c). Inr (case r of Inl e \<Rightarrow> Some e | Inr _ \<Rightarrow> None, c))"

text \<open>The two measurements and the exit code of the first that fails.\<close>

definition bench_main :: "'s net \<Rightarrow> 's cmdFunc \<Rightarrow> ts_codec \<Rightarrow> nat \<Rightarrow> (nat \<Rightarrow> nat list) \<Rightarrow> (nat \<Rightarrow> nat \<Rightarrow> bool) \<Rightarrow> (nat \<Rightarrow> duration) \<Rightarrow>
  string \<Rightarrow> nat \<Rightarrow> nat \<Rightarrow> 's \<Rightarrow> (nat + int \<times> int) res" where
  "bench_main N send T m ticks seen elapsed addr concurrency cmdCount s =
     bindR (bench_connect_all N send T addr ticks [0..<concurrency] s) (\<lambda>r.
       case r of
         Inl code \<Rightarrow> Inr (Inl code)
       | Inr clients \<Rightarrow>
           bindR (benchmarkCmd (seen 0) (elapsed 0) ''Allow'' clients cmdCount (bench_allow N send T m)) (\<lambda>(r, clients).
             case r of
               Inl err \<Rightarrow> Inr (Inl 1)
             | Inr allow \<Rightarrow>
                 bindR (benchmarkCmd (seen 1) (elapsed 1) ''GetResource'' clients cmdCount (bench_get N send T)) (\<lambda>(r, clients).
                   Inr (case r of Inl err \<Rightarrow> Inl 1 | Inr get \<Rightarrow> Inr (allow, get)))))"

section \<open>The benchmark does not start\<close>

text \<open>A client that has dialed its one address without success, as it is made without a logger.\<close>

definition undialed :: "'s TCPClient \<Rightarrow> bool" where
  "undialed st \<longleftrightarrow> cp_pool (tc_connPool st) = [] \<and> \<not> cp_logger (tc_connPool st) \<and> length (cp_initAddrs (tc_connPool st)) = 1"

lemma undialed_pool: "tc_connPool st' = tc_connPool st \<Longrightarrow> undialed st' = undialed st"
  by (simp add: undialed_def)

text \<open>The address is dialed; a node that answers is put in the pool.\<close>

lemma first_address:
  assumes "nw_NilLog N = Inl f" "undialed st"
    and "init_loop N (TCPClient_sendCmd N T (Suc n)) T (cp_initAddrs (tc_connPool st)) (None, None) st = Inr ((m, err), st')"
  shows "(err \<noteq> None \<and> undialed st') \<or> (\<exists>r. m = Some r \<and> err = None)"
proof -
  obtain addr where addr: "cp_initAddrs (tc_connPool st) = [addr]" using assms(2) by (auto simp: undialed_def length_Suc_conv)
  obtain a st1 where new: "newConnection st = (a, st1)" by (cases "newConnection st")
  obtain derr st2 where d: "Connection_Dial N ''tcp'' addr a st1 = Inr (derr, st2)" using assms(3) addr new by (auto simp: bindR_Inr_iff)
  have pool: "tc_connPool st2 = tc_connPool st" "derr = None \<Longrightarrow> cn_connected (tc_heap st2 a)"
    using new d by (auto simp: newConnection_def Connection_Dial_def Let_def bindR_Inr_iff conn_upd_def split: if_splits prod.splits sum.splits)
  have none: "derr = None"
    using assms(1-3) addr new d pool(1) by (cases derr) (auto simp: log_call_def undialed_def)
  obtain r st3 where m: "Connection_meowCmd (TCPClient_sendCmd N T (Suc n)) T a st2 = Inr (r, st3)"
    using assms(3) addr new d none by (auto simp: bindR_Inr_iff)
  have "tc_connPool st3 = tc_connPool st" using meowCmd_frame [OF pool(2) [OF none] m] pool(1) by simp
  then show ?thesis
    using assms(2,3) addr new d none m
    by (cases r) (auto simp: info_of_def Connection_Close_def bindR_Inr_iff undialed_def split: option.splits prod.splits)
qed

text \<open>A server that is asked over a connection lists itself among the nodes it reports.\<close>

definition reports_itself :: "'s net \<Rightarrow> ts_codec \<Rightarrow> nat \<Rightarrow> bool" where
  "reports_itself N T n \<longleftrightarrow> (\<forall>a st m st'. cn_connected (tc_heap st a) \<longrightarrow>
     Connection_meowCmd (TCPClient_sendCmd N T (Suc n)) T a st = Inr (Inr m, st') \<longrightarrow> self_listed m)"

lemma establish_undialed:
  assumes "nw_NilLog N = Inl f" "undialed st"
    and "reports_itself N T n"
    and "establish_locked N (TCPClient_sendCmd N T (Suc n)) T st = Inr (err, st')"
  shows "err \<noteq> None \<and> undialed st'"
proof -
  have st: "cp_pool (tc_connPool st) = []" "\<not> cp_logger (tc_connPool st)" using assms(2) by (simp_all add: undialed_def)
  obtain m e st1 where m: "init_loop N (TCPClient_sendCmd N T (Suc n)) T (cp_initAddrs (tc_connPool st)) (None, None) st = Inr ((m, e), st1)"
    using assms(4) by (auto simp: establish_locked_def getServerInfo_first [OF st(1)] bindR_Inr_iff)
  show ?thesis
  proof (cases "e = None")
    case False
    then have "err = e" "st' = st1"
      using assms(4) m by (auto simp: establish_locked_def getServerInfo_first [OF st(1)] bindR_Inr_iff)
    then show ?thesis using first_address [OF assms(1,2) m] False by blast
  next
    case True
    then obtain r where r: "m = Some r" using first_address [OF assms(1,2) m] by blast
    have "asked_nil_logger (Some r, None) st1"
      by (rule init_loop_nil_logger [OF assms(1) _ m [unfolded r True]])
        (use assms(3) in \<open>auto simp: asked_nil_logger_def st(2) reports_itself_def\<close>)
    then have "nodes_loop N (mr_Nodes r) 0 st1 \<noteq> Inr x" for x
      using nodes_loop_nil_logger [OF assms(1), of st1 "mr_NodeId r" _ "mr_Nodes r" 0 x]
      by (auto simp: asked_nil_logger_def self_listed_def)
    then show ?thesis
      using assms(4) m r True by (auto simp: establish_locked_def getServerInfo_first [OF st(1)] bindR_Inr_iff)
  qed
qed

lemma establishConns_undialed:
  assumes "nw_NilLog N = Inl f" "undialed st"
    and "reports_itself N T n"
    and "establishConns N (TCPClient_sendCmd N T (Suc n)) T st = Inr (err, st')"
  shows "err \<noteq> None \<and> undialed st'"
proof -
  let ?st = "pool_upd (\<lambda>p. p\<lparr>cp_mu := True\<rparr>) st"
  have st: "undialed ?st" using assms(2) by (simp add: undialed_def pool_upd_def)
  obtain st1 where st1: "establish_locked N (TCPClient_sendCmd N T (Suc n)) T ?st = Inr (err, st1)"
    "st' = pool_upd (\<lambda>p. p\<lparr>cp_mu := False\<rparr>) st1"
    using assms(4) by (auto simp: establishConns_def bindR_Inr_iff split: if_splits)
  then show ?thesis using establish_undialed [OF assms(1) st assms(3) st1(1)] by (simp add: undialed_def pool_upd_def)
qed

lemma checker_ticks_undialed:
  assumes "nw_NilLog N = Inl f"
    and "reports_itself N T n"
  shows "checker_ticks N (TCPClient_sendCmd N T (Suc n)) T k c = Inr c' \<Longrightarrow> undialed c \<Longrightarrow> undialed c'"
proof (induction k arbitrary: c)
  case (Suc k)
  show ?case
  proof (cases "cp_checkers (tc_connPool c) = 0")
    case False
    then obtain err c1 where "establishConns N (TCPClient_sendCmd N T (Suc n)) T c = Inr (err, c1)"
      "checker_ticks N (TCPClient_sendCmd N T (Suc n)) T k c1 = Inr c'"
      using Suc.prems(1) by (auto simp: checker_tick_def bindR_Inr_iff)
    then show ?thesis using Suc.IH establishConns_undialed [OF assms(1) Suc.prems(2) assms(2)] by blast
  qed (use Suc.prems in simp)
qed simp

lemma bench_connect_fails:
  assumes "nw_NilLog N = Inl f"
    and "reports_itself N T n"
  shows "undialed c \<Longrightarrow> bench_connect N (TCPClient_sendCmd N T (Suc n)) T ks idx c \<noteq> Inr r"
proof (induction ks arbitrary: c)
  case (Cons k ks)
  show ?case
  proof
    assume run: "bench_connect N (TCPClient_sendCmd N T (Suc n)) T (k # ks) idx c = Inr r"
    then obtain c1 where c1: "checker_ticks N (TCPClient_sendCmd N T (Suc n)) T k c = Inr c1" by (auto simp: bindR_Inr_iff)
    have u1: "undialed c1" by (rule checker_ticks_undialed [OF assms c1 Cons.prems])
    obtain err c2 where c2: "TCPClient_Dial N (TCPClient_sendCmd N T (Suc n)) T c1 = Inr (err, c2)"
      using run c1 by (auto simp: bindR_Inr_iff)
    then obtain c3 where c3: "establishConns N (TCPClient_sendCmd N T (Suc n)) T c1 = Inr (err, c3)" "c2 = checkConns c3"
      by (auto simp: TCPClient_Dial_def bindR_Inr_iff)
    have "err \<noteq> None \<and> undialed c2"
      using establishConns_undialed [OF assms(1) u1 assms(2) c3(1)] by (simp add: c3(2) undialed_def checkConns_def pool_upd_def)
    then show False using run c1 c2 Cons.IH by auto
  qed
qed simp

text \<open>
  C40 The benchmark never measures.  Its clients are made without a logger.  If calling a nil logger panics, and every
  server that answers lists itself among the nodes it reports, then a run with any clients at all ends in a panic or
  is dialing for ever, whichever connections and calls fail and whenever the clients' background checks run.
\<close>

theorem benchmark_never_measures:
  assumes "nw_NilLog N = Inl f" "0 < concurrency"
    and "reports_itself N T n"
  shows "\<exists>f. bench_main N (TCPClient_sendCmd N T (Suc n)) T m ticks seen elapsed addr concurrency cmdCount s = Inl f"
proof -
  have "undialed (TCPClient_New [addr] [] s)" by (simp add: undialed_def TCPClient_New_def Let_def newConnectionPool_def)
  then have "bench_connect N (TCPClient_sendCmd N T (Suc n)) T (ticks 0) 0 (TCPClient_New [addr] [] s) \<noteq> Inr r" for r
    by (rule bench_connect_fails [OF assms(1,3)])
  then obtain g where "bench_connect N (TCPClient_sendCmd N T (Suc n)) T (ticks 0) 0 (TCPClient_New [addr] [] s) = Inl g"
    by (cases "bench_connect N (TCPClient_sendCmd N T (Suc n)) T (ticks 0) 0 (TCPClient_New [addr] [] s)") blast+
  then show ?thesis using assms(2) by (simp add: bench_main_def upt_conv_Cons)
qed

theorem benchmark_never_measures_witness:
  "\<exists>f. bench_main (canned_net (enc_MeowCmdResp wire_ts sample_report) (\<lambda>_. False))
     (TCPClient_sendCmd (canned_net (enc_MeowCmdResp wire_ts sample_report) (\<lambda>_. False)) wire_ts (Suc 0)) wire_ts
     2 (\<lambda>_. [0, 1]) (\<lambda>_ _. False) (\<lambda>_. 1000000) ''a:1'' 3 10 [] = Inl f"
proof (rule benchmark_never_measures)
  show "reports_itself (canned_net (enc_MeowCmdResp wire_ts sample_report) (\<lambda>_. False)) wire_ts 0"
    unfolding reports_itself_def using canned_meow by blast
  show "nw_NilLog (canned_net (enc_MeowCmdResp wire_ts sample_report) (\<lambda>_. False)) = Inl nil_deref" by (simp add: canned_net_def)
qed simp

end
