(* ===== verification/ReplicaRun.thy ===== *)
theory ReplicaRun
  imports CmdLaws
begin

text \<open>
  The nodes of a cluster over time.  Every node serves commands, forwards and is probed on its own, and applies the
  entries of one raft log in order, each at a time of its own; it may restart with nothing, take a snapshot, and
  install any snapshot taken before, over whatever it holds.  The raft library, which is not part of the program, is
  the order of the log: what it commits is any sequence of bytes.  The invariant ties each node's store to the part of
  the log it has applied, for what the log decides of a resource: all but the limiter's count of events, which its
  owner alone changes, and the history of requests.
\<close>

section \<open>What the log decides of a resource\<close>

fun limiter_fixed :: "Limiter \<Rightarrow> Limiter" where
  "limiter_fixed (tokenBucketLimiter b) = tokenBucketLimiter (b\<lparr>tb_tokenCount := 0, tb_lastFilled := 0, tb_nextFill := 0\<rparr>)"

definition res_fixed :: "Resource \<Rightarrow> Resource" where
  "res_fixed res = (res_core res)\<lparr>res_Limiter := map_option limiter_fixed (res_Limiter res)\<rparr>"

definition fixed_view :: "'m swiss_ops \<Rightarrow> 'm ResourceManager \<Rightarrow> string \<Rightarrow> Resource option" where
  "fixed_view M rm name = map_option res_fixed (rm_view M rm name)"

fun fixed_op :: "store_op \<Rightarrow> store_op" where
  "fixed_op (OpPut name res) = OpPut name (res_fixed res)"
| "fixed_op (OpRemove name) = OpRemove name"
| "fixed_op (OpRetarget name dst) = OpRetarget name dst"

lemma Allow_fixed [simp]: "limiter_fixed (snd (Limiter_Allow t n l)) = limiter_fixed l"
  by (cases l) (simp add: TokenBucket_Allow_def TokenBucket_fill_def Let_def)

lemma res_fixed_core [simp]: "res_fixed (res_core res) = res_fixed res"
  by (simp add: res_fixed_def res_core_def)

lemma res_fixed_retarget: "res_fixed (res\<lparr>res_NodeID := dst\<rparr>) = (res_fixed res)\<lparr>res_NodeID := dst\<rparr>"
  by (simp add: res_fixed_def res_core_def)

lemma res_fixed_charged:
  "res_Limiter res = Some l \<Longrightarrow> res_fixed (res\<lparr>res_Limiter := Some (snd (Limiter_Allow t n l))\<rparr>) = res_fixed res"
  by (simp add: res_fixed_def res_core_def)

lemma fixed_op_core [simp]: "fixed_op (core_op oper) = fixed_op oper"
  by (cases oper) simp_all

lemma spec_op_fixed:
  "(\<lambda>n. map_option res_fixed (spec_op oper v n)) = spec_op (fixed_op oper) (\<lambda>n. map_option res_fixed (v n))"
  by (cases oper) (auto simp: fun_eq_iff res_fixed_retarget split: option.splits)

lemma fixed_view_cong: "rm_view M rm = rm_view M rm' \<Longrightarrow> fixed_view M rm = fixed_view M rm'"
  by (simp add: fixed_view_def [abs_def])

lemma opt_step_fixed:
  assumes "rm_wf M rm"
  shows "fixed_view M (opt_step (rm_step M) oper rm) = opt_step spec_op (map_option fixed_op oper) (fixed_view M rm)"
  using opt_step_law [OF assms, of oper] spec_op_fixed
  by (cases oper) (simp_all add: opt_step_def fixed_view_def [abs_def])

text \<open>An entry's effect does not depend on the clock of the node that applies it.\<close>

definition entry_fixed :: "ts_codec \<Rightarrow> uuid_FromBytes \<Rightarrow> duration \<Rightarrow> byte list \<Rightarrow> store_op option res" where
  "entry_fixed T F H data = map_sum id (map_option fixed_op) (entry_op T F H 0 data)"

lemma entry_fixed_clock: "map_sum id (map_option fixed_op) (entry_op T F H now data) = entry_fixed T F H data"
proof -
  have core: "map_sum id (map_option fixed_op) r = map_sum id (map_option fixed_op) (map_sum id (map_option core_op) r)"
    for r :: "store_op option res"
    by (cases r) (simp_all add: option.map_comp o_def)
  show ?thesis unfolding entry_fixed_def
    by (subst (1 2) core) (simp only: entry_op_clock [of T F H now data 0])
qed

fun log_store :: "ts_codec \<Rightarrow> uuid_FromBytes \<Rightarrow> duration \<Rightarrow> byte list list \<Rightarrow> (string \<Rightarrow> Resource option) \<Rightarrow>
  (string \<Rightarrow> Resource option) res" where
  "log_store T F H [] v = Inr v"
| "log_store T F H (data # es) v =
     bindR (entry_fixed T F H data) (\<lambda>oper. log_store T F H es (opt_step spec_op oper v))"

lemma log_store_snoc:
  "log_store T F H (es @ [data]) v =
     bindR (log_store T F H es v) (\<lambda>v. bindR (entry_fixed T F H data) (\<lambda>oper. Inr (opt_step spec_op oper v)))"
  by (induction es arbitrary: v) (simp_all add: bindR_def split: sum.split)

lemma Apply_fixed:
  assumes "rm_wf M rm" "rm_Apply M T F H now data rm = Inr rm'"
  shows "rm_wf M rm'" "bindR (entry_fixed T F H data) (\<lambda>oper. Inr (opt_step spec_op oper (fixed_view M rm))) = Inr (fixed_view M rm')"
proof -
  obtain oper where oper: "entry_op T F H now data = Inr oper" "rm' = opt_step (rm_step M) oper rm"
    using assms(2) by (auto simp: Apply_op bindR_Inr_iff)
  show "rm_wf M rm'" using opt_step_law [OF assms(1), of oper] oper(2) by simp
  show "bindR (entry_fixed T F H data) (\<lambda>oper. Inr (opt_step spec_op oper (fixed_view M rm))) = Inr (fixed_view M rm')"
    using opt_step_fixed [OF assms(1), of oper]
    by (simp add: entry_fixed_clock [of T F H now data, symmetric] oper)
qed

section \<open>What a node does on its own\<close>

definition clustered :: "'m CmdDispatcher \<Rightarrow> bool" where
  "clustered c \<longleftrightarrow> cc_Enabled (cf_Cluster (rm_cfg (cd_resMgr c)))"

text \<open>All of \<open>disp_run\<close> but the entries and snapshots that raft brings.\<close>

inductive node_step :: "'m swiss_ops \<Rightarrow> 'm CmdDispatcher \<Rightarrow> 'm CmdDispatcher \<Rightarrow> bool" for M where
  command: "w_M w = M \<Longrightarrow> CmdDispatcher_Process w header body c = Inr (r, c') \<Longrightarrow> node_step M c c'"
| forwarded_allow: "w_M w = M \<Longrightarrow> AllowPbCmd w allow c = Inr (r, c') \<Longrightarrow> node_step M c c'"
| forwarded_reg: "w_M w = M \<Longrightarrow> RegisterResourcePbCmd w reg c = Inr (r, c') \<Longrightarrow> node_step M c c'"
| remove: "rm_RemoveResource M T eid now name (cd_resMgr c) = Inr (r, rm) \<Longrightarrow> node_step M c (c\<lparr>cd_resMgr := rm\<rparr>)"
| retarget: "rm_UpdateResourceNodeId M T eid now name i (cd_resMgr c) = Inr (r, rm) \<Longrightarrow> node_step M c (c\<lparr>cd_resMgr := rm\<rparr>)"
| move: "rm_moveNodeResources M T eids now upd i (cd_resMgr c) = Inr (bufs, rm) \<Longrightarrow> node_step M c (c\<lparr>cd_resMgr := rm\<rparr>)"
| ready: "rm_Ready (cd_resMgr c) = Inr rm \<Longrightarrow> node_step M c (c\<lparr>cd_resMgr := rm\<rparr>)"
| stop: "node_step M c (c\<lparr>cd_resMgr := rm_Stop (cd_resMgr c)\<rparr>)"
| probe: "node_step M c (c\<lparr>cd_resMgr := (cd_resMgr c)\<lparr>rm_nodeProber := np\<rparr>\<rparr>)"

text \<open>In a cluster such a step changes nothing the log decides.\<close>

definition same_fixed :: "'m swiss_ops \<Rightarrow> 'm ResourceManager \<Rightarrow> 'm ResourceManager \<Rightarrow> bool" where
  "same_fixed M rm rm' \<longleftrightarrow> rm_wf M rm' \<and> rm_cfg rm' = rm_cfg rm \<and> fixed_view M rm' = fixed_view M rm"

lemma same_fixed_refl [simp]: "rm_wf M rm \<Longrightarrow> same_fixed M rm rm"
  by (simp add: same_fixed_def)

lemma same_fixed_prober [simp]:
  "rm_wf M rm \<Longrightarrow> same_fixed M rm (rm\<lparr>rm_nodeProber := np\<rparr>)"
  "rm_wf M rm \<Longrightarrow> same_fixed M rm (rm\<lparr>rm_nodeProber := np, rm_ready := b\<rparr>)"
  "rm_wf M rm \<Longrightarrow> same_fixed M rm (rm\<lparr>rm_ready := b\<rparr>)"
  by (simp_all add: same_fixed_def fixed_view_def [abs_def])

lemma PutResource_same:
  assumes "rm_wf M rm" "cc_Enabled (cf_Cluster (rm_cfg rm))" "rm_PutResource M T eid now name l rm = Inr (r, rm')"
  shows "same_fixed M rm rm'"
proof -
  have "rm' = snd (rm_new (newResource now (Prober_GetLightestNodeID (rm_nodeProber rm)) l) rm)"
    using assms(2,3) by (auto simp: rm_PutResource_def dest: put_replicated_parts)
  then show ?thesis
    using rm_new_law(1,2) [OF assms(1)] by (simp add: same_fixed_def fixed_view_def [abs_def]) (simp add: rm_new_def)
qed

lemma AllowPbCmd_charged:
  assumes "AllowPbCmd w cmd c = Inr (r, c')"
  shows "c' = c \<or> (\<exists>a l n. sw_Get (w_M w) (rm_store (cd_resMgr c)) (ac_Resource cmd) = Some a \<and>
    res_Limiter (rm_res (cd_resMgr c) a) = Some l \<and>
    c' = c\<lparr>cd_resMgr := rm_write a ((rm_res (cd_resMgr c) a)\<lparr>res_Limiter := Some (snd (Limiter_Allow (w_now w) n l))\<rparr>) (cd_resMgr c)\<rparr>)"
  using assms
  by (auto simp: AllowPbCmd_def rm_GetResource_def Let_def bindR_Inr_iff split_beta
      split: if_split_asm option.split_asm sum.split_asm)

lemma AllowPbCmd_same:
  assumes "rm_wf (w_M w) (cd_resMgr c)" "AllowPbCmd w cmd c = Inr (r, c')"
  shows "same_fixed (w_M w) (cd_resMgr c) (cd_resMgr c')"
  using AllowPbCmd_charged [OF assms(2)]
proof (elim disjE exE conjE)
  fix a l n
  let ?rm = "cd_resMgr c" and ?name = "ac_Resource cmd"
  let ?res = "(rm_res ?rm a)\<lparr>res_Limiter := Some (snd (Limiter_Allow (w_now w) n l))\<rparr>"
  assume a: "sw_Get (w_M w) (rm_store ?rm) ?name = Some a" "res_Limiter (rm_res ?rm a) = Some l"
    "c' = c\<lparr>cd_resMgr := rm_write a ?res ?rm\<rparr>"
  have "rm_view (w_M w) ?rm ?name = Some (rm_res ?rm a)" by (rule rm_view_Some [OF assms(1) a(1)])
  then have "fixed_view (w_M w) (rm_write a ?res ?rm) = fixed_view (w_M w) ?rm"
    using rm_write_law(2) [OF assms(1) a(1), of ?res] res_fixed_charged [OF a(2)] by (auto simp: fixed_view_def fun_eq_iff)
  then show ?thesis
    using rm_write_law(1) [OF assms(1) a(1), of ?res] by (simp add: a(3) same_fixed_def) (simp add: rm_write_def)
qed (use assms(1) in simp)

lemma RegisterResourcePbCmd_same:
  "rm_wf (w_M w) (cd_resMgr c) \<Longrightarrow> clustered c \<Longrightarrow> RegisterResourcePbCmd w cmd c = Inr (r, c') \<Longrightarrow>
    same_fixed (w_M w) (cd_resMgr c) (cd_resMgr c')"
  using RegisterResourcePbCmd_cases [of w cmd c r c'] by (auto simp: clustered_def dest: PutResource_same)

lemma Process_same:
  assumes "rm_wf (w_M w) (cd_resMgr c)" "clustered c" "CmdDispatcher_Process w header body c = Inr (r, c')"
  shows "same_fixed (w_M w) (cd_resMgr c) (cd_resMgr c')"
proof (cases header)
  case None
  then show ?thesis using assms(3) by simp
next
  case (Some h)
  have allow: "same_fixed (w_M w) (cd_resMgr c) (cd_resMgr c')" if "CmdDispatcher_Allow w body c = Inr (r, c')" for r c'
    using that assms(1)
    by (auto simp: CmdDispatcher_Allow_def with_body_def as_msg_def handleR_Inr_iff bindR_Inr_iff dest: AllowPbCmd_same)
  have reg: "same_fixed (w_M w) (cd_resMgr c) (cd_resMgr c')" if "CmdDispatcher_RegisterResource w body c = Inr (r, c')" for r c'
    using that assms(1,2)
    by (auto simp: CmdDispatcher_RegisterResource_def with_body_def as_msg_def handleR_Inr_iff bindR_Inr_iff
        dest: RegisterResourcePbCmd_same)
  have get: "same_fixed (w_M w) (cd_resMgr c) (cd_resMgr c')" if "CmdDispatcher_GetResource w body c = Inr (r, c')" for r c'
    using that assms(1)
    by (auto simp: CmdDispatcher_GetResource_def GetResourcePbCmd_def with_body_def as_msg_def handleR_Inr_iff
        bindR_Inr_iff split: option.split_asm)
  have meow: "same_fixed (w_M w) (cd_resMgr c) (cd_resMgr c')" if "CmdDispatcher_Meow body c = Inr (r, c')" for r c'
    using that assms(1)
    by (auto simp: CmdDispatcher_Meow_def Let_def bindR_Inr_iff dest!: meow_nodes_parts split: if_split_asm)
  show ?thesis using assms(1,3) allow reg get meow
    by (auto simp: Some CmdDispatcher_cmds_def split: option.split_asm if_split_asm)
qed

lemma node_step_same:
  assumes "node_step M c c'" "rm_wf M (cd_resMgr c)" "clustered c"
  shows "same_fixed M (cd_resMgr c) (cd_resMgr c')"
  using assms
proof cases
  case (move T eids now upd i bufs rm)
  then show ?thesis using assms(2)
    by (clarsimp simp: rm_moveNodeResources_def bindR_Inr_iff)
      (clarsimp simp: Let_def bindR_Inr_iff split: option.split_asm)
next
  case (ready rm)
  then show ?thesis using assms(2) by (auto simp: rm_Ready_def bindR_Inr_iff)
next
  case stop
  then show ?thesis using assms(2) by (simp add: rm_Stop_def)
qed (use assms(2,3) in \<open>auto simp: clustered_def rm_RemoveResource_def rm_UpdateResourceNodeId_def handleR_Inr_iff bindR_Inr_iff
    dest: Process_same AllowPbCmd_same RegisterResourcePbCmd_same\<close>)

section \<open>The cluster\<close>

text \<open>
  The committed entries, the node's dispatchers, how many entries each node's state stands for, and the snapshots
  taken, each with the number of entries it stands for.  \<open>rp_pure\<close> is no state of the program: it tells the nodes
  whose resources come from the log alone from those on which a snapshot was ever installed over other resources, which
  \<^verbatim>\<open>Restore\<close> does not clear, and goes with the snapshots they take.
\<close>

record 'm replicas =
  rp_log :: "byte list list"
  rp_node :: "nat \<Rightarrow> 'm CmdDispatcher"
  rp_applied :: "nat \<Rightarrow> nat"
  rp_pure :: "nat \<Rightarrow> bool"
  rp_snaps :: "(nat \<times> bool \<times> byte list) list"

definition new_node :: "'m swiss_ops \<Rightarrow> 'm CmdDispatcher \<Rightarrow> bool" where
  "new_node M c \<longleftrightarrow> (\<exists>now cfg np. c = NewCmdDispatcher now cfg (NewResourceManager M cfg np) \<and> cc_Enabled (cf_Cluster cfg))"

definition snapshot_fits :: "'m swiss_ops \<Rightarrow> ts_codec \<Rightarrow> (string \<Rightarrow> byte list) \<Rightarrow> 'm ResourceManager \<Rightarrow> bool" where
  "snapshot_fits M T eids rm \<longleftrightarrow>
     list_all (\<lambda>(name, res). res_sendable res) (rm_items M rm) \<and> length (enc_EntrySnapshot T (rm_snapshot M eids rm)) < 2 ^ 63"

definition rp_rm :: "'m replicas \<Rightarrow> nat \<Rightarrow> 'm ResourceManager" where
  "rp_rm S i = cd_resMgr (rp_node S i)"

inductive replica_run :: "'m swiss_ops \<Rightarrow> ts_codec \<Rightarrow> uuid_FromBytes \<Rightarrow> duration \<Rightarrow> 'm replicas \<Rightarrow> bool" for M T F H where
  init: "(\<And>i. new_node M (node i)) \<Longrightarrow>
    replica_run M T F H \<lparr>rp_log = [], rp_node = node, rp_applied = \<lambda>_. 0, rp_pure = \<lambda>_. True, rp_snaps = []\<rparr>"
| serve: "replica_run M T F H S \<Longrightarrow> node_step M (rp_node S i) c \<Longrightarrow> replica_run M T F H (S\<lparr>rp_node := (rp_node S)(i := c)\<rparr>)"
| commit: "replica_run M T F H S \<Longrightarrow> replica_run M T F H (S\<lparr>rp_log := rp_log S @ [data]\<rparr>)"
| deliver: "replica_run M T F H S \<Longrightarrow> rp_applied S i < length (rp_log S) \<Longrightarrow>
    rm_Apply M T F H now (rp_log S ! rp_applied S i) (rp_rm S i) = Inr rm \<Longrightarrow>
    replica_run M T F H (S\<lparr>rp_node := (rp_node S)(i := (rp_node S i)\<lparr>cd_resMgr := rm\<rparr>),
      rp_applied := (rp_applied S)(i := Suc (rp_applied S i))\<rparr>)"
| restart: "replica_run M T F H S \<Longrightarrow> new_node M c \<Longrightarrow>
    replica_run M T F H (S\<lparr>rp_node := (rp_node S)(i := c), rp_applied := (rp_applied S)(i := 0), rp_pure := (rp_pure S)(i := True)\<rparr>)"
| snapshot: "replica_run M T F H S \<Longrightarrow> snapshot_fits M T eids (rp_rm S i) \<Longrightarrow> rm_Snapshot M T eids now (rp_rm S i) = Inr buf \<Longrightarrow>
    replica_run M T F H (S\<lparr>rp_snaps := (rp_applied S i, rp_pure S i, buf) # rp_snaps S\<rparr>)"
| install: "replica_run M T F H S \<Longrightarrow> (k, pure, buf) \<in> set (rp_snaps S) \<Longrightarrow> rm_Restore M T H now buf (rp_rm S j) = Inr (e, rm) \<Longrightarrow>
    replica_run M T F H (S\<lparr>rp_node := (rp_node S)(j := (rp_node S j)\<lparr>cd_resMgr := rm\<rparr>),
      rp_applied := (rp_applied S)(j := k), rp_pure := (rp_pure S)(j := pure \<and> rm_items M (rp_rm S j) = [])\<rparr>)"

section \<open>The invariant\<close>

text \<open>What the log says is on the node as the log says it; with nothing besides, where the node's state is from the log alone.\<close>

definition log_holds :: "bool \<Rightarrow> (string \<Rightarrow> Resource option) \<Rightarrow> (string \<Rightarrow> Resource option) \<Rightarrow> bool" where
  "log_holds pure v w \<longleftrightarrow> v \<subseteq>\<^sub>m w \<and> (pure \<longrightarrow> w = v)"

lemma log_holds_refl [simp]: "log_holds pure v v"
  by (simp add: log_holds_def)

lemma spec_op_mono: "v \<subseteq>\<^sub>m w \<Longrightarrow> spec_op oper v \<subseteq>\<^sub>m spec_op oper w"
proof (cases oper)
  case (OpRetarget name dst)
  assume le: "v \<subseteq>\<^sub>m w"
  then show ?thesis using OpRetarget by (cases "v name") (auto simp: map_le_def dom_def split: option.split)
qed (auto simp: map_le_def)

lemma log_holds_step: "log_holds pure v w \<Longrightarrow> log_holds pure (opt_step spec_op oper v) (opt_step spec_op oper w)"
  by (cases oper) (auto simp: log_holds_def opt_step_def spec_op_mono)

definition node_ok :: "'m swiss_ops \<Rightarrow> ts_codec \<Rightarrow> uuid_FromBytes \<Rightarrow> duration \<Rightarrow> byte list list \<Rightarrow> nat \<Rightarrow> bool \<Rightarrow> 'm CmdDispatcher \<Rightarrow> bool" where
  "node_ok M T F H entries k pure c \<longleftrightarrow> rm_wf M (cd_resMgr c) \<and> clustered c \<and> k \<le> length entries \<and>
     (\<exists>v. log_store T F H (take k entries) Map.empty = Inr v \<and> log_holds pure v (fixed_view M (cd_resMgr c)))"

text \<open>A snapshot's bytes were written by a node in such a state.\<close>

definition snap_ok :: "'m swiss_ops \<Rightarrow> ts_codec \<Rightarrow> uuid_FromBytes \<Rightarrow> duration \<Rightarrow> byte list list \<Rightarrow> nat \<times> bool \<times> byte list \<Rightarrow> bool" where
  "snap_ok M T F H entries s \<longleftrightarrow> (\<exists>c eids now. node_ok M T F H entries (fst s) (fst (snd s)) c \<and>
     snapshot_fits M T eids (cd_resMgr c) \<and> rm_Snapshot M T eids now (cd_resMgr c) = Inr (snd (snd s)))"

lemma node_ok_new: "swiss_ok M \<Longrightarrow> new_node M c \<Longrightarrow> node_ok M T F H entries 0 pure c"
  by (auto simp: node_ok_def new_node_def NewCmdDispatcher_def clustered_def rm_wf_new rm_view_new fixed_view_def [abs_def])
    (simp add: NewResourceManager_def)

lemma node_ok_step:
  assumes "node_ok M T F H entries k pure c" "node_step M c c'"
  shows "node_ok M T F H entries k pure c'"
proof -
  have "same_fixed M (cd_resMgr c) (cd_resMgr c')" using node_step_same [OF assms(2)] assms(1) by (simp add: node_ok_def)
  then show ?thesis using assms(1) by (simp add: node_ok_def same_fixed_def clustered_def)
qed

lemma node_ok_commit: "node_ok M T F H entries k pure c \<Longrightarrow> node_ok M T F H (entries @ [data]) k pure c"
  by (simp add: node_ok_def)

lemma snap_ok_commit: "snap_ok M T F H entries s \<Longrightarrow> snap_ok M T F H (entries @ [data]) s"
  unfolding snap_ok_def using node_ok_commit by blast

lemma store_cfg:
  "rm_cfg (rm_putResource M name res rm) = rm_cfg rm" "rm_cfg (rm_removeResource M name rm) = rm_cfg rm"
  "rm_cfg (rm_updateResourceNodeId M name dst rm) = rm_cfg rm"
  by (simp_all add: rm_putResource_def rm_removeResource_def rm_updateResourceNodeId_def rm_new_def rm_write_def Let_def
      split: option.split)

lemma Apply_cfg: "rm_Apply M T F H now data rm = Inr rm' \<Longrightarrow> rm_cfg rm' = rm_cfg rm"
proof -
  assume "rm_Apply M T F H now data rm = Inr rm'"
  then obtain oper where "rm' = opt_step (rm_step M) oper rm" by (auto simp: Apply_op bindR_Inr_iff)
  moreover have "rm_cfg (rm_step M x rm) = rm_cfg rm" for x by (cases x) (simp_all add: store_cfg)
  ultimately show ?thesis by (cases oper) (simp_all add: opt_step_def)
qed

lemma restore_loop_cfg: "restore_loop M H now es rm = Inr (e, rm') \<Longrightarrow> rm_cfg rm' = rm_cfg rm"
  by (induction es arbitrary: rm) (auto simp: handleR_Inr_iff store_cfg split: option.splits)

lemma Restore_cfg: "rm_Restore M T H now buf rm = Inr (e, rm') \<Longrightarrow> rm_cfg rm' = rm_cfg rm"
  by (auto simp: rm_Restore_def handleR_Inr_iff dest: restore_loop_cfg)

lemma node_ok_deliver:
  assumes "node_ok M T F H entries k pure c" "k < length entries" "rm_Apply M T F H now (entries ! k) (cd_resMgr c) = Inr rm"
  shows "node_ok M T F H entries (Suc k) pure (c\<lparr>cd_resMgr := rm\<rparr>)"
proof -
  obtain v where c: "rm_wf M (cd_resMgr c)" "clustered c" "log_store T F H (take k entries) Map.empty = Inr v"
    "log_holds pure v (fixed_view M (cd_resMgr c))" using assms(1) by (auto simp: node_ok_def)
  obtain oper where oper: "entry_fixed T F H (entries ! k) = Inr oper" "fixed_view M rm = opt_step spec_op oper (fixed_view M (cd_resMgr c))"
    using Apply_fixed(2) [OF c(1) assms(3)] by (auto simp: bindR_Inr_iff)
  have "log_store T F H (take (Suc k) entries) Map.empty = Inr (opt_step spec_op oper v)"
    using c(3) oper(1) assms(2) by (simp add: take_Suc_conv_app_nth log_store_snoc)
  then show ?thesis
    using c(2) Apply_fixed(1) [OF c(1) assms(3)] assms(2) Apply_cfg [OF assms(3)] log_holds_step [OF c(4), of oper]
    by (simp add: node_ok_def clustered_def oper(2))
qed

lemma node_ok_install:
  assumes "ts_codec_ok T" "snap_ok M T F H entries (k, pure, buf)" "rm_wf M (cd_resMgr c0)" "clustered c0"
    and "rm_Restore M T H now buf (cd_resMgr c0) = Inr (e, rm)"
  shows "node_ok M T F H entries k (pure \<and> rm_items M (cd_resMgr c0) = []) (c0\<lparr>cd_resMgr := rm\<rparr>)"
proof -
  obtain c eids t where c: "node_ok M T F H entries k pure c" "snapshot_fits M T eids (cd_resMgr c)"
    "rm_Snapshot M T eids t (cd_resMgr c) = Inr buf" using assms(2) by (auto simp: snap_ok_def)
  let ?w = "fixed_view M (cd_resMgr c)" and ?u = "fixed_view M (cd_resMgr c0)"
  obtain v where v: "rm_wf M (cd_resMgr c)" "k \<le> length entries" "log_store T F H (take k entries) Map.empty = Inr v" "log_holds pure v ?w"
    using c(1) by (auto simp: node_ok_def)
  have fits: "\<forall>(name, res) \<in> set (rm_items M (cd_resMgr c)). res_sendable res"
    "length (enc_EntrySnapshot T (rm_snapshot M eids (cd_resMgr c))) < 2 ^ 63"
    using c(2) by (simp_all add: snapshot_fits_def list_all_iff)
  obtain rm' where rm': "rm_Restore M T H now buf (cd_resMgr c0) = Inr (None, rm')" "rm_wf M rm'"
    "rm_view M rm' = (\<lambda>n. case rm_view M (cd_resMgr c) n of None \<Rightarrow> rm_view M (cd_resMgr c0) n | Some res \<Rightarrow> Some (res_received H now res))"
    using Restore_Snapshot [OF assms(1) v(1) assms(3) fits, of t H now] c(3) by auto
  have rm: "rm = rm'" using assms(5) rm'(1) by simp
  have "res_fixed (res_received H now res) = res_fixed res" for res by (metis res_core_received res_fixed_core)
  then have view: "fixed_view M rm' = (\<lambda>n. case ?w n of None \<Rightarrow> ?u n | Some r \<Rightarrow> Some r)"
    by (simp add: fixed_view_def [abs_def] fun_eq_iff rm'(3) split: option.split)
  have "v \<subseteq>\<^sub>m fixed_view M rm'" using v(4) by (auto simp: log_holds_def map_le_def view dom_def split: option.split)
  moreover have "fixed_view M rm' = v" if "pure" "rm_items M (cd_resMgr c0) = []"
  proof -
    have "?u n = None" for n using rm_items(2) [OF assms(3)] that(2) by (simp add: fixed_view_def flip: rm_items(2) [OF assms(3)])
    then show ?thesis using v(4) that(1) by (simp add: log_holds_def view fun_eq_iff split: option.split)
  qed
  ultimately have "log_holds (pure \<and> rm_items M (cd_resMgr c0) = []) v (fixed_view M rm')" by (simp add: log_holds_def)
  moreover have "rm_cfg rm = rm_cfg (cd_resMgr c0)" by (rule Restore_cfg [OF assms(5)])
  ultimately show ?thesis using v(2,3) rm'(2) assms(4) by (simp add: rm node_ok_def clustered_def)
qed

lemma replica_run_ok:
  assumes "replica_run M T F H S" "swiss_ok M" "ts_codec_ok T"
  shows "(\<forall>i. node_ok M T F H (rp_log S) (rp_applied S i) (rp_pure S i) (rp_node S i)) \<and> list_all (snap_ok M T F H (rp_log S)) (rp_snaps S)"
  using assms(1)
proof (induction rule: replica_run.induct)
  case (init node)
  then show ?case using node_ok_new [OF assms(2)] by simp
next
  case (serve S j c)
  then show ?case using node_ok_step by fastforce
next
  case (commit S data)
  then show ?case by (auto simp: list_all_iff intro: node_ok_commit snap_ok_commit)
next
  case (deliver S j now rm)
  then show ?case using node_ok_deliver by (fastforce simp: rp_rm_def)
next
  case (restart S c j)
  then show ?case using node_ok_new [OF assms(2)] by simp
next
  case (snapshot S eids i now buf)
  then have "snap_ok M T F H (rp_log S) (rp_applied S i, rp_pure S i, buf)" by (auto simp: snap_ok_def rp_rm_def)
  then show ?case using snapshot.IH by simp
next
  case (install S k pure buf now j e rm)
  have "snap_ok M T F H (rp_log S) (k, pure, buf)" "rm_wf M (rp_rm S j)" "clustered (rp_node S j)"
    using install.IH install.hyps(2) by (auto simp: list_all_iff node_ok_def rp_rm_def)
  then have "node_ok M T F H (rp_log S) k (pure \<and> rm_items M (rp_rm S j) = []) ((rp_node S j)\<lparr>cd_resMgr := rm\<rparr>)"
    using node_ok_install [OF assms(3), of M F H "rp_log S" k pure buf "rp_node S j"] install.hyps(3) by (simp add: rp_rm_def)
  then show ?case using install.IH by simp
qed

text \<open>What follows for a node.\<close>

lemma replica_log:
  assumes "replica_run M T F H S" "swiss_ok M" "ts_codec_ok T"
  obtains v where "log_store T F H (take (rp_applied S i) (rp_log S)) Map.empty = Inr v" "log_holds (rp_pure S i) v (fixed_view M (rp_rm S i))"
  using replica_run_ok [OF assms] by (fastforce simp: node_ok_def rp_rm_def)

end
