(* ===== verification/Cluster.thy ===== *)
theory Cluster
  imports Cmd
begin

text \<open>
  The cluster server (\<^verbatim>\<open>internal/cluster\<close>): the gRPC service a node offers to its peers, and the
  start of a node and the loop that waits until it takes part in its cluster.  The raft library and gRPC are
  outside; \<open>se code text\<close> is gRPC's \<^verbatim>\<open>status.Error\<close>.  The manager, its prober and the dispatcher are
  shared by pointer with the API server: an operation that uses them takes and returns them.
\<close>

section \<open>The gRPC service\<close>

text \<open>\<^verbatim>\<open>resMgr\<close> and \<^verbatim>\<open>cmdDisp\<close> share one manager, the dispatcher's.\<close>

record 'm gRPCServer =
  gs_cfg :: Config
  gs_metric :: Metrics
  gs_cmdDisp :: "'m CmdDispatcher"

definition newGRPCServer :: "Config \<Rightarrow> Metrics \<Rightarrow> 'm CmdDispatcher \<Rightarrow> 'm gRPCServer" where
  "newGRPCServer cfg mt disp = \<lparr>gs_cfg = cfg, gs_metric = mt, gs_cmdDisp = disp\<rparr>"

text \<open>A handler returns a response pointer and an error, of which either may be nil.\<close>

type_synonym ('a, 'e) reply = "'a option \<times> 'e option"

definition codes_InvalidArgument :: u32 where
  "codes_InvalidArgument = 3"

definition codes_NotFound :: u32 where
  "codes_NotFound = 5"

definition grpc_GetNodeInfo :: "(u32 \<Rightarrow> string \<Rightarrow> 'e option) \<Rightarrow> 'm gRPCServer \<Rightarrow> (NodeInfo, 'e) reply \<times> 'm gRPCServer" where
  "grpc_GetNodeInfo se gs =
     (let (r, rm) = rm_GetCurNodeInfo (cd_resMgr (gs_cmdDisp gs))
      in (case r of Inl err \<Rightarrow> (None, se codes_NotFound err) | Inr resp \<Rightarrow> (Some resp, None),
          gs\<lparr>gs_cmdDisp := (gs_cmdDisp gs)\<lparr>cd_resMgr := rm\<rparr>\<rparr>))"

definition grpc_GetAPICmdAvgRPS :: "instant \<Rightarrow> AvgRpsReq \<Rightarrow> 'm gRPCServer \<Rightarrow> (u64, 'e) reply" where
  "grpc_GetAPICmdAvgRPS now req gs =
     (Some (Metrics_GetAPICmdAvgRPS now (wrap64 (uint (av_LastSecs req) * time_Second)) (gs_metric gs)), None)"

definition grpc_RegisterResource :: "(u32 \<Rightarrow> string \<Rightarrow> 'e option) \<Rightarrow> 'm world \<Rightarrow> RegResCmd \<Rightarrow> 'm gRPCServer \<Rightarrow>
  ((RegResCmdResp, 'e) reply \<times> 'm gRPCServer) res" where
  "grpc_RegisterResource se w req gs =
     bindR (RegisterResourcePbCmd w req (gs_cmdDisp gs)) (\<lambda>(r, disp).
       let (resp, err) = (case r of Inl e \<Rightarrow> (None, Some e) | Inr resp \<Rightarrow> (resp, None))
       in Inr ((resp, CmdError_StatusErr se err), gs\<lparr>gs_cmdDisp := disp\<rparr>))"

definition grpc_Allow :: "(u32 \<Rightarrow> string \<Rightarrow> 'e option) \<Rightarrow> 'm world \<Rightarrow> AllowCmd \<Rightarrow> 'm gRPCServer \<Rightarrow>
  ((AllowCmdResp, 'e) reply \<times> 'm gRPCServer) res" where
  "grpc_Allow se w req gs =
     bindR (AllowPbCmd w req (gs_cmdDisp gs)) (\<lambda>(r, disp).
       let (resp, err) = (case r of Inl e \<Rightarrow> (None, Some e) | Inr resp \<Rightarrow> (Some resp, None))
       in Inr ((resp, CmdError_StatusErr se err), gs\<lparr>gs_cmdDisp := disp\<rparr>))"

section \<open>Entries applied\<close>

text \<open>
  The channel and the set by which the manager tells that an entry was applied.  The set is third-party
  (\<^verbatim>\<open>github.com/hashicorp/go-set\<close>): the operations called, with \<open>set_ok\<close> for what they promise of the
  members \<open>mem\<close>.
\<close>

record 'e set_ops =
  so_Insert :: "'e \<Rightarrow> byte list \<Rightarrow> 'e"
  so_Remove :: "'e \<Rightarrow> byte list \<Rightarrow> bool \<times> 'e"

definition set_ok :: "'e set_ops \<Rightarrow> ('e \<Rightarrow> byte list set) \<Rightarrow> bool" where
  "set_ok S mem \<longleftrightarrow>
     (\<forall>s x. mem (so_Insert S s x) = insert x (mem s)) \<and>
     (\<forall>s x. (fst (so_Remove S s x) \<longleftrightarrow> x \<in> mem s) \<and> mem (snd (so_Remove S s x)) = mem s - {x})"

record 'e entry_apply =
  ea_chan :: "byte list list"
  ea_set :: 'e

definition rm_InsertEntryApplySet :: "'e set_ops \<Rightarrow> byte list \<Rightarrow> 'e entry_apply \<Rightarrow> 'e entry_apply" where
  "rm_InsertEntryApplySet S entryID ea = ea\<lparr>ea_set := so_Insert S (ea_set ea) entryID\<rparr>"

definition rm_RemoveFromEntryApplySet :: "'e set_ops \<Rightarrow> byte list \<Rightarrow> 'e entry_apply \<Rightarrow> bool \<times> 'e entry_apply" where
  "rm_RemoveFromEntryApplySet S entryID ea =
     (let (ok, s) = so_Remove S (ea_set ea) entryID in (ok, ea\<lparr>ea_set := s\<rparr>))"

text \<open>
  One turn of a \<^verbatim>\<open>select\<close>: what others did to the channel and the set before it, whether the deadline
  has passed, whether that branch is taken when an identifier is there too, and whether the deadline has passed
  by the check that follows a receive.
\<close>

record 'e select_turn =
  tn_others :: "'e entry_apply \<Rightarrow> 'e entry_apply"
  tn_done :: bool
  tn_pick_done :: bool
  tn_late :: bool

fun IsEntryApplied_loop :: "'e set_ops \<Rightarrow> byte list \<Rightarrow> 'e select_turn list \<Rightarrow> 'e entry_apply \<Rightarrow> (bool \<times> 'e entry_apply) res" where
  "IsEntryApplied_loop S reqEntryID [] ea = Inl OutOfFuel"
| "IsEntryApplied_loop S reqEntryID (t # ts) ea =
     (let ea = tn_others t ea
      in case ea_chan ea of
           entryID # ch \<Rightarrow>
             if tn_done t \<and> tn_pick_done t then Inr (False, ea)
             else
               let ea = ea\<lparr>ea_chan := ch\<rparr>
               in if reqEntryID = entryID then Inr (True, ea)
                  else
                    let ea = rm_InsertEntryApplySet S entryID ea
                    in if tn_done t \<or> tn_late t then Inr (False, ea) else IsEntryApplied_loop S reqEntryID ts ea
         | [] \<Rightarrow>
             if tn_done t then Inr (False, ea)
             else
               let (ok, ea) = rm_RemoveFromEntryApplySet S reqEntryID ea
               in if ok then Inr (True, ea) else IsEntryApplied_loop S reqEntryID ts ea)"

definition grpc_IsEntryApplied :: "(u32 \<Rightarrow> string \<Rightarrow> 'x option) \<Rightarrow> uuid_FromBytes \<Rightarrow> 'e set_ops \<Rightarrow> byte list \<Rightarrow> 'e select_turn list \<Rightarrow>
  'e entry_apply \<Rightarrow> ((bool, 'x) reply \<times> 'e entry_apply) res" where
  "grpc_IsEntryApplied se FromBytes S reqId ts ea =
     (case FromBytes reqId of
        Inl err \<Rightarrow> Inr ((Some False, se codes_InvalidArgument err), ea)
      | Inr reqEntryID \<Rightarrow> bindR (IsEntryApplied_loop S reqEntryID ts ea) (\<lambda>(v, ea). Inr ((Some v, None), ea)))"

text \<open>The manager's own wait takes identifiers off the channel and drops those it does not look for.\<close>

fun waitEntryApplied :: "byte list \<Rightarrow> 'e select_turn list \<Rightarrow> 'e entry_apply \<Rightarrow> 'e entry_apply res" where
  "waitEntryApplied entryID [] ea = Inl OutOfFuel"
| "waitEntryApplied entryID (t # ts) ea =
     (let ea = tn_others t ea
      in case ea_chan ea of
           i # ch \<Rightarrow>
             if tn_done t \<and> tn_pick_done t then Inr ea
             else let ea = ea\<lparr>ea_chan := ch\<rparr> in if i = entryID then Inr ea else waitEntryApplied entryID ts ea
         | [] \<Rightarrow> if tn_done t then Inr ea else waitEntryApplied entryID ts ea)"

section \<open>The cluster server\<close>

record raw_member =
  rw_ID :: u64
  rw_Address :: string

text \<open>A server whose cluster is disabled has a nil node, manager and gRPC server.\<close>

record ClusterServer =
  ct_cfg :: Config
  ct_node :: "raft_node option"
  ct_members :: "raw_member list"

definition raw_member_of :: "(string \<Rightarrow> byte list) \<Rightarrow> URL \<Rightarrow> raw_member res" where
  "raw_member_of sha u = bindR (URL_NodeID sha u) (\<lambda>(i, _). Inr \<lparr>rw_ID = ucast i, rw_Address = u_Host u\<rparr>)"

fun peer_members :: "(string \<Rightarrow> byte list) \<Rightarrow> URL list \<Rightarrow> raw_member list \<Rightarrow> raw_member list res" where
  "peer_members sha [] members = Inr members"
| "peer_members sha (peer # us) members =
     bindR (raw_member_of sha peer) (\<lambda>m. peer_members sha us (members @ [m]))"

text \<open>\<open>NewNode\<close> stands for the raft library's constructor; the new node is given to the manager's prober.\<close>

definition Cluster_NewServer :: "(string \<Rightarrow> byte list) \<Rightarrow> raft_node \<Rightarrow> Config \<Rightarrow> 'm ResourceManager \<Rightarrow>
  (ClusterServer \<times> 'm ResourceManager) res" where
  "Cluster_NewServer sha newNode cfg rm =
     (if \<not> cc_Enabled (cf_Cluster cfg) then Inr (\<lparr>ct_cfg = cfg, ct_node = None, ct_members = []\<rparr>, rm)
      else
        bindR (raw_member_of sha (cc_Url (cf_Cluster cfg))) (\<lambda>m.
        bindR (peer_members sha (cc_PeerUrls (cf_Cluster cfg)) [m]) (\<lambda>members.
          Inr (\<lparr>ct_cfg = cfg, ct_node = Some newNode, ct_members = members\<rparr>,
               rm\<lparr>rm_nodeProber := Prober_SetRaftNode (Some newNode) (rm_nodeProber rm)\<rparr>))))"

text \<open>The goroutines of the gRPC server and the raft node only call their libraries.\<close>

definition Cluster_StartAsync :: "ClusterServer \<Rightarrow> 'm ResourceManager \<Rightarrow> 'm ResourceManager res" where
  "Cluster_StartAsync ct rm = (if \<not> cc_Enabled (cf_Cluster (ct_cfg ct)) then Inr rm else rm_StartAsync rm)"

definition Cluster_Stop :: "(raft_node \<Rightarrow> string option) \<Rightarrow> ClusterServer \<Rightarrow> 'm ResourceManager \<Rightarrow>
  (string option \<times> 'm ResourceManager) res" where
  "Cluster_Stop shutdown ct rm =
     (case ct_node ct of None \<Rightarrow> Inl nil_deref | Some node \<Rightarrow> Inr (shutdown node, rm_Stop rm))"

section \<open>Waiting for the cluster\<close>

text \<open>
  What surrounds one turn of the loop: the raft node's answers, the connection to a host with the service
  behind it, which may be this node's own and work on the same prober, and what others have done to the prober
  since the last turn.
\<close>

record cluster_env =
  ce_node :: raft_node
  ce_Whoami :: u64
  ce_Dial :: "string \<Rightarrow> string + (NodeProber \<Rightarrow> (string + NodeInfo) \<times> NodeProber)"
  ce_others :: "NodeProber \<Rightarrow> NodeProber"

text \<open>The loop over the members, until one is not active.\<close>

fun check_peers :: "cluster_env \<Rightarrow> raft_member option list \<Rightarrow> bool \<Rightarrow> NodeProber \<Rightarrow> ((bool \<times> bool) \<times> NodeProber) res" where
  "check_peers E [] hasLeader np = Inr ((True, hasLeader), np)"
| "check_peers E (None # ms) hasLeader np = Inl nil_deref"
| "check_peers E (Some m # ms) hasLeader np =
     (let hasLeader = (hasLeader \<or> mb_ID m = rn_Leader (ce_node E))
      in if ce_Whoami E = mb_ID m then check_peers E ms hasLeader np
         else if \<not> mb_IsActive m then Inr ((False, hasLeader), np)
         else (case Prober_GetPeerNodeInfo (ucast (mb_ID m)) np of
                 (Inl err, np) \<Rightarrow> Inr ((False, hasLeader), np)
               | (Inr nodeInfo, np) \<Rightarrow>
                   if \<not> ni_Active nodeInfo then Inr ((False, hasLeader), np) else check_peers E ms hasLeader np))"

text \<open>One turn: whether the loop ends there.\<close>

definition ready_turn :: "cluster_env \<Rightarrow> bool \<Rightarrow> ClusterServer \<Rightarrow> NodeProber \<Rightarrow> (bool \<times> NodeProber) res" where
  "ready_turn E checkAllMember ct np =
     (let memberCount = length (cc_PeerUrls (cf_Cluster (ct_cfg ct))) + 1; members = rn_Members (ce_node E)
      in if length members < memberCount then Inr (False, np)
         else if \<not> checkAllMember then
           (case ce_Dial E (sprintf ''dns:///%s'' [FStr (u_Host (cc_Url (cf_Cluster (ct_cfg ct))))]) of
              Inl err \<Rightarrow> Inr (False, np)
            | Inr GetNodeInfo \<Rightarrow>
                (case GetNodeInfo np of
                   (Inl err, np) \<Rightarrow> Inr (False, np)
                 | (Inr nodeInfo, np) \<Rightarrow> Inr (ni_Active nodeInfo, np)))
         else bindR (check_peers E members False np) (\<lambda>((allActive, hasLeader), np). Inr (allActive \<and> hasLeader, np)))"

text \<open>The turns \<open>i, i + 1, \<dots>\<close> of the loop, at most \<open>n\<close> of them: whether it has ended.\<close>

fun checkNodeReady :: "nat \<Rightarrow> nat \<Rightarrow> (nat \<Rightarrow> cluster_env) \<Rightarrow> bool \<Rightarrow> ClusterServer \<Rightarrow> NodeProber \<Rightarrow> (bool \<times> NodeProber) res" where
  "checkNodeReady 0 i E checkAllMember ct np = Inr (False, np)"
| "checkNodeReady (Suc n) i E checkAllMember ct np =
     bindR (ready_turn (E i) checkAllMember ct (ce_others (E i) np)) (\<lambda>(ready, np).
       if ready then Inr (True, np) else checkNodeReady n (Suc i) E checkAllMember ct np)"

text \<open>\<open>n\<close> turns fit before the deadline; the manager is made ready before \<^verbatim>\<open>waitReady\<close> returns.\<close>

definition waitReady :: "nat \<Rightarrow> (nat \<Rightarrow> cluster_env) \<Rightarrow> bool \<Rightarrow> ClusterServer \<Rightarrow> 'm ResourceManager \<Rightarrow> (bool \<times> 'm ResourceManager) res" where
  "waitReady n E checkAllMember ct rm =
     (case ct_node ct of
        None \<Rightarrow> Inl nil_deref
      | Some _ \<Rightarrow>
          bindR (checkNodeReady n 0 E checkAllMember ct (rm_nodeProber rm)) (\<lambda>(ready, np).
            let rm = rm\<lparr>rm_nodeProber := np\<rparr>
            in if ready then bindR (rm_Ready rm) (\<lambda>rm. Inr (True, rm)) else Inr (False, rm)))"

definition Cluster_WaitReady :: "nat \<Rightarrow> (nat \<Rightarrow> cluster_env) \<Rightarrow> ClusterServer \<Rightarrow> 'm ResourceManager \<Rightarrow> (bool \<times> 'm ResourceManager) res" where
  "Cluster_WaitReady n E ct rm =
     (if \<not> cc_Enabled (cf_Cluster (ct_cfg ct)) then Inr (True, rm) else waitReady n E False ct rm)"

definition Cluster_WaitAllNodeReady :: "nat \<Rightarrow> (nat \<Rightarrow> cluster_env) \<Rightarrow> ClusterServer \<Rightarrow> 'm ResourceManager \<Rightarrow> (bool \<times> 'm ResourceManager) res" where
  "Cluster_WaitAllNodeReady n E ct rm =
     (if \<not> cc_Enabled (cf_Cluster (ct_cfg ct)) then Inr (True, rm) else waitReady n E True ct rm)"

end
