(* ===== verification/NodeProperties.thy ===== *)
theory NodeProperties
  imports StoreProperties
begin

text \<open>
  What a node knows of its load and of its peers: the request counter loses nothing, the rate history stays
  bounded, the node loads decide the lightest and heaviest node, and at most one node takes itself for the
  leader.  Two properties state where the prober fails: on a history that is too old, and on a new member.
\<close>

section \<open>Request rates\<close>

text \<open>
  The history is bounded.  Whatever rates are pushed, when consecutive pushes are at least one interval apart
  (the ticker's period) a history never holds more than one entry for each interval of the maximal duration, plus one.
\<close>

theorem history_bounded:
  assumes "0 < P" "0 \<le> H" "H < max_int64" "spaced P (map (\<lambda>(rps, t). \<lparr>he_rps = rps, he_t = t\<rparr>) ps)"
  shows "length (fold (\<lambda>(rps, t) h. rpsHistory_push H rps t h) ps []) \<le> nat (H div P) + 1"
  by (rule conjunct1 [OF pushes_bounded [OF assms]])

theorem history_bounded_witness:
  "length (fold (\<lambda>(rps, t) h. rpsHistory_push (2 * 10 ^ 9) rps t h)
     [(1, 0), (2, 10 ^ 9), (3, 2 * 10 ^ 9), (4, 3 * 10 ^ 9), (5, 4 * 10 ^ 9)] []) \<le> 3"
  using history_bounded [of "10 ^ 9" "2 * 10 ^ 9" "[(1, 0), (2, 10 ^ 9), (3, 2 * 10 ^ 9), (4, 3 * 10 ^ 9), (5, 4 * 10 ^ 9)]"]
  by (simp add: max_int64_def)

text \<open>
  The reported rate is the request count.  After any additions to an empty counter, \<^verbatim>\<open>Calc\<close> for an
  interval of one second returns, as a float without any rounding error, the number of requests added (modulo
  \<open>2 ^ 32\<close>, the counter's width), appends it to the history and empties the counter.
\<close>

theorem Calc_reports_sum:
  assumes "rps_reqCount r = 0" "RPS_Calc H now (10 ^ 9) (fold RPS_Add ns r) = (rps, r')"
  shows "f64_finite rps \<and> f64_val rps = of_int (uint (sum_list ns)) \<and> rps_reqCount r' = 0 \<and>
    rps_hist r' = rpsHistory_pushNow H now rps (rps_hist r)"
proof -
  let ?n = "uint (sum_list ns)"
  have n: "\<bar>?n\<bar> < 2 ^ 53" using uint_bounded [of "sum_list ns"] by simp
  have rps: "rps = f64_div (f64_of_int ?n) (duration_Seconds (10 ^ 9))"
    using assms fold_RPS_Add [of ns r] by (auto simp: RPS_Calc_def Let_def)
  have "f64_val (duration_Seconds (10 ^ 9)) \<noteq> 0" using one_second(2) by simp
  from f64_div_finite [OF f64_of_int_exact(1) [OF n] one_second(1) this]
  have "rps = f64_round (f64_neg (f64_of_int ?n) \<noteq> f64_neg (duration_Seconds (10 ^ 9))) (of_int ?n)"
    by (simp only: rps f64_of_int_exact(2) [OF n] one_second(2) div_by_1)
  then show ?thesis
    using round_representable [OF representable_int [OF n]] assms fold_RPS_Add [of ns r] by (auto simp: RPS_Calc_def Let_def)
qed

theorem Calc_reports_sum_witness:
  "f64_val (fst (RPS_Calc 5 7 (10 ^ 9) (fold RPS_Add [1, 2, 39] RPS_zero))) = 42"
  using Calc_reports_sum [of RPS_zero 5 7 "[1, 2, 39]"]
  by (cases "RPS_Calc 5 7 (10 ^ 9) (fold RPS_Add [1, 2, 39] RPS_zero)") (simp add: RPS_zero_def)

section \<open>Node loads\<close>

text \<open>
  C32 The lightest and the heaviest node.  For any loads without a NaN, however the unstable sort orders equal
  ones and whichever of them is drawn, the node chosen as lightest has a load no node is below and the one
  chosen as heaviest has a load no node is above.
\<close>

theorem loads_decide_light_and_heavy:
  assumes "sort_ok srt" "\<And>n. 0 < n \<Longrightarrow> rnd n < n" "loads \<noteq> []" "\<forall>x \<in> set loads. \<not> f64_nan (nl_apiCmdAvgRPS x)"
  shows "\<exists>np' l h. nodeProber_calcNodeLoading srt rnd loads np = Inr np' \<and> l \<in> set loads \<and> h \<in> set loads \<and>
    np_lightNodeID np' = nl_nodeID l \<and> np_heavyNodeID np' = nl_nodeID h \<and>
    (\<forall>x \<in> set loads. f64_le (nl_apiCmdAvgRPS l) (nl_apiCmdAvgRPS x) \<and> f64_le (nl_apiCmdAvgRPS x) (nl_apiCmdAvgRPS h))"
  by (rule calc_light_heavy [OF assms])

text \<open>Insertion sort by any comparison, which satisfies what is asked of the sort.\<close>

fun insert_by :: "('a \<Rightarrow> 'a \<Rightarrow> int) \<Rightarrow> 'a \<Rightarrow> 'a list \<Rightarrow> 'a list" where
  "insert_by cmp x [] = [x]"
| "insert_by cmp x (y # ys) = (if cmp x y \<le> 0 then x # y # ys else y # insert_by cmp x ys)"

definition sort_by :: "('a \<Rightarrow> 'a \<Rightarrow> int) \<Rightarrow> 'a list \<Rightarrow> 'a list" where
  "sort_by cmp xs = foldr (insert_by cmp) xs []"

lemma insert_by_mset: "mset (insert_by cmp x ys) = add_mset x (mset ys)"
  by (induction ys) simp_all

lemma sort_by_mset: "mset (sort_by cmp xs) = mset xs"
  by (induction xs) (simp_all add: sort_by_def insert_by_mset)

lemma load_cmp_total:
  assumes "\<not> f64_nan (nl_apiCmdAvgRPS a)" "\<not> f64_nan (nl_apiCmdAvgRPS b)" "\<not> load_cmp a b \<le> 0"
  shows "load_cmp b a \<le> 0"
  using assms load_cmp_le by (auto simp: f64_le_def)

lemma load_cmp_trans:
  assumes "\<not> f64_nan (nl_apiCmdAvgRPS a)" "\<not> f64_nan (nl_apiCmdAvgRPS b)" "\<not> f64_nan (nl_apiCmdAvgRPS c)"
    and "load_cmp a b \<le> 0" "load_cmp b c \<le> 0"
  shows "load_cmp a c \<le> 0"
  using assms load_cmp_le by (auto simp: f64_le_def)

lemma insert_by_sorted:
  assumes "\<not> f64_nan (nl_apiCmdAvgRPS x)" "\<forall>y \<in> set ys. \<not> f64_nan (nl_apiCmdAvgRPS y)"
    and "sorted_wrt (\<lambda>a b. load_cmp a b \<le> 0) ys"
  shows "sorted_wrt (\<lambda>a b. load_cmp a b \<le> 0) (insert_by load_cmp x ys)"
  using assms(2,3)
proof (induction ys)
  case (Cons y ys)
  have set: "set (insert_by load_cmp x ys) = insert x (set ys)"
    using mset_eq_setD [OF insert_by_mset [of load_cmp x ys, unfolded mset.simps(2) [symmetric]]] by simp
  have nan: "\<not> f64_nan (nl_apiCmdAvgRPS y)" "\<forall>z \<in> set ys. \<not> f64_nan (nl_apiCmdAvgRPS z)" using Cons.prems(1) by simp_all
  have le: "\<forall>z \<in> set ys. load_cmp y z \<le> 0" "sorted_wrt (\<lambda>a b. load_cmp a b \<le> 0) ys" using Cons.prems(2) by simp_all
  show ?case
  proof (cases "load_cmp x y \<le> 0")
    case True
    then have "\<forall>z \<in> set ys. load_cmp x z \<le> 0" using load_cmp_trans [OF assms(1) nan(1)] nan(2) le(1) by blast
    then show ?thesis using True le by simp
  next
    case False
    then have "load_cmp y x \<le> 0" by (rule load_cmp_total [OF assms(1) nan(1)])
    then show ?thesis using False le Cons.IH [OF nan(2) le(2)] by (simp add: set)
  qed
qed simp

lemma sort_by_ok: "sort_ok sort_by"
proof -
  have "sorted_wrt (\<lambda>a b. load_cmp a b \<le> 0) (sort_by load_cmp xs)"
    if "\<forall>x \<in> set xs. \<not> f64_nan (nl_apiCmdAvgRPS x)" for xs
    using that
  proof (induction xs)
    case (Cons x xs)
    have "\<forall>y \<in> set (sort_by load_cmp xs). \<not> f64_nan (nl_apiCmdAvgRPS y)"
      using Cons.prems mset_eq_setD [OF sort_by_mset [of load_cmp xs]] by simp
    then show ?case using Cons insert_by_sorted [of x "sort_by load_cmp xs"] by (simp add: sort_by_def)
  qed (simp add: sort_by_def)
  then show ?thesis by (simp add: sort_ok_def sort_by_mset)
qed

definition sample_prober :: nodeProber where
  "sample_prober = (case sample_np of clusterProber np \<Rightarrow> np)"

theorem loads_decide_light_and_heavy_witness:
  "\<exists>np'. nodeProber_calcNodeLoading sort_by (\<lambda>n. 0)
     [\<lparr>nl_nodeID = 1, nl_apiCmdAvgRPS = 0x4024000000000000\<rparr>, \<lparr>nl_nodeID = 2, nl_apiCmdAvgRPS = 0x3FF0000000000000\<rparr>] sample_prober = Inr np' \<and>
     np_lightNodeID np' = 2 \<and> np_heavyNodeID np' = 1"
proof -
  let ?l = "[\<lparr>nl_nodeID = 1, nl_apiCmdAvgRPS = 0x4024000000000000\<rparr>, \<lparr>nl_nodeID = 2, nl_apiCmdAvgRPS = 0x3FF0000000000000\<rparr>] :: nodeLoad list"
  have key: "\<not> f64_nan 0x4024000000000000" "\<not> f64_nan 0x3FF0000000000000"
    "f64_key 0x4024000000000000 = 0x4024000000000000" "f64_key 0x3FF0000000000000 = 0x3FF0000000000000"
    by (simp_all add: f64_nan_def f64_mag_def f64_inf_mag_def f64_key_def f64_neg_def)
  then have "\<forall>x \<in> set ?l. \<not> f64_nan (nl_apiCmdAvgRPS x)" by simp
  from loads_decide_light_and_heavy [OF sort_by_ok _ _ this, of "\<lambda>n. 0" sample_prober] show ?thesis
    using key by (auto simp: f64_le_def)
qed

text \<open>
  A history that is too old stops the probe.  When every entry of a lone node's own history is older than the
  minute it is averaged over, the average is 0 divided by 0; a NaN equals nothing, itself included, so no node
  has the minimal load and \<^verbatim>\<open>rand.Intn(0)\<close> panics.
\<close>

theorem stale_history_panics:
  assumes "np_ready np" "pm_clients (np_peerClients np) = []" "sort_ok srt" "rps_hist (mt_apiCmd m) \<noteq> []"
    and "\<forall>e \<in> set (rps_hist (mt_apiCmd m)). he_t e < time_Add now (wrap64 (- avgRPSDuration))"
  shows "nodeProber_UpdateNodeLoading srt rnd now m np = Inl (Panic ''invalid argument to Intn'')"
proof -
  let ?avg = "Metrics_GetAPICmdAvgRPS now avgRPSDuration m"
  let ?x = "\<lparr>nl_nodeID = np_curNodeID np, nl_apiCmdAvgRPS = ?avg\<rparr>"
  have "avg_loop (time_Add now (wrap64 (- avgRPSDuration))) (rev (rps_hist (mt_apiCmd m))) 0 0 = (0, 0)"
    by (rule avg_loop_none) (use assms(5) in simp)
  then have "?avg = f64_div 0 (f64_of_int 0)"
    using assms(4) by (simp add: Metrics_GetAPICmdAvgRPS_def RPS_AvgRPS_def rpsHistory_avgRPS_def Let_def)
  then have nan: "\<not> f64_eq ?avg ?avg" using zero_div_zero by (simp add: f64_eq_def)
  have "mset (srt load_cmp [?x]) = {#?x#}" using assms(3) by (simp add: sort_ok_def)
  then have "srt load_cmp [?x] = [?x]" by (metis mset_single_iff_right mset.simps)
  then show ?thesis using assms(1,2) nan
    by (simp add: nodeProber_UpdateNodeLoading_def PeerClientMgr_iter_def nodeProber_calcNodeLoading_def Let_def)
qed

theorem stale_history_panics_witness:
  "nodeProber_UpdateNodeLoading sort_by (\<lambda>n. 0) (120 * 10 ^ 9)
     \<lparr>mt_apiCmd = \<lparr>rps_reqCount = 0, rps_hist = [\<lparr>he_rps = 0, he_t = 0\<rparr>]\<rparr>, mt_resoures = [], mt_backend = None\<rparr> sample_prober =
   Inl (Panic ''invalid argument to Intn'')"
  by (rule stale_history_panics)
    (simp_all add: sample_prober_def sample_np_def sort_by_ok avgRPSDuration_def time_Second_def time_Add_def wrap64_id)

section \<open>Membership\<close>

text \<open>
  C33 A new member blocks the prober for ever.  As soon as raft reports a member that is not in the cache and can be
  dialled, \<^verbatim>\<open>CheckMemberStatus\<close>, which has taken the write lock, asks for its node information with
  \<^verbatim>\<open>GetPeerNodeInfo\<close>, which waits for the read side of the same lock, whatever the other members are.
\<close>

theorem new_member_blocks:
  assumes "np_ready np" "np_raftNode np = Some r" "Some m \<in> set (rn_Members r)"
    and "map_of (np_nodeInfoCache np) (ucast (mb_ID m)) = None" "reachable_client dial m (np_peerClients np)"
  shows "nodeProber_CheckMemberStatus dial np = Inl Blocked"
  using check_members_blocks [of "np\<lparr>np_mu := True\<rparr>" m dial "rn_Members r"] assms
  by (simp add: nodeProber_CheckMemberStatus_def nodeProber_Lock_def)

definition sample_member :: raft_member where
  "sample_member = \<lparr>mb_ID = 5, mb_Address = ''b:1'', mb_Type = ''Voter'', mb_IsVoter = True, mb_IsActive = True, mb_ActiveSince = 0\<rparr>"

theorem new_member_blocks_witness:
  "nodeProber_CheckMemberStatus (\<lambda>t. Inr \<lparr>cl_GetNodeInfo = Inl [], cl_GetAPICmdAvgRPS = \<lambda>_. Inl [], cl_IsEntryApplied = \<lambda>_. Inl [],
       cl_Allow = \<lambda>_. Inl [], cl_RegisterResource = \<lambda>_. Inl []\<rparr>)
     (sample_prober\<lparr>np_raftNode := Some (sample_raft\<lparr>rn_Members := [None, Some sample_member]\<rparr>)\<rparr>) = Inl Blocked"
  by (rule new_member_blocks [where m = sample_member and r = "sample_raft\<lparr>rn_Members := [None, Some sample_member]\<rparr>"])
    (simp_all add: sample_prober_def sample_np_def reachable_client_def PeerClientMgr_addClient_def
      PeerClientMgr_replaceClient_def NewPeerClient_def)

text \<open>
  At most one leader.  Of two nodes that name the same leader, at most one takes itself for it: both answer yes to
  \<^verbatim>\<open>IsNodeLeader\<close> only if they have the same identifier.  This holds for the prober of a cluster and
  for the null prober of a standalone server, in any mixture.
\<close>

theorem at_most_one_leader:
  assumes "Prober_IsNodeLeader s" "Prober_IsNodeLeader s'" "Prober_NodeLeaderID s = Prober_NodeLeaderID s'"
  shows "Prober_CurNodeID s = Prober_CurNodeID s'"
  by (rule prober.one_leader [OF assms])

theorem at_most_one_leader_witness:
  "Prober_CurNodeID sample_np = Prober_CurNodeID (clusterProber (sample_prober\<lparr>np_ready := False\<rparr>))"
  by (rule at_most_one_leader)
    (simp_all add: sample_prober_def sample_np_def sample_raft_def nodeProber_IsNodeLeader_def nodeProber_NodeLeaderID_def)

end
