(* ===== verification/ClusterProperties.thy ===== *)
theory ClusterProperties
  imports Cluster CommandProperties NodeProperties
begin

text \<open>
  What becomes of a request for a resource of another node: the handler of the node asked, the gRPC call and the
  handler of the owner together.
\<close>

section \<open>Requests for a resource of another node\<close>

text \<open>What a caller over gRPC gets of a handler's response and error; without either, an error of the library.\<close>

definition grpc_answer :: "(('a, string) reply \<times> 'x) res \<Rightarrow> string + 'a" where
  "grpc_answer r =
     (case r of
        Inr ((_, Some err), _) \<Rightarrow> Inl err
      | Inr ((Some resp, None), _) \<Rightarrow> Inr resp
      | _ \<Rightarrow> Inl ''internal error'')"

lemma grpc_Allow_local:
  assumes "rm_wf (w_M w) (cd_resMgr (gs_cmdDisp gs))" "ac_Resource cmd \<noteq> []"
    and "rm_view (w_M w) (cd_resMgr (gs_cmdDisp gs)) (ac_Resource cmd) = Some res"
    and "rm_AtSameNode (res_NodeID res) (cd_resMgr (gs_cmdDisp gs))" "res_Limiter res = Some l"
  shows "\<exists>gs'. grpc_Allow se w cmd gs =
      Inr ((Some \<lparr>ar_Redirected = False, ar_NodeId = res_NodeID res, ar_Ok = fst (Limiter_Allow (w_now w) (ac_count cmd) l)\<rparr>, None), gs') \<and>
    rm_wf (w_M w) (cd_resMgr (gs_cmdDisp gs')) \<and>
    rm_view (w_M w) (cd_resMgr (gs_cmdDisp gs')) = (rm_view (w_M w) (cd_resMgr (gs_cmdDisp gs)))
      (ac_Resource cmd \<mapsto> res\<lparr>res_Limiter := Some (snd (Limiter_Allow (w_now w) (ac_count cmd) l))\<rparr>) \<and>
    rm_nodeProber (cd_resMgr (gs_cmdDisp gs')) = rm_nodeProber (cd_resMgr (gs_cmdDisp gs))"
  using AllowPbCmd_local [OF assms]
  by (auto simp: grpc_Allow_def simp del: Limiter_Allow.simps)

lemma AllowPbCmd_forwards:
  assumes "rm_wf (w_M w) (cd_resMgr c)" "name \<noteq> []" "rm_view (w_M w) (cd_resMgr c) name = Some res"
    and "\<not> rm_AtSameNode (res_NodeID res) (cd_resMgr c)"
    and "Prober_GetNodeClient (res_NodeID res) (rm_nodeProber (cd_resMgr c)) = Inr client"
    and "cl_Allow client \<lparr>ac_Resource = name, ac_Events = if events = 0 then 1 else events\<rparr> = Inr resp"
  shows "AllowPbCmd w \<lparr>ac_Resource = name, ac_Events = events\<rparr> c =
    Inr (Inr (resp\<lparr>ar_Redirected := True, ar_NodeId := res_NodeID res\<rparr>), c)"
proof -
  obtain a where a: "sw_Get (w_M w) (rm_store (cd_resMgr c)) name = Some a" "rm_res (cd_resMgr c) a = res"
    using assms(3) by (auto simp: rm_view_def rm_res_def split: option.splits)
  show ?thesis
    using assms(2,4,5,6) a
    by (cases "events = 0") (simp_all add: AllowPbCmd_def rm_GetResource_def Let_def Suc_le_eq rm_ForwardAllowCmd_def)
qed

text \<open>
  C19 The owner decides.  A node that knows a resource to live elsewhere passes the request on over gRPC: its answer
  is the decision of the owner's limiter at the owner's clock, marked as redirected to the owner; the events are taken
  from the limiter of the owner, and nothing changes on the node that was asked.
\<close>

theorem forwarded_allow_decided_by_owner:
  assumes "rm_wf (w_M wA) (cd_resMgr A)" "name \<noteq> []" "rm_view (w_M wA) (cd_resMgr A) name = Some resA"
    and "\<not> rm_AtSameNode (res_NodeID resA) (cd_resMgr A)"
    and "Prober_GetNodeClient (res_NodeID resA) (rm_nodeProber (cd_resMgr A)) = Inr client"
    and "\<And>cmd. cl_Allow client cmd = grpc_answer (grpc_Allow se w cmd B)"
    and "rm_wf (w_M w) (cd_resMgr (gs_cmdDisp B))" "rm_view (w_M w) (cd_resMgr (gs_cmdDisp B)) name = Some resB"
    and "rm_AtSameNode (res_NodeID resB) (cd_resMgr (gs_cmdDisp B))" "res_Limiter resB = Some l"
    and "n = (if events = 0 then 1 else events)"
  shows "AllowPbCmd wA \<lparr>ac_Resource = name, ac_Events = events\<rparr> A =
      Inr (Inr \<lparr>ar_Redirected = True, ar_NodeId = res_NodeID resA, ar_Ok = fst (Limiter_Allow (w_now w) n l)\<rparr>, A) \<and>
    (\<exists>r B'. grpc_Allow se w \<lparr>ac_Resource = name, ac_Events = n\<rparr> B = Inr (r, B') \<and>
      rm_view (w_M w) (cd_resMgr (gs_cmdDisp B')) = (rm_view (w_M w) (cd_resMgr (gs_cmdDisp B)))
        (name \<mapsto> resB\<lparr>res_Limiter := Some (snd (Limiter_Allow (w_now w) n l))\<rparr>))"
proof -
  let ?cmd = "\<lparr>ac_Resource = name, ac_Events = n\<rparr>"
  have n: "ac_count ?cmd = n" using assms(11) by (simp add: ac_count_def)
  obtain B' where B': "grpc_Allow se w ?cmd B =
      Inr ((Some \<lparr>ar_Redirected = False, ar_NodeId = res_NodeID resB, ar_Ok = fst (Limiter_Allow (w_now w) n l)\<rparr>, None), B')"
    "rm_view (w_M w) (cd_resMgr (gs_cmdDisp B')) = (rm_view (w_M w) (cd_resMgr (gs_cmdDisp B)))
        (name \<mapsto> resB\<lparr>res_Limiter := Some (snd (Limiter_Allow (w_now w) n l))\<rparr>)"
    using grpc_Allow_local [of w B ?cmd resB l se] assms(2,7-10) n by (auto simp del: Limiter_Allow.simps)
  have "cl_Allow client ?cmd = Inr \<lparr>ar_Redirected = False, ar_NodeId = res_NodeID resB, ar_Ok = fst (Limiter_Allow (w_now w) n l)\<rparr>"
    using B'(1) by (simp add: assms(6) grpc_answer_def)
  from AllowPbCmd_forwards [OF assms(1-5) this [unfolded assms(11)]]
  show ?thesis using B' assms(11) by (auto simp del: Limiter_Allow.simps)
qed

text \<open>Node 2 owns the resource; node 1 has a client for it.\<close>

definition sample_owner :: "(string \<times> addr) list gRPCServer" where
  "sample_owner = newGRPCServer (sample_cfg True) (NewMetrics None) (NewCmdDispatcher 0 (sample_cfg True)
     (rm_putResource alist_swiss ''a'' sample_res
       (NewResourceManager alist_swiss (sample_cfg True) (Some (clusterProber (sample_prober\<lparr>np_curNodeID := 2\<rparr>))))))"

definition sample_peer :: cluster_client where
  "sample_peer = \<lparr>cl_GetNodeInfo = Inl [], cl_GetAPICmdAvgRPS = \<lambda>_. Inl [], cl_IsEntryApplied = \<lambda>_. Inl [],
     cl_Allow = \<lambda>cmd. grpc_answer (grpc_Allow (\<lambda>_ text. Some text) (sample_world 5) cmd sample_owner),
     cl_RegisterResource = \<lambda>_. Inl []\<rparr>"

definition sample_asker :: "(string \<times> addr) list CmdDispatcher" where
  "sample_asker = NewCmdDispatcher 0 (sample_cfg True) (rm_putResource alist_swiss ''a'' sample_res
     (NewResourceManager alist_swiss (sample_cfg True)
       (Some (clusterProber (sample_prober\<lparr>np_peerClients := \<lparr>pm_clients = [(2, sample_peer)], pm_raftNode = None\<rparr>\<rparr>)))))"

lemma put_prober: "rm_nodeProber (rm_putResource M n res rm) = rm_nodeProber rm"
  by (simp add: rm_putResource_def rm_new_def)

lemma new_prober: "rm_nodeProber (NewResourceManager M cfg (Some np)) = np"
  by (simp add: NewResourceManager_def)

lemma sample_owner:
  "rm_wf alist_swiss (cd_resMgr (gs_cmdDisp sample_owner))"
  "rm_view alist_swiss (cd_resMgr (gs_cmdDisp sample_owner)) ''a'' = Some sample_res"
  "rm_AtSameNode (res_NodeID sample_res) (cd_resMgr (gs_cmdDisp sample_owner))"
  by (simp_all add: sample_owner_def newGRPCServer_def NewCmdDispatcher_def putResource_view putResource_wf rm_wf_new
      alist_swiss_ok rm_AtSameNode_def put_prober new_prober sample_res_def newResource_def
      nodeProber_CurNodeID_def sample_prober_def sample_np_def)

lemma sample_asker:
  "rm_wf alist_swiss (cd_resMgr sample_asker)"
  "rm_view alist_swiss (cd_resMgr sample_asker) ''a'' = Some sample_res"
  "\<not> rm_AtSameNode (res_NodeID sample_res) (cd_resMgr sample_asker)"
  "Prober_GetNodeClient (res_NodeID sample_res) (rm_nodeProber (cd_resMgr sample_asker)) = Inr sample_peer"
  by (simp_all add: sample_asker_def NewCmdDispatcher_def putResource_view putResource_wf rm_wf_new
      alist_swiss_ok rm_AtSameNode_def put_prober new_prober sample_res_def newResource_def
      nodeProber_CurNodeID_def nodeProber_GetNodeClient_def PeerClientMgr_getClient_def sample_prober_def sample_np_def)

lemma sample_res_limiter: "res_Limiter sample_res = Some (tokenBucketLimiter sample_bucket)"
  using sample_bucket(3) by simp

theorem forwarded_allow_decided_by_owner_witness:
  "AllowPbCmd (sample_world 1) \<lparr>ac_Resource = ''a'', ac_Events = 6\<rparr> sample_asker =
     Inr (Inr \<lparr>ar_Redirected = True, ar_NodeId = 2, ar_Ok = fst (Limiter_Allow 5 6 (tokenBucketLimiter sample_bucket))\<rparr>, sample_asker)"
  using forwarded_allow_decided_by_owner [where wA = "sample_world 1" and w = "sample_world 5" and A = sample_asker and B = sample_owner
      and client = sample_peer and se = "\<lambda>_ text. Some text" and name = "''a''" and events = 6 and n = 6
      and resA = sample_res and resB = sample_res and l = "tokenBucketLimiter sample_bucket"]
    sample_asker sample_owner sample_res_limiter
  by (simp add: sample_world_def sample_peer_def sample_res_def newResource_def del: Limiter_Allow.simps)

lemma sample_fields: "w_M (sample_world t) = alist_swiss" "w_now (sample_world t) = t" "tb_nextFill sample_bucket = 100"
  by (simp_all add: sample_world_def sample_bucket_def)

lemma sample_peer: "cl_Allow sample_peer cmd = grpc_answer (grpc_Allow (\<lambda>_ text. Some text) (sample_world 5) cmd sample_owner)"
  by (simp add: sample_peer_def)

end
