(* ===== verification/ReplicaProperties.thy ===== *)
theory ReplicaProperties
  imports ReplicaRun ClusterProperties
begin

text \<open>
  The properties of the nodes of a cluster together, in every state that \<open>replica_run\<close> reaches: each node
  has what its part of the log says, and of nodes that have applied the same part at most one counts the events of a
  resource of the log itself.
\<close>

section \<open>The log decides\<close>

text \<open>
  C5 Nodes follow the log.  However the nodes serve commands, forward, are probed, move resources, restart, take
  snapshots and install them over what they hold: each node has every resource that the entries it has applied make of an
  empty map, with the node, limiter parameters and time of update they say, and two nodes that have applied equally
  many agree on those.  A node that never installed a snapshot over other resources, nor one of a node that
  did, has no other resources either.
\<close>

theorem replicas_follow_log:
  assumes "replica_run M T F H S" "swiss_ok M" "ts_codec_ok T"
  shows "\<exists>v. log_store T F H (take (rp_applied S i) (rp_log S)) Map.empty = Inr v \<and>
    v \<subseteq>\<^sub>m fixed_view M (rp_rm S i) \<and> (rp_pure S i \<longrightarrow> fixed_view M (rp_rm S i) = v) \<and>
    (rp_applied S j = rp_applied S i \<longrightarrow> (\<forall>name \<in> dom v. fixed_view M (rp_rm S j) name = fixed_view M (rp_rm S i) name))"
proof -
  obtain v where v: "log_store T F H (take (rp_applied S i) (rp_log S)) Map.empty = Inr v" "log_holds (rp_pure S i) v (fixed_view M (rp_rm S i))"
    by (rule replica_log [OF assms])
  obtain u where u: "log_store T F H (take (rp_applied S j) (rp_log S)) Map.empty = Inr u" "log_holds (rp_pure S j) u (fixed_view M (rp_rm S j))"
    by (rule replica_log [OF assms])
  have "fixed_view M (rp_rm S j) name = fixed_view M (rp_rm S i) name" if "rp_applied S j = rp_applied S i" "name \<in> dom v" for name
    using u v that by (auto simp: log_holds_def map_le_def)
  then show ?thesis using v by (auto simp: log_holds_def)
qed


section \<open>Instances\<close>

text \<open>Nodes 1 and 2 of a cluster, and the entry that puts a resource on node 2.\<close>

definition sample_prober_of :: "u32 \<Rightarrow> NodeProber" where
  "sample_prober_of i = clusterProber \<lparr>np_cfg = sample_cfg True, np_peerClients = \<lparr>pm_clients = [], pm_raftNode = Some sample_raft\<rparr>,
     np_curNodeID = i, np_raftNode = Some sample_raft, np_mu = False, np_ready = True, np_loadDiff = 0, np_lightNodeID = 2,
     np_heavyNodeID = 1, np_nodeInfoCache = []\<rparr>"

definition sample_node :: "nat \<Rightarrow> (string \<times> addr) list CmdDispatcher" where
  "sample_node i = NewCmdDispatcher 0 (sample_cfg True)
     (NewResourceManager alist_swiss (sample_cfg True) (Some (sample_prober_of (of_nat i))))"

definition sample_put_entry :: "byte list" where
  "sample_put_entry = enc_Entry wire_ts (put_entry [7] 1 ''a'' sample_res)"

definition sample_put :: "nat \<Rightarrow> (string \<times> addr) list ResourceManager" where
  "sample_put i = rm_putResource alist_swiss ''a'' sample_res (cd_resMgr (sample_node i))"

definition sample_replicas :: "(string \<times> addr) list replicas" where
  "sample_replicas = \<lparr>rp_log = [sample_put_entry],
     rp_node = (\<lambda>i. if i = 1 \<or> i = 2 then (sample_node i)\<lparr>cd_resMgr := sample_put i\<rparr> else sample_node i),
     rp_applied = (\<lambda>i. if i = 1 \<or> i = 2 then 1 else 0), rp_pure = \<lambda>_. True, rp_snaps = []\<rparr>"

lemma sample_applied:
  "rm_Apply alist_swiss wire_ts (\<lambda>b. Inr b) 5 t sample_put_entry (cd_resMgr (sample_node i)) = Inr (sample_put i)"
proof -
  have "rps_hist (res_RPS sample_res) = []" by (simp add: sample_res_def newResource_def RPS_zero_def)
  then show ?thesis
    using entry_op_put [where F = "\<lambda>b. Inr b" and eid = "[7]" and H = 5 and now = t, OF wire_ts_ok sample_sendable(3) sample_entry_length]
    by (simp add: Apply_op sample_put_entry_def res_received_empty opt_step_def sample_put_def)
qed

lemma sample_replica_run: "replica_run alist_swiss wire_ts (\<lambda>b. Inr b) 5 sample_replicas"
proof -
  let ?run = "replica_run alist_swiss wire_ts (\<lambda>b. Inr b) 5"
  have "new_node alist_swiss (sample_node i)" for i
    unfolding new_node_def sample_node_def by (intro exI conjI, rule refl) (simp add: sample_cfg_def)
  then have "?run \<lparr>rp_log = [], rp_node = sample_node, rp_applied = \<lambda>_. 0, rp_pure = \<lambda>_. True, rp_snaps = []\<rparr>" by (rule replica_run.init)
  from replica_run.commit [OF this, of sample_put_entry]
  have s: "?run \<lparr>rp_log = [sample_put_entry], rp_node = sample_node, rp_applied = \<lambda>_. 0, rp_pure = \<lambda>_. True, rp_snaps = []\<rparr>" by simp
  from replica_run.deliver [OF s, of 1 0 "sample_put 1"] sample_applied [of 0 1]
  have s1: "?run \<lparr>rp_log = [sample_put_entry], rp_node = sample_node(1 := (sample_node 1)\<lparr>cd_resMgr := sample_put 1\<rparr>), rp_applied = (\<lambda>_. 0)(1 := 1), rp_pure = \<lambda>_. True, rp_snaps = []\<rparr>"
    by (simp add: rp_rm_def)
  from replica_run.deliver [OF s1, of 2 9 "sample_put 2"] sample_applied [of 9 2]
  have "?run \<lparr>rp_log = [sample_put_entry], rp_node = sample_node(1 := (sample_node 1)\<lparr>cd_resMgr := sample_put 1\<rparr>,
      2 := (sample_node 2)\<lparr>cd_resMgr := sample_put 2\<rparr>), rp_applied = (\<lambda>_. 0)(1 := 1, 2 := 1), rp_pure = \<lambda>_. True, rp_snaps = []\<rparr>"
    by (simp add: rp_rm_def)
  moreover have "sample_replicas = \<lparr>rp_log = [sample_put_entry], rp_node = sample_node(1 := (sample_node 1)\<lparr>cd_resMgr := sample_put 1\<rparr>,
      2 := (sample_node 2)\<lparr>cd_resMgr := sample_put 2\<rparr>), rp_applied = (\<lambda>_. 0)(1 := 1, 2 := 1), rp_pure = \<lambda>_. True, rp_snaps = []\<rparr>"
    by (auto simp: sample_replicas_def)
  ultimately show ?thesis by simp
qed

lemma sample_put_view: "rm_view alist_swiss (sample_put i) = [''a'' \<mapsto> sample_res]"
  by (simp add: sample_put_def sample_node_def NewCmdDispatcher_def putResource_view rm_wf_new rm_view_new alist_swiss_ok)

lemma sample_put_ok: "rm_wf alist_swiss (sample_put i)"
  by (simp add: sample_put_def sample_node_def NewCmdDispatcher_def putResource_wf rm_wf_new alist_swiss_ok)

lemma sample_items: "rm_items alist_swiss (sample_put i) = [(''a'', sample_res)]"
  by (simp add: sample_put_def sample_node_def NewCmdDispatcher_def rm_items_def rm_putResource_def rm_new_def rm_res_def
      alist_swiss_def NewResourceManager_def)

lemma sample_put_node: "rm_CurNodeID (sample_put 2) = 2"
  by (simp add: sample_put_def rm_CurNodeID_def put_prober sample_node_def NewCmdDispatcher_def NewResourceManager_def sample_prober_of_def
      nodeProber_CurNodeID_def)

text \<open>Node 2 takes a snapshot, which node 1 installs over the resource that it has.\<close>

lemma sample_install:
  "\<exists>S. replica_run alist_swiss wire_ts (\<lambda>b. Inr b) 5 S \<and> rp_log S = [sample_put_entry] \<and> rp_applied S 1 = 1 \<and> rp_applied S 2 = 1 \<and>
     \<not> rp_pure S 1 \<and> rp_pure S 2 \<and> rp_rm S 2 = sample_put 2"
proof -
  let ?run = "replica_run alist_swiss wire_ts (\<lambda>b. Inr b) 5"
  have rm: "rp_rm sample_replicas 1 = sample_put 1" "rp_rm sample_replicas 2 = sample_put 2"
    by (simp_all add: rp_rm_def sample_replicas_def)
  have fits: "\<forall>(name, res) \<in> set (rm_items alist_swiss (sample_put 2)). res_sendable res"
    "length (enc_EntrySnapshot wire_ts (rm_snapshot alist_swiss (\<lambda>_. [7]) (sample_put 2))) < 2 ^ 63"
    by (simp_all add: sample_items sample_sendable(3) rm_snapshot_def sample_put_node)
      (simp add: enc_lengths put_entry_def res_pb_def Resource_ToPB_def sample_res_def newResource_def sample_limiter_def
        AssignLimiterToResPB_def RPS_ToPB_def RPS_zero_def TimeToTimestamp_def)
  obtain buf rm' where b: "rm_Snapshot alist_swiss wire_ts (\<lambda>_. [7]) 0 (sample_put 2) = Inr buf"
    "rm_Restore alist_swiss wire_ts 5 9 buf (sample_put 1) = Inr (None, rm')"
    using Restore_Snapshot [OF wire_ts_ok sample_put_ok sample_put_ok fits, of 0 5 9 1] by (auto simp: bindR_Inr_iff)
  have "snapshot_fits alist_swiss wire_ts (\<lambda>_. [7]) (rp_rm sample_replicas 2)"
    using fits by (simp add: snapshot_fits_def list_all_iff rm)
  from replica_run.snapshot [OF sample_replica_run this, of 0 buf]
  have "?run (sample_replicas\<lparr>rp_snaps := [(1, True, buf)]\<rparr>)" using b(1) by (simp add: rm) (simp add: sample_replicas_def)
  from replica_run.install [OF this, of 1 True buf 9 1 None rm'] b(2)
  have "?run (sample_replicas\<lparr>rp_snaps := [(1, True, buf)], rp_node := (rp_node sample_replicas)(1 := (rp_node sample_replicas 1)\<lparr>cd_resMgr := rm'\<rparr>),
      rp_applied := (rp_applied sample_replicas)(1 := 1), rp_pure := (rp_pure sample_replicas)(1 := False)\<rparr>)"
    using rm sample_items by (simp add: rp_rm_def)
  then show ?thesis by (intro exI conjI, assumption) (simp_all add: rp_rm_def sample_replicas_def)
qed

theorem replicas_follow_log_witness:
  "\<exists>S. replica_run alist_swiss wire_ts (\<lambda>b. Inr b) 5 S \<and> \<not> rp_pure S 1 \<and>
     fixed_view alist_swiss (rp_rm S 1) ''a'' = Some (res_fixed sample_res) \<and> fixed_view alist_swiss (rp_rm S 2) = [''a'' \<mapsto> res_fixed sample_res]"
proof -
  obtain S where S: "replica_run alist_swiss wire_ts (\<lambda>b. Inr b) 5 S" "rp_applied S 1 = 1" "rp_applied S 2 = 1" "\<not> rp_pure S 1"
    "rp_pure S 2" "rp_rm S 2 = sample_put 2" using sample_install by blast
  have "fixed_view alist_swiss (sample_put 2) = [''a'' \<mapsto> res_fixed sample_res]"
    by (simp add: fixed_view_def [abs_def] sample_put_view fun_eq_iff)
  then show ?thesis
    using replicas_follow_log [OF S(1) alist_swiss_ok wire_ts_ok, of 2 1] S by (intro exI [of _ S]) auto
qed


end
