(* ===== verification/ClusterRate.thy ===== *)
theory ClusterRate
  imports ClusterProperties
begin

text \<open>
  The rate limit of a whole cluster.  The nodes are connected: each node's gRPC clients lead to the other nodes'
  servers, whose handlers work on the dispatcher their own API server uses.  Clients ask any node, in any order.
\<close>

section \<open>Connected nodes\<close>

type_synonym 'm nodes = "u32 \<Rightarrow> 'm gRPCServer"

definition node_rm :: "'m nodes \<Rightarrow> u32 \<Rightarrow> 'm ResourceManager" where
  "node_rm nodes i = cd_resMgr (gs_cmdDisp (nodes i))"

text \<open>A peer's answer to a forwarded request, on the peer's state and in the world it runs in.\<close>

definition link_client :: "(u32 \<Rightarrow> string \<Rightarrow> string option) \<Rightarrow> 'm world \<Rightarrow> 'm nodes \<Rightarrow> u32 \<Rightarrow> cluster_client \<Rightarrow> cluster_client" where
  "link_client se w nodes d client = client\<lparr>cl_Allow := \<lambda>cmd. grpc_answer (grpc_Allow se w cmd (nodes d))\<rparr>"

fun link_prober :: "(u32 \<Rightarrow> string \<Rightarrow> string option) \<Rightarrow> 'm world \<Rightarrow> 'm nodes \<Rightarrow> NodeProber \<Rightarrow> NodeProber" where
  "link_prober se w nodes nullProber = nullProber"
| "link_prober se w nodes (clusterProber np) =
     clusterProber (np\<lparr>np_peerClients := (np_peerClients np)\<lparr>pm_clients :=
       map (\<lambda>(d, client). (d, link_client se w nodes d client)) (pm_clients (np_peerClients np))\<rparr>\<rparr>)"

definition linked :: "(u32 \<Rightarrow> string \<Rightarrow> string option) \<Rightarrow> 'm world \<Rightarrow> 'm nodes \<Rightarrow> u32 \<Rightarrow> 'm CmdDispatcher" where
  "linked se w nodes i =
     (let c = gs_cmdDisp (nodes i)
      in c\<lparr>cd_resMgr := (cd_resMgr c)\<lparr>rm_nodeProber := link_prober se w nodes (rm_nodeProber (cd_resMgr c))\<rparr>\<rparr>)"

lemma link_prober_simps [simp]:
  "Prober_CurNodeID (link_prober se w nodes np) = Prober_CurNodeID np"
  "Prober_GetNodeClient d (link_prober se w nodes np) = map_sum id (link_client se w nodes d) (Prober_GetNodeClient d np)"
proof -
  have "map_of (map (\<lambda>(d, client). (d, link_client se w nodes d client)) xs) d = map_option (link_client se w nodes d) (map_of xs d)" for xs
    by (induction xs) auto
  then show "Prober_GetNodeClient d (link_prober se w nodes np) = map_sum id (link_client se w nodes d) (Prober_GetNodeClient d np)"
    by (cases np) (simp_all add: nodeProber_GetNodeClient_def PeerClientMgr_getClient_def split: option.split)
qed (cases np; simp add: nodeProber_CurNodeID_def)

lemma linked_rm [simp]:
  "rm_inv M (cd_resMgr (linked se w nodes i)) = rm_inv M (node_rm nodes i)"
  "rm_wf M (cd_resMgr (linked se w nodes i)) = rm_wf M (node_rm nodes i)"
  "rm_view M (cd_resMgr (linked se w nodes i)) = rm_view M (node_rm nodes i)"
  "rm_AtSameNode d (cd_resMgr (linked se w nodes i)) = rm_AtSameNode d (node_rm nodes i)"
  "rm_CurNodeID (cd_resMgr (linked se w nodes i)) = rm_CurNodeID (node_rm nodes i)"
  "rm_nodeProber (cd_resMgr (linked se w nodes i)) = link_prober se w nodes (rm_nodeProber (node_rm nodes i))"
  "sw_Get M (rm_store (cd_resMgr (linked se w nodes i))) name = sw_Get M (rm_store (node_rm nodes i)) name"
  "rm_res (cd_resMgr (linked se w nodes i)) a = rm_res (node_rm nodes i) a"
  by (simp_all add: linked_def Let_def node_rm_def rm_AtSameNode_def rm_CurNodeID_def rm_res_def)

section \<open>Asking a node\<close>

text \<open>A request, the node it is sent to, and the worlds of that node and of the node it is forwarded to.\<close>

record 'm ask =
  as_node :: u32
  as_world :: "'m world"
  as_peer :: "'m world"
  as_cmd :: AllowCmd

text \<open>The peer a node forwards a request to, and the request it sends.\<close>

definition forwarded_to :: "'m world \<Rightarrow> AllowCmd \<Rightarrow> 'm ResourceManager \<Rightarrow> (u32 \<times> AllowCmd) option" where
  "forwarded_to w cmd rm =
     (if ac_Resource cmd = [] then None
      else case rm_GetResource (w_M w) (ac_Resource cmd) rm of
             None \<Rightarrow> None
           | Some a \<Rightarrow>
               (let d = res_NodeID (rm_res rm a)
                in if rm_AtSameNode d rm \<or> isl (Prober_GetNodeClient d (rm_nodeProber rm)) then None
                   else Some (d, cmd\<lparr>ac_Events := ac_count cmd\<rparr>)))"

text \<open>The handler's answer, and the state in which the forwarded request leaves the peer.\<close>

definition cluster_ask :: "(u32 \<Rightarrow> string \<Rightarrow> string option) \<Rightarrow> 'm ask \<Rightarrow> 'm nodes \<Rightarrow> ((CmdError + AllowCmdResp) \<times> 'm nodes) res" where
  "cluster_ask se q nodes =
     bindR (AllowPbCmd (as_world q) (as_cmd q) (linked se (as_peer q) nodes (as_node q))) (\<lambda>(r, c).
       let nodes' = nodes(as_node q := (nodes (as_node q))\<lparr>gs_cmdDisp := c\<rparr>)
       in case forwarded_to (as_world q) (as_cmd q) (node_rm nodes (as_node q)) of
            None \<Rightarrow> Inr (r, nodes')
          | Some (d, cmd) \<Rightarrow> bindR (grpc_Allow se (as_peer q) cmd (nodes' d)) (\<lambda>(_, gs). Inr (r, nodes'(d := gs))))"

definition granted :: "string \<Rightarrow> AllowCmd \<Rightarrow> CmdError + AllowCmdResp \<Rightarrow> int" where
  "granted name cmd r = (case r of Inl e \<Rightarrow> 0 | Inr resp \<Rightarrow> if ac_Resource cmd = name \<and> ar_Ok resp then uint (ac_count cmd) else 0)"

fun cluster_asks :: "(u32 \<Rightarrow> string \<Rightarrow> string option) \<Rightarrow> string \<Rightarrow> 'm ask list \<Rightarrow> 'm nodes \<Rightarrow> (int \<times> 'm nodes) res" where
  "cluster_asks se name [] nodes = Inr (0, nodes)"
| "cluster_asks se name (q # qs) nodes =
     bindR (cluster_ask se q nodes) (\<lambda>(r, nodes).
     bindR (cluster_asks se name qs nodes) (\<lambda>(k, nodes). Inr (granted name (as_cmd q) r + k, nodes)))"

section \<open>One owner\<close>

text \<open>All nodes that know the resource know its owner \<open>d\<close>, which has it with the bucket \<open>b\<close>.\<close>

definition node_agrees :: "'m swiss_ops \<Rightarrow> string \<Rightarrow> u32 \<Rightarrow> u32 \<Rightarrow> 'm ResourceManager \<Rightarrow> bool" where
  "node_agrees M name d i rm \<longleftrightarrow> rm_inv M rm \<and> rm_CurNodeID rm = i \<and> (\<forall>res. rm_view M rm name = Some res \<longrightarrow> res_NodeID res = d)"

definition owned :: "'m swiss_ops \<Rightarrow> string \<Rightarrow> u32 \<Rightarrow> TokenBucket \<Rightarrow> 'm nodes \<Rightarrow> bool" where
  "owned M name d b nodes \<longleftrightarrow> (\<forall>i. node_agrees M name d i (node_rm nodes i)) \<and>
     (\<exists>res. rm_view M (node_rm nodes d) name = Some res \<and> res_Limiter res = Some (tokenBucketLimiter b))"

lemma node_rm_upd [simp]: "node_rm (nodes(i := gs)) j = (if j = i then cd_resMgr (gs_cmdDisp gs) else node_rm nodes j)"
  by (simp add: node_rm_def)

text \<open>A node that keeps what it has of the resource.\<close>

lemma owned_keep:
  assumes "owned M name d b nodes" "rm_inv M (cd_resMgr (gs_cmdDisp gs))" "rm_CurNodeID (cd_resMgr (gs_cmdDisp gs)) = i"
    and "rm_view M (cd_resMgr (gs_cmdDisp gs)) name = rm_view M (node_rm nodes i) name"
  shows "owned M name d b (nodes(i := gs))"
  using assms by (auto simp: owned_def node_agrees_def)

text \<open>The owner after a request.\<close>

lemma owned_charge:
  assumes "owned M name d b nodes" "rm_inv M (cd_resMgr (gs_cmdDisp gs))" "rm_CurNodeID (cd_resMgr (gs_cmdDisp gs)) = d"
    and "rm_view M (cd_resMgr (gs_cmdDisp gs)) name = Some (res\<lparr>res_Limiter := Some (tokenBucketLimiter b')\<rparr>)"
    and "rm_view M (node_rm nodes d) name = Some res"
  shows "owned M name d b' (nodes(d := gs))"
  using assms by (auto simp: owned_def node_agrees_def)

lemma AllowPbCmd_keeps:
  assumes "rm_inv M (cd_resMgr c)" "w_M w = M" "ac_Resource cmd \<noteq> name" "AllowPbCmd w cmd c = Inr (r, c')"
  shows "rm_inv M (cd_resMgr c') \<and> rm_CurNodeID (cd_resMgr c') = rm_CurNodeID (cd_resMgr c) \<and>
    rm_view M (cd_resMgr c') name = rm_view M (cd_resMgr c) name"
  using AllowPbCmd_inv [of w c cmd r c'] AllowPbCmd_other [of w c cmd r c' name] assms rm_invD(1) [OF assms(1)]
  by (auto simp: rm_CurNodeID_def)

lemma grpc_Allow_returns:
  assumes "rm_inv M (cd_resMgr (gs_cmdDisp gs))" "w_M w = M"
  obtains r e c where "AllowPbCmd w cmd (gs_cmdDisp gs) = Inr (e, c)" "grpc_Allow se w cmd gs = Inr (r, gs\<lparr>gs_cmdDisp := c\<rparr>)"
proof -
  obtain e c where "AllowPbCmd w cmd (gs_cmdDisp gs) = Inr (e, c)"
    using AllowPbCmd_total [of w "gs_cmdDisp gs" cmd] assms by blast
  then show thesis using that by (cases e) (simp_all add: grpc_Allow_def)
qed

lemma ask_other:
  assumes "owned M name d b nodes" "w_M (as_world q) = M" "w_M (as_peer q) = M" "ac_Resource (as_cmd q) \<noteq> name"
  shows "\<exists>r nodes'. cluster_ask se q nodes = Inr (r, nodes') \<and> owned M name d b nodes' \<and> granted name (as_cmd q) r = 0"
proof -
  let ?i = "as_node q" and ?c = "linked se (as_peer q) nodes (as_node q)"
  have inv: "rm_inv M (cd_resMgr ?c)" "rm_CurNodeID (node_rm nodes ?i) = ?i"
    using assms(1) by (simp_all add: owned_def node_agrees_def)
  obtain r c where c: "AllowPbCmd (as_world q) (as_cmd q) ?c = Inr (r, c)"
    using AllowPbCmd_total [of "as_world q" ?c "as_cmd q"] inv(1) assms(2) by blast
  define nodes1 where "nodes1 = nodes(?i := (nodes ?i)\<lparr>gs_cmdDisp := c\<rparr>)"
  have own1: "owned M name d b nodes1"
    using AllowPbCmd_keeps [OF inv(1) assms(2,4) c] inv(2) unfolding nodes1_def by (intro owned_keep [OF assms(1)]) simp_all
  have g: "granted name (as_cmd q) r = 0" using assms(4) by (simp add: granted_def split: sum.split)
  show ?thesis
  proof (cases "forwarded_to (as_world q) (as_cmd q) (node_rm nodes ?i)")
    case None
    then show ?thesis using own1 g c by (simp add: cluster_ask_def nodes1_def)
  next
    case (Some f)
    obtain j cmd where f: "f = (j, cmd)" by (cases f)
    have cmd: "ac_Resource cmd \<noteq> name"
      using Some assms(4) by (auto simp: f forwarded_to_def Let_def split: if_splits option.splits)
    have j: "rm_inv M (cd_resMgr (gs_cmdDisp (nodes1 j)))" "rm_CurNodeID (cd_resMgr (gs_cmdDisp (nodes1 j))) = j"
      using own1 by (simp_all add: owned_def node_agrees_def node_rm_def)
    obtain rp e cB where gB: "AllowPbCmd (as_peer q) cmd (gs_cmdDisp (nodes1 j)) = Inr (e, cB)"
      "grpc_Allow se (as_peer q) cmd (nodes1 j) = Inr (rp, (nodes1 j)\<lparr>gs_cmdDisp := cB\<rparr>)"
      using grpc_Allow_returns [OF j(1) assms(3)] by blast
    have "owned M name d b (nodes1(j := (nodes1 j)\<lparr>gs_cmdDisp := cB\<rparr>))"
      using AllowPbCmd_keeps [OF j(1) assms(3) cmd gB(1)] j(2) by (intro owned_keep [OF own1]) (simp_all add: node_rm_def)
    then show ?thesis using Some f g c gB(2) by (simp add: cluster_ask_def nodes1_def)
  qed
qed

lemma ask_owner:
  assumes "owned M name d b nodes" "name \<noteq> []" "w_M (as_world q) = M" "ac_Resource (as_cmd q) = name" "as_node q = d"
    and "n = ac_count (as_cmd q)" "t = w_now (as_world q)"
  shows "\<exists>r nodes'. cluster_ask se q nodes = Inr (r, nodes') \<and> owned M name d (snd (TokenBucket_Allow t n b)) nodes' \<and>
    granted name (as_cmd q) r = (if fst (TokenBucket_Allow t n b) then uint n else 0)"
proof -
  let ?c = "linked se (as_peer q) nodes d"
  obtain res where res: "rm_view M (node_rm nodes d) name = Some res" "res_Limiter res = Some (tokenBucketLimiter b)"
    using assms(1) by (auto simp: owned_def)
  have d: "rm_inv M (node_rm nodes d)" "rm_CurNodeID (node_rm nodes d) = d" "res_NodeID res = d"
    using assms(1) res(1) by (simp_all add: owned_def node_agrees_def)
  have same: "rm_AtSameNode (res_NodeID res) (node_rm nodes d)" using d(2,3) by (simp add: rm_AtSameNode_def rm_CurNodeID_def)
  obtain rm' where rm': "AllowPbCmd (as_world q) (as_cmd q) ?c =
      Inr (Inr \<lparr>ar_Redirected = False, ar_NodeId = d, ar_Ok = fst (TokenBucket_Allow t n b)\<rparr>, ?c\<lparr>cd_resMgr := rm'\<rparr>)"
    "rm_view M rm' = (rm_view M (node_rm nodes d))(name \<mapsto> res\<lparr>res_Limiter := Some (tokenBucketLimiter (snd (TokenBucket_Allow t n b)))\<rparr>)"
    "rm_nodeProber rm' = link_prober se (as_peer q) nodes (rm_nodeProber (node_rm nodes d))"
    using AllowPbCmd_local [of "as_world q" ?c "as_cmd q" res "tokenBucketLimiter b"] rm_invD(1) [OF d(1)] assms(2-4,6,7) res d(3) same
    by (auto simp: Limiter_Allow_parts simp del: Limiter_Allow.simps)
  have inv: "rm_inv M rm'" using AllowPbCmd_inv [of "as_world q" ?c "as_cmd q"] rm'(1) d(1) assms(3) by auto
  obtain a where a: "sw_Get M (rm_store (node_rm nodes d)) name = Some a" "rm_res (node_rm nodes d) a = res"
    using res(1) by (auto simp: rm_view_def rm_res_def split: option.splits)
  have "forwarded_to (as_world q) (as_cmd q) (node_rm nodes d) = None"
    using same a assms(3,4) by (simp add: forwarded_to_def rm_GetResource_def)
  moreover have "owned M name d (snd (TokenBucket_Allow t n b)) (nodes(d := (nodes d)\<lparr>gs_cmdDisp := ?c\<lparr>cd_resMgr := rm'\<rparr>\<rparr>))"
    by (rule owned_charge [OF assms(1) _ _ _ res(1)]) (use inv rm' d(2) in \<open>simp_all add: rm_CurNodeID_def\<close>)
  ultimately show ?thesis using rm'(1) assms(4-6) by (simp add: cluster_ask_def granted_def)
qed

text \<open>A node that does not have the resource answers from the owner, or with an error.\<close>

lemma ask_unknown:
  assumes "owned M name d b nodes" "w_M (as_world q) = M" "ac_Resource (as_cmd q) = name"
    and "rm_view M (node_rm nodes (as_node q)) name = None \<or>
      (\<exists>res e. rm_view M (node_rm nodes (as_node q)) name = Some res \<and> \<not> rm_AtSameNode (res_NodeID res) (node_rm nodes (as_node q)) \<and>
        Prober_GetNodeClient (res_NodeID res) (rm_nodeProber (node_rm nodes (as_node q))) = Inl e)"
  shows "\<exists>r nodes'. cluster_ask se q nodes = Inr (r, nodes') \<and> owned M name d b nodes' \<and> granted name (as_cmd q) r = 0"
proof -
  let ?i = "as_node q" and ?c = "linked se (as_peer q) nodes (as_node q)"
  have inv: "rm_inv M (node_rm nodes ?i)" "rm_CurNodeID (node_rm nodes ?i) = ?i"
    using assms(1) by (simp_all add: owned_def node_agrees_def)
  obtain r c where c: "AllowPbCmd (as_world q) (as_cmd q) ?c = Inr (r, c)"
    using AllowPbCmd_total [of "as_world q" ?c "as_cmd q"] inv(1) assms(2) by auto
  have none: "forwarded_to (as_world q) (as_cmd q) (node_rm nodes ?i) = None \<and> c = ?c \<and> isl r"
    using assms(4)
  proof (elim disjE exE conjE)
    assume "rm_view M (node_rm nodes ?i) name = None"
    then have "sw_Get M (rm_store (node_rm nodes ?i)) name = None" using rm_view_None [OF rm_invD(1) [OF inv(1)]] by simp
    then show ?thesis using c assms(2,3)
      by (auto simp: AllowPbCmd_def forwarded_to_def rm_GetResource_def Let_def split: if_splits)
  next
    fix res e
    assume res: "rm_view M (node_rm nodes ?i) name = Some res" "\<not> rm_AtSameNode (res_NodeID res) (node_rm nodes ?i)"
      "Prober_GetNodeClient (res_NodeID res) (rm_nodeProber (node_rm nodes ?i)) = Inl e"
    obtain a where "sw_Get M (rm_store (node_rm nodes ?i)) name = Some a" "rm_res (node_rm nodes ?i) a = res"
      using res(1) by (auto simp: rm_view_def rm_res_def split: option.splits)
    then show ?thesis using c res(2,3) assms(2,3)
      by (auto simp: AllowPbCmd_def forwarded_to_def rm_GetResource_def rm_ForwardAllowCmd_def Let_def bindR_Inr_iff split: if_splits)
  qed
  have "owned M name d b (nodes(?i := (nodes ?i)\<lparr>gs_cmdDisp := ?c\<rparr>))"
    using inv by (intro owned_keep [OF assms(1)]) simp_all
  then show ?thesis using none c by (cases r) (simp_all add: cluster_ask_def granted_def)
qed

lemma ask_forwarded:
  assumes "owned M name d b nodes" "name \<noteq> []" "w_M (as_world q) = M" "w_M (as_peer q) = M" "ac_Resource (as_cmd q) = name"
    and "rm_view M (node_rm nodes (as_node q)) name = Some resA" "\<not> rm_AtSameNode (res_NodeID resA) (node_rm nodes (as_node q))"
    and "Prober_GetNodeClient (res_NodeID resA) (rm_nodeProber (node_rm nodes (as_node q))) = Inr client"
    and "n = ac_count (as_cmd q)" "t = w_now (as_peer q)"
  shows "\<exists>r nodes'. cluster_ask se q nodes = Inr (r, nodes') \<and> owned M name d (snd (TokenBucket_Allow t n b)) nodes' \<and>
    granted name (as_cmd q) r = (if fst (TokenBucket_Allow t n b) then uint n else 0)"
proof -
  let ?i = "as_node q" and ?c = "linked se (as_peer q) nodes (as_node q)" and ?cmd = "(as_cmd q)\<lparr>ac_Events := n\<rparr>"
  let ?l = "tokenBucketLimiter (snd (TokenBucket_Allow t n b))" and ?ok = "fst (TokenBucket_Allow t n b)"
  have i: "rm_inv M (node_rm nodes ?i)" "rm_CurNodeID (node_rm nodes ?i) = ?i" "res_NodeID resA = d"
    using assms(1,6) by (simp_all add: owned_def node_agrees_def)
  have ne: "?i \<noteq> d" using assms(7) i(2,3) by (auto simp: rm_AtSameNode_def rm_CurNodeID_def)
  obtain res where res: "rm_view M (node_rm nodes d) name = Some res" "res_Limiter res = Some (tokenBucketLimiter b)"
    using assms(1) by (auto simp: owned_def)
  have d: "rm_inv M (node_rm nodes d)" "rm_CurNodeID (node_rm nodes d) = d" "res_NodeID res = d"
    using assms(1) res(1) by (simp_all add: owned_def node_agrees_def)
  have same: "rm_AtSameNode (res_NodeID res) (node_rm nodes d)" using d(2,3) by (simp add: rm_AtSameNode_def rm_CurNodeID_def)
  have n: "ac_count ?cmd = n" "n = (if ac_Events (as_cmd q) = 0 then 1 else ac_Events (as_cmd q))" "ac_Resource ?cmd = name"
    using assms(5,9) by (simp_all add: ac_count_def)
  obtain B where B: "grpc_Allow se (as_peer q) ?cmd (nodes d) = Inr ((Some \<lparr>ar_Redirected = False, ar_NodeId = d, ar_Ok = ?ok\<rparr>, None), B)"
    "rm_wf M (cd_resMgr (gs_cmdDisp B))"
    "rm_view M (cd_resMgr (gs_cmdDisp B)) = (rm_view M (node_rm nodes d))(name \<mapsto> res\<lparr>res_Limiter := Some ?l\<rparr>)"
    "rm_nodeProber (cd_resMgr (gs_cmdDisp B)) = rm_nodeProber (node_rm nodes d)"
    using grpc_Allow_local [of "as_peer q" "nodes d" ?cmd res "tokenBucketLimiter b" se] rm_invD(1) [OF d(1)] assms(2,4,10) res d(3) same n(1,3)
    by (auto simp: Limiter_Allow_parts node_rm_def simp del: Limiter_Allow.simps)
  have inv: "rm_inv M (cd_resMgr (gs_cmdDisp B))"
  proof -
    obtain r e c where "AllowPbCmd (as_peer q) ?cmd (gs_cmdDisp (nodes d)) = Inr (e, c)"
      "grpc_Allow se (as_peer q) ?cmd (nodes d) = Inr (r, (nodes d)\<lparr>gs_cmdDisp := c\<rparr>)"
      using grpc_Allow_returns [OF d(1) [unfolded node_rm_def] assms(4)] by blast
    then show ?thesis using AllowPbCmd_inv [of "as_peer q" "gs_cmdDisp (nodes d)" ?cmd e c] B(1) d(1) assms(4) by (simp add: node_rm_def)
  qed
  have cmd: "as_cmd q = \<lparr>ac_Resource = name, ac_Events = ac_Events (as_cmd q)\<rparr>" "?cmd = \<lparr>ac_Resource = name, ac_Events = n\<rparr>"
    using assms(5) by simp_all
  have link: "Prober_GetNodeClient (res_NodeID resA) (rm_nodeProber (cd_resMgr ?c)) = Inr (link_client se (as_peer q) nodes d client)"
    using assms(8) i(3) by simp
  have "cl_Allow (link_client se (as_peer q) nodes d client) \<lparr>ac_Resource = name, ac_Events = n\<rparr> =
      Inr \<lparr>ar_Redirected = False, ar_NodeId = d, ar_Ok = ?ok\<rparr>"
    using B(1) unfolding cmd(2) [symmetric] by (simp add: link_client_def grpc_answer_def)
  note this [unfolded n(2)]
  from AllowPbCmd_forwards [OF _ assms(2) _ _ link this, where w = "as_world q"]
  have ask: "AllowPbCmd (as_world q) (as_cmd q) ?c = Inr (Inr \<lparr>ar_Redirected = True, ar_NodeId = d, ar_Ok = ?ok\<rparr>, ?c)"
    using rm_invD(1) [OF i(1)] assms(3,6,7) i(3) cmd(1) n(2) by (simp del: Limiter_Allow.simps)
  obtain a where a: "sw_Get M (rm_store (node_rm nodes ?i)) name = Some a" "rm_res (node_rm nodes ?i) a = resA"
    using assms(6) by (auto simp: rm_view_def rm_res_def split: option.splits)
  have fwd: "forwarded_to (as_world q) (as_cmd q) (node_rm nodes ?i) = Some (d, ?cmd)"
    using a assms(2,3,5,7-9) i(3) by (simp add: forwarded_to_def rm_GetResource_def)
  let ?nodes1 = "nodes(?i := (nodes ?i)\<lparr>gs_cmdDisp := ?c\<rparr>)"
  have own1: "owned M name d b ?nodes1" using i by (intro owned_keep [OF assms(1)]) simp_all
  have "owned M name d (snd (TokenBucket_Allow t n b)) (?nodes1(d := B))"
    by (rule owned_charge [OF own1 inv, where res = res]) (use B(3,4) d(2) res(1) ne in \<open>simp_all add: rm_CurNodeID_def\<close>)
  then show ?thesis using ask fwd B(1) ne assms(5,9) by (simp add: cluster_ask_def granted_def)
qed

section \<open>Any requests\<close>

lemma ask_step:
  assumes "owned M name d b nodes" "name \<noteq> []" "w_M (as_world q) = M" "w_M (as_peer q) = M"
    and "w_now (as_world q) \<le> T" "w_now (as_peer q) \<le> T"
  shows "\<exists>r nodes' rs. cluster_ask se q nodes = Inr (r, nodes') \<and> (\<forall>(t, n) \<in> set rs. t \<le> T) \<and>
    owned M name d (snd (TokenBucket_run rs b)) nodes' \<and> granted name (as_cmd q) r = fst (TokenBucket_run rs b)"
proof -
  let ?n = "ac_count (as_cmd q)"
  have one: ?thesis if "\<exists>r nodes'. cluster_ask se q nodes = Inr (r, nodes') \<and> owned M name d (snd (TokenBucket_Allow t ?n b)) nodes' \<and>
    granted name (as_cmd q) r = (if fst (TokenBucket_Allow t ?n b) then uint ?n else 0)" "t \<le> T" for t
    using that by (auto intro!: exI [of _ "[(t, ?n)]"] simp: run_Cons)
  have zero: ?thesis if "\<exists>r nodes'. cluster_ask se q nodes = Inr (r, nodes') \<and> owned M name d b nodes' \<and> granted name (as_cmd q) r = 0"
    using that by (auto intro!: exI [of _ "[]"])
  show ?thesis
  proof (cases "ac_Resource (as_cmd q) = name")
    case False
    then show ?thesis using ask_other [OF assms(1,3,4)] by (intro zero) blast
  next
    case name: True
    show ?thesis
    proof (cases "as_node q = d")
      case True
      then show ?thesis using ask_owner [OF assms(1-3) name True refl refl] assms(5) by (intro one) blast+
    next
      case False
      show ?thesis
      proof (cases "rm_view M (node_rm nodes (as_node q)) name")
        case None
        then show ?thesis using ask_unknown [OF assms(1,3) name] by (intro zero) blast
      next
        case (Some res)
        have "res_NodeID res = d" "rm_CurNodeID (node_rm nodes (as_node q)) = as_node q"
          using assms(1) Some by (simp_all add: owned_def node_agrees_def)
        then have elsewhere: "\<not> rm_AtSameNode (res_NodeID res) (node_rm nodes (as_node q))"
          using False by (simp add: rm_AtSameNode_def rm_CurNodeID_def)
        show ?thesis
        proof (cases "Prober_GetNodeClient (res_NodeID res) (rm_nodeProber (node_rm nodes (as_node q)))")
          case (Inl e)
          then show ?thesis using ask_unknown [OF assms(1,3) name] Some elsewhere by (intro zero) blast
        next
          case (Inr client)
          show ?thesis using ask_forwarded [OF assms(1-4) name Some elsewhere Inr refl refl] assms(6) by (intro one) blast+
        qed
      qed
    qed
  qed
qed

lemma run_append:
  "TokenBucket_run (rs @ rs') b = (fst (TokenBucket_run rs b) + fst (TokenBucket_run rs' (snd (TokenBucket_run rs b))),
     snd (TokenBucket_run rs' (snd (TokenBucket_run rs b))))"
proof (induction rs arbitrary: b)
  case (Cons r rs)
  obtain t n where r: "r = (t, n)" by (cases r)
  show ?case unfolding r using Cons.IH by (simp add: prod_eq_iff run_Cons)
qed simp

lemma asks_run:
  assumes "name \<noteq> []" "\<forall>q \<in> set qs. w_M (as_world q) = M \<and> w_M (as_peer q) = M \<and> w_now (as_world q) \<le> T \<and> w_now (as_peer q) \<le> T"
  shows "owned M name d b nodes \<Longrightarrow> \<exists>nodes' rs. cluster_asks se name qs nodes = Inr (fst (TokenBucket_run rs b), nodes') \<and>
    (\<forall>(t, n) \<in> set rs. t \<le> T) \<and> owned M name d (snd (TokenBucket_run rs b)) nodes'"
  using assms(2)
proof (induction qs arbitrary: b nodes)
  case Nil
  then show ?case by (auto intro!: exI [of _ "[]"])
next
  case (Cons q qs)
  obtain r nodes1 rs where q: "cluster_ask se q nodes = Inr (r, nodes1)" "\<forall>(t, n) \<in> set rs. t \<le> T"
    "owned M name d (snd (TokenBucket_run rs b)) nodes1" "granted name (as_cmd q) r = fst (TokenBucket_run rs b)"
    using ask_step [OF Cons.prems(1) assms(1), of q T se] Cons.prems(2) by auto
  obtain nodes2 rs' where qs: "cluster_asks se name qs nodes1 = Inr (fst (TokenBucket_run rs' (snd (TokenBucket_run rs b))), nodes2)"
    "\<forall>(t, n) \<in> set rs'. t \<le> T" "owned M name d (snd (TokenBucket_run rs' (snd (TokenBucket_run rs b)))) nodes2"
    using Cons.IH [OF q(3)] Cons.prems(2) by auto
  show ?case
    by (intro exI [of _ nodes2] exI [of _ "rs @ rs'"]) (use q qs in \<open>auto simp: run_append\<close>)
qed

text \<open>
  C2 A cluster enforces the rate.  Clients send any \<^verbatim>\<open>Allow\<close> commands to any nodes, which serve them or forward them
  over gRPC.  As long as the nodes agree on a resource's owner, the events that all nodes together grant for it, plus the
  tokens left in its one bucket, are at most the tokens it had plus one per fill period, up to the rounding of the float
  refills, and every command is answered.
\<close>

theorem cluster_enforces_rate:
  assumes "owned M name d b nodes" "name \<noteq> []"
    and "\<forall>q \<in> set qs. w_M (as_world q) = M \<and> w_M (as_peer q) = M \<and> w_now (as_world q) \<le> T \<and> w_now (as_peer q) \<le> T"
    and "TokenBucket_inv b" "0 < tb_fillPeriod b" "tb_lastFilled b \<le> T"
  shows "\<exists>k nodes' b'. cluster_asks se name qs nodes = Inr (k, nodes') \<and> owned M name d b' nodes' \<and>
    of_int k + tokens b' \<le> tokens b + of_int (T - tb_lastFilled b) / of_int (tb_fillPeriod b) * (1 + 1 / 2 ^ 18)"
proof -
  obtain nodes' rs where run: "cluster_asks se name qs nodes = Inr (fst (TokenBucket_run rs b), nodes')"
    "\<forall>(t, n) \<in> set rs. t \<le> T" "owned M name d (snd (TokenBucket_run rs b)) nodes'"
    using asks_run [OF assms(2,3,1)] by blast
  from run_rate [OF assms(4-6) run(2)] show ?thesis using run(1,3) by blast
qed

text \<open>Nodes that all know the resource of node 2 and have a client for it.\<close>

definition sample_nodes :: "(string \<times> addr) list nodes" where
  "sample_nodes i = newGRPCServer (sample_cfg True) (NewMetrics None) (NewCmdDispatcher 0 (sample_cfg True)
     (rm_putResource alist_swiss ''a'' sample_res (NewResourceManager alist_swiss (sample_cfg True)
       (Some (clusterProber (sample_prober\<lparr>np_curNodeID := i, np_peerClients := \<lparr>pm_clients = [(2, sample_peer)], pm_raftNode = None\<rparr>\<rparr>))))))"

lemma sample_nodes_owned: "owned alist_swiss ''a'' 2 sample_bucket sample_nodes"
proof -
  have inv: "rm_inv alist_swiss (node_rm sample_nodes i)" for i
    using step_inv [OF rm_inv_new [OF alist_swiss_ok], of "OpPut ''a'' sample_res"]
    by (simp add: node_rm_def sample_nodes_def newGRPCServer_def NewCmdDispatcher_def sample_res_def newResource_def)
  have view: "rm_view alist_swiss (node_rm sample_nodes i) = [''a'' \<mapsto> sample_res]" for i
    by (simp add: node_rm_def sample_nodes_def newGRPCServer_def NewCmdDispatcher_def putResource_view rm_wf_new rm_view_new alist_swiss_ok)
  have "rm_CurNodeID (node_rm sample_nodes i) = i" for i
    by (simp add: rm_CurNodeID_def node_rm_def sample_nodes_def newGRPCServer_def NewCmdDispatcher_def put_prober new_prober
        nodeProber_CurNodeID_def sample_prober_def sample_np_def)
  moreover have "res_NodeID sample_res = 2" by (simp add: sample_res_def newResource_def)
  ultimately show ?thesis using inv view sample_res_limiter by (simp add: owned_def node_agrees_def)
qed

definition sample_ask :: "u32 \<Rightarrow> instant \<Rightarrow> instant \<Rightarrow> u32 \<Rightarrow> (string \<times> addr) list ask" where
  "sample_ask i t u n = \<lparr>as_node = i, as_world = sample_world t, as_peer = sample_world u, as_cmd = \<lparr>ac_Resource = ''a'', ac_Events = n\<rparr>\<rparr>"

theorem cluster_enforces_rate_witness:
  "\<exists>k nodes' b'. cluster_asks (\<lambda>_ text. Some text) ''a'' [sample_ask 1 5 6 3, sample_ask 2 150 0 4, sample_ask 9 160 170 8] sample_nodes =
     Inr (k, nodes') \<and> of_int k + tokens b' \<le> 10 + 2 * (1 + 1 / 2 ^ 18)"
  using cluster_enforces_rate [OF sample_nodes_owned, where T = 200 and se = "\<lambda>_ text. Some text"
      and qs = "[sample_ask 1 5 6 3, sample_ask 2 150 0 4, sample_ask 9 160 170 8]"] sample_bucket
  by (simp add: sample_ask_def sample_fields del: cluster_asks.simps) (force simp: sample_bucket_def simp del: cluster_asks.simps)

end
