(* ===== verification/RedirectProperties.thy ===== *)
theory RedirectProperties
  imports ClusterProperties ClientProperties
begin

text \<open>
  A client, the node it asks and the owner of the resource together: what becomes of an \<^verbatim>\<open>Allow\<close> that is sent to
  the wrong node.  The node asked forwards it, the owner decides, and the client, told of the redirection, asks the
  owner again.
\<close>

section \<open>The client's side\<close>

lemma Allow_follows_redirection:
  assumes "getResourceConn N send T name st = Inr (Some a, st0)"
    and "allowCmd send T a name n st0 = Inr (Inr rA, st1)" "ar_Redirected rA"
    and "pool_get (ar_NodeId rA) st1 = Inr c" "tc_logger st1"
    and "allowCmd send T c name n (bindResourceConn c name st1) = Inr (Inr rB, st2)" "\<not> ar_Redirected rB"
  shows "TCPClient_Allow N send T (Suc (Suc m)) name n st = Inr ((ar_Ok rB, None), st2)"
proof -
  have "getResourceConn N send T name (bindResourceConn c name st1) = Inr (Some c, bindResourceConn c name st1)"
    by (simp add: getResourceConn_def bindResourceConn_def pool_upd_def)
  then show ?thesis using assms by (simp add: log_call_def)
qed

section \<open>The owner's side\<close>

text \<open>Two requests for the same number of events while no refill is due.\<close>

lemma charged_twice:
  assumes "TokenBucket_inv b" "t \<le> tb_nextFill b" "t' \<le> tb_nextFill b" "of_int (uint n) \<le> tokens b"
  shows "fst (TokenBucket_Allow t n b)"
    and "fst (TokenBucket_Allow t' n (snd (TokenBucket_Allow t n b))) \<longleftrightarrow> 2 * of_int (uint n) \<le> tokens b"
    and "tokens (snd (TokenBucket_Allow t' n (snd (TokenBucket_Allow t n b)))) =
      tokens b - (if 2 * of_int (uint n) \<le> tokens b then 2 * of_int (uint n) else of_int (uint n))"
proof -
  let ?b = "snd (TokenBucket_Allow t n b)"
  have early: "TokenBucket_fill t b = b" using assms(2) by (simp add: fill_early)
  show ok: "fst (TokenBucket_Allow t n b)" using Allow_cases(1) [OF assms(1), of t n] assms(4) early by simp
  have b: "tokens ?b = tokens b - of_int (uint n)" "TokenBucket_inv ?b"
    using Allow_cases(2,3) [OF assms(1), of t n] ok early by simp_all
  have "tb_nextFill ?b = tb_nextFill b" by (simp add: TokenBucket_Allow_def Let_def early)
  then have early': "TokenBucket_fill t' ?b = ?b" using assms(3) by (simp add: fill_early)
  show again: "fst (TokenBucket_Allow t' n ?b) \<longleftrightarrow> 2 * of_int (uint n) \<le> tokens b"
    using Allow_cases(1) [OF b(2), of t' n] b(1) early' by auto
  show "tokens (snd (TokenBucket_Allow t' n ?b)) =
      tokens b - (if 2 * of_int (uint n) \<le> tokens b then 2 * of_int (uint n) else of_int (uint n))"
    using Allow_cases(2) [OF b(2), of t' n] b(1) early' again by auto
qed

text \<open>What the node asked answers, and then what the owner answers to the same request.\<close>

lemma both_answers:
  assumes "rm_wf (w_M wA) (cd_resMgr A)" "name \<noteq> []" "rm_view (w_M wA) (cd_resMgr A) name = Some resA"
    and "\<not> rm_AtSameNode (res_NodeID resA) (cd_resMgr A)"
    and "Prober_GetNodeClient (res_NodeID resA) (rm_nodeProber (cd_resMgr A)) = Inr client"
    and "\<And>cmd. cl_Allow client cmd = grpc_answer (grpc_Allow se w cmd B)"
    and "rm_wf (w_M w) (cd_resMgr (gs_cmdDisp B))" "rm_view (w_M w) (cd_resMgr (gs_cmdDisp B)) name = Some resB"
    and "rm_AtSameNode (res_NodeID resB) (cd_resMgr (gs_cmdDisp B))" "res_Limiter resB = Some (tokenBucketLimiter b)"
    and "TokenBucket_inv b" "w_now w \<le> tb_nextFill b" "w_now wB \<le> tb_nextFill b" "w_M wB = w_M w"
    and "0 < n" "of_int (uint n) \<le> tokens b"
  shows "AllowPbCmd wA \<lparr>ac_Resource = name, ac_Events = n\<rparr> A =
      Inr (Inr \<lparr>ar_Redirected = True, ar_NodeId = res_NodeID resA, ar_Ok = True\<rparr>, A)"
    and "\<exists>x B' disp b'. grpc_Allow se w \<lparr>ac_Resource = name, ac_Events = n\<rparr> B = Inr (x, B') \<and>
      AllowPbCmd wB \<lparr>ac_Resource = name, ac_Events = n\<rparr> (gs_cmdDisp B') = Inr (Inr
        \<lparr>ar_Redirected = False, ar_NodeId = res_NodeID resB, ar_Ok = 2 * of_int (uint n) \<le> tokens b\<rparr>, disp) \<and>
      rm_view (w_M w) (cd_resMgr disp) name = Some (resB\<lparr>res_Limiter := Some (tokenBucketLimiter b')\<rparr>) \<and>
      tokens b' = tokens b - (if 2 * of_int (uint n) \<le> tokens b then 2 * of_int (uint n) else of_int (uint n))"
proof -
  let ?cmd = "\<lparr>ac_Resource = name, ac_Events = n\<rparr>" and ?b = "snd (TokenBucket_Allow (w_now w) n b)"
  let ?again = "TokenBucket_Allow (w_now wB) n ?b"
  note twice = charged_twice [OF assms(11-13,16)]
  have n: "n \<noteq> 0" "ac_count ?cmd = n" using assms(15) by (auto simp: ac_count_def)
  obtain B' where B': "grpc_Allow se w ?cmd B = Inr ((Some \<lparr>ar_Redirected = False, ar_NodeId = res_NodeID resB, ar_Ok = True\<rparr>, None), B')"
    "rm_wf (w_M wB) (cd_resMgr (gs_cmdDisp B'))"
    "rm_view (w_M wB) (cd_resMgr (gs_cmdDisp B')) name = Some (resB\<lparr>res_Limiter := Some (tokenBucketLimiter ?b)\<rparr>)"
    "rm_nodeProber (cd_resMgr (gs_cmdDisp B')) = rm_nodeProber (cd_resMgr (gs_cmdDisp B))"
    using grpc_Allow_local [of w B ?cmd resB "tokenBucketLimiter b" se] assms(2,7-10,14) n(2) twice(1) by (auto simp: split_beta)
  have "cl_Allow client \<lparr>ac_Resource = name, ac_Events = if n = 0 then 1 else n\<rparr> =
      Inr \<lparr>ar_Redirected = False, ar_NodeId = res_NodeID resB, ar_Ok = True\<rparr>"
    using B'(1) n(1) by (simp add: assms(6) grpc_answer_def)
  from AllowPbCmd_forwards [OF assms(1-5) this]
  show "AllowPbCmd wA ?cmd A = Inr (Inr \<lparr>ar_Redirected = True, ar_NodeId = res_NodeID resA, ar_Ok = True\<rparr>, A)" by simp
  have "rm_AtSameNode (res_NodeID resB) (cd_resMgr (gs_cmdDisp B'))" using assms(9) B'(4) by (simp add: rm_AtSameNode_def)
  then obtain rm' where own: "AllowPbCmd wB ?cmd (gs_cmdDisp B') =
      Inr (Inr \<lparr>ar_Redirected = False, ar_NodeId = res_NodeID resB, ar_Ok = fst ?again\<rparr>, (gs_cmdDisp B')\<lparr>cd_resMgr := rm'\<rparr>)"
    "rm_view (w_M w) rm' name = Some (resB\<lparr>res_Limiter := Some (tokenBucketLimiter (snd ?again))\<rparr>)"
    using AllowPbCmd_local [of wB "gs_cmdDisp B'" ?cmd _ "tokenBucketLimiter ?b"] B'(2,3) assms(2,14) n(2)
    by (fastforce simp: split_beta)
  show "\<exists>x B' disp b'. grpc_Allow se w ?cmd B = Inr (x, B') \<and>
      AllowPbCmd wB ?cmd (gs_cmdDisp B') = Inr (Inr
        \<lparr>ar_Redirected = False, ar_NodeId = res_NodeID resB, ar_Ok = 2 * of_int (uint n) \<le> tokens b\<rparr>, disp) \<and>
      rm_view (w_M w) (cd_resMgr disp) name = Some (resB\<lparr>res_Limiter := Some (tokenBucketLimiter b')\<rparr>) \<and>
      tokens b' = tokens b - (if 2 * of_int (uint n) \<le> tokens b then 2 * of_int (uint n) else of_int (uint n))"
    using B'(1) own twice(2,3) by (intro exI conjI) (assumption | simp)+
qed

text \<open>
  C20 A redirected request is asked twice.  A client asks node A for \<open>n\<close> events of a resource whose token bucket, on
  node B, holds at least \<open>n\<close> tokens, and no refill falls due.  A forwards the request, B grants it and takes \<open>n\<close> tokens.
  The client does not take that answer: it follows the redirection and asks B again.  What it returns is the second
  decision: with \<open>2 n\<close> tokens the events are granted and \<open>2 n\<close> tokens are gone; with fewer, the client refuses the events
  although they were granted and \<open>n\<close> tokens are gone.
\<close>

theorem redirected_request_charged_twice:
  assumes "rm_wf (w_M wA) (cd_resMgr A)" "name \<noteq> []" "rm_view (w_M wA) (cd_resMgr A) name = Some resA"
    and "\<not> rm_AtSameNode (res_NodeID resA) (cd_resMgr A)"
    and "Prober_GetNodeClient (res_NodeID resA) (rm_nodeProber (cd_resMgr A)) = Inr client"
    and "\<And>cmd. cl_Allow client cmd = grpc_answer (grpc_Allow se w cmd B)"
    and "rm_wf (w_M w) (cd_resMgr (gs_cmdDisp B))" "rm_view (w_M w) (cd_resMgr (gs_cmdDisp B)) name = Some resB"
    and "rm_AtSameNode (res_NodeID resB) (cd_resMgr (gs_cmdDisp B))" "res_Limiter resB = Some (tokenBucketLimiter b)"
    and "TokenBucket_inv b" "w_now w \<le> tb_nextFill b" "w_now wB \<le> tb_nextFill b" "w_M wB = w_M w"
    and "0 < n" "of_int (uint n) \<le> tokens b"
    and "getResourceConn N send T name st = Inr (Some a, st0)"
    and "\<And>r. AllowPbCmd wA \<lparr>ac_Resource = name, ac_Events = n\<rparr> A = Inr (Inr r, A) \<Longrightarrow>
          allowCmd send T a name n st0 = Inr (Inr r, st1)"
    and "pool_get (res_NodeID resA) st1 = Inr c" "tc_logger st1"
    and "\<And>x B' r disp. grpc_Allow se w \<lparr>ac_Resource = name, ac_Events = n\<rparr> B = Inr (x, B') \<Longrightarrow>
          AllowPbCmd wB \<lparr>ac_Resource = name, ac_Events = n\<rparr> (gs_cmdDisp B') = Inr (Inr r, disp) \<Longrightarrow>
          allowCmd send T c name n (bindResourceConn c name st1) = Inr (Inr r, st2)"
  shows "TCPClient_Allow N send T (Suc (Suc m)) name n st = Inr ((2 * of_int (uint n) \<le> tokens b, None), st2) \<and>
    AllowPbCmd wA \<lparr>ac_Resource = name, ac_Events = n\<rparr> A =
      Inr (Inr \<lparr>ar_Redirected = True, ar_NodeId = res_NodeID resA, ar_Ok = True\<rparr>, A) \<and>
    (\<exists>x B' r disp b'. grpc_Allow se w \<lparr>ac_Resource = name, ac_Events = n\<rparr> B = Inr (x, B') \<and>
      AllowPbCmd wB \<lparr>ac_Resource = name, ac_Events = n\<rparr> (gs_cmdDisp B') = Inr (Inr r, disp) \<and>
      rm_view (w_M w) (cd_resMgr disp) name = Some (resB\<lparr>res_Limiter := Some (tokenBucketLimiter b')\<rparr>) \<and>
      tokens b' = tokens b - (if 2 * of_int (uint n) \<le> tokens b then 2 * of_int (uint n) else of_int (uint n)))"
proof -
  note answers = both_answers [OF assms(1-16)]
  obtain x B' disp b' where own: "grpc_Allow se w \<lparr>ac_Resource = name, ac_Events = n\<rparr> B = Inr (x, B')"
    "AllowPbCmd wB \<lparr>ac_Resource = name, ac_Events = n\<rparr> (gs_cmdDisp B') = Inr (Inr
        \<lparr>ar_Redirected = False, ar_NodeId = res_NodeID resB, ar_Ok = 2 * of_int (uint n) \<le> tokens b\<rparr>, disp)"
    "rm_view (w_M w) (cd_resMgr disp) name = Some (resB\<lparr>res_Limiter := Some (tokenBucketLimiter b')\<rparr>)"
    "tokens b' = tokens b - (if 2 * of_int (uint n) \<le> tokens b then 2 * of_int (uint n) else of_int (uint n))"
    using answers(2) by blast
  have "TCPClient_Allow N send T (Suc (Suc m)) name n st = Inr ((2 * of_int (uint n) \<le> tokens b, None), st2)"
    using Allow_follows_redirection [OF assms(17) assms(18) [OF answers(1)] _ _ assms(20) assms(21) [OF own(1,2)], where m = m]
      assms(19) by simp
  then show ?thesis using answers(1) own by blast
qed

text \<open>Node 0 is the node a client asks first, node 2 the owner; each connection gives the answer of its node.\<close>

definition answered_Allow :: "AllowCmdResp \<Rightarrow> AllowCmdResp \<Rightarrow> 's cmdFunc" where
  "answered_Allow rA rB a cmdName cmdMsg st = Inr (Inr (enc_AllowCmdResp wire_ts (if a = 0 then rA else rB)), st)"

definition two_conns :: "unit TCPClient" where
  "two_conns = pool_upd (\<lambda>p. p\<lparr>cp_pool := [(0, 0), (2, 1)]\<rparr>) (sample_client ())"

lemma answered_Allow:
  assumes "\<not> cn_mu (tc_heap st a)" "cn_cmdFunc (tc_heap st a)"
  shows "allowCmd (answered_Allow rA rB) wire_ts a name n st = Inr (Inr (if a = 0 then rA else rB), st)"
proof -
  have "AllowCmdResp_Unmarshal wire_ts AllowCmdResp_zero (enc_AllowCmdResp wire_ts r) = Inr r" for r
    by (rule AllowCmdResp.Unmarshal_enc [OF wire_ts_ok])
      (use length_enc_small(1) [of wire_ts r] in \<open>simp_all add: valid_AllowCmdResp_def\<close>)
  moreover have "conn_upd a (\<lambda>c. c\<lparr>cn_mu := False\<rparr>) (conn_upd a (\<lambda>c. c\<lparr>cn_mu := True\<rparr>) st) = st"
    using assms(1) by (simp add: conn_upd_def fun_upd_idem)
  ultimately show ?thesis
    using assms(2) by (simp add: allowCmd_def call_cmd_def Connection_SendCmd_def answered_Allow_def Let_def) (use assms in \<open>simp add: conn_upd_def\<close>)
qed

lemma two_conns:
  "getResourceConn N send T name two_conns = Inr (Some 0, two_conns)" "pool_get 2 two_conns = Inr 1" "tc_logger two_conns"
  "tc_heap two_conns = (\<lambda>_. sample_conn)" "tc_heap (bindResourceConn c name two_conns) = (\<lambda>_. sample_conn)"
  by (simp_all add: two_conns_def pool_upd_def sample_client_def getResourceConn_def getLeaderConn_def pool_get_def
      bindResourceConn_def sample_conn_def eval_nat_numeral)

lemma sample_answers:
  "AllowPbCmd (sample_world 1) \<lparr>ac_Resource = ''a'', ac_Events = 6\<rparr> sample_asker =
     Inr (Inr \<lparr>ar_Redirected = True, ar_NodeId = 2, ar_Ok = True\<rparr>, sample_asker)"
  "grpc_Allow (\<lambda>_ text. Some text) (sample_world 5) \<lparr>ac_Resource = ''a'', ac_Events = 6\<rparr> sample_owner = Inr (x, B') \<Longrightarrow>
     AllowPbCmd (sample_world 6) \<lparr>ac_Resource = ''a'', ac_Events = 6\<rparr> (gs_cmdDisp B') = Inr (Inr r, disp) \<Longrightarrow>
     r = \<lparr>ar_Redirected = False, ar_NodeId = 2, ar_Ok = False\<rparr>"
proof -
  have node: "res_NodeID sample_res = 2" by (simp add: sample_res_def newResource_def)
  note answers = both_answers [OF _ _ _ sample_asker(3,4) sample_peer _ _ sample_owner(3) sample_res_limiter sample_bucket(1),
      of "sample_world 1" "''a''" "sample_world 6" 6, unfolded sample_fields node]
  show "AllowPbCmd (sample_world 1) \<lparr>ac_Resource = ''a'', ac_Events = 6\<rparr> sample_asker =
     Inr (Inr \<lparr>ar_Redirected = True, ar_NodeId = 2, ar_Ok = True\<rparr>, sample_asker)"
    by (rule answers(1)) (simp_all add: sample_asker sample_owner sample_bucket(2))
  assume "grpc_Allow (\<lambda>_ text. Some text) (sample_world 5) \<lparr>ac_Resource = ''a'', ac_Events = 6\<rparr> sample_owner = Inr (x, B')"
    "AllowPbCmd (sample_world 6) \<lparr>ac_Resource = ''a'', ac_Events = 6\<rparr> (gs_cmdDisp B') = Inr (Inr r, disp)"
  then show "r = \<lparr>ar_Redirected = False, ar_NodeId = 2, ar_Ok = False\<rparr>"
    using answers(2) by (simp add: sample_asker sample_owner sample_bucket(2))
qed

theorem redirected_request_charged_twice_witness:
  "\<forall>N. TCPClient_Allow N (answered_Allow \<lparr>ar_Redirected = True, ar_NodeId = 2, ar_Ok = True\<rparr>
     \<lparr>ar_Redirected = False, ar_NodeId = 2, ar_Ok = False\<rparr>) wire_ts (Suc (Suc 0)) ''a'' 6 two_conns =
     Inr ((False, None), bindResourceConn 1 ''a'' two_conns)"
proof
  fix N
  let ?send = "answered_Allow \<lparr>ar_Redirected = True, ar_NodeId = 2, ar_Ok = True\<rparr> \<lparr>ar_Redirected = False, ar_NodeId = 2, ar_Ok = False\<rparr>"
  have node: "res_NodeID sample_res = 2" by (simp add: sample_res_def newResource_def)
  have conns: "allowCmd ?send wire_ts 0 ''a'' 6 two_conns = Inr (Inr \<lparr>ar_Redirected = True, ar_NodeId = 2, ar_Ok = True\<rparr>, two_conns)"
    "allowCmd ?send wire_ts 1 ''a'' 6 (bindResourceConn 1 ''a'' two_conns) =
       Inr (Inr \<lparr>ar_Redirected = False, ar_NodeId = 2, ar_Ok = False\<rparr>, bindResourceConn 1 ''a'' two_conns)"
    by (simp_all add: answered_Allow two_conns(4,5) sample_conn_def)
  have "TCPClient_Allow N ?send wire_ts (Suc (Suc 0)) ''a'' 6 two_conns =
     Inr ((2 * of_int (uint (6 :: u32)) \<le> tokens sample_bucket, None), bindResourceConn 1 ''a'' two_conns)"
  proof (rule conjunct1 [OF redirected_request_charged_twice [where wA = "sample_world 1" and w = "sample_world 5" and
          wB = "sample_world 6" and A = sample_asker and B = sample_owner and resA = sample_res and resB = sample_res and
          client = sample_peer and se = "\<lambda>_ text. Some text" and a = 0 and c = 1 and ?st0.0 = two_conns and ?st1.0 = two_conns]])
    show "cl_Allow sample_peer cmd = grpc_answer (grpc_Allow (\<lambda>_ text. Some text) (sample_world 5) cmd sample_owner)" for cmd
      by (rule sample_peer)
    show "allowCmd ?send wire_ts 1 ''a'' 6 (bindResourceConn 1 ''a'' two_conns) = Inr (Inr r, bindResourceConn 1 ''a'' two_conns)"
      if "grpc_Allow (\<lambda>_ text. Some text) (sample_world 5) \<lparr>ac_Resource = ''a'', ac_Events = 6\<rparr> sample_owner = Inr (x, B')"
        "AllowPbCmd (sample_world 6) \<lparr>ac_Resource = ''a'', ac_Events = 6\<rparr> (gs_cmdDisp B') = Inr (Inr r, disp)" for x B' r disp
      using sample_answers(2) [OF that] conns(2) by simp
  qed (simp_all add: sample_answers(1) conns(1) node sample_fields sample_asker sample_owner sample_asker(3,4) [unfolded node]
      sample_owner(3) [unfolded node] sample_res_limiter sample_bucket two_conns)
  then show "TCPClient_Allow N ?send wire_ts (Suc (Suc 0)) ''a'' 6 two_conns =
     Inr ((False, None), bindResourceConn 1 ''a'' two_conns)"
    by (simp add: sample_bucket(2) del: TCPClient_Allow.simps)
qed

end
