(* ===== verification/Logging.thy ===== *)
theory Logging
  imports Config CmdErr "HOL-Library.Sublist"
begin

text \<open>
  The loggers (\<^verbatim>\<open>internal/logging\<close>): the level a configuration names, the two loggers made from it, and
  the functions that call them.  The zap library is outside: a logger is described by what it was made of, and
  \<open>zap_Log\<close> is what the library does with a line of a level, on a state \<open>'z\<close>; it may panic, and it may end
  the process, for which a run has an exit code.
\<close>

section \<open>Levels\<close>

datatype LogLevel =
  DebugLevel | InfoLevel | WarnLevel | ErrorLevel | DPanicLevel | PanicLevel | FatalLevel | InvalidLevel

text \<open>\<^verbatim>\<open>strings.ToLower\<close> on ASCII text.\<close>

definition ToLower :: "string \<Rightarrow> string" where
  "ToLower s = map (\<lambda>c. if 65 \<le> (of_char c :: nat) \<and> (of_char c :: nat) \<le> 90 then char_of (of_char c + 32 :: nat) else c) s"

definition zapLogLevel :: "string \<Rightarrow> LogLevel" where
  "zapLogLevel level =
     (let l = ToLower level
      in if l = ''debug'' then DebugLevel
         else if l = ''info'' then InfoLevel
         else if l = ''warn'' \<or> l = ''warning'' then WarnLevel
         else if l = ''error'' then ErrorLevel
         else if l = ''dpanic'' then DPanicLevel
         else if l = ''panic'' then PanicLevel
         else if l = ''fatal'' then FatalLevel
         else InfoLevel)"

section \<open>Loggers\<close>

text \<open>
  How a logger was made: the encoder of its core, one constructor for each configuration, with what decides on the
  level, the package's variable or a level fixed at the time; or a core that drops everything, or a nil core, for
  which zap makes a logger that drops everything too.
\<close>

datatype level_enabler = AtomicLevel | FixedLevel LogLevel

datatype log_core =
  NilCore
| NopCore
| ProductionJSON level_enabler
| PrettyConsole level_enabler
| TestJSON level_enabler

datatype zap_option = WithCaller bool | AddCallerSkip nat | AddStacktrace LogLevel

record SugaredLogger =
  sl_core :: log_core
  sl_opts :: "zap_option list"

text \<open>The variables of the package.\<close>

record raftLogger =
  rl_logger :: SugaredLogger
  rl_lv :: LogLevel

record log_vars =
  defLogger :: "SugaredLogger option"
  defLevelEnabler :: LogLevel
  defRaftLogger :: "raftLogger option"

definition initDefLogger :: "LogLevel \<Rightarrow> string \<Rightarrow> zap_option list \<Rightarrow> log_vars \<Rightarrow> log_vars" where
  "initDefLogger level env extraOpts v =
     (let (core, opts) =
            (if env = ''production'' then (ProductionJSON AtomicLevel, [])
             else if env = ''development'' \<or> env = ''mock'' then
               (PrettyConsole AtomicLevel, [WithCaller True, AddCallerSkip 1, AddStacktrace ErrorLevel])
             else if env = ''test'' then (TestJSON AtomicLevel, [WithCaller True])
             else (NilCore, []))
      in v\<lparr>defLevelEnabler := level, defLogger := Some \<lparr>sl_core = core, sl_opts = opts @ extraOpts\<rparr>\<rparr>)"

definition logging_Init :: "Config \<Rightarrow> log_vars \<Rightarrow> SugaredLogger option \<times> log_vars" where
  "logging_Init cfg v =
     (let v = initDefLogger (zapLogLevel (cf_LogLevel cfg)) (cf_Env cfg) [] v in (defLogger v, v))"

definition logging_Default :: "log_vars \<Rightarrow> SugaredLogger option" where
  "logging_Default v = defLogger v"

definition logging_SetLevel :: "LogLevel \<Rightarrow> log_vars \<Rightarrow> log_vars" where
  "logging_SetLevel level v = v\<lparr>defLevelEnabler := level\<rparr>"

definition newRaftNopLogger :: raftLogger where
  "newRaftNopLogger = \<lparr>rl_logger = \<lparr>sl_core = NopCore, sl_opts = []\<rparr>, rl_lv = FatalLevel\<rparr>"

definition newRaftLogger :: "LogLevel \<Rightarrow> string \<Rightarrow> zap_option list \<Rightarrow> raftLogger" where
  "newRaftLogger level env extraOpts =
     (let (core, opts) =
            (if env = ''production'' \<or> env = ''benchmark'' then (NopCore, [])
             else if env = ''development'' \<or> env = ''mock'' then (PrettyConsole (FixedLevel level), [WithCaller False, AddStacktrace ErrorLevel])
             else if env = ''test'' then (TestJSON (FixedLevel level), [WithCaller True])
             else (NilCore, []))
      in \<lparr>rl_logger = \<lparr>sl_core = core, sl_opts = opts @ extraOpts\<rparr>, rl_lv = level\<rparr>)"

definition RaftLogger :: "Config \<Rightarrow> bool \<Rightarrow> log_vars \<Rightarrow> raftLogger \<times> log_vars" where
  "RaftLogger cfg enabled v =
     (if \<not> enabled then (newRaftNopLogger, v)
      else case defRaftLogger v of
             Some l \<Rightarrow> (l, v)
           | None \<Rightarrow>
               (let l = newRaftLogger (zapLogLevel (cf_LogLevel cfg)) (cf_Env cfg) [] in (l, v\<lparr>defRaftLogger := Some l\<rparr>)))"

section \<open>Lines\<close>

text \<open>The arguments of the three kinds of calls, kept as they are given.\<close>

datatype log_line = Line "fmt_arg list" | Linef string "fmt_arg list" | Linew string "fmt_arg list"

text \<open>A run returns, or fails, or ends the process with a code.\<close>

type_synonym 'a run = "(nat + 'a) res"

record 'z zap_ops =
  zap_Log :: "SugaredLogger \<Rightarrow> LogLevel \<Rightarrow> log_line \<Rightarrow> 'z \<Rightarrow> 'z run"
  zap_Level :: "SugaredLogger \<Rightarrow> LogLevel"

text \<open>What zap documents: a fatal line exits with code 1, a line at the panic level panics, lines below return.\<close>

definition zap_ok :: "'z zap_ops \<Rightarrow> bool" where
  "zap_ok Z \<longleftrightarrow> (\<forall>l x z. zap_Log Z l FatalLevel x z = Inr (Inl 1) \<and> (\<exists>s. zap_Log Z l PanicLevel x z = Inl (Panic s)) \<and>
     (\<forall>lv \<in> {DebugLevel, InfoLevel, WarnLevel, ErrorLevel}. \<exists>z'. zap_Log Z l lv x z = Inr (Inr z')))"

definition log_at :: "'z zap_ops \<Rightarrow> log_vars \<Rightarrow> LogLevel \<Rightarrow> log_line \<Rightarrow> 'z \<Rightarrow> 'z run" where
  "log_at Z v level x z = (case defLogger v of None \<Rightarrow> Inr (Inr z) | Some l \<Rightarrow> zap_Log Z l level x z)"

definition log_Level :: "'z zap_ops \<Rightarrow> log_vars \<Rightarrow> LogLevel" where
  "log_Level Z v = (case defLogger v of Some l \<Rightarrow> zap_Level Z l | None \<Rightarrow> InvalidLevel)"

definition log_Debug :: "'z zap_ops \<Rightarrow> log_vars \<Rightarrow> fmt_arg list \<Rightarrow> 'z \<Rightarrow> 'z run" where
  "log_Debug Z v args = log_at Z v DebugLevel (Line args)"

definition log_Info :: "'z zap_ops \<Rightarrow> log_vars \<Rightarrow> fmt_arg list \<Rightarrow> 'z \<Rightarrow> 'z run" where
  "log_Info Z v args = log_at Z v InfoLevel (Line args)"

definition log_Warn :: "'z zap_ops \<Rightarrow> log_vars \<Rightarrow> fmt_arg list \<Rightarrow> 'z \<Rightarrow> 'z run" where
  "log_Warn Z v args = log_at Z v WarnLevel (Line args)"

definition log_Error :: "'z zap_ops \<Rightarrow> log_vars \<Rightarrow> fmt_arg list \<Rightarrow> 'z \<Rightarrow> 'z run" where
  "log_Error Z v args = log_at Z v ErrorLevel (Line args)"

definition log_DPanic :: "'z zap_ops \<Rightarrow> log_vars \<Rightarrow> fmt_arg list \<Rightarrow> 'z \<Rightarrow> 'z run" where
  "log_DPanic Z v args = log_at Z v DPanicLevel (Line args)"

definition log_Panic :: "'z zap_ops \<Rightarrow> log_vars \<Rightarrow> fmt_arg list \<Rightarrow> 'z \<Rightarrow> 'z run" where
  "log_Panic Z v args = log_at Z v PanicLevel (Line args)"

definition log_Fatal :: "'z zap_ops \<Rightarrow> log_vars \<Rightarrow> fmt_arg list \<Rightarrow> 'z \<Rightarrow> 'z run" where
  "log_Fatal Z v args = log_at Z v FatalLevel (Line args)"

definition log_Debugf :: "'z zap_ops \<Rightarrow> log_vars \<Rightarrow> string \<Rightarrow> fmt_arg list \<Rightarrow> 'z \<Rightarrow> 'z run" where
  "log_Debugf Z v template args = log_at Z v DebugLevel (Linef template args)"

definition log_Infof :: "'z zap_ops \<Rightarrow> log_vars \<Rightarrow> string \<Rightarrow> fmt_arg list \<Rightarrow> 'z \<Rightarrow> 'z run" where
  "log_Infof Z v template args = log_at Z v InfoLevel (Linef template args)"

definition log_Warnf :: "'z zap_ops \<Rightarrow> log_vars \<Rightarrow> string \<Rightarrow> fmt_arg list \<Rightarrow> 'z \<Rightarrow> 'z run" where
  "log_Warnf Z v template args = log_at Z v WarnLevel (Linef template args)"

definition log_Errorf :: "'z zap_ops \<Rightarrow> log_vars \<Rightarrow> string \<Rightarrow> fmt_arg list \<Rightarrow> 'z \<Rightarrow> 'z run" where
  "log_Errorf Z v template args = log_at Z v ErrorLevel (Linef template args)"

definition log_DPanicf :: "'z zap_ops \<Rightarrow> log_vars \<Rightarrow> string \<Rightarrow> fmt_arg list \<Rightarrow> 'z \<Rightarrow> 'z run" where
  "log_DPanicf Z v template args = log_at Z v DPanicLevel (Linef template args)"

definition log_Panicf :: "'z zap_ops \<Rightarrow> log_vars \<Rightarrow> string \<Rightarrow> fmt_arg list \<Rightarrow> 'z \<Rightarrow> 'z run" where
  "log_Panicf Z v template args = log_at Z v PanicLevel (Linef template args)"

definition log_Fatalf :: "'z zap_ops \<Rightarrow> log_vars \<Rightarrow> string \<Rightarrow> fmt_arg list \<Rightarrow> 'z \<Rightarrow> 'z run" where
  "log_Fatalf Z v template args = log_at Z v FatalLevel (Linef template args)"

definition log_Debugw :: "'z zap_ops \<Rightarrow> log_vars \<Rightarrow> string \<Rightarrow> fmt_arg list \<Rightarrow> 'z \<Rightarrow> 'z run" where
  "log_Debugw Z v msg keysAndValues = log_at Z v DebugLevel (Linew msg keysAndValues)"

definition log_Infow :: "'z zap_ops \<Rightarrow> log_vars \<Rightarrow> string \<Rightarrow> fmt_arg list \<Rightarrow> 'z \<Rightarrow> 'z run" where
  "log_Infow Z v msg keysAndValues = log_at Z v InfoLevel (Linew msg keysAndValues)"

definition log_Warnw :: "'z zap_ops \<Rightarrow> log_vars \<Rightarrow> string \<Rightarrow> fmt_arg list \<Rightarrow> 'z \<Rightarrow> 'z run" where
  "log_Warnw Z v msg keysAndValues = log_at Z v WarnLevel (Linew msg keysAndValues)"

definition log_Errorw :: "'z zap_ops \<Rightarrow> log_vars \<Rightarrow> string \<Rightarrow> fmt_arg list \<Rightarrow> 'z \<Rightarrow> 'z run" where
  "log_Errorw Z v msg keysAndValues = log_at Z v ErrorLevel (Linew msg keysAndValues)"

definition log_DPanicw :: "'z zap_ops \<Rightarrow> log_vars \<Rightarrow> string \<Rightarrow> fmt_arg list \<Rightarrow> 'z \<Rightarrow> 'z run" where
  "log_DPanicw Z v msg keysAndValues = log_at Z v DPanicLevel (Linew msg keysAndValues)"

definition log_Panicw :: "'z zap_ops \<Rightarrow> log_vars \<Rightarrow> string \<Rightarrow> fmt_arg list \<Rightarrow> 'z \<Rightarrow> 'z run" where
  "log_Panicw Z v msg keysAndValues = log_at Z v PanicLevel (Linew msg keysAndValues)"

definition log_Fatalw :: "'z zap_ops \<Rightarrow> log_vars \<Rightarrow> string \<Rightarrow> fmt_arg list \<Rightarrow> 'z \<Rightarrow> 'z run" where
  "log_Fatalw Z v msg keysAndValues = log_at Z v FatalLevel (Linew msg keysAndValues)"

section \<open>The logger of the raft library\<close>

text \<open>\<^verbatim>\<open>V\<close> gives a logger for a verbosity; it reports itself enabled at every one.\<close>

record verbose =
  vb_logger :: raftLogger
  vb_lv :: int

definition raft_V :: "raftLogger \<Rightarrow> int \<Rightarrow> verbose" where
  "raft_V l lv = \<lparr>vb_logger = l, vb_lv = lv\<rparr>"

definition raft_Warning :: "'z zap_ops \<Rightarrow> raftLogger \<Rightarrow> fmt_arg list \<Rightarrow> 'z \<Rightarrow> 'z run" where
  "raft_Warning Z l v = zap_Log Z (rl_logger l) WarnLevel (Line v)"

definition raft_Warningf :: "'z zap_ops \<Rightarrow> raftLogger \<Rightarrow> string \<Rightarrow> fmt_arg list \<Rightarrow> 'z \<Rightarrow> 'z run" where
  "raft_Warningf Z l format v = zap_Log Z (rl_logger l) WarnLevel (Linef format v)"

text \<open>The complaints about members that cannot be reached are left out.\<close>

definition raft_Errorf :: "'z zap_ops \<Rightarrow> raftLogger \<Rightarrow> string \<Rightarrow> fmt_arg list \<Rightarrow> 'z \<Rightarrow> 'z run" where
  "raft_Errorf Z l format v z =
     (if prefix ''raft.membership: sending message to member'' format then Inr (Inr z)
      else zap_Log Z (rl_logger l) ErrorLevel (Linef format v) z)"

definition verbose_Enabled :: "verbose \<Rightarrow> bool" where
  "verbose_Enabled ver = True"

definition verbose_Error :: "'z zap_ops \<Rightarrow> verbose \<Rightarrow> fmt_arg list \<Rightarrow> 'z \<Rightarrow> 'z run" where
  "verbose_Error Z ver v z = (if verbose_Enabled ver then zap_Log Z (rl_logger (vb_logger ver)) ErrorLevel (Line v) z else Inr (Inr z))"

definition verbose_Errorf :: "'z zap_ops \<Rightarrow> verbose \<Rightarrow> string \<Rightarrow> fmt_arg list \<Rightarrow> 'z \<Rightarrow> 'z run" where
  "verbose_Errorf Z ver format v z = (if verbose_Enabled ver then raft_Errorf Z (vb_logger ver) format v z else Inr (Inr z))"

definition verbose_Warning :: "'z zap_ops \<Rightarrow> verbose \<Rightarrow> fmt_arg list \<Rightarrow> 'z \<Rightarrow> 'z run" where
  "verbose_Warning Z ver v z = (if verbose_Enabled ver then zap_Log Z (rl_logger (vb_logger ver)) WarnLevel (Line v) z else Inr (Inr z))"

definition verbose_Warningf :: "'z zap_ops \<Rightarrow> verbose \<Rightarrow> string \<Rightarrow> fmt_arg list \<Rightarrow> 'z \<Rightarrow> 'z run" where
  "verbose_Warningf Z ver format v z = (if verbose_Enabled ver then zap_Log Z (rl_logger (vb_logger ver)) WarnLevel (Linef format v) z else Inr (Inr z))"

definition verbose_Info :: "'z zap_ops \<Rightarrow> verbose \<Rightarrow> fmt_arg list \<Rightarrow> 'z \<Rightarrow> 'z run" where
  "verbose_Info Z ver v z = (if verbose_Enabled ver then zap_Log Z (rl_logger (vb_logger ver)) InfoLevel (Line v) z else Inr (Inr z))"

definition verbose_Infof :: "'z zap_ops \<Rightarrow> verbose \<Rightarrow> string \<Rightarrow> fmt_arg list \<Rightarrow> 'z \<Rightarrow> 'z run" where
  "verbose_Infof Z ver format v z = (if verbose_Enabled ver then zap_Log Z (rl_logger (vb_logger ver)) InfoLevel (Linef format v) z else Inr (Inr z))"

end
