(* ===== verification/Service.thy ===== *)
theory Service
  imports Server Cluster Logging ConfigText
begin

text \<open>
  The API server's lifecycle (\<^verbatim>\<open>internal/server/api/server.go\<close>) and the program: how its parts are made
  (\<^verbatim>\<open>cmd/ratecat/wire_gen.go\<close>) and run (\<^verbatim>\<open>cmd/ratecat/main.go\<close>).  The parts share one
  dispatcher, which is the event handler's here; the cluster server's operations are given its manager.
\<close>

section \<open>The API server\<close>

text \<open>\<open>sv_ready\<close> is the content of the channel, which has room for one value.\<close>

record 'm ApiServer =
  sv_cfg :: Config
  sv_evtHandler :: "'m tcpEventHandler"
  sv_ready :: "bool list"

definition api_NewServer :: "Config \<Rightarrow> 'm CmdDispatcher \<Rightarrow> Metrics \<Rightarrow> string + 'm ApiServer" where
  "api_NewServer cfg disp mt =
     (if u_Scheme (cf_ApiListenUrl cfg) = ''tcp'' then
        Inr \<lparr>sv_cfg = cfg, sv_evtHandler = newTCPEventHandler cfg disp mt, sv_ready = []\<rparr>
      else Inl (sprintf ''Invalid listen address: %s, unknown protocol: %s''
        [FStr (u_String (cf_ApiListenUrl cfg)), FStr (u_Scheme (cf_ApiListenUrl cfg))]))"

text \<open>The event loop's callbacks: a send that has to wait is \<open>Blocked\<close>.\<close>

definition ready_send :: "bool \<Rightarrow> 'm ApiServer \<Rightarrow> 'm ApiServer res" where
  "ready_send b sv = (if length (sv_ready sv) < 1 then Inr (sv\<lparr>sv_ready := sv_ready sv @ [b]\<rparr>) else Inl Blocked)"

definition tcp_OnBoot :: "'m ApiServer \<Rightarrow> (gnet_Action \<times> 'm ApiServer) res" where
  "tcp_OnBoot sv = bindR (ready_send True sv) (\<lambda>sv. Inr (gnet_None, sv))"

text \<open>\<open>Run\<close> stands for \<^verbatim>\<open>gnet.Run\<close>, which returns when the engine stops; it may call \<^verbatim>\<open>OnBoot\<close> before.\<close>

definition api_Start :: "('m ApiServer \<Rightarrow> string \<Rightarrow> (string option \<times> 'm ApiServer) res) \<Rightarrow> 'm ApiServer \<Rightarrow> (string option \<times> 'm ApiServer) res" where
  "api_Start Run sv = Run sv (u_String (cf_ApiListenUrl (sv_cfg sv)))"

text \<open>The goroutine of \<^verbatim>\<open>StartAsync\<close>.\<close>

definition bindX :: "'a run \<Rightarrow> ('a \<Rightarrow> 'b run) \<Rightarrow> 'b run" where
  "bindX r k = bindR r (\<lambda>x. case x of Inl code \<Rightarrow> Inr (Inl code) | Inr a \<Rightarrow> k a)"

definition api_StartAsync :: "'z zap_ops \<Rightarrow> log_vars \<Rightarrow> ('m ApiServer \<Rightarrow> string \<Rightarrow> (string option \<times> 'm ApiServer) res) \<Rightarrow>
  'm ApiServer \<Rightarrow> 'z \<Rightarrow> ('m ApiServer \<times> 'z) run" where
  "api_StartAsync Z v Run sv z =
     bindX (log_Debugw Z v ''starting server async'' [FStr ''addr'', FStr (u_String (cf_ApiListenUrl (sv_cfg sv)))] z) (\<lambda>z.
     bindR (api_Start Run sv) (\<lambda>(err, sv).
       case err of
         None \<Rightarrow> Inr (Inr (sv, z))
       | Some err \<Rightarrow>
           bindX (log_Fatalw Z v ''Failed to start server'' [FStr ''error'', FStr err] z) (\<lambda>z.
             bindR (ready_send False sv) (\<lambda>sv. Inr (Inr (sv, z))))))"

definition api_Stop :: "(string \<Rightarrow> string option) \<Rightarrow> 'm ApiServer \<Rightarrow> string option" where
  "api_Stop gnetStop sv = gnetStop (u_String (cf_ApiListenUrl (sv_cfg sv)))"

text \<open>A value in the channel is taken; without one until the deadline, the answer is no.\<close>

definition api_WaitReady :: "'m ApiServer \<Rightarrow> bool \<times> 'm ApiServer" where
  "api_WaitReady sv = (case sv_ready sv of v # vs \<Rightarrow> (v, sv\<lparr>sv_ready := vs\<rparr>) | [] \<Rightarrow> (False, sv))"

section \<open>Making the parts\<close>

definition provideMetrics :: "Config \<Rightarrow> Metrics" where
  "provideMetrics cfg =
     NewMetrics (Some (if \<not> cf_MetricsEnabled cfg then NullMetricBackend
       else if Config_IsDevEnv cfg then LogMetricBackend else NullMetricBackend))"

record 'm serviceSet =
  ss_API :: "'m ApiServer"
  ss_Cluster :: ClusterServer

text \<open>The manager as the cluster server left it is the one the dispatcher holds.\<close>

definition initServices :: "'m swiss_ops \<Rightarrow> dialer \<Rightarrow> (string \<Rightarrow> byte list) \<Rightarrow> raft_node \<Rightarrow> instant \<Rightarrow> Config \<Rightarrow> (string + 'm serviceSet) res" where
  "initServices M dial sha newNode now cfg =
     (let metrics = provideMetrics cfg
      in bindR (NewNodeProber dial sha cfg) (\<lambda>np.
         let resourceManager = NewResourceManager M (np_cfg np) (Some (clusterProber np))
         in bindR (Cluster_NewServer sha newNode (np_cfg np) resourceManager) (\<lambda>(clusterServer, resourceManager).
            let cmdDispatcher = NewCmdDispatcher now (np_cfg np) resourceManager
            in case api_NewServer (np_cfg np) cmdDispatcher metrics of
                 Inl err \<Rightarrow> Inr (Inl err)
               | Inr server \<Rightarrow> Inr (Inr \<lparr>ss_API = server, ss_Cluster = clusterServer\<rparr>))))"

section \<open>The program\<close>

text \<open>
  What the run of the program meets: the surroundings of the wait for the cluster, what the goroutines started have
  made of the API server when it is waited for, unless they have ended the process, and what it has become at the signal,
  and the answers of the two stops.  Of the log lines those that can end the process are kept.
\<close>

record 'm main_env =
  me_turns :: nat
  me_cluster :: "nat \<Rightarrow> cluster_env"
  me_started :: "'m ApiServer \<Rightarrow> 'm ApiServer run"
  me_served :: "'m ApiServer \<Rightarrow> 'm ApiServer"
  me_gnetStop :: "string \<Rightarrow> string option"
  me_Shutdown :: "raft_node \<Rightarrow> string option"

definition sv_resMgr :: "'m ApiServer \<Rightarrow> 'm ResourceManager" where
  "sv_resMgr sv = cd_resMgr (h_disp (sv_evtHandler sv))"

definition sv_with_resMgr :: "'m ResourceManager \<Rightarrow> 'm ApiServer \<Rightarrow> 'm ApiServer" where
  "sv_with_resMgr rm sv =
     sv\<lparr>sv_evtHandler := (sv_evtHandler sv)\<lparr>h_disp := (h_disp (sv_evtHandler sv))\<lparr>cd_resMgr := rm\<rparr>\<rparr>\<rparr>"

text \<open>A fatal line, and the exit that follows it in case the line returns.\<close>

definition exit_fatal :: "'z zap_ops \<Rightarrow> log_vars \<Rightarrow> string \<Rightarrow> 'z \<Rightarrow> 'b run" where
  "exit_fatal Z v msg z = bindX (log_Fatalw Z v msg [] z) (\<lambda>z. Inr (Inl 1))"

definition main_stop :: "'z zap_ops \<Rightarrow> log_vars \<Rightarrow> 'm main_env \<Rightarrow> Config \<Rightarrow> ClusterServer \<Rightarrow> 'm ApiServer \<Rightarrow> 'z \<Rightarrow> 'z run" where
  "main_stop Z v E cfg clusterServer apiServer z =
     bindX (case api_Stop (me_gnetStop E) apiServer of
              Some err \<Rightarrow> log_Fatalw Z v ''Server shutdown timed out'' [FStr ''error'', FStr err] z
            | None \<Rightarrow> Inr (Inr z)) (\<lambda>z.
     bindX (if \<not> cc_Enabled (cf_Cluster cfg) then Inr (Inr z)
            else bindR (Cluster_Stop (me_Shutdown E) clusterServer (sv_resMgr apiServer)) (\<lambda>(err, rm).
              case err of
                Some err \<Rightarrow> log_Fatalw Z v ''Cluster shutdown timed out'' [FStr ''error'', FStr err] z
              | None \<Rightarrow> Inr (Inr z))) (\<lambda>z. Inr (Inr z)))"

definition main_serve :: "'z zap_ops \<Rightarrow> log_vars \<Rightarrow> 'm main_env \<Rightarrow> Config \<Rightarrow> 'm serviceSet \<Rightarrow> 'z \<Rightarrow> 'z run" where
  "main_serve Z v E cfg services z =
     (let clusterServer = ss_Cluster services
      in bindR (Cluster_StartAsync clusterServer (sv_resMgr (ss_API services))) (\<lambda>rm.
         bindX (me_started E (sv_with_resMgr rm (ss_API services))) (\<lambda>apiServer.
         bindR (if \<not> cc_Enabled (cf_Cluster cfg) then Inr (True, sv_resMgr apiServer)
                else Cluster_WaitReady (me_turns E) (me_cluster E) clusterServer (sv_resMgr apiServer)) (\<lambda>(ready, rm).
           if \<not> ready then exit_fatal Z v ''Failed to start cluster server'' z
           else
             let (ready, apiServer) = api_WaitReady (sv_with_resMgr rm apiServer)
             in if \<not> ready then exit_fatal Z v ''Failed to start API server'' z
                else main_stop Z v E cfg clusterServer (me_served E apiServer) z))))"

text \<open>\<^verbatim>\<open>init\<close>: without a configuration the process ends.\<close>

definition main_init :: "string + Config \<Rightarrow> log_vars \<Rightarrow> (Config \<times> log_vars) run" where
  "main_init env v =
     (case config_Init env of
        Inl err \<Rightarrow> Inr (Inl 1)
      | Inr cfg \<Rightarrow> Inr (Inr (cfg, snd (logging_Init cfg v))))"

text \<open>The services are used before the error is looked at; on an error they are a nil pointer.\<close>

definition ratecat_main :: "'z zap_ops \<Rightarrow> 'm swiss_ops \<Rightarrow> dialer \<Rightarrow> (string \<Rightarrow> byte list) \<Rightarrow> raft_node \<Rightarrow> instant \<Rightarrow> Config \<Rightarrow>
  log_vars \<Rightarrow> 'm main_env \<Rightarrow> 'z \<Rightarrow> 'z run" where
  "ratecat_main Z M dial sha newNode now cfg v E z =
     bindR (initServices M dial sha newNode now cfg) (\<lambda>r.
       case r of
         Inl err \<Rightarrow> Inl nil_deref
       | Inr services \<Rightarrow> main_serve Z v E cfg services z)"

end
