(* ===== verification/TestCluster.thy ===== *)
theory TestCluster
  imports Service
begin

text \<open>
  The clusters that the tests run (\<^verbatim>\<open>internal/testutil/cluster_util.go\<close>): several nodes in one process,
  each made of the parts of the program with a configuration of its own.  The metrics, the dispatcher, the manager
  and the prober of a node are those its API server reaches; the cluster server is given its manager, as in the
  program.  Identifiers are Go integers, whose sums wrap.
\<close>

section \<open>One node\<close>

record 'm ClusterInfo =
  ci_NodeID :: u32
  ci_NodeName :: string
  ci_APIServer :: "'m ApiServer"
  ci_APIServerHost :: string
  ci_ClusterServer :: ClusterServer
  ci_StateDir :: string
  ci_id :: int
  ci_peerIDs :: "int list"
  ci_stopped :: bool

definition ci_ResMgr :: "'m ClusterInfo \<Rightarrow> 'm ResourceManager" where
  "ci_ResMgr ci = sv_resMgr (ci_APIServer ci)"

definition ci_with_resMgr :: "'m ResourceManager \<Rightarrow> 'm ClusterInfo \<Rightarrow> 'm ClusterInfo" where
  "ci_with_resMgr rm ci = ci\<lparr>ci_APIServer := sv_with_resMgr rm (ci_APIServer ci)\<rparr>"

text \<open>
  What a node is made with: the libraries' operations, the default configuration, the raft node that the library
  makes for a configuration, and what the goroutine of the API server has made of it when it is looked at, unless
  it has ended the process.
\<close>

record 'm test_env =
  te_Parse :: "string \<Rightarrow> string + URL"
  te_swiss :: "'m swiss_ops"
  te_dial :: dialer
  te_sha :: "string \<Rightarrow> byte list"
  te_NewNode :: "Config \<Rightarrow> raft_node"
  te_now :: instant
  te_default :: Config
  te_started :: "'m ApiServer \<Rightarrow> 'm ApiServer run"
  te_gnetStop :: "string \<Rightarrow> string option"
  te_Shutdown :: "raft_node \<Rightarrow> string option"

definition node_address :: "int \<Rightarrow> string" where
  "node_address nid = sprintf ''tcp://node%d@127.0.0.1:%d'' [FInt nid, FInt (wrap64 (15000 + nid))]"

text \<open>The configuration is a shallow copy of the default one; errors of the addresses are ignored.\<close>

definition node_config :: "'m test_env \<Rightarrow> int \<Rightarrow> int list \<Rightarrow> Config" where
  "node_config E nid peerIDs =
     (let cfg = te_default E; ct = cf_Cluster cfg
      in cfg\<lparr>cf_ApiListenUrl :=
               snd (URL_Decode (te_Parse E) (sprintf ''tcp://0.0.0.0:%d'' [FInt (wrap64 (14000 + nid))]) (cf_ApiListenUrl cfg)),
             cf_ApiAdvertiseUrl :=
               snd (URL_Decode (te_Parse E) (sprintf ''tcp://127.0.0.1:%d'' [FInt (wrap64 (14000 + nid))]) (cf_ApiAdvertiseUrl cfg)),
             cf_Cluster := ct\<lparr>cc_Enabled := True,
               cc_StateDir := sprintf ''/tmp/test_rc%d'' [FInt nid],
               cc_Url := snd (URL_Decode (te_Parse E) (node_address nid) (cc_Url ct)),
               cc_PeerUrls := cc_PeerUrls ct @ map (\<lambda>peerID. snd (ParseURL (te_Parse E) (node_address peerID))) peerIDs\<rparr>\<rparr>)"

text \<open>The dispatcher shares the manager that the cluster server gives its node to.\<close>

definition InitClusterServer :: "'m test_env \<Rightarrow> int \<Rightarrow> int list \<Rightarrow> (string + 'm ClusterInfo) res" where
  "InitClusterServer E nid peerIDs =
     (let metrics = NewMetrics (Some NullMetricBackend)
      in bindR (NewNodeProber (te_dial E) (te_sha E) (node_config E nid peerIDs)) (\<lambda>np.
         let cfg = np_cfg np;
             disp = NewCmdDispatcher (te_now E) cfg (NewResourceManager (te_swiss E) cfg (Some (clusterProber np)))
         in bindR (Cluster_NewServer (te_sha E) (te_NewNode E cfg) cfg (cd_resMgr disp)) (\<lambda>(cluster, resMgr).
            let disp = disp\<lparr>cd_resMgr := resMgr\<rparr>
            in case api_NewServer cfg disp metrics of
                 Inl err \<Rightarrow> Inr (Inl err)
               | Inr api \<Rightarrow>
                   Inr (Inr \<lparr>ci_NodeID = rm_CurNodeID resMgr, ci_NodeName = rm_CurNodeName resMgr, ci_APIServer = api,
                     ci_APIServerHost = u_Host (cf_ApiAdvertiseUrl cfg), ci_ClusterServer = cluster,
                     ci_StateDir = cc_StateDir (cf_Cluster cfg), ci_id = nid, ci_peerIDs = peerIDs, ci_stopped = False\<rparr>))))"

text \<open>A stopped node is made anew in its place.\<close>

definition ci_restarted :: "'m test_env \<Rightarrow> 'm ClusterInfo \<Rightarrow> (string + 'm ClusterInfo) res" where
  "ci_restarted E ci =
     (if ci_stopped ci then
        bindR (InitClusterServer E (ci_id ci) (ci_peerIDs ci)) (\<lambda>r.
          Inr (case r of Inl err \<Rightarrow> Inl err | Inr newCluster \<Rightarrow> Inr (newCluster\<lparr>ci_stopped := False\<rparr>)))
      else Inr (Inr ci))"

definition ClusterInfo_StartAsync :: "'m test_env \<Rightarrow> 'm ClusterInfo \<Rightarrow> (string option \<times> 'm ClusterInfo) run" where
  "ClusterInfo_StartAsync E ci =
     bindR (ci_restarted E ci) (\<lambda>r.
       case r of
         Inl err \<Rightarrow> Inr (Inr (Some err, ci))
       | Inr ci \<Rightarrow>
           bindR (Cluster_StartAsync (ci_ClusterServer ci) (ci_ResMgr ci)) (\<lambda>rm.
           bindX (te_started E (ci_APIServer (ci_with_resMgr rm ci))) (\<lambda>api.
             Inr (Inr (None, ci\<lparr>ci_APIServer := api\<rparr>)))))"

text \<open>\<^verbatim>\<open>errors.Join\<close>: the texts of the errors that are not nil, one to a line.\<close>

fun join_lines :: "string list \<Rightarrow> string" where
  "join_lines [] = []"
| "join_lines [s] = s"
| "join_lines (s # ss) = s @ char_of (10 :: nat) # join_lines ss"

definition errors_Join :: "string option list \<Rightarrow> string option" where
  "errors_Join errs =
     (let es = concat (map (case_option [] (\<lambda>e. [e])) errs) in if es = [] then None else Some (join_lines es))"

definition ClusterInfo_Stop :: "'m test_env \<Rightarrow> 'm ClusterInfo \<Rightarrow> (string option \<times> 'm ClusterInfo) res" where
  "ClusterInfo_Stop E ci =
     (if ci_stopped ci then Inr (None, ci)
      else
        let err1 = api_Stop (te_gnetStop E) (ci_APIServer ci)
        in bindR (Cluster_Stop (te_Shutdown E) (ci_ClusterServer ci) (ci_ResMgr ci)) (\<lambda>(err2, rm).
             Inr (errors_Join [err1, err2], (ci_with_resMgr rm ci)\<lparr>ci_stopped := True\<rparr>)))"

section \<open>The nodes of a cluster\<close>

text \<open>
  A Go map of pointers, which may be nil: an association list with one entry to a key.  A range visits the keys in
  an order of its own, which is an argument.
\<close>

type_synonym 'm ClusterInfos = "(u32 \<times> 'm ClusterInfo option) list"

definition ClusterInfos_GetNode :: "'m ClusterInfos \<Rightarrow> u32 \<Rightarrow> 'm ClusterInfo option" where
  "ClusterInfos_GetNode ci nodeID = (case map_of ci nodeID of None \<Rightarrow> None | Some p \<Rightarrow> p)"

definition ClusterInfos_RemoveClusterNode :: "u32 \<Rightarrow> 'm ClusterInfos \<Rightarrow> 'm ClusterInfos" where
  "ClusterInfos_RemoveClusterNode nodeID ci = AList.delete nodeID ci"

definition no_node :: "u32 \<Rightarrow> string" where
  "no_node nodeID = sprintf ''Failed to get node %d'' [FInt (uint nodeID)]"

definition ClusterInfos_StartAync :: "'m test_env \<Rightarrow> u32 \<Rightarrow> 'm ClusterInfos \<Rightarrow> (string option \<times> 'm ClusterInfos) run" where
  "ClusterInfos_StartAync E nodeID ci =
     (case ClusterInfos_GetNode ci nodeID of
        None \<Rightarrow> Inr (Inr (Some (no_node nodeID), ci))
      | Some node \<Rightarrow>
          bindX (ClusterInfo_StartAsync E node) (\<lambda>(err, node). Inr (Inr (err, AList.update nodeID (Some node) ci))))"

definition ClusterInfos_Stop :: "'m test_env \<Rightarrow> u32 \<Rightarrow> 'm ClusterInfos \<Rightarrow> (string option \<times> 'm ClusterInfos) res" where
  "ClusterInfos_Stop E nodeID ci =
     (case ClusterInfos_GetNode ci nodeID of
        None \<Rightarrow> Inr (Some (no_node nodeID), ci)
      | Some node \<Rightarrow>
          bindR (ClusterInfo_Stop E node) (\<lambda>(err, node). Inr (err, AList.update nodeID (Some node) ci)))"

text \<open>The two loops: the API servers, then the cluster servers, each until one is not ready.\<close>

fun wait_api_servers :: "u32 list \<Rightarrow> 'm ClusterInfos \<Rightarrow> (bool \<times> 'm ClusterInfos) res" where
  "wait_api_servers [] ci = Inr (True, ci)"
| "wait_api_servers (i # is) ci =
     (case ClusterInfos_GetNode ci i of
        None \<Rightarrow> Inl nil_deref
      | Some info \<Rightarrow>
          let (ready, api) = api_WaitReady (ci_APIServer info);
              ci = AList.update i (Some (info\<lparr>ci_APIServer := api\<rparr>)) ci
          in if \<not> ready then Inr (False, ci) else wait_api_servers is ci)"

fun wait_cluster_servers :: "(u32 \<Rightarrow> nat) \<Rightarrow> (u32 \<Rightarrow> nat \<Rightarrow> cluster_env) \<Rightarrow> u32 list \<Rightarrow> 'm ClusterInfos \<Rightarrow>
  (bool \<times> 'm ClusterInfos) res" where
  "wait_cluster_servers n C [] ci = Inr (True, ci)"
| "wait_cluster_servers n C (i # is) ci =
     (case ClusterInfos_GetNode ci i of
        None \<Rightarrow> Inl nil_deref
      | Some info \<Rightarrow>
          bindR (Cluster_WaitAllNodeReady (n i) (C i) (ci_ClusterServer info) (ci_ResMgr info)) (\<lambda>(ready, rm).
            let ci = AList.update i (Some (ci_with_resMgr rm info)) ci
            in if \<not> ready then Inr (False, ci) else wait_cluster_servers n C is ci))"

definition ClusterInfos_WaitClusterReady :: "(u32 \<Rightarrow> nat) \<Rightarrow> (u32 \<Rightarrow> nat \<Rightarrow> cluster_env) \<Rightarrow> u32 list \<Rightarrow> u32 list \<Rightarrow>
  'm ClusterInfos \<Rightarrow> (bool \<times> 'm ClusterInfos) res" where
  "ClusterInfos_WaitClusterReady n C order order' ci =
     bindR (wait_api_servers order ci) (\<lambda>(ready, ci).
       if \<not> ready then Inr (False, ci) else wait_cluster_servers n C order' ci)"

text \<open>
  The first node of a visit that leads or does not.  Other goroutines change the nodes between the turns: a turn is
  the order of its visit and the nodes at that time.
\<close>

fun find_leading :: "bool \<Rightarrow> u32 list \<Rightarrow> 'm ClusterInfos \<Rightarrow> 'm ClusterInfo option res" where
  "find_leading b [] ci = Inr None"
| "find_leading b (i # is) ci =
     (case ClusterInfos_GetNode ci i of
        None \<Rightarrow> Inl nil_deref
      | Some info \<Rightarrow> if rm_IsNodeLeader (ci_ResMgr info) = b then Inr (Some info) else find_leading b is ci)"

fun find_turns :: "bool \<Rightarrow> (u32 list \<times> 'm ClusterInfos) list \<Rightarrow> 'm ClusterInfo option res" where
  "find_turns b [] = Inr None"
| "find_turns b ((order, ci) # turns) =
     bindR (find_leading b order ci) (\<lambda>r. case r of None \<Rightarrow> find_turns b turns | Some info \<Rightarrow> Inr (Some info))"

definition ClusterInfos_GetLeaderNode :: "(nat \<Rightarrow> u32 list \<times> 'm ClusterInfos) \<Rightarrow> 'm ClusterInfo option res" where
  "ClusterInfos_GetLeaderNode turn = find_turns True (map turn [0..<10])"

definition ClusterInfos_GetNonLeaderNode :: "(nat \<Rightarrow> u32 list \<times> 'm ClusterInfos) \<Rightarrow> 'm ClusterInfo option res" where
  "ClusterInfos_GetNonLeaderNode turn = find_turns False (map turn [0..<10])"

section \<open>Making a cluster\<close>

text \<open>\<open>t\<close> says whether a test is given: it ends the run with the error, else the nil node is dereferenced.\<close>

fun init_each :: "bool \<Rightarrow> 'm test_env \<Rightarrow> int list \<Rightarrow> nat \<Rightarrow> int list \<Rightarrow> 'm ClusterInfos \<Rightarrow> (string + 'm ClusterInfos) res" where
  "init_each t E clusterIds i [] clusterInfos = Inr (Inr clusterInfos)"
| "init_each t E clusterIds i (nid # ids) clusterInfos =
     (let peers = take i clusterIds @ drop (i + 1) clusterIds
      in bindR (InitClusterServer E nid peers) (\<lambda>r.
           case r of
             Inl err \<Rightarrow> if t then Inr (Inl err) else Inl nil_deref
           | Inr clusterInfo \<Rightarrow>
               init_each t E clusterIds (i + 1) ids (AList.update (ci_NodeID clusterInfo) (Some clusterInfo) clusterInfos)))"

definition InitClusterServers :: "bool \<Rightarrow> 'm test_env \<Rightarrow> int \<Rightarrow> (string + 'm ClusterInfos) res" where
  "InitClusterServers t E nodeCount =
     (if nodeCount < 0 then Inl (Panic ''makeslice: len out of range'')
      else let clusterIds = [1..nodeCount] in init_each t E clusterIds 0 clusterIds [])"

text \<open>The default configuration of a benchmark run.\<close>

definition SetupBenchmarkEnv :: "Config \<Rightarrow> log_vars \<Rightarrow> Config \<times> log_vars" where
  "SetupBenchmarkEnv cfg v =
     (let cfg = cfg\<lparr>cf_Env := ''benchmark'', cf_LogLevel := ''error''\<rparr> in (cfg, snd (logging_Init cfg v)))"

end
