(* ===== verification/ReadyProperties.thy ===== *)
theory ReadyProperties
  imports Cluster NodeProperties
begin

text \<open>
  The properties of a node that joins its cluster: what it tells the raft library of the members, when it is taken
  for ready, how old the node information is that it reports, and the wait for an applied entry.
\<close>

section \<open>Members\<close>

definition sha_ok :: "(string \<Rightarrow> byte list) \<Rightarrow> bool" where
  "sha_ok sha \<longleftrightarrow> (\<forall>x. length (sha x) = 32)"

definition id_of :: "(string \<Rightarrow> byte list) \<Rightarrow> string \<Rightarrow> u32" where
  "id_of sha user = word_of_nat (le_val (take 4 (sha user)))"

definition member_of :: "(string \<Rightarrow> byte list) \<Rightarrow> URL \<Rightarrow> raw_member" where
  "member_of sha u = \<lparr>rw_ID = ucast (id_of sha (u_Username u)), rw_Address = u_Host u\<rparr>"

lemma NodeID_id:
  assumes "URL_wf sha u" "sha_ok sha"
  obtains u' where "URL_NodeID sha u = Inr (id_of sha (u_Username u), u')"
proof -
  have "4 \<le> length (sha (u_Username u))" using assms(2) by (simp add: sha_ok_def)
  from URL_NodeID_stable [OF assms(1) this] show thesis using that unfolding id_of_def by metis
qed

lemma raw_member_of: "URL_wf sha u \<Longrightarrow> sha_ok sha \<Longrightarrow> raw_member_of sha u = Inr (member_of sha u)"
  by (erule (1) NodeID_id) (simp add: raw_member_of_def member_of_def)

lemma peer_members:
  "list_all (URL_wf sha) us \<Longrightarrow> sha_ok sha \<Longrightarrow> peer_members sha us members = Inr (members @ map (member_of sha) us)"
  by (induction us arbitrary: members) (simp_all add: raw_member_of)

lemma NewServer_members:
  assumes "Cluster_NewServer sha node cfg rm = Inr (ct, rm')" "cc_Enabled (cf_Cluster cfg)" "sha_ok sha"
    and "list_all (URL_wf sha) (cc_Url (cf_Cluster cfg) # cc_PeerUrls (cf_Cluster cfg))"
  shows "ct_members ct = map (member_of sha) (cc_Url (cf_Cluster cfg) # cc_PeerUrls (cf_Cluster cfg))"
  using assms by (auto simp: Cluster_NewServer_def bindR_Inr_iff raw_member_of peer_members)

text \<open>
  C21 The nodes agree on their cluster.  Two nodes whose own and peer URLs are, in any order, the same users at the same
  hosts start the raft library with the same members; and the identifier by which a node goes in its prober is the one
  under which both list it.
\<close>

theorem nodes_agree_on_members:
  assumes "Cluster_NewServer sha node cfg rm = Inr (ct, rm')" "Cluster_NewServer sha nodeB cfgB rmB = Inr (ctB, rmB')"
    and "cc_Enabled (cf_Cluster cfg)" "cc_Enabled (cf_Cluster cfgB)" "sha_ok sha"
    and "list_all (URL_wf sha) (cc_Url (cf_Cluster cfg) # cc_PeerUrls (cf_Cluster cfg))"
    and "list_all (URL_wf sha) (cc_Url (cf_Cluster cfgB) # cc_PeerUrls (cf_Cluster cfgB))"
    and "mset (map (\<lambda>u. (u_Username u, u_Host u)) (cc_Url (cf_Cluster cfg) # cc_PeerUrls (cf_Cluster cfg))) =
      mset (map (\<lambda>u. (u_Username u, u_Host u)) (cc_Url (cf_Cluster cfgB) # cc_PeerUrls (cf_Cluster cfgB)))"
    and "NewNodeProber dial sha cfg = Inr np"
  shows "mset (ct_members ct) = mset (ct_members ctB) \<and>
    \<lparr>rw_ID = ucast (np_curNodeID np), rw_Address = u_Host (cc_Url (cf_Cluster cfg))\<rparr> \<in># mset (ct_members ctB)"
proof -
  let ?f = "\<lambda>(user, host). \<lparr>rw_ID = ucast (id_of sha user), rw_Address = host\<rparr>"
  let ?us = "cc_Url (cf_Cluster cfg) # cc_PeerUrls (cf_Cluster cfg)" and ?vs = "cc_Url (cf_Cluster cfgB) # cc_PeerUrls (cf_Cluster cfgB)"
  have f: "map (member_of sha) us = map ?f (map (\<lambda>u. (u_Username u, u_Host u)) us)" for us
    by (simp add: member_of_def o_def)
  have eq: "mset (ct_members ct) = mset (ct_members ctB)"
    unfolding NewServer_members [OF assms(1,3,5,6)] NewServer_members [OF assms(2,4,5,7)] f
    using arg_cong [OF assms(8), of "image_mset ?f"] by (simp only: mset_map)
  have "URL_wf sha (cc_Url (cf_Cluster cfg))" using assms(6) by simp
  then obtain u' where "URL_NodeID sha (cc_Url (cf_Cluster cfg)) = Inr (id_of sha (u_Username (cc_Url (cf_Cluster cfg))), u')"
    using NodeID_id assms(5) by blast
  then have "np_curNodeID np = id_of sha (u_Username (cc_Url (cf_Cluster cfg)))"
    using assms(9) by (auto simp: NewNodeProber_def Config_ClusterNodeID_def bindR_Inr_iff)
  then have "\<lparr>rw_ID = ucast (np_curNodeID np), rw_Address = u_Host (cc_Url (cf_Cluster cfg))\<rparr> \<in> set (ct_members ct)"
    by (simp add: NewServer_members [OF assms(1,3,5,6)] member_of_def)
  then show ?thesis unfolding eq [symmetric] by simp
qed

section \<open>Readiness\<close>

text \<open>A member that does not keep a node from being ready, and one that is the leader.\<close>

definition others_active :: "cluster_env \<Rightarrow> raft_member option list \<Rightarrow> bool" where
  "others_active E ms \<longleftrightarrow> None \<notin> set ms \<and> (\<forall>m. Some m \<in> set ms \<longrightarrow> mb_ID m \<noteq> ce_Whoami E \<longrightarrow> mb_IsActive m)"

definition has_leader :: "cluster_env \<Rightarrow> raft_member option list \<Rightarrow> bool" where
  "has_leader E ms \<longleftrightarrow> (\<exists>m. Some m \<in> set ms \<and> mb_ID m = rn_Leader (ce_node E))"

lemma check_peers_active:
  "check_peers E ms hasLeader np = Inr ((True, l), np') \<Longrightarrow> others_active E ms \<and> (l \<longleftrightarrow> hasLeader \<or> has_leader E ms)"
  by (induction E ms hasLeader np rule: check_peers.induct)
    (auto simp: others_active_def has_leader_def Let_def split: if_splits prod.split_asm sum.split_asm)

lemma checkNodeReady_turn:
  "checkNodeReady n i E all ct np = Inr (True, np') \<Longrightarrow>
    \<exists>j p p'. i \<le> j \<and> j < i + n \<and> ready_turn (E j) all ct p = Inr (True, p')"
proof (induction n arbitrary: i np)
  case (Suc n)
  obtain b q where t: "ready_turn (E i) all ct (ce_others (E i) np) = Inr (b, q)" using Suc.prems by (auto simp: bindR_Inr_iff)
  show ?case
  proof (cases b)
    case True
    then show ?thesis using t by (intro exI [of _ i]) auto
  next
    case False
    then obtain j p p' where "Suc i \<le> j" "j < Suc i + n" "ready_turn (E j) all ct p = Inr (True, p')"
      using Suc t by (fastforce simp: bindR_Inr_iff)
    then show ?thesis by (intro exI [of _ j]) auto
  qed
qed simp

text \<open>
  C23 No false alarm.  When \<^verbatim>\<open>WaitAllNodeReady\<close> says yes, then either the cluster is disabled and nothing was
  done, or there was a turn before the deadline at which the raft library knew at least as many members as are
  configured, every member other than the node itself active, and one of them all the leader; and the manager takes
  commands.
\<close>

theorem ready_means_others_active:
  assumes "Cluster_WaitAllNodeReady n E ct rm = Inr (True, rm')"
  shows "(\<not> cc_Enabled (cf_Cluster (ct_cfg ct)) \<and> rm' = rm) \<or>
    (rm_ready rm' \<and> (\<exists>j<n. length (cc_PeerUrls (cf_Cluster (ct_cfg ct))) + 1 \<le> length (rn_Members (ce_node (E j))) \<and>
      others_active (E j) (rn_Members (ce_node (E j))) \<and> has_leader (E j) (rn_Members (ce_node (E j)))))"
proof (cases "cc_Enabled (cf_Cluster (ct_cfg ct))")
  case True
  obtain np where c: "checkNodeReady n 0 E True ct (rm_nodeProber rm) = Inr (True, np)" "rm_ready rm'"
    using assms True by (auto simp: Cluster_WaitAllNodeReady_def waitReady_def bindR_Inr_iff rm_Ready_def Let_def split: option.splits if_splits)
  obtain j p p' where "j < n" "ready_turn (E j) True ct p = Inr (True, p')" using checkNodeReady_turn [OF c(1)] by auto
  then show ?thesis
    using c(2) check_peers_active [of "E j" "rn_Members (ce_node (E j))" False p]
    by (intro disjI2 conjI exI [of _ j]) (auto simp: ready_turn_def Let_def bindR_Inr_iff split: if_splits)
qed (use assms in \<open>simp add: Cluster_WaitAllNodeReady_def\<close>)

text \<open>
  The wait has no way out.  While the raft library knows fewer members than are configured, the loop that looks
  for readiness does not end, however many turns it makes, whatever its context says; \<^verbatim>\<open>WaitReady\<close> gives up on
  it and returns false, and it goes on.
\<close>

theorem missing_members_never_ready:
  assumes "\<And>j. length (rn_Members (ce_node (E j))) < length (cc_PeerUrls (cf_Cluster (ct_cfg ct))) + 1"
    and "cc_Enabled (cf_Cluster (ct_cfg ct))" "ct_node ct = Some node"
  shows "(\<exists>np'. checkNodeReady n i E all ct np = Inr (False, np')) \<and> (\<exists>rm'. Cluster_WaitReady n E ct rm = Inr (False, rm'))"
proof -
  have c: "\<exists>np'. checkNodeReady n i E all ct np = Inr (False, np')" for i all np
    using assms(1) by (induction n arbitrary: i np) (simp_all add: ready_turn_def)
  obtain np' where "checkNodeReady n 0 E False ct (rm_nodeProber rm) = Inr (False, np')" using c by blast
  then show ?thesis using c assms(2,3) by (simp add: Cluster_WaitReady_def waitReady_def)
qed

section \<open>Cached node information\<close>

text \<open>
  What happens to a prober while its node waits to be ready: queries, other answers of the raft library and of the
  peers, new loads.
\<close>

inductive prober_run :: "nodeProber \<Rightarrow> nodeProber \<Rightarrow> bool" for p where
  start: "prober_run p p"
| cur: "prober_run p q \<Longrightarrow> prober_run p (snd (nodeProber_GetCurNodeInfo q))"
| peer: "prober_run p q \<Longrightarrow> prober_run p (snd (nodeProber_GetPeerNodeInfo i q))"
| raft: "prober_run p q \<Longrightarrow> prober_run p (nodeProber_SetRaftNode (Some r) q)"
| load: "prober_run p q \<Longrightarrow> nodeProber_UpdateNodeLoading srt rnd now mt q = Inr q' \<Longrightarrow> prober_run p q'"
| clients: "prober_run p q \<Longrightarrow> prober_run p (q\<lparr>np_peerClients := pm\<rparr>)"

lemma load_keeps_cache:
  "nodeProber_UpdateNodeLoading srt rnd now mt q = Inr q' \<Longrightarrow>
    np_nodeInfoCache q' = np_nodeInfoCache q \<and> np_curNodeID q' = np_curNodeID q"
  by (auto simp: nodeProber_UpdateNodeLoading_def nodeProber_calcNodeLoading_def Let_def split: if_splits)

lemma run_keeps_cache:
  "prober_run p q \<Longrightarrow> map_of (np_nodeInfoCache p) i = Some info \<Longrightarrow>
    map_of (np_nodeInfoCache q) i = Some info \<and> np_curNodeID q = np_curNodeID p"
proof (induction rule: prober_run.induct)
  case (load q srt rnd now mt q')
  then show ?case using load_keeps_cache by metis
qed (auto simp: nodeProber_GetCurNodeInfo_def nodeProber_GetPeerNodeInfo_def nodeProber_SetRaftNode_def Let_def update_conv
    split: option.split sum.split)

lemma cached_answers:
  assumes "map_of (np_nodeInfoCache q) i = Some info" "np_raftNode q = Some r"
  shows "nodeProber_GetPeerNodeInfo i q = (Inr info, q)" "i = np_curNodeID q \<Longrightarrow> nodeProber_GetCurNodeInfo q = (Inr info, q)"
  using assms by (simp_all add: nodeProber_GetPeerNodeInfo_def nodeProber_GetCurNodeInfo_def)

text \<open>
  All that can happen to a prober, \<^verbatim>\<open>Init\<close> and \<^verbatim>\<open>CheckMemberStatus\<close> too, as long as the node
  \<open>i\<close> is not found removed.
\<close>

inductive member_run :: "u32 \<Rightarrow> nodeProber \<Rightarrow> nodeProber \<Rightarrow> bool" for i p where
  start: "member_run i p p"
| cur: "member_run i p q \<Longrightarrow> member_run i p (snd (nodeProber_GetCurNodeInfo q))"
| peer: "member_run i p q \<Longrightarrow> member_run i p (snd (nodeProber_GetPeerNodeInfo j q))"
| raft: "member_run i p q \<Longrightarrow> member_run i p (nodeProber_SetRaftNode (Some r) q)"
| load: "member_run i p q \<Longrightarrow> nodeProber_UpdateNodeLoading srt rnd now mt q = Inr q' \<Longrightarrow> member_run i p q'"
| clients: "member_run i p q \<Longrightarrow> member_run i p (q\<lparr>np_peerClients := pm\<rparr>)"
| init: "member_run i p q \<Longrightarrow> nodeProber_Init q = Inr (ok, q') \<Longrightarrow> member_run i p q'"
| status: "member_run i p q \<Longrightarrow> nodeProber_CheckMemberStatus dial q = Inr (evs, q') \<Longrightarrow>
    map_of (np_nodeInfoCache q') i \<noteq> None \<Longrightarrow> member_run i p q'"

text \<open>What of a peer's information is never brought up to date.\<close>

definition same_report :: "NodeInfo \<Rightarrow> NodeInfo \<Rightarrow> bool" where
  "same_report info info' \<longleftrightarrow> ni_Id info' = ni_Id info \<and> ni_Name info' = ni_Name info \<and> ni_ApiEndpoint info' = ni_ApiEndpoint info \<and>
     ni_Leader info' = ni_Leader info \<and> ni_ActiveSince info' = ni_ActiveSince info"

definition keeps_report :: "u32 \<Rightarrow> nodeProber \<Rightarrow> nodeProber \<Rightarrow> bool" where
  "keeps_report i p q \<longleftrightarrow> np_curNodeID q = np_curNodeID p \<and>
     (\<forall>info. map_of (np_nodeInfoCache p) i = Some info \<longrightarrow> (\<exists>info'. map_of (np_nodeInfoCache q) i = Some info' \<and> same_report info info'))"

lemma keeps_report_refl [simp]: "keeps_report i p p"
  by (simp add: keeps_report_def same_report_def)

lemma same_report_trans: "same_report x y \<Longrightarrow> same_report y z \<Longrightarrow> same_report x z"
  by (simp add: same_report_def)

lemma keeps_report_trans: "keeps_report i p q \<Longrightarrow> keeps_report i q r \<Longrightarrow> keeps_report i p r"
  unfolding keeps_report_def by (auto intro: same_report_trans) (metis same_report_trans)

lemma keeps_report_update:
  "j \<noteq> i \<Longrightarrow> keeps_report i q (q\<lparr>np_nodeInfoCache := AList.update j info (np_nodeInfoCache q)\<rparr>)"
  "map_of (np_nodeInfoCache q) i = Some cache \<Longrightarrow> same_report cache info \<Longrightarrow>
    keeps_report i q (q\<lparr>np_nodeInfoCache := AList.update i info (np_nodeInfoCache q)\<rparr>)"
  by (auto simp: keeps_report_def same_report_def update_conv)

lemma peer_keeps_report:
  "keeps_report i q (snd (nodeProber_GetPeerNodeInfo j q))"
  "nodeProber_GetPeerNodeInfo j q = (Inr info, q') \<Longrightarrow> map_of (np_nodeInfoCache q') j = Some info"
  "nodeProber_GetPeerNodeInfo j q = (Inl err, q') \<Longrightarrow> q' = q"
  by (auto simp: nodeProber_GetPeerNodeInfo_def keeps_report_def same_report_def update_conv split: option.splits sum.splits)

lemma member_events_report: "member_events m cache = (evs, cache') \<Longrightarrow> same_report cache cache'"
  by (auto simp: member_events_def same_report_def Let_def split: if_splits)

lemma Init_loop_keeps:
  "Init_loop r ms q = Inr q' \<Longrightarrow> i \<noteq> np_curNodeID q \<Longrightarrow> keeps_report i q q'"
proof (induction r ms q rule: Init_loop.induct)
  case (3 r m ms q)
  let ?j = "ucast (mb_ID m) :: u32"
  show ?case
  proof (cases "?j = np_curNodeID q")
    case True
    let ?q = "q\<lparr>np_nodeInfoCache := AList.update ?j (cur_node_info q r m) (np_nodeInfoCache q)\<rparr>"
    have "keeps_report i q ?q" using True "3.prems"(2) by (intro keeps_report_update(1)) simp
    moreover have "keeps_report i ?q q'" using 3 True by simp
    ultimately show ?thesis by (rule keeps_report_trans)
  next
    case False
    obtain x q1 where x: "nodeProber_GetPeerNodeInfo ?j q = (x, q1)" by (metis surj_pair)
    have k: "keeps_report i q q1" using peer_keeps_report(1) [of i q ?j] x by simp
    then have cur: "np_curNodeID q1 = np_curNodeID q" by (simp add: keeps_report_def)
    show ?thesis
    proof (cases x)
      case (Inl err)
      then have "keeps_report i q1 q'" using 3 False x cur by simp
      then show ?thesis by (rule keeps_report_trans [OF k])
    next
      case (Inr info)
      let ?q = "q1\<lparr>np_nodeInfoCache := AList.update ?j info (np_nodeInfoCache q1)\<rparr>"
      have "map_of (np_nodeInfoCache q1) ?j = Some info" using peer_keeps_report(2) x Inr by blast
      then have "keeps_report i q1 ?q"
        using keeps_report_update(1) [of ?j i q1 info] keeps_report_update(2) [of q1 i info info]
        by (cases "?j = i") (auto simp: same_report_def)
      moreover have "keeps_report i ?q q'" using 3 False x Inr cur by simp
      ultimately show ?thesis using keeps_report_trans [OF keeps_report_trans [OF k]] by blast
    qed
  qed
qed simp_all

lemma Init_keeps:
  assumes "nodeProber_Init q = Inr (ok, q')" "i \<noteq> np_curNodeID q"
  shows "keeps_report i q q'"
proof -
  obtain r where r: "np_raftNode q = Some r" using assms(1) by (cases "np_raftNode q") (simp_all add: nodeProber_Init_def)
  show ?thesis
  proof (cases "q' = q")
    case False
    then obtain q1 where "Init_loop r (rn_Members r) q = Inr q1" "q' = q1\<lparr>np_ready := True\<rparr>"
      using assms(1) r by (auto simp: nodeProber_Init_def bindR_Inr_iff split: if_splits)
    then show ?thesis using Init_loop_keeps assms(2) by (auto simp: keeps_report_def)
  qed simp
qed

lemma check_members_keeps: "check_members dial ms q = Inr (evs, q') \<Longrightarrow> keeps_report i q q'"
proof (induction ms arbitrary: q evs)
  case (Cons x ms)
  show ?case
  proof (cases x)
    case None
    then show ?thesis using Cons by simp
  next
    case x: (Some m)
    let ?j = "ucast (mb_ID m) :: u32"
    show ?thesis
    proof (cases "map_of (np_nodeInfoCache q) ?j")
      case None
      obtain err pm where add: "PeerClientMgr_addClient dial ?j (mb_Address m) (np_peerClients q) = (err, pm)" by (metis surj_pair)
      let ?q = "q\<lparr>np_peerClients := pm\<rparr>"
      have k: "keeps_report i q ?q" by (simp add: keeps_report_def same_report_def)
      obtain y q1 where y: "nodeProber_GetPeerNodeInfo ?j ?q = (y, q1)" by (metis surj_pair)
      have "\<exists>evs. check_members dial ms ?q = Inr (evs, q')"
        using Cons.prems y peer_keeps_report(3) [of ?j ?q]
        by (cases y; cases "err = None")
          (auto simp: x None add Let_def nodeProber_GetPeerNodeInfo_locking_def nodeProber_RLock_def split: if_splits)
      then show ?thesis using Cons.IH keeps_report_trans [OF k] by blast
    next
      case (Some cache)
      obtain es cache' where ev: "member_events m cache = (es, cache')" by (metis surj_pair)
      let ?q = "q\<lparr>np_nodeInfoCache := AList.update ?j cache' (np_nodeInfoCache q)\<rparr>"
      have "keeps_report i q ?q"
        using keeps_report_update(1) [of ?j i q cache'] keeps_report_update(2) [of q i cache cache'] member_events_report [OF ev] Some
        by (cases "?j = i") auto
      moreover have "\<exists>evs. check_members dial ms ?q = Inr (evs, q')" using Cons.prems by (auto simp: x Some ev Let_def bindR_Inr_iff)
      ultimately show ?thesis using Cons.IH keeps_report_trans by blast
    qed
  qed
qed simp

lemma map_of_filter_key: "map_of (filter (\<lambda>(i, x). P i) xs) i = (if P i then map_of xs i else None)"
  by (induction xs) auto

lemma status_keeps:
  assumes "nodeProber_CheckMemberStatus dial q = Inr (evs, q')" "map_of (np_nodeInfoCache q') i \<noteq> None" "i \<noteq> np_curNodeID q"
  shows "keeps_report i q q'"
proof (cases "np_ready q")
  case False
  then show ?thesis using assms(1) Init_keeps [OF _ assms(3)] by (auto simp: nodeProber_CheckMemberStatus_def bindR_Inr_iff)
next
  case True
  note status = assms(1) [unfolded nodeProber_CheckMemberStatus_def nodeProber_Lock_def]
  obtain r where r: "np_raftNode q = Some r" "\<not> np_mu q"
    using status True by (cases "np_raftNode q"; cases "np_mu q") simp_all
  obtain es q1 where 1: "check_members dial (rn_Members r) (q\<lparr>np_mu := True\<rparr>) = Inr (es, q1)"
    using status True r by (auto simp: bindR_Inr_iff)
  have 2: "np_nodeInfoCache q' = filter (\<lambda>(i, info). still_member (rn_Members r) i) (np_nodeInfoCache q1)" "np_curNodeID q' = np_curNodeID q1"
    using status True r 1 by (auto simp: Let_def nodeProber_Unlock_def)
  have "keeps_report i q1 q'" using assms(2) 2 by (auto simp: keeps_report_def same_report_def map_of_filter_key)
  moreover have "keeps_report i q (q\<lparr>np_mu := True\<rparr>)" by (simp add: keeps_report_def same_report_def)
  ultimately show ?thesis using check_members_keeps [OF 1, of i] keeps_report_trans by blast
qed

lemma member_run_keeps: "member_run i p q \<Longrightarrow> i \<noteq> np_curNodeID p \<Longrightarrow> keeps_report i p q"
proof (induction rule: member_run.induct)
  case (cur q)
  have "keeps_report i q (snd (nodeProber_GetCurNodeInfo q))"
    by (auto simp: nodeProber_GetCurNodeInfo_def keeps_report_def same_report_def Let_def update_conv split: option.split)
  then show ?case using cur keeps_report_trans by blast
next
  case (peer q j)
  then show ?case using peer_keeps_report(1) keeps_report_trans by blast
next
  case (raft q r)
  then show ?case by (simp add: keeps_report_def nodeProber_SetRaftNode_def)
next
  case (load q srt rnd now mt q')
  then show ?case using load_keeps_cache [OF load.hyps(2)] by (simp add: keeps_report_def)
next
  case (clients q pm)
  then show ?case by (simp add: keeps_report_def)
next
  case (init q ok q')
  have "i \<noteq> np_curNodeID q" using init by (simp add: keeps_report_def)
  then have "keeps_report i q q'" by (rule Init_keeps [OF init.hyps(2)])
  then show ?case using init keeps_report_trans by blast
next
  case (status q dial evs q')
  have "i \<noteq> np_curNodeID q" using status by (simp add: keeps_report_def)
  then show ?case using status_keeps [OF status.hyps(2,3)] status keeps_report_trans by blast
qed simp

text \<open>
  C25 What a peer says of itself never ages.  Once the information of another node is in the prober's cache, the node
  keeps reporting that node's first name, API address, leadership and time of activity for it as long as it is a
  member, through any number of queries, changes in the raft library and in the peers' own answers, load measurements,
  initialisations and status checks: \<^verbatim>\<open>Meow\<close> names a leader that leads no more.
\<close>

theorem cached_info_never_refreshed:
  assumes "member_run (ucast (mb_ID m)) p q" "map_of (np_nodeInfoCache p) (ucast (mb_ID m)) = Some info"
    and "(ucast (mb_ID m) :: u32) \<noteq> np_curNodeID p" "np_raftNode q = Some r" "rm_nodeProber rm = clusterProber q"
  shows "\<exists>info'. meow_nodes [Some m] rm = Inr ([Some info'], rm) \<and> ni_Leader info' = ni_Leader info \<and>
    ni_Name info' = ni_Name info \<and> ni_ApiEndpoint info' = ni_ApiEndpoint info \<and> ni_ActiveSince info' = ni_ActiveSince info"
proof -
  let ?i = "ucast (mb_ID m) :: u32"
  have k: "keeps_report ?i p q" by (rule member_run_keeps [OF assms(1,3)])
  then obtain info' where c: "map_of (np_nodeInfoCache q) ?i = Some info'" "same_report info info'" "?i \<noteq> np_curNodeID q"
    using assms(2,3) by (auto simp: keeps_report_def)
  have "rm\<lparr>rm_nodeProber := clusterProber q\<rparr> = rm" using assms(5) by (metis ResourceManager.surjective ResourceManager.update_convs(4))
  then have "meow_nodes [Some m] rm = Inr ([Some info'], rm)"
    using cached_answers(1) [OF c(1) assms(4)] c(3) assms(4,5) by (simp add: Let_def rm_AtSameNode_def nodeProber_CurNodeID_def)
  then show ?thesis using c(2) by (auto simp: same_report_def)
qed

text \<open>
  C37 A node that starts inactive stays unready.  \<^verbatim>\<open>WaitReady\<close> asks the node itself, through its own gRPC service;
  the first answer is kept.  If it said the node is not active, then no later turn finds the node ready, although
  the raft library may have made it active long since.
\<close>

theorem inactive_self_never_ready:
  assumes "map_of (np_nodeInfoCache p) (np_curNodeID p) = Some info" "\<not> ni_Active info"
    and "\<And>j. ce_Dial (E j) (sprintf ''dns:///%s'' [FStr (u_Host (cc_Url (cf_Cluster (ct_cfg ct))))]) = Inr Prober_GetCurNodeInfo"
    and "\<And>j q. \<exists>q'. prober_run q q' \<and> ce_others (E j) (clusterProber q) = clusterProber q'"
  shows "\<exists>np'. checkNodeReady n i E False ct (clusterProber p) = Inr (False, np')"
  using assms(1)
proof (induction n arbitrary: i p)
  case (Suc n)
  obtain q where q: "prober_run p q" "ce_others (E i) (clusterProber p) = clusterProber q" using assms(4) by blast
  note cache = run_keeps_cache [OF q(1) Suc.prems]
  have "\<exists>q'. ready_turn (E i) False ct (clusterProber q) = Inr (False, clusterProber q') \<and> prober_run q q'"
  proof (cases "np_raftNode q")
    case None
    then show ?thesis
      using assms(3) [of i] prober_run.start by (auto simp: ready_turn_def nodeProber_GetCurNodeInfo_def Let_def)
  next
    case (Some r)
    then show ?thesis
      using assms(2,3) cache prober_run.start by (auto simp: ready_turn_def nodeProber_GetCurNodeInfo_def Let_def)
  qed
  then obtain q' where q': "ready_turn (E i) False ct (clusterProber q) = Inr (False, clusterProber q')" "prober_run q q'" by blast
  have "map_of (np_nodeInfoCache q') (np_curNodeID q') = Some info"
    using run_keeps_cache [OF q'(2), of "np_curNodeID q"] cache by metis
  then show ?case using Suc.IH q q'(1) by simp
qed simp

section \<open>The wait for an applied entry\<close>

definition no_others :: "'e select_turn \<Rightarrow> bool" where
  "no_others t \<longleftrightarrow> tn_others t = id"

text \<open>
  A peer's question whether an entry was applied is answered when its deadline has passed, and loses nothing:
  identifiers taken off the channel for others are found in the set, and the answer is yes only if the entry's own
  identifier was there.
\<close>

theorem entry_wait_answers_and_loses_nothing:
  assumes "set_ok S mem" "list_all no_others ts" "list_ex tn_done ts"
  shows "\<exists>v ea'. IsEntryApplied_loop S i ts ea = Inr (v, ea') \<and>
    insert i (set (ea_chan ea') \<union> mem (ea_set ea')) = insert i (set (ea_chan ea) \<union> mem (ea_set ea)) \<and>
    (v \<longrightarrow> i \<in> set (ea_chan ea) \<union> mem (ea_set ea))"
  using assms(2,3)
proof (induction ts arbitrary: ea)
  case (Cons t ts)
  have t: "tn_others t ea = ea" using Cons.prems(1) by (simp add: no_others_def)
  show ?case
  proof (cases "ea_chan ea")
    case Nil
    obtain ok s where r: "so_Remove S (ea_set ea) i = (ok, s)" by (metis surj_pair)
    have s: "ok \<longleftrightarrow> i \<in> mem (ea_set ea)" "mem s = mem (ea_set ea) - {i}"
      using assms(1) r unfolding set_ok_def by (metis fst_conv, metis snd_conv)
    show ?thesis
      using Nil t r s Cons.prems Cons.IH [of "ea\<lparr>ea_set := s\<rparr>"]
      by (auto simp: Let_def rm_RemoveFromEntryApplySet_def)
  next
    case (Cons x ch)
    have ins: "mem (so_Insert S (ea_set ea) x) = insert x (mem (ea_set ea))" using assms(1) by (simp add: set_ok_def)
    show ?thesis
      using Cons t ins Cons.prems Cons.IH [of "ea\<lparr>ea_chan := ch, ea_set := so_Insert S (ea_set ea) x\<rparr>"]
      by (auto simp: Let_def rm_InsertEntryApplySet_def)
  qed
qed simp

section \<open>Instances\<close>

definition sample_sha :: "string \<Rightarrow> byte list" where
  "sample_sha user = word_of_nat (length user) # replicate 31 0"

definition sample_pair :: "URL \<Rightarrow> URL \<Rightarrow> Config" where
  "sample_pair own peer = (sample_cfg True)\<lparr>cf_Cluster := (cf_Cluster (sample_cfg True))\<lparr>cc_Url := own, cc_PeerUrls := [peer]\<rparr>\<rparr>"

definition sample_urlB :: URL where
  "sample_urlB = sample_url\<lparr>u_Username := ''node2'', u_Host := ''b:1''\<rparr>"

lemma sample_urls: "sha_ok sample_sha" "URL_wf sample_sha sample_url" "URL_wf sample_sha sample_urlB"
  by (simp_all add: sha_ok_def sample_sha_def URL_wf_def sample_url_def sample_urlB_def)

lemma sample_server:
  assumes "URL_wf sample_sha u" "URL_wf sample_sha v"
  obtains ct rm' where "Cluster_NewServer sample_sha sample_raft (sample_pair u v) rm = Inr (ct, rm')"
  using assms sample_urls(1) by (simp add: Cluster_NewServer_def sample_pair_def sample_cfg_def raw_member_of)

theorem nodes_agree_on_members_witness:
  "\<exists>ct rm' ctB rmB'. Cluster_NewServer sample_sha sample_raft (sample_pair sample_url sample_urlB) (sample_rm) = Inr (ct, rm') \<and>
     Cluster_NewServer sample_sha sample_raft (sample_pair sample_urlB sample_url) (sample_rm) = Inr (ctB, rmB') \<and>
     mset (ct_members ct) = mset (ct_members ctB)"
proof -
  obtain ct rm' where s: "Cluster_NewServer sample_sha sample_raft (sample_pair sample_url sample_urlB) sample_rm = Inr (ct, rm')"
    using sample_server sample_urls by metis
  obtain ctB rmB' where sB: "Cluster_NewServer sample_sha sample_raft (sample_pair sample_urlB sample_url) sample_rm = Inr (ctB, rmB')"
    using sample_server sample_urls by metis
  have "\<exists>np. NewNodeProber (\<lambda>_. Inl []) sample_sha (sample_pair sample_url sample_urlB) = Inr np"
    by (simp add: NewNodeProber_def Config_ClusterNodeID_def newPeerClientMgr_def sample_pair_def sample_url_def sample_urlB_def
        URL_NodeID_def URL_UserNameHash_def sample_sha_def get_slice_def Let_def sample_cfg_def)
  then obtain np where np: "NewNodeProber (\<lambda>_. Inl []) sample_sha (sample_pair sample_url sample_urlB) = Inr np" by blast
  have "mset (ct_members ct) = mset (ct_members ctB)"
    using nodes_agree_on_members [OF s sB _ _ sample_urls(1) _ _ _ np] sample_urls
    by (simp add: sample_pair_def sample_cfg_def add_mset_commute)
  then show ?thesis using s sB by blast
qed

definition sample_env :: cluster_env where
  "sample_env = \<lparr>ce_node = sample_raft\<lparr>rn_Members := [Some sample_member], rn_Leader := 5\<rparr>, ce_Whoami = 5,
     ce_Dial = \<lambda>_. Inr Prober_GetCurNodeInfo, ce_others = id\<rparr>"

definition sample_ct :: ClusterServer where
  "sample_ct = \<lparr>ct_cfg = sample_cfg True, ct_node = Some sample_raft, ct_members = []\<rparr>"

theorem ready_means_others_active_witness:
  "\<exists>rm'. Cluster_WaitAllNodeReady 1 (\<lambda>_. sample_env) sample_ct (NewResourceManager alist_swiss (sample_cfg True) None) = Inr (True, rm') \<and>
     rm_ready rm' \<and> has_leader sample_env [Some sample_member]"
proof -
  let ?rm = "NewResourceManager alist_swiss (sample_cfg True) None"
  have "\<exists>rm'. Cluster_WaitAllNodeReady 1 (\<lambda>_. sample_env) sample_ct ?rm = Inr (True, rm')"
    by (simp add: Cluster_WaitAllNodeReady_def waitReady_def sample_ct_def sample_cfg_def ready_turn_def sample_env_def sample_member_def
        NewResourceManager_def NewNullNodeProber_def rm_Ready_def eval_nat_numeral)
  then obtain rm' where "Cluster_WaitAllNodeReady 1 (\<lambda>_. sample_env) sample_ct ?rm = Inr (True, rm')" by blast
  moreover have "cc_Enabled (cf_Cluster (ct_cfg sample_ct))" by (simp add: sample_ct_def sample_cfg_def)
  moreover have "rn_Members (ce_node sample_env) = [Some sample_member]" by (simp add: sample_env_def)
  ultimately show ?thesis using ready_means_others_active [of 1 "\<lambda>_. sample_env" sample_ct ?rm rm'] by auto
qed

theorem missing_members_never_ready_witness:
  "\<exists>rm'. Cluster_WaitReady 100 (\<lambda>_. sample_env\<lparr>ce_node := sample_raft\<rparr>) sample_ct (NewResourceManager alist_swiss (sample_cfg True) None)
     = Inr (False, rm')"
  by (rule missing_members_never_ready [where node = sample_raft, THEN conjunct2])
    (simp_all add: sample_ct_def sample_cfg_def, simp add: sample_raft_def)

definition sample_info :: NodeInfo where
  "sample_info = \<lparr>ni_Id = 5, ni_Name = [], ni_ApiEndpoint = ''a:1'', ni_GrpcEndpoint = [], ni_Type = [], ni_Leader = True,
     ni_Active = False, ni_ActiveSince = None\<rparr>"

text \<open>Another node leads now, as the raft library and the peer itself would say; the node is initialised again.\<close>

definition sample_renewed :: nodeProber where
  "sample_renewed = nodeProber_SetRaftNode (Some (sample_raft\<lparr>rn_Members := [Some sample_member], rn_Leader := 9\<rparr>))
     (sample_prober\<lparr>np_nodeInfoCache := [(5, sample_info)]\<rparr>)"

lemma sample_renewed_Init: "\<exists>q. nodeProber_Init sample_renewed = Inr (True, q) \<and> np_raftNode q \<noteq> None"
  by (simp add: nodeProber_Init_def sample_renewed_def nodeProber_SetRaftNode_def sample_prober_def sample_np_def sample_cfg_def
      sample_member_def nodeProber_GetPeerNodeInfo_def)

theorem cached_info_never_refreshed_witness:
  "\<exists>q info'. nodeProber_Init sample_renewed = Inr (True, q) \<and>
     meow_nodes [Some sample_member] (sample_rm\<lparr>rm_nodeProber := clusterProber q\<rparr>) =
       Inr ([Some info'], sample_rm\<lparr>rm_nodeProber := clusterProber q\<rparr>) \<and> ni_Leader info' = ni_Leader sample_info"
proof -
  obtain q r where q: "nodeProber_Init sample_renewed = Inr (True, q)" "np_raftNode q = Some r" using sample_renewed_Init by blast
  let ?p = "sample_prober\<lparr>np_nodeInfoCache := [(5, sample_info)]\<rparr>"
  have "member_run 5 ?p q"
    using member_run.init [OF member_run.raft [OF member_run.start]] q(1) by (auto simp: sample_renewed_def)
  moreover have "ucast (mb_ID sample_member) = (5 :: u32)" by (simp add: sample_member_def)
  ultimately show ?thesis
    using cached_info_never_refreshed [where m = sample_member and p = ?p and q = q and info = sample_info and r = r
        and rm = "sample_rm\<lparr>rm_nodeProber := clusterProber q\<rparr>"] q
    by (auto simp: sample_prober_def sample_np_def)
qed

theorem inactive_self_never_ready_witness:
  "\<exists>np'. checkNodeReady 100 0 (\<lambda>_. sample_env) False sample_ct
     (clusterProber (sample_prober\<lparr>np_curNodeID := 5, np_nodeInfoCache := [(5, sample_info)]\<rparr>)) = Inr (False, np')"
  by (rule inactive_self_never_ready [where info = sample_info])
    (auto simp: sample_info_def sample_env_def intro: prober_run.start)

definition sample_set :: "byte list list set_ops" where
  "sample_set = \<lparr>so_Insert = \<lambda>s x. x # s, so_Remove = \<lambda>s x. (x \<in> set s, removeAll x s)\<rparr>"

theorem entry_wait_answers_and_loses_nothing_witness:
  "\<exists>v ea'. IsEntryApplied_loop sample_set [1] [\<lparr>tn_others = id, tn_done = True, tn_pick_done = False, tn_late = False\<rparr>]
     \<lparr>ea_chan = [[2]], ea_set = []\<rparr> = Inr (v, ea') \<and> insert [1] (set (ea_chan ea') \<union> set (ea_set ea')) = {[1], [2]}"
proof -
  have "set_ok sample_set set" by (auto simp: set_ok_def sample_set_def)
  from entry_wait_answers_and_loses_nothing [OF this, of "[\<lparr>tn_others = id, tn_done = True, tn_pick_done = False, tn_late = False\<rparr>]" "[1]"
      "\<lparr>ea_chan = [[2]], ea_set = []\<rparr>"]
  show ?thesis by (simp add: no_others_def) blast
qed

end
