(* ===== verification/ServiceProperties.thy ===== *)
theory ServiceProperties
  imports Service ReadyProperties
begin

text \<open>
  The properties of the program as a whole: how it fails on a listen address of another scheme, that it ends normally
  only after it has served, and the completion of addresses.
\<close>

section \<open>Making the parts\<close>

definition cfg_wf :: "(string \<Rightarrow> byte list) \<Rightarrow> Config \<Rightarrow> bool" where
  "cfg_wf sha cfg \<longleftrightarrow> sha_ok sha \<and> list_all (URL_wf sha) (cc_Url (cf_Cluster cfg) # cc_PeerUrls (cf_Cluster cfg))"

lemma addClients_returns: "sha_ok sha \<Longrightarrow> list_all (URL_wf sha) us \<Longrightarrow> \<exists>pm'. addClients dial sha us pm = Inr pm'"
proof (induction us arbitrary: pm)
  case (Cons u us)
  then have "URL_wf sha u" by simp
  then obtain u' where "URL_NodeID sha u = Inr (id_of sha (u_Username u), u')" using NodeID_id Cons.prems(1) by blast
  then show ?case using Cons by simp
qed simp

lemma NewNodeProber_returns:
  assumes "cfg_wf sha cfg"
  obtains np where "NewNodeProber dial sha cfg = Inr np" "cf_ApiListenUrl (np_cfg np) = cf_ApiListenUrl cfg"
    "cfg_wf sha (np_cfg np)" "cc_Enabled (cf_Cluster (np_cfg np)) = cc_Enabled (cf_Cluster cfg)"
proof -
  let ?u = "cc_Url (cf_Cluster cfg)"
  have sha: "4 \<le> length (sha (u_Username ?u))" "URL_wf sha ?u" using assms by (simp_all add: cfg_wf_def sha_ok_def)
  obtain u' where u': "URL_NodeID sha ?u = Inr (word_of_nat (le_val (take 4 (sha (u_Username ?u)))), u')" "URL_wf sha u'"
    using URL_NodeID_stable [OF sha(2,1)] by metis
  let ?cfg = "cfg\<lparr>cf_Cluster := (cf_Cluster cfg)\<lparr>cc_Url := u'\<rparr>\<rparr>"
  obtain pm where "newPeerClientMgr dial sha ?cfg = Inr pm"
    using addClients_returns [of sha "cc_PeerUrls (cf_Cluster cfg)"] assms by (auto simp: newPeerClientMgr_def cfg_wf_def)
  then show thesis
    using that u' assms by (simp add: NewNodeProber_def Config_ClusterNodeID_def cfg_wf_def)
qed

lemma NewServer_returns:
  assumes "cfg_wf sha cfg"
  obtains ct rm' where "Cluster_NewServer sha node cfg rm = Inr (ct, rm')"
  using assms that by (cases "cc_Enabled (cf_Cluster cfg)") (auto simp: Cluster_NewServer_def cfg_wf_def raw_member_of peer_members)

text \<open>
  A listen address of another scheme.  For every scheme but \<^verbatim>\<open>tcp\<close> the API server's constructor returns an
  error that says so; the program never prints it, because it reads the services, then a nil pointer, first.
\<close>

theorem invalid_scheme_panics:
  assumes "u_Scheme (cf_ApiListenUrl cfg) \<noteq> ''tcp''" "cfg_wf sha cfg"
  shows "ratecat_main Z M dial sha newNode now cfg v E z = Inl nil_deref"
proof -
  obtain np where np: "NewNodeProber dial sha cfg = Inr np" "cf_ApiListenUrl (np_cfg np) = cf_ApiListenUrl cfg" "cfg_wf sha (np_cfg np)"
    using NewNodeProber_returns [OF assms(2)] by metis
  obtain ct rm' where "Cluster_NewServer sha newNode (np_cfg np) (NewResourceManager M (np_cfg np) (Some (clusterProber np))) = Inr (ct, rm')"
    using NewServer_returns [OF np(3)] by metis
  then show ?thesis using np(1,2) assms(1) by (simp add: ratecat_main_def initServices_def api_NewServer_def)
qed

section \<open>The run of the program\<close>

lemma exit_fatal: "zap_ok Z \<Longrightarrow> defLogger v \<noteq> None \<Longrightarrow> exit_fatal Z v msg z = Inr (Inl 1)"
  by (auto simp: exit_fatal_def bindX_def log_Fatalw_def log_at_def zap_ok_def)

lemma fatal_line: "zap_ok Z \<Longrightarrow> defLogger v \<noteq> None \<Longrightarrow> log_Fatalw Z v msg args z = Inr (Inl 1)"
  by (auto simp: log_Fatalw_def log_at_def zap_ok_def)

lemma bindX_returns: "bindX r k = Inr (Inr y) \<longleftrightarrow> (\<exists>x. r = Inr (Inr x) \<and> k x = Inr (Inr y))"
  by (auto simp: bindX_def bindR_Inr_iff split: sum.split_asm)

lemma main_stop_returns:
  assumes "main_stop Z v E cfg ct sv z = Inr (Inr z')" "zap_ok Z" "defLogger v \<noteq> None"
  shows "api_Stop (me_gnetStop E) sv = None \<and> (\<not> cc_Enabled (cf_Cluster cfg) \<or> (\<exists>node. ct_node ct = Some node \<and> me_Shutdown E node = None))"
  using assms
  by (auto simp: main_stop_def bindX_returns bindR_Inr_iff Cluster_Stop_def fatal_line split: option.splits if_splits)

text \<open>
  C24 Exit in good order.  The program returns from \<^verbatim>\<open>main\<close>, rather than exiting with a code or panicking, only if
  the API server reported that it was up, the cluster, where there is one, was found ready, and, after the signal, both
  the API server's engine and the cluster's raft node were stopped without an error.
\<close>

theorem main_returns_only_after_serving:
  assumes "ratecat_main Z M dial sha newNode now cfg v E z = Inr (Inr z')" "zap_ok Z" "defLogger v \<noteq> None"
  shows "\<exists>services rm0 sv rm. initServices M dial sha newNode now cfg = Inr (Inr services) \<and>
    Cluster_StartAsync (ss_Cluster services) (sv_resMgr (ss_API services)) = Inr rm0 \<and>
    me_started E (sv_with_resMgr rm0 (ss_API services)) = Inr (Inr sv) \<and> sv_ready sv \<noteq> [] \<and> hd (sv_ready sv) \<and>
    api_Stop (me_gnetStop E) (me_served E (snd (api_WaitReady (sv_with_resMgr rm sv)))) = None \<and>
    (if cc_Enabled (cf_Cluster cfg) then
       Cluster_WaitReady (me_turns E) (me_cluster E) (ss_Cluster services) (sv_resMgr sv) = Inr (True, rm) \<and>
       (\<exists>node. ct_node (ss_Cluster services) = Some node \<and> me_Shutdown E node = None)
     else rm = sv_resMgr sv)"
proof -
  obtain services where s: "initServices M dial sha newNode now cfg = Inr (Inr services)" "main_serve Z v E cfg services z = Inr (Inr z')"
  proof -
    obtain r where r: "initServices M dial sha newNode now cfg = Inr r"
      "(case r of Inl err \<Rightarrow> Inl nil_deref | Inr services \<Rightarrow> main_serve Z v E cfg services z) = Inr (Inr z')"
      using assms(1) by (simp only: ratecat_main_def bindR_Inr_iff) blast
    then show thesis using that by (cases r) simp_all
  qed
  let ?ct = "ss_Cluster services"
  let ?wait = "\<lambda>sv. if \<not> cc_Enabled (cf_Cluster cfg) then Inr (True, sv_resMgr sv) else Cluster_WaitReady (me_turns E) (me_cluster E) ?ct (sv_resMgr sv)"
  obtain rm0 where rm0: "Cluster_StartAsync ?ct (sv_resMgr (ss_API services)) = Inr rm0"
    using s(2) by (auto simp: main_serve_def Let_def bindR_Inr_iff)
  obtain sv ready rm where sv: "me_started E (sv_with_resMgr rm0 (ss_API services)) = Inr (Inr sv)" "?wait sv = Inr (ready, rm)"
    "(if \<not> ready then exit_fatal Z v ''Failed to start cluster server'' z
      else let (ready, apiServer) = api_WaitReady (sv_with_resMgr rm sv)
        in if \<not> ready then exit_fatal Z v ''Failed to start API server'' z
           else main_stop Z v E cfg ?ct (me_served E apiServer) z) = Inr (Inr z')"
    using s(2) rm0 by (auto simp: main_serve_def Let_def bindX_returns bindR_Inr_iff)
  have ready: ready using sv(3) by (auto simp: exit_fatal [OF assms(2,3)] split: if_splits)
  obtain r api where w: "api_WaitReady (sv_with_resMgr rm sv) = (r, api)" by (metis surj_pair)
  have r: r using sv(3) ready w by (auto simp: exit_fatal [OF assms(2,3)] split: if_splits)
  then have "sv_ready sv \<noteq> [] \<and> hd (sv_ready sv)"
    using w by (auto simp: api_WaitReady_def sv_with_resMgr_def split: list.splits)
  moreover have "main_stop Z v E cfg ?ct (me_served E api) z = Inr (Inr z')" using sv(3) ready w r by simp
  ultimately have "sv_ready sv \<noteq> [] \<and> hd (sv_ready sv)" and stop: "api_Stop (me_gnetStop E) (me_served E api) = None"
    "\<not> cc_Enabled (cf_Cluster cfg) \<or> (\<exists>node. ct_node ?ct = Some node \<and> me_Shutdown E node = None)"
    using main_stop_returns [OF _ assms(2,3)] by blast+
  moreover have "if cc_Enabled (cf_Cluster cfg) then Cluster_WaitReady (me_turns E) (me_cluster E) ?ct (sv_resMgr sv) = Inr (True, rm) else rm = sv_resMgr sv"
    using sv(2) ready by (auto split: if_splits)
  ultimately show ?thesis
    using s(1) rm0 sv(1) w by (intro exI [of _ services] exI [of _ rm0] exI [of _ sv] exI [of _ rm]) auto
qed

definition sample_zap :: "unit zap_ops" where
  "sample_zap = \<lparr>zap_Log = \<lambda>l lv x z. if lv = FatalLevel then Inr (Inl 1) else if lv = PanicLevel then Inl (Panic []) else Inr (Inr z),
     zap_Level = \<lambda>l. InfoLevel\<rparr>"

definition sample_main_env :: "'m main_env" where
  "sample_main_env = \<lparr>me_turns = 0, me_cluster = \<lambda>_. sample_env, me_started = \<lambda>sv. bindR (tcp_OnBoot sv) (\<lambda>(_, sv). Inr (Inr sv)),
     me_served = id, me_gnetStop = \<lambda>_. None, me_Shutdown = \<lambda>_. None\<rparr>"

definition sample_logs :: log_vars where
  "sample_logs = snd (logging_Init (sample_cfg False) \<lparr>defLogger = None, defLevelEnabler = InfoLevel, defRaftLogger = None\<rparr>)"

theorem invalid_scheme_panics_witness:
  "ratecat_main sample_zap alist_swiss (\<lambda>_. Inl []) sample_sha sample_raft 0
     ((sample_cfg False)\<lparr>cf_ApiListenUrl := sample_url\<lparr>u_Scheme := ''udp''\<rparr>\<rparr>) sample_logs sample_main_env () = Inl nil_deref"
  by (rule invalid_scheme_panics) (simp_all add: cfg_wf_def sample_urls sample_cfg_def)

text \<open>A standalone server that boots and stops returns.\<close>

lemma sample_run:
  "ratecat_main sample_zap alist_swiss (\<lambda>_. Inl []) sample_sha sample_raft 0 (sample_cfg False) sample_logs sample_main_env () = Inr (Inr ())"
proof -
  obtain np where np: "NewNodeProber (\<lambda>_. Inl []) sample_sha (sample_cfg False) = Inr np"
    "cf_ApiListenUrl (np_cfg np) = sample_url" "\<not> cc_Enabled (cf_Cluster (np_cfg np))"
    using NewNodeProber_returns [of sample_sha "sample_cfg False" "\<lambda>_. Inl []"] sample_urls
    by (auto simp: cfg_wf_def sample_cfg_def)
  then show ?thesis
    by (simp add: ratecat_main_def initServices_def Cluster_NewServer_def Cluster_StartAsync_def api_NewServer_def sample_url_def main_serve_def Let_def
        sample_main_env_def tcp_OnBoot_def ready_send_def bindX_def sample_cfg_def sv_with_resMgr_def api_WaitReady_def main_stop_def api_Stop_def)
qed

theorem main_returns_only_after_serving_witness:
  "\<exists>services rm0 sv. initServices alist_swiss (\<lambda>_. Inl []) sample_sha sample_raft 0 (sample_cfg False) = Inr (Inr services) \<and>
     Cluster_StartAsync (ss_Cluster services) (sv_resMgr (ss_API services)) = Inr rm0 \<and>
     me_started sample_main_env (sv_with_resMgr rm0 (ss_API services)) = Inr (Inr sv) \<and> sv_ready sv \<noteq> [] \<and> hd (sv_ready sv) \<and>
     api_Stop (me_gnetStop sample_main_env) (snd (api_WaitReady (sv_with_resMgr (sv_resMgr sv) sv))) = None"
proof -
  have "zap_ok sample_zap" by (simp add: zap_ok_def sample_zap_def)
  moreover have "defLogger sample_logs \<noteq> None"
    by (simp add: sample_logs_def logging_Init_def Let_def initDefLogger_def split_beta)
  ultimately show ?thesis using main_returns_only_after_serving [OF sample_run] by (auto simp: sample_main_env_def api_Stop_def)
qed

section \<open>Addresses\<close>

lemma Contains_set: "strings_Contains s t \<Longrightarrow> set t \<subseteq> set s"
  unfolding strings_Contains_def list_ex_iff Bex_def in_set_suffixes using set_mono_suffix set_mono_prefix by (metis subset_trans)

text \<open>
  C38 Addresses may leave out the scheme and the host.  An address of a host and a port, the host possibly an IPv6
  address, is decoded exactly as the same address with the scheme \<^verbatim>\<open>tcp\<close>; an empty host is the loopback address.
\<close>

theorem decode_completes_address:
  assumes "CHR '':'' \<notin> set port" "set (host @ port) \<inter> {CHR ''['', CHR '']'', CHR ''/''} = {}"
  shows "URL_Decode Parse (JoinHostPort host port) u =
    URL_Decode Parse (''tcp://'' @ (if host = [] then ''127.0.0.1:'' @ port else JoinHostPort host port)) u"
proof -
  have split: "SplitHostPort (JoinHostPort host port) = Inr (host, port)" by (rule Split_Join) (use assms in auto)
  have "CHR ''/'' \<notin> set (JoinHostPort host port)" "CHR '':'' \<in> set (JoinHostPort host port)"
    using assms by (auto simp: JoinHostPort_def)
  then have "\<not> strings_Contains (JoinHostPort host port) ''://''" "IndexByte (JoinHostPort host port) (CHR '':'') \<noteq> None"
    using Contains_set [of "JoinHostPort host port" "''://''"] by auto
  then have "(if strings_Contains (JoinHostPort host port) ''://'' then Inr (JoinHostPort host port) else complete_addr (JoinHostPort host port)) =
      (Inr (''tcp://'' @ (if host = [] then ''127.0.0.1:'' @ port else JoinHostPort host port)) :: string + string)"
    by (simp add: complete_addr_def split)
  moreover have "strings_Contains (''tcp://'' @ t) ''://''" for t
    by (simp add: strings_Contains_def)
  ultimately show ?thesis by (simp add: URL_Decode_def)
qed

theorem decode_completes_address_witness:
  "URL_Decode (\<lambda>s. Inl s) ''[::1]:4117'' URL_zero = (Some ''tcp://[::1]:4117'', URL_zero)"
  using decode_completes_address [of "''4117''" "''::1''" "\<lambda>s. Inl s" URL_zero]
  by (simp add: JoinHostPort_def) (simp add: URL_Decode_def strings_Contains_def)

end
