(* ===== verification/TestClusterProperties.thy ===== *)
theory TestClusterProperties
  imports TestCluster ServiceProperties
begin

text \<open>
  A cluster made for a test is one cluster: each of its nodes is found under its identifier and starts the raft
  library with the same members.
\<close>

definition node_user :: "int \<Rightarrow> string" where
  "node_user nid = ''node'' @ show_int nid"

definition node_host :: "int \<Rightarrow> string" where
  "node_host nid = ''127.0.0.1:'' @ show_int (15000 + nid)"

text \<open>What \<^verbatim>\<open>url.Parse\<close> does on the addresses of the nodes.\<close>

definition parse_ok :: "(string \<Rightarrow> string + URL) \<Rightarrow> bool" where
  "parse_ok Parse \<longleftrightarrow>
     (\<forall>port. 0 \<le> port \<and> port \<le> 65535 \<longrightarrow> (\<exists>u. Parse (''tcp://0.0.0.0:'' @ show_int port) = Inr u \<and> u_Scheme u = ''tcp'')) \<and>
     (\<forall>nid port. 0 < nid \<and> 0 \<le> port \<and> port \<le> 65535 \<longrightarrow>
       (\<exists>u. Parse (''tcp://'' @ node_user nid @ ''@127.0.0.1:'' @ show_int port) = Inr u \<and>
         u_Username u = node_user nid \<and> u_Host u = ''127.0.0.1:'' @ show_int port))"

lemma Contains_scheme: "strings_Contains (''tcp://'' @ t) ''://''"
  by (simp add: strings_Contains_def)

lemma Decode_tcp:
  "URL_Decode Parse (''tcp://'' @ t) u =
    (case Parse (''tcp://'' @ t) of Inl err \<Rightarrow> (Some err, u) | Inr parsed \<Rightarrow> (None, parsed\<lparr>u_hash := None\<rparr>))"
  using Contains_scheme [of t] by (simp add: URL_Decode_def)

lemma small_wrap: "0 \<le> x \<Longrightarrow> x \<le> 65535 \<Longrightarrow> wrap64 x = x"
  by (rule wrap64_id) simp_all

lemma node_address:
  assumes "0 < nid" "nid \<le> 50535"
  shows "node_address nid = ''tcp://'' @ node_user nid @ ''@'' @ node_host nid"
  using assms by (simp add: node_address_def node_user_def node_host_def small_wrap)

lemma node_decoded:
  assumes "parse_ok Parse" "0 < nid" "nid \<le> 50535"
  obtains u where "\<And>v. snd (URL_Decode Parse (node_address nid) v) = u" "u_Username u = node_user nid" "u_Host u = node_host nid"
    "u_hash u = None"
proof -
  obtain u where u: "Parse (node_address nid) = Inr u" "u_Username u = node_user nid" "u_Host u = node_host nid"
    using assms(1) [unfolded parse_ok_def, THEN conjunct2, rule_format, of nid "15000 + nid"] assms(2,3)
    by (auto simp: node_address node_host_def)
  show thesis
    by (rule that [of "u\<lparr>u_hash := None\<rparr>"]) (use u assms(2,3) in \<open>simp_all add: node_address Decode_tcp [simplified]\<close>)
qed

lemma listen_decoded:
  assumes "parse_ok Parse" "0 < nid" "nid \<le> 50535"
  shows "u_Scheme (snd (URL_Decode Parse (sprintf ''tcp://0.0.0.0:%d'' [FInt (wrap64 (14000 + nid))]) v)) = ''tcp''"
proof -
  obtain u where u: "Parse (''tcp://0.0.0.0:'' @ show_int (14000 + nid)) = Inr u" "u_Scheme u = ''tcp''"
    using assms(1) [unfolded parse_ok_def, THEN conjunct1, rule_format, of "14000 + nid"] assms(2,3) by auto
  then show ?thesis
    using Decode_tcp [of Parse "''0.0.0.0:'' @ show_int (14000 + nid)" v] assms(2,3) by (simp add: small_wrap)
qed

section \<open>One node\<close>

definition node_member :: "(string \<Rightarrow> byte list) \<Rightarrow> int \<Rightarrow> raw_member" where
  "node_member sha nid = \<lparr>rw_ID = ucast (id_of sha (node_user nid)), rw_Address = node_host nid\<rparr>"

lemma member_of_node: "u_Username u = node_user nid \<Longrightarrow> u_Host u = node_host nid \<Longrightarrow> member_of sha u = node_member sha nid"
  by (simp add: member_of_def node_member_def)

lemma NodeID_fresh:
  assumes "u_hash u = None" "sha_ok sha"
  shows "URL_NodeID sha u = Inr (id_of sha (u_Username u), u\<lparr>u_hash := Some (sha (u_Username u))\<rparr>)"
  using assms by (simp add: URL_NodeID_def URL_UserNameHash_def Let_def get_slice_def slice_def id_of_def sha_ok_def)

lemma Prober_made:
  assumes "u_hash (cc_Url (cf_Cluster cfg)) = None" "sha_ok sha" "list_all (URL_wf sha) (cc_PeerUrls (cf_Cluster cfg))"
  obtains np u where "NewNodeProber dial sha cfg = Inr np" "np_curNodeID np = id_of sha (u_Username (cc_Url (cf_Cluster cfg)))"
    "np_cfg np = cfg\<lparr>cf_Cluster := (cf_Cluster cfg)\<lparr>cc_Url := u\<rparr>\<rparr>" "URL_wf sha u"
    "u_Username u = u_Username (cc_Url (cf_Cluster cfg))" "u_Host u = u_Host (cc_Url (cf_Cluster cfg))"
proof -
  let ?u = "(cc_Url (cf_Cluster cfg))\<lparr>u_hash := Some (sha (u_Username (cc_Url (cf_Cluster cfg))))\<rparr>"
  obtain pm where "newPeerClientMgr dial sha (cfg\<lparr>cf_Cluster := (cf_Cluster cfg)\<lparr>cc_Url := ?u\<rparr>\<rparr>) = Inr pm"
    using addClients_returns [OF assms(2,3)] by (auto simp: newPeerClientMgr_def)
  then show thesis
    using that [where u = ?u] assms(1,2) by (simp add: NewNodeProber_def Config_ClusterNodeID_def NodeID_fresh URL_wf_def)
qed

lemma peer_decoded:
  assumes "parse_ok Parse" "0 < nid" "nid \<le> 50535"
  shows "URL_wf sha (snd (ParseURL Parse (node_address nid)))" "member_of sha (snd (ParseURL Parse (node_address nid))) = node_member sha nid"
  by (rule node_decoded [OF assms]; simp add: ParseURL_def URL_wf_def member_of_node)+

text \<open>A node lists itself, the peers of the default configuration and its own.\<close>

definition node_members :: "'m test_env \<Rightarrow> int list \<Rightarrow> raw_member list" where
  "node_members E nids =
     map (node_member (te_sha E)) nids @ map (member_of (te_sha E)) (cc_PeerUrls (cf_Cluster (te_default E)))"

definition good_node :: "'m test_env \<Rightarrow> int list \<Rightarrow> int \<Rightarrow> 'm ClusterInfo \<Rightarrow> bool" where
  "good_node E nids nid ci \<longleftrightarrow>
     ci_id ci = nid \<and> ci_NodeID ci = id_of (te_sha E) (node_user nid) \<and>
     mset (ct_members (ci_ClusterServer ci)) = mset (node_members E nids)"

lemma good_node_mset: "mset nids = mset nids' \<Longrightarrow> good_node E nids nid ci = good_node E nids' nid ci"
  by (simp add: good_node_def node_members_def)

definition test_env_ok :: "'m test_env \<Rightarrow> bool" where
  "test_env_ok E \<longleftrightarrow> parse_ok (te_Parse E) \<and> sha_ok (te_sha E) \<and>
     list_all (URL_wf (te_sha E)) (cc_PeerUrls (cf_Cluster (te_default E)))"

lemma InitClusterServer_good:
  assumes "test_env_ok E" "\<forall>i\<in>set (nid # peerIDs). 0 < i \<and> i \<le> 50535"
  shows "\<exists>ci. InitClusterServer E nid peerIDs = Inr (Inr ci) \<and> good_node E (nid # peerIDs) nid ci"
proof -
  let ?sha = "te_sha E" and ?cfg = "node_config E nid peerIDs"
  have ok: "parse_ok (te_Parse E)" "sha_ok ?sha" "list_all (URL_wf ?sha) (cc_PeerUrls (cf_Cluster (te_default E)))"
    using assms(1) by (simp_all add: test_env_ok_def)
  have nid: "0 < nid" "nid \<le> 50535" using assms(2) by simp_all
  obtain u where u: "\<And>v. snd (URL_Decode (te_Parse E) (node_address nid) v) = u" "u_Username u = node_user nid"
    "u_Host u = node_host nid" "u_hash u = None" by (rule node_decoded [OF ok(1) nid]) blast
  have url: "cc_Url (cf_Cluster ?cfg) = u" "u_Scheme (cf_ApiListenUrl ?cfg) = ''tcp''" "cc_Enabled (cf_Cluster ?cfg)"
    using listen_decoded [OF ok(1) nid] by (simp_all add: node_config_def Let_def u(1) del: sprintf.simps)
  have peers: "cc_PeerUrls (cf_Cluster ?cfg) =
      cc_PeerUrls (cf_Cluster (te_default E)) @ map (\<lambda>i. snd (ParseURL (te_Parse E) (node_address i))) peerIDs"
    by (simp add: node_config_def Let_def del: sprintf.simps)
  have wf: "list_all (URL_wf ?sha) (cc_PeerUrls (cf_Cluster ?cfg))"
    using ok(3) assms(2) peer_decoded(1) [OF ok(1)] by (auto simp: peers list_all_iff)
  obtain np w where np: "NewNodeProber (te_dial E) ?sha ?cfg = Inr np" "np_curNodeID np = id_of ?sha (node_user nid)"
    "np_cfg np = ?cfg\<lparr>cf_Cluster := (cf_Cluster ?cfg)\<lparr>cc_Url := w\<rparr>\<rparr>" "URL_wf ?sha w" "u_Username w = node_user nid" "u_Host w = node_host nid"
    using Prober_made [of ?cfg, OF _ ok(2) wf] url(1) u by metis
  have members: "map (member_of ?sha) (cc_PeerUrls (cf_Cluster ?cfg)) =
      map (member_of ?sha) (cc_PeerUrls (cf_Cluster (te_default E))) @ map (node_member ?sha) peerIDs"
    using assms(2) peer_decoded(2) [OF ok(1)] by (simp add: peers)
  show ?thesis
    using url np wf member_of_node [OF np(5,6), of ?sha]
    by (simp add: InitClusterServer_def Let_def Cluster_NewServer_def raw_member_of [OF _ ok(2)] peer_members [OF wf ok(2)] members
        NewCmdDispatcher_def NewResourceManager_def api_NewServer_def good_node_def node_members_def rm_CurNodeID_def nodeProber_CurNodeID_def nodeProber_SetRaftNode_def)
qed

section \<open>The cluster\<close>

lemma GetNode_update: "ClusterInfos_GetNode (AList.update i p ci) j = (if j = i then p else ClusterInfos_GetNode ci j)"
  by (simp add: ClusterInfos_GetNode_def update_conv')

definition has_node :: "'m test_env \<Rightarrow> int list \<Rightarrow> 'm ClusterInfos \<Rightarrow> int \<Rightarrow> bool" where
  "has_node E nids infos nid \<longleftrightarrow>
     (\<exists>ci. ClusterInfos_GetNode infos (id_of (te_sha E) (node_user nid)) = Some ci \<and> good_node E nids nid ci)"

text \<open>The nodes that are made so far, each in an entry of its own, and no others.\<close>

definition nodes_made :: "'m test_env \<Rightarrow> int list \<Rightarrow> 'm ClusterInfos \<Rightarrow> int list \<Rightarrow> bool" where
  "nodes_made E nids infos done \<longleftrightarrow> list_all (has_node E nids infos) done \<and> distinct (map fst infos) \<and>
     set (map fst infos) = set (map (\<lambda>nid. id_of (te_sha E) (node_user nid)) done)"

lemma nodes_made_update:
  assumes "nodes_made E nids infos done" "good_node E nids k c" "distinct (map (\<lambda>nid. id_of (te_sha E) (node_user nid)) (done @ [k]))"
  shows "nodes_made E nids (AList.update (ci_NodeID c) (Some c) infos) (done @ [k])"
proof -
  have "has_node E nids (AList.update (ci_NodeID c) (Some c) infos) m" if "m \<in> set (done @ [k])" for m
    using assms that by (fastforce simp: nodes_made_def has_node_def GetNode_update good_node_def list_all_iff image_iff)
  then show ?thesis
    using assms(1,2) by (auto simp: nodes_made_def list_all_iff distinct_update dom_update good_node_def)
qed

lemma init_each_good:
  assumes "test_env_ok E" "\<forall>k\<in>set nids. 0 < k \<and> k \<le> 50535" "distinct (map (\<lambda>nid. id_of (te_sha E) (node_user nid)) nids)"
    and "i = length done" "nids = done @ rest" "nodes_made E nids infos done"
  shows "\<exists>infos'. init_each t E nids i rest infos = Inr (Inr infos') \<and> nodes_made E nids infos' nids"
  using assms(4-6)
proof (induction rest arbitrary: i infos "done")
  case (Cons k rest)
  let ?peers = "take i nids @ drop (i + 1) nids"
  have peers: "?peers = done @ rest" using Cons.prems by simp
  have "\<forall>j\<in>set (k # ?peers). 0 < j \<and> j \<le> 50535" using assms(2) Cons.prems(2) unfolding peers by auto
  then obtain c where c: "InitClusterServer E k ?peers = Inr (Inr c)" "good_node E (k # ?peers) k c"
    using InitClusterServer_good [OF assms(1)] by blast
  have "mset (k # ?peers) = mset nids" by (subst peers) (simp add: Cons.prems(2))
  then have good: "good_node E nids k c" using c(2) good_node_mset by metis
  have "distinct (map (\<lambda>nid. id_of (te_sha E) (node_user nid)) (done @ [k]))" using assms(3) Cons.prems(2) by simp
  from nodes_made_update [OF Cons.prems(3) good this]
  show ?case using Cons.IH [of "i + 1" "done @ [k]"] Cons.prems c(1) by simp
qed simp

text \<open>
  C22 A test cluster is one cluster.  For every number of nodes that leaves their ports in range, and names that
  \<^verbatim>\<open>NodeID\<close> tells apart, all nodes are made and the map holds just these: the node with number \<open>k\<close> is found
  under the identifier it has itself, and each gives the raft library the same members, all nodes of the cluster and
  the peers of the default configuration.
\<close>

theorem test_cluster_agrees:
  assumes "test_env_ok E" "0 \<le> n" "n \<le> 50535" "distinct (map (\<lambda>k. id_of (te_sha E) (node_user k)) [1..n])"
  shows "\<exists>infos. InitClusterServers t E n = Inr (Inr infos) \<and> length infos = nat n \<and>
    (\<forall>k \<in> {1..n}. \<exists>ci. ClusterInfos_GetNode infos (id_of (te_sha E) (node_user k)) = Some ci \<and> ci_id ci = k \<and>
      ci_NodeID ci = id_of (te_sha E) (node_user k) \<and> mset (ct_members (ci_ClusterServer ci)) = mset (node_members E [1..n]))"
proof -
  obtain infos where infos: "InitClusterServers t E n = Inr (Inr infos)" "nodes_made E [1..n] infos [1..n]"
    using init_each_good [OF assms(1) _ assms(4), of 0 "[]" "[1..n]" "[]" t] assms(2,3) by (auto simp: InitClusterServers_def nodes_made_def)
  have "length infos = card (set (map fst infos))" using infos(2) distinct_card [of "map fst infos"] by (simp add: nodes_made_def)
  also have "\<dots> = nat n"
    using infos(2) distinct_card [OF assms(4)] by (simp add: nodes_made_def)
  finally show ?thesis using infos by (auto simp: nodes_made_def list_all_iff has_node_def good_node_def)
qed

section \<open>Instances\<close>

text \<open>A parser for the addresses of the nodes.\<close>

definition sample_Parse :: "string \<Rightarrow> string + URL" where
  "sample_Parse s =
     (let rest = drop 6 s
      in case IndexByte rest (CHR ''@'') of
           None \<Rightarrow> Inr \<lparr>u_Scheme = ''tcp'', u_Host = rest, u_Username = [], u_String = s, u_hash = None\<rparr>
         | Some i \<Rightarrow> Inr \<lparr>u_Scheme = ''tcp'', u_Host = drop (Suc i) rest, u_Username = take i rest, u_String = s, u_hash = None\<rparr>)"

lemma show_nat_digits: "CHR ''@'' \<notin> set (show_nat n)"
proof (induction n rule: show_nat.induct)
  case (1 n)
  have "CHR ''@'' \<noteq> char_of (48 + m)" if "m < 10" for m :: nat
  proof
    assume "CHR ''@'' = char_of (48 + m)"
    then have "(of_char CHR ''@'' :: nat) = of_char (char_of (48 + m) :: char)" by (rule arg_cong)
    then show False using that by simp
  qed
  then show ?case using 1 by (subst show_nat.simps) (auto)
qed

lemma sample_Parse_ok: "parse_ok sample_Parse"
proof -
  have port: "CHR ''@'' \<notin> set (show_int p)" if "0 \<le> p" for p using that by (simp add: show_int_def show_nat_digits)
  have "IndexByte (''node'' @ show_int nid @ CHR ''@'' # t) (CHR ''@'') = Some (length (''node'' @ show_int nid))" if "0 < nid" for nid t
    using IndexByte_append [of "CHR ''@''" "''node'' @ show_int nid" t] port [of nid] that by simp
  then show ?thesis by (simp add: parse_ok_def sample_Parse_def Let_def node_user_def port iffD2 [OF IndexByte_None])
qed

text \<open>A hash that tells the names of the first nodes apart.\<close>

definition test_sha :: "string \<Rightarrow> byte list" where
  "test_sha user = word_of_nat (of_char (last user)) # replicate 31 0"

definition sample_test_env :: "(string \<times> addr) list test_env" where
  "sample_test_env = \<lparr>te_Parse = sample_Parse, te_swiss = alist_swiss, te_dial = \<lambda>_. Inl [], te_sha = test_sha,
     te_NewNode = \<lambda>_. sample_raft, te_now = 0, te_default = (sample_cfg False), te_started = \<lambda>sv. Inr (Inr sv),
     te_gnetStop = \<lambda>_. None, te_Shutdown = \<lambda>_. None\<rparr>"

lemma sample_node_names: "node_user 1 = ''node1''" "node_user 2 = ''node2''" "node_user 3 = ''node3''"
  by (simp_all add: node_user_def show_int_def show_nat.simps char_of_def bit_0)

lemma test_sha_ids: "id_of test_sha ''node1'' = 49" "id_of test_sha ''node2'' = 50" "id_of test_sha ''node3'' = 51"
proof -
  have "take 4 (b # replicate 31 0) = [b, 0, 0, 0 :: byte]" for b by (simp add: numeral_eq_Suc)
  then show "id_of test_sha ''node1'' = 49" "id_of test_sha ''node2'' = 50" "id_of test_sha ''node3'' = 51"
    by (simp_all add: id_of_def test_sha_def)
qed

theorem test_cluster_agrees_witness:
  "\<exists>infos ci ci'. InitClusterServers True sample_test_env 3 = Inr (Inr infos) \<and> length infos = 3 \<and>
     ClusterInfos_GetNode infos (id_of test_sha ''node2'') = Some ci \<and> ci_id ci = 2 \<and>
     ClusterInfos_GetNode infos (id_of test_sha ''node3'') = Some ci' \<and> ci_id ci' = 3 \<and>
     mset (ct_members (ci_ClusterServer ci)) = mset (ct_members (ci_ClusterServer ci'))"
proof -
  have "sha_ok test_sha" by (simp add: sha_ok_def test_sha_def)
  then have ok: "test_env_ok sample_test_env"
    by (simp add: test_env_ok_def sample_test_env_def sample_Parse_ok sample_cfg_def)
  have ids: "[1..3] = [1, 2, 3 :: int]" "te_sha sample_test_env = test_sha" by (simp_all add: sample_test_env_def upto.simps)
  have "distinct (map (\<lambda>k. id_of (te_sha sample_test_env) (node_user k)) [1..3])"
    by (simp add: ids sample_node_names test_sha_ids)
  from test_cluster_agrees [OF ok _ _ this, of True] obtain infos where infos: "InitClusterServers True sample_test_env 3 = Inr (Inr infos)" "length infos = 3"
    "\<forall>k \<in> {1..3}. \<exists>ci. ClusterInfos_GetNode infos (id_of test_sha (node_user k)) = Some ci \<and> ci_id ci = k \<and>
      ci_NodeID ci = id_of test_sha (node_user k) \<and> mset (ct_members (ci_ClusterServer ci)) = mset (node_members sample_test_env [1..3])"
    by (auto simp: ids(2))
  show ?thesis
    using bspec [OF infos(3), of 2] bspec [OF infos(3), of 3] infos(1,2) unfolding sample_node_names by auto
qed

end
