(* ===== verification/RepoTool.thy ===== *)
theory RepoTool
  imports CmdErr
begin

text \<open>
  The repository tool (\<^verbatim>\<open>cmd/repo/main.go\<close>), a program of its own: it uploads a file to a remote object
  store in base64 chunks and downloads an object.  HTTP, files and JSON are the record \<open>repo_lib\<close> of the operations
  called, on a state \<open>'s\<close>; base64 and the cutting into chunks are written out.
\<close>

section \<open>The service\<close>

record Action =
  act_A :: string
  act_N :: string
  act_D :: "byte list"
  act_I :: int

record Response =
  rsp_Data :: "byte list"
  rsp_Err :: string

text \<open>\<open>rl_Do\<close> sends a request's body to a target: its error, or the outcome of reading the response.\<close>

record 's repo_lib =
  rl_Marshal :: "Action \<Rightarrow> string + byte list"
  rl_NewRequest :: "string \<Rightarrow> string option"
  rl_Do :: "string \<Rightarrow> byte list \<Rightarrow> 's \<Rightarrow> (string + string + byte list) \<times> 's"
  rl_Unmarshal :: "byte list \<Rightarrow> string + Response"
  rl_ReadFile :: "string \<Rightarrow> 's \<Rightarrow> string + byte list"
  rl_WriteFile :: "string \<Rightarrow> byte list \<Rightarrow> 's \<Rightarrow> string option \<times> 's"

text \<open>The error of \<^verbatim>\<open>NewRequest\<close> is overwritten before it is looked at: the nil request is dereferenced.\<close>

definition repo_post :: "'s repo_lib \<Rightarrow> string \<Rightarrow> Action \<Rightarrow> 's \<Rightarrow> ((string + Response) \<times> 's) res" where
  "repo_post L target action s =
     (case rl_Marshal L action of
        Inl err \<Rightarrow> Inr (Inl (''failed to marshal action: '' @ err), s)
      | Inr data \<Rightarrow>
          if rl_NewRequest L target \<noteq> None then Inl nil_deref
          else
            (case rl_Do L target data s of
               (Inl err, s) \<Rightarrow> Inr (Inl (''failed to post: '' @ err), s)
             | (Inr (Inl err), s) \<Rightarrow> Inr (Inl (''failed to read response: '' @ err), s)
             | (Inr (Inr body), s) \<Rightarrow>
                 (case rl_Unmarshal L body of
                    Inl err \<Rightarrow> Inr (Inl (''failed to unmarshal response: '' @ err), s)
                  | Inr respData \<Rightarrow> Inr (Inr respData, s))))"

section \<open>Encoding\<close>

definition b64_char :: "nat \<Rightarrow> byte" where
  "b64_char n =
     word_of_nat (if n < 26 then 65 + n else if n < 52 then 71 + n else if n < 62 then n - 4 else if n = 62 then 43 else 47)"

fun encodeData :: "byte list \<Rightarrow> byte list" where
  "encodeData [] = []"
| "encodeData [a] = [b64_char (unat a div 4), b64_char (unat a mod 4 * 16), 61, 61]"
| "encodeData [a, b] =
     [b64_char (unat a div 4), b64_char (unat a mod 4 * 16 + unat b div 16), b64_char (unat b mod 16 * 4), 61]"
| "encodeData (a # b # c # data) =
     b64_char (unat a div 4) # b64_char (unat a mod 4 * 16 + unat b div 16) #
     b64_char (unat b mod 16 * 4 + unat c div 64) # b64_char (unat c mod 64) # encodeData data"

text \<open>\<^verbatim>\<open>slices.Chunk\<close> for a positive size.\<close>

function Chunk :: "nat \<Rightarrow> 'a list \<Rightarrow> 'a list list" where
  "Chunk n xs = (if xs = [] \<or> n = 0 then [] else take n xs # Chunk n (drop n xs))"
  by pat_completeness auto
termination by (relation "measure (\<lambda>(n, xs). length xs)") auto

declare Chunk.simps [simp del]

section \<open>The actions\<close>

fun add_loop :: "'s repo_lib \<Rightarrow> string \<Rightarrow> string \<Rightarrow> nat \<Rightarrow> byte list list \<Rightarrow> 's \<Rightarrow> (string option \<times> 's) res" where
  "add_loop L target name i [] s = Inr (None, s)"
| "add_loop L target name i (chunk # chunks) s =
     bindR (repo_post L target \<lparr>act_A = ''a'', act_N = name, act_D = chunk, act_I = int i\<rparr> s) (\<lambda>(r, s).
       case r of
         Inl err \<Rightarrow> Inr (Some (''failed to append: '' @ err), s)
       | Inr _ \<Rightarrow> add_loop L target name (Suc i) chunks s)"

definition repo_add :: "'s repo_lib \<Rightarrow> string \<Rightarrow> string \<Rightarrow> string \<Rightarrow> int \<Rightarrow> 's \<Rightarrow> (string option \<times> 's) res" where
  "repo_add L target name inputFile chunkSize s =
     bindR (repo_post L target \<lparr>act_A = ''d'', act_N = name, act_D = [], act_I = 0\<rparr> s) (\<lambda>(r, s).
       case r of
         Inl err \<Rightarrow> Inr (Some (''failed to delete: '' @ err), s)
       | Inr _ \<Rightarrow>
           (case rl_ReadFile L inputFile s of
              Inl err \<Rightarrow> Inr (Some (''failed to read file: '' @ err), s)
            | Inr content \<Rightarrow>
                if chunkSize < 1 then Inl (Panic ''cannot be less than 1'')
                else add_loop L target name 0 (Chunk (nat chunkSize) (encodeData content)) s))"

text \<open>The data of the response is written as it is; the call that would decode it is commented out.\<close>

definition repo_read :: "'s repo_lib \<Rightarrow> string \<Rightarrow> string \<Rightarrow> string \<Rightarrow> 's \<Rightarrow> (string option \<times> 's) res" where
  "repo_read L target name outputFile s =
     bindR (repo_post L target \<lparr>act_A = ''r'', act_N = name, act_D = [], act_I = 0\<rparr> s) (\<lambda>(r, s).
       case r of
         Inl err \<Rightarrow> Inr (Some (''failed to read: '' @ err), s)
       | Inr resp \<Rightarrow>
           if rsp_Err resp \<noteq> [] then Inr (Some (''failed to read: '' @ rsp_Err resp), s)
           else
             (case rl_WriteFile L outputFile (rsp_Data resp) s of
                (Some err, s) \<Rightarrow> Inr (Some (''failed to write file: '' @ err), s)
              | (None, s) \<Rightarrow> Inr (None, s)))"

text \<open>The exit code of a run.  Deleting does nothing.\<close>

definition repo_main :: "'s repo_lib \<Rightarrow> string \<Rightarrow> string \<Rightarrow> int \<Rightarrow> string list \<Rightarrow> 's \<Rightarrow> (nat \<times> 's) res" where
  "repo_main L target action chunkSize args s =
     (if target = [] \<or> action = [] then Inr (1, s)
      else
        let finish = (\<lambda>(err, s). Inr (if err \<noteq> None then 1 else 0, s))
        in if action = ''add'' then
             (case args of [name, inputFile] \<Rightarrow> bindR (repo_add L target name inputFile chunkSize s) finish | _ \<Rightarrow> Inr (1, s))
           else if action = ''read'' then
             (case args of [name, outputFile] \<Rightarrow> bindR (repo_read L target name outputFile s) finish | _ \<Rightarrow> Inr (1, s))
           else if action = ''delete'' then Inr (0, s)
           else Inr (1, s))"

section \<open>What is uploaded\<close>

definition b64_index :: "byte \<Rightarrow> nat" where
  "b64_index c =
     (let n = unat c
      in if 65 \<le> n \<and> n \<le> 90 then n - 65 else if 97 \<le> n \<and> n \<le> 122 then n - 71
         else if 48 \<le> n \<and> n \<le> 57 then n + 4 else if n = 43 then 62 else 63)"

fun b64_decode :: "byte list \<Rightarrow> byte list" where
  "b64_decode (a # b # c # d # text) =
     (let i = b64_index
      in if c = 61 then [word_of_nat (i a * 4 + i b div 16)]
         else if d = 61 then [word_of_nat (i a * 4 + i b div 16), word_of_nat (i b mod 16 * 16 + i c div 4)]
         else word_of_nat (i a * 4 + i b div 16) # word_of_nat (i b mod 16 * 16 + i c div 4) #
              word_of_nat (i c mod 4 * 64 + i d) # b64_decode text)"
| "b64_decode text = []"

lemma unat_b64_char: "n < 64 \<Longrightarrow> unat (b64_char n) =
    (if n < 26 then 65 + n else if n < 52 then 71 + n else if n < 62 then n - 4 else if n = 62 then 43 else 47)"
  by (simp add: b64_char_def unat_of_nat)

lemma b64_index_char [simp]: "n < 64 \<Longrightarrow> b64_index (b64_char n) = n"
  unfolding b64_index_def Let_def unat_b64_char by (simp split: if_split) arith

lemma b64_char_pad [simp]: "n < 64 \<Longrightarrow> b64_char n \<noteq> 61"
proof
  assume "n < 64" "b64_char n = 61"
  then show False using unat_b64_char [of n] by (simp split: if_splits)
qed

lemma byte_less [simp]: "unat (a :: byte) div 4 < 64" "unat a mod 4 * 16 + unat (b :: byte) div 16 < 64"
  "unat a mod 4 * 16 < 64" "unat b mod 16 * 4 < 64" "unat b mod 16 * 4 + unat (c :: byte) div 64 < 64"
  using unsigned_less [of a, where 'a = nat] unsigned_less [of b, where 'a = nat] unsigned_less [of c, where 'a = nat] by auto

lemma byte_parts [simp]:
  "unat (b :: byte) div 16 div 16 = 0" "unat (b :: byte) div 64 div 4 = 0"
  "unat b div 16 mod 16 * 16 + unat b mod 16 = unat b" "unat b div 64 mod 4 * 64 + unat b mod 64 = unat b"
  using unsigned_less [of b, where 'a = nat] by auto

lemma decode_encodeData: "b64_decode (encodeData data) = data"
  by (induction data rule: encodeData.induct) (simp_all add: Let_def del: of_nat_add of_nat_mult)

lemma concat_Chunk: "0 < n \<Longrightarrow> concat (Chunk n xs) = xs"
  by (induction n xs rule: Chunk.induct) (subst Chunk.simps, simp)

lemma length_encodeData: "length (encodeData data) \<le> length data \<longleftrightarrow> data = []"
  by (induction data rule: encodeData.induct) auto

lemma encodeData_same: "encodeData data = data \<longleftrightarrow> data = []"
  using length_encodeData [of data] by fastforce

text \<open>A remote store of the object \<open>obj\<close> under one name, and files \<open>fil\<close>.\<close>

definition store_ok :: "'s repo_lib \<Rightarrow> string \<Rightarrow> string \<Rightarrow> ('s \<Rightarrow> byte list) \<Rightarrow> ('s \<Rightarrow> string \<Rightarrow> byte list) \<Rightarrow> bool" where
  "store_ok L target name obj fil \<longleftrightarrow>
     (\<forall>s. \<exists>r s'. repo_post L target \<lparr>act_A = ''d'', act_N = name, act_D = [], act_I = 0\<rparr> s = Inr (Inr r, s') \<and> obj s' = [] \<and> fil s' = fil s) \<and>
     (\<forall>s d i. \<exists>r s'. repo_post L target \<lparr>act_A = ''a'', act_N = name, act_D = d, act_I = i\<rparr> s = Inr (Inr r, s') \<and>
        obj s' = obj s @ d \<and> fil s' = fil s) \<and>
     (\<forall>s. \<exists>s'. repo_post L target \<lparr>act_A = ''r'', act_N = name, act_D = [], act_I = 0\<rparr> s =
        Inr (Inr \<lparr>rsp_Data = obj s, rsp_Err = []\<rparr>, s') \<and> obj s' = obj s \<and> fil s' = fil s) \<and>
     (\<forall>s f. rl_ReadFile L f s = Inr (fil s f)) \<and>
     (\<forall>s f d. \<exists>s'. rl_WriteFile L f d s = (None, s') \<and> obj s' = obj s \<and> fil s' = (fil s)(f := d))"

lemma store_okD:
  assumes "store_ok L target name obj fil"
  shows "\<exists>r s'. repo_post L target \<lparr>act_A = ''d'', act_N = name, act_D = [], act_I = 0\<rparr> s = Inr (Inr r, s') \<and> obj s' = [] \<and> fil s' = fil s"
    and "\<exists>r s'. repo_post L target \<lparr>act_A = ''a'', act_N = name, act_D = d, act_I = i\<rparr> s = Inr (Inr r, s') \<and>
      obj s' = obj s @ d \<and> fil s' = fil s"
    and "\<exists>s'. repo_post L target \<lparr>act_A = ''r'', act_N = name, act_D = [], act_I = 0\<rparr> s =
      Inr (Inr \<lparr>rsp_Data = obj s, rsp_Err = []\<rparr>, s') \<and> obj s' = obj s \<and> fil s' = fil s"
    and "rl_ReadFile L f s = Inr (fil s f)"
    and "\<exists>s'. rl_WriteFile L f d s = (None, s') \<and> obj s' = obj s \<and> fil s' = (fil s)(f := d)"
  using assms unfolding store_ok_def by blast+

lemma add_loop_appends:
  assumes "store_ok L target name obj fil"
  shows "\<exists>s'. add_loop L target name i chunks s = Inr (None, s') \<and> obj s' = obj s @ concat chunks \<and> fil s' = fil s"
proof (induction chunks arbitrary: i s)
  case (Cons c chunks)
  obtain r t where t: "repo_post L target \<lparr>act_A = ''a'', act_N = name, act_D = c, act_I = int i\<rparr> s = Inr (Inr r, t)"
    "obj t = obj s @ c" "fil t = fil s"
    using store_okD(2) [OF assms] by blast
  show ?case using Cons [of "Suc i" t] t by auto
qed simp

text \<open>
  C39 What is uploaded is not what is downloaded.  Over a store that keeps what it is sent, adding a file and reading
  the object back succeed, for every chunk size; the file written is the base64 text of the original, from which it can
  be decoded, and equal to it only if it is empty.
\<close>

theorem download_is_still_encoded:
  assumes "store_ok L target name obj fil" "1 \<le> chunkSize"
  shows "\<exists>t u. repo_add L target name inputFile chunkSize s = Inr (None, t) \<and> repo_read L target name outputFile t = Inr (None, u) \<and>
    b64_decode (fil u outputFile) = fil s inputFile \<and> (fil u outputFile = fil s inputFile \<longleftrightarrow> fil s inputFile = [])"
proof -
  obtain r s1 where s1: "repo_post L target \<lparr>act_A = ''d'', act_N = name, act_D = [], act_I = 0\<rparr> s = Inr (Inr r, s1)" "obj s1 = []" "fil s1 = fil s"
    using store_okD(1) [OF assms(1)] by blast
  obtain t where t: "add_loop L target name 0 (Chunk (nat chunkSize) (encodeData (fil s inputFile))) s1 = Inr (None, t)"
    "obj t = encodeData (fil s inputFile)" "fil t = fil s"
    using add_loop_appends [OF assms(1), of 0 "Chunk (nat chunkSize) (encodeData (fil s inputFile))" s1] s1 assms(2)
    by (auto simp: concat_Chunk)
  have add: "repo_add L target name inputFile chunkSize s = Inr (None, t)"
    using s1 t assms(2) store_okD(4) [OF assms(1)] by (simp add: repo_add_def)
  obtain t1 where t1: "repo_post L target \<lparr>act_A = ''r'', act_N = name, act_D = [], act_I = 0\<rparr> t =
      Inr (Inr \<lparr>rsp_Data = obj t, rsp_Err = []\<rparr>, t1)" "fil t1 = fil t"
    using store_okD(3) [OF assms(1)] by blast
  obtain u where u: "rl_WriteFile L outputFile (obj t) t1 = (None, u)" "fil u = (fil t1)(outputFile := obj t)"
    using store_okD(5) [OF assms(1)] by blast
  have "repo_read L target name outputFile t = Inr (None, u)" using t1 u by (simp add: repo_read_def)
  then show ?thesis using add u(2) t(2) by (simp add: decode_encodeData encodeData_same)
qed

text \<open>A store of one object and files.\<close>

definition sample_store :: "(byte list \<times> (string \<Rightarrow> byte list)) repo_lib" where
  "sample_store = \<lparr>rl_Marshal = \<lambda>a. Inr ((if act_A a = ''d'' then 0 else if act_A a = ''a'' then 1 else 2) # act_D a),
     rl_NewRequest = \<lambda>_. None,
     rl_Do = \<lambda>_ data (o1, f). if hd data = 0 then (Inr (Inr []), ([], f)) else if hd data = 1 then (Inr (Inr []), (o1 @ tl data, f))
       else (Inr (Inr o1), (o1, f)),
     rl_Unmarshal = \<lambda>b. Inr \<lparr>rsp_Data = b, rsp_Err = []\<rparr>,
     rl_ReadFile = \<lambda>path (o1, f). Inr (f path), rl_WriteFile = \<lambda>path d (o1, f). (None, (o1, f(path := d)))\<rparr>"

theorem download_is_still_encoded_witness:
  "\<exists>t u. repo_add sample_store ''x'' ''n'' ''in'' 3 ([], \<lambda>_. [1, 2]) = Inr (None, t) \<and>
     repo_read sample_store ''x'' ''n'' ''out'' t = Inr (None, u) \<and> snd u ''out'' \<noteq> [1, 2]"
proof -
  have "store_ok sample_store ''x'' ''n'' fst snd"
    by (auto simp: store_ok_def sample_store_def repo_post_def)
  from download_is_still_encoded [OF this, of 3 "''in''" "([], \<lambda>_. [1, 2])" "''out''"] show ?thesis by fastforce
qed

end
