(* ===== verification/HttpTool.thy ===== *)
theory HttpTool
  imports CmdErr "HOL-Library.AList"
begin

text \<open>
  The example program \<^verbatim>\<open>cmd/http\<close>: one request with the headers of a browser, and what it prints of the
  answer.  HTTP is a library: \<open>http_lib\<close> holds its operations on a network state, with the cookie jar part of
  it.  A call of \<^verbatim>\<open>panic\<close> ends the program; a line is printed with its newline.
\<close>

record http_request =
  hr_Method :: string
  hr_URL :: string
  hr_Header :: "(string \<times> string) list"

record 'b http_response =
  hp_StatusCode :: int
  hp_Body :: 'b

record ('b, 's) http_lib =
  hl_NewJar :: "string option"
  hl_NewRequest :: "string \<Rightarrow> string \<Rightarrow> string + http_request"
  hl_Do :: "http_request \<Rightarrow> 's \<Rightarrow> (string + 'b http_response) \<times> 's"
  hl_Cookies :: "string \<Rightarrow> 's \<Rightarrow> (string \<times> string) list"
  hl_ReadAll :: "'b \<Rightarrow> 's \<Rightarrow> (string + string) \<times> 's"
  hl_Close :: "'b \<Rightarrow> 's \<Rightarrow> 's"

text \<open>\<^verbatim>\<open>Header.Set\<close> replaces the values of a key that is there; the keys below are in their canonical form.\<close>

definition Header_Set :: "string \<Rightarrow> string \<Rightarrow> http_request \<Rightarrow> http_request" where
  "Header_Set key value req = req\<lparr>hr_Header := AList.update key value (hr_Header req)\<rparr>"

definition browser_headers :: "http_request \<Rightarrow> http_request" where
  "browser_headers req =
     Header_Set ''Accept-Language'' ''en-US,en;q=0.9''
    (Header_Set ''Accept'' ''text/html,application/xhtml+xml,application/xml;q=0.9,image/avif,image/webp,image/apng,*/*;q=0.8,application/signed-exchange;v=b3;q=0.7''
    (Header_Set ''User-Agent'' ''Mozilla/5.0 (Windows NT 10.0; Win64; x64) AppleWebKit/537.36 (KHTML, like Gecko) Chrome/118.0.0.0 Safari/537.36'' req))"

definition println :: "string \<Rightarrow> string" where
  "println s = s @ [char_of (10 :: nat)]"

definition response_head :: "('b, 's) http_lib \<Rightarrow> http_request \<Rightarrow> 'b http_response \<Rightarrow> 's \<Rightarrow> string" where
  "response_head L req resp s =
     println (''Status Code: '' @ show_int (hp_StatusCode resp)) @ println ''Cookies:'' @
     concat (map (\<lambda>(name, value). println (sprintf ''  %s: %s'' [FStr name, FStr value])) (hl_Cookies L (hr_URL req) s))"

text \<open>The text printed before the end and the end: a panic, or the network state after the deferred \<^verbatim>\<open>Close\<close>.\<close>

definition http_main :: "('b, 's) http_lib \<Rightarrow> 's \<Rightarrow> string \<times> 's res" where
  "http_main L s =
     (case hl_NewJar L of
        Some err \<Rightarrow> ([], Inl (Panic err))
      | None \<Rightarrow>
          (case hl_NewRequest L ''GET'' ''https://www.google.com'' of
             Inl err \<Rightarrow> ([], Inl (Panic err))
           | Inr req \<Rightarrow>
               (let req = browser_headers req; (r, s) = hl_Do L req s
                in case r of
                     Inl err \<Rightarrow> ([], Inl (Panic err))
                   | Inr resp \<Rightarrow>
                       (let out = response_head L req resp s;
                            (body, s) = hl_ReadAll L (hp_Body resp) s
                        in case body of
                             Inl err \<Rightarrow> (out, Inl (Panic err))
                           | Inr body \<Rightarrow> (out @ println (''Response Body: '' @ body), Inr (hl_Close L (hp_Body resp) s))))))"

lemma browser_headers_set:
  "map_of (hr_Header (browser_headers req)) ''Accept-Language'' = Some ''en-US,en;q=0.9''"
  "hr_Method (browser_headers req) = hr_Method req" "hr_URL (browser_headers req) = hr_URL req"
  by (simp_all add: browser_headers_def Header_Set_def update_conv')

text \<open>A program that returns has printed the body it read.\<close>

lemma http_main_prints_body:
  "http_main L s = (out, Inr s') \<Longrightarrow> \<exists>req resp body sA sB. hl_ReadAll L (hp_Body resp) sA = (Inr body, sB) \<and>
    out = response_head L req resp sA @ println (''Response Body: '' @ body) \<and> s' = hl_Close L (hp_Body resp) sB"
  by (auto simp: http_main_def Let_def split: option.splits sum.splits prod.splits) blast

end
