(* ===== verification/Getters.thy ===== *)
theory Getters
  imports ClusterMessages
begin

text \<open>
  The generated getters of the message fields: a nil message reads as the field's zero value.  Those of the oneof
  alternatives are with the messages.
\<close>

definition getter :: "'b \<Rightarrow> ('m \<Rightarrow> 'b) \<Rightarrow> 'm option \<Rightarrow> 'b" where
  "getter zero field m = (case m of None \<Rightarrow> zero | Some m \<Rightarrow> field m)"

lemma getter_simps [simp]: "getter zero field None = zero" "getter zero field (Some m) = field m"
  by (simp_all add: getter_def)

section \<open>API messages\<close>

definition CmdError_GetCode :: "CmdError option \<Rightarrow> ErrorCode" where
  "CmdError_GetCode = getter ErrorCode_OK ce_Code"

definition CmdError_GetMsg :: "CmdError option \<Rightarrow> string" where
  "CmdError_GetMsg = getter [] ce_Msg"

definition CmdHeader_GetCmd :: "CmdHeader option \<Rightarrow> string" where
  "CmdHeader_GetCmd = getter [] ch_Cmd"

definition NodeInfo_GetId :: "NodeInfo option \<Rightarrow> u32" where
  "NodeInfo_GetId = getter 0 ni_Id"

definition NodeInfo_GetName :: "NodeInfo option \<Rightarrow> string" where
  "NodeInfo_GetName = getter [] ni_Name"

definition NodeInfo_GetApiEndpoint :: "NodeInfo option \<Rightarrow> string" where
  "NodeInfo_GetApiEndpoint = getter [] ni_ApiEndpoint"

definition NodeInfo_GetGrpcEndpoint :: "NodeInfo option \<Rightarrow> string" where
  "NodeInfo_GetGrpcEndpoint = getter [] ni_GrpcEndpoint"

definition NodeInfo_GetType :: "NodeInfo option \<Rightarrow> string" where
  "NodeInfo_GetType = getter [] ni_Type"

definition NodeInfo_GetLeader :: "NodeInfo option \<Rightarrow> bool" where
  "NodeInfo_GetLeader = getter False ni_Leader"

definition NodeInfo_GetActive :: "NodeInfo option \<Rightarrow> bool" where
  "NodeInfo_GetActive = getter False ni_Active"

definition NodeInfo_GetActiveSince :: "NodeInfo option \<Rightarrow> Timestamp option" where
  "NodeInfo_GetActiveSince = getter None ni_ActiveSince"

definition MeowCmdResp_GetNodeId :: "MeowCmdResp option \<Rightarrow> u32" where
  "MeowCmdResp_GetNodeId = getter 0 mr_NodeId"

definition MeowCmdResp_GetNodes :: "MeowCmdResp option \<Rightarrow> NodeInfo option list" where
  "MeowCmdResp_GetNodes = getter [] mr_Nodes"

definition AllowCmd_GetResource :: "AllowCmd option \<Rightarrow> string" where
  "AllowCmd_GetResource = getter [] ac_Resource"

definition AllowCmd_GetEvents :: "AllowCmd option \<Rightarrow> u32" where
  "AllowCmd_GetEvents = getter 0 ac_Events"

definition AllowCmdResp_GetRedirected :: "AllowCmdResp option \<Rightarrow> bool" where
  "AllowCmdResp_GetRedirected = getter False ar_Redirected"

definition AllowCmdResp_GetNodeId :: "AllowCmdResp option \<Rightarrow> u32" where
  "AllowCmdResp_GetNodeId = getter 0 ar_NodeId"

definition AllowCmdResp_GetOk :: "AllowCmdResp option \<Rightarrow> bool" where
  "AllowCmdResp_GetOk = getter False ar_Ok"

definition RegResCmd_GetOption :: "RegResCmd option \<Rightarrow> isRegResCmd_Option option" where
  "RegResCmd_GetOption = getter None rc_Option"

definition RegResCmd_GetResource :: "RegResCmd option \<Rightarrow> string" where
  "RegResCmd_GetResource = getter [] rc_Resource"

definition RegResCmd_GetType :: "RegResCmd option \<Rightarrow> LimiterType" where
  "RegResCmd_GetType = getter LimiterType_Null rc_Type"

definition RegResCmd_GetOverride :: "RegResCmd option \<Rightarrow> bool" where
  "RegResCmd_GetOverride = getter False rc_Override"

definition RegResCmdResp_GetNodeId :: "RegResCmdResp option \<Rightarrow> u32" where
  "RegResCmdResp_GetNodeId = getter 0 rp_NodeId"

definition GetResCmd_GetResource :: "GetResCmd option \<Rightarrow> string" where
  "GetResCmd_GetResource = getter [] gr_Resource"

definition Resource_GetLimiter :: "PbResource option \<Rightarrow> isResource_Limiter option" where
  "Resource_GetLimiter = getter None rs_Limiter"

definition Resource_GetName :: "PbResource option \<Rightarrow> string" where
  "Resource_GetName = getter [] rs_Name"

definition Resource_GetNodeId :: "PbResource option \<Rightarrow> u32" where
  "Resource_GetNodeId = getter 0 rs_NodeId"

definition Resource_GetLimiterType :: "PbResource option \<Rightarrow> LimiterType" where
  "Resource_GetLimiterType = getter LimiterType_Null rs_LimiterType"

definition Resource_GetRps :: "PbResource option \<Rightarrow> ReqPerSec option" where
  "Resource_GetRps = getter None rs_Rps"

definition Resource_GetLastUpdated :: "PbResource option \<Rightarrow> Timestamp option" where
  "Resource_GetLastUpdated = getter None rs_LastUpdated"

definition ReqPerSec_GetReqCount :: "ReqPerSec option \<Rightarrow> u32" where
  "ReqPerSec_GetReqCount = getter 0 rq_ReqCount"

definition ReqPerSec_GetHistories :: "ReqPerSec option \<Rightarrow> ReqPerSecEntry option list" where
  "ReqPerSec_GetHistories = getter [] rq_Histories"

definition ReqPerSecEntry_GetRps :: "ReqPerSecEntry option \<Rightarrow> u64" where
  "ReqPerSecEntry_GetRps = getter 0 re_Rps"

definition ReqPerSecEntry_GetTime :: "ReqPerSecEntry option \<Rightarrow> Timestamp option" where
  "ReqPerSecEntry_GetTime = getter None re_Time"

definition TokenBucketParam_GetRate :: "TokenBucketParam option \<Rightarrow> u64" where
  "TokenBucketParam_GetRate = getter 0 tp_Rate"

definition TokenBucketParam_GetBurst :: "TokenBucketParam option \<Rightarrow> u32" where
  "TokenBucketParam_GetBurst = getter 0 tp_Burst"

definition TokenBucketLimiter_GetRate :: "TokenBucketLimiter option \<Rightarrow> u64" where
  "TokenBucketLimiter_GetRate = getter 0 tl_Rate"

definition TokenBucketLimiter_GetBurst :: "TokenBucketLimiter option \<Rightarrow> u32" where
  "TokenBucketLimiter_GetBurst = getter 0 tl_Burst"

definition TokenBucketLimiter_GetTokenCount :: "TokenBucketLimiter option \<Rightarrow> u64" where
  "TokenBucketLimiter_GetTokenCount = getter 0 tl_TokenCount"

definition TokenBucketLimiter_GetFillPeriod :: "TokenBucketLimiter option \<Rightarrow> u64" where
  "TokenBucketLimiter_GetFillPeriod = getter 0 tl_FillPeriod"

definition TokenBucketLimiter_GetLastFilled :: "TokenBucketLimiter option \<Rightarrow> Timestamp option" where
  "TokenBucketLimiter_GetLastFilled = getter None tl_LastFilled"

definition TokenBucketLimiter_GetNextFill :: "TokenBucketLimiter option \<Rightarrow> Timestamp option" where
  "TokenBucketLimiter_GetNextFill = getter None tl_NextFill"

definition LeakyBucketLimiter_GetRate :: "LeakyBucketLimiter option \<Rightarrow> u64" where
  "LeakyBucketLimiter_GetRate = getter 0 ll_Rate"

definition LeakyBucketLimiter_GetCapability :: "LeakyBucketLimiter option \<Rightarrow> u32" where
  "LeakyBucketLimiter_GetCapability = getter 0 ll_Capability"

definition LeakyBucketLimiter_GetDrops :: "LeakyBucketLimiter option \<Rightarrow> u64" where
  "LeakyBucketLimiter_GetDrops = getter 0 ll_Drops"

definition LeakyBucketLimiter_GetDrainPeriod :: "LeakyBucketLimiter option \<Rightarrow> u64" where
  "LeakyBucketLimiter_GetDrainPeriod = getter 0 ll_DrainPeriod"

definition LeakyBucketLimiter_GetLastDrained :: "LeakyBucketLimiter option \<Rightarrow> Timestamp option" where
  "LeakyBucketLimiter_GetLastDrained = getter None ll_LastDrained"

definition LeakyBucketLimiter_GetNextDrain :: "LeakyBucketLimiter option \<Rightarrow> Timestamp option" where
  "LeakyBucketLimiter_GetNextDrain = getter None ll_NextDrain"

section \<open>cluster messages\<close>

definition Entry_GetId :: "Entry option \<Rightarrow> byte list" where
  "Entry_GetId = getter [] en_Id"

definition Entry_GetAction :: "Entry option \<Rightarrow> EntryAction" where
  "Entry_GetAction = getter EntryAction_PutResource en_Action"

definition Entry_GetSrcNodeId :: "Entry option \<Rightarrow> u32" where
  "Entry_GetSrcNodeId = getter 0 en_SrcNodeId"

definition Entry_GetResource :: "Entry option \<Rightarrow> PbResource option" where
  "Entry_GetResource = getter None en_Resource"

definition EntrySnapshot_GetEntries :: "EntrySnapshot option \<Rightarrow> Entry option list" where
  "EntrySnapshot_GetEntries = getter [] es_Entries"

definition AvgRpsReq_GetLastSecs :: "AvgRpsReq option \<Rightarrow> u32" where
  "AvgRpsReq_GetLastSecs = getter 0 av_LastSecs"

definition IsEntryAppliedReq_GetId :: "IsEntryAppliedReq option \<Rightarrow> byte list" where
  "IsEntryAppliedReq_GetId = getter [] ia_Id"

end
