(* ===== verification/Spec2Isabelle.thy ===== *)
theory Spec2Isabelle
  imports LimitProperties ServerProperties Bench ReplicaProperties ClusterRate RedirectProperties TestClusterProperties RepoTool HttpTool Getters
begin

text \<open>
  ratecat is a rate limiting service written in Go.  A client registers a resource under a name, with a token
  bucket, and asks before each event whether it may happen.  Several nodes form a cluster: every resource
  lives on one node, which alone counts its events; its existence is replicated to all nodes as entries of a
  raft log.  This development models the program's own logic and proves what makes it correct.

  \<^bold>\<open>The parts and how they interact.\<close>  A request arrives at the API server
  (\<^verbatim>\<open>internal/server/api\<close>), whose event handler takes framed requests off the connection
  (\<^verbatim>\<open>internal/endec\<close>), decodes the protobuf messages (\<^verbatim>\<open>proto\<close>) and gives them to the command
  dispatcher (\<^verbatim>\<open>internal/cmd\<close>).  The commands work on the resource manager
  (\<^verbatim>\<open>internal/mgr\<close>), whose resources hold limiters (\<^verbatim>\<open>internal/limit\<close>) and request rates
  (\<^verbatim>\<open>internal/metric\<close>).  The manager asks the node prober (\<^verbatim>\<open>internal/cluster/probe\<close>) which
  node it is, which node is the least loaded and how to reach another one, and replicates changes by handing
  entries to the raft library, which calls \<^verbatim>\<open>Apply\<close>, \<^verbatim>\<open>Snapshot\<close> and
  \<^verbatim>\<open>Restore\<close> of the manager on every node.  Nodes call each other's commands over gRPC
  (\<^verbatim>\<open>internal/cluster\<close>).  The client library (\<^verbatim>\<open>client\<close>) keeps one connection per node and
  sends each request to the node it takes for the resource's.

  \<^bold>\<open>Theories, from the bottom up.\<close>
  \<^item> Prelude: Go's integers, the result type \<open>'a res\<close> (a value, an error, a panic, exhausted fuel, or a wait
    for a lock that is held), its sequencing \<open>bindR\<close> and error handling \<open>handleR\<close>.  GoFloat: binary64
    arithmetic with rounding.  GoTime: instants and durations in nanoseconds.
  \<^item> ProtoWire, ApiMessages, ClusterMessages: the two generated protobuf files
    (\<^verbatim>\<open>proto/ratecat_api_v1.pb.go\<close>, \<^verbatim>\<open>internal/cluster/pb/ratecat_cluster_v1.pb.go\<close>):
    buffers filled from the back, varints, and for every message its record, \<^verbatim>\<open>Size\<close>,
    \<^verbatim>\<open>MarshalToSizedBuffer\<close>, \<^verbatim>\<open>Marshal\<close> and \<^verbatim>\<open>Unmarshal\<close>.  ProtoLaws, ApiLaws and
    ClusterLaws prove the contract \<open>pb_message\<close> (encode, then decode) for every message; ProtoSafety proves
    \<open>pb_reader\<close> (no input makes a decoder panic or run for ever) and ProtoReturns that every encoder comes
    back.  TimestampCodec shows that what is assumed of the timestamp codec can hold.
  \<^item> TokenBucket, LeakyBucket, Limiter: \<^verbatim>\<open>internal/limit\<close> and \<^verbatim>\<open>rate\<close>, with the buckets'
    float arithmetic as the code does it, their invariants, the refinement of the leaky bucket to an integer
    counter and the bound on what the token bucket grants.
  \<^item> CmdErr, Endec: \<^verbatim>\<open>proto/cmd_err.go\<close> and \<^verbatim>\<open>internal/endec/codec.go\<close>; the laws relate each
    encoder to the frame its decoder reads.
  \<^item> Metric: \<^verbatim>\<open>internal/metric\<close>.  Config: the records of \<^verbatim>\<open>internal/config\<close>.  Probe:
    \<^verbatim>\<open>internal/cluster/probe\<close>, with the locale \<open>node_prober\<close> for the interface its users rely on.
  \<^item> ResMgr: \<^verbatim>\<open>internal/mgr\<close>, with resources on a heap because the store, the per-node index and the
    commands share them by pointer.  ResMgrLaws: the contract \<open>resource_store\<close>, by which the manager is a map from
    names to resources, and the log as a fold of updates.  Replication: entries and snapshots carry resources.
  \<^item> Cmd: \<^verbatim>\<open>internal/cmd\<close>.  CmdLaws: the invariant of the store and the step relation \<open>disp_run\<close>, in
    which commands, log entries, snapshots and probes interleave freely.  CommandReturns: every command returns.
  \<^item> Server: \<^verbatim>\<open>internal/server/api/event_handler.go\<close>.
  \<^item> ClientConn, ClientPool, Client: \<^verbatim>\<open>client\<close>, over a network \<open>net\<close>; connections live on a heap, locks
    are flags, and a goroutine that takes a lock it holds is \<open>Blocked\<close>.  ClientLaws: the locale
    \<open>command_sender\<close>, what the pool relies on of the function that sends a command, and the client's invariant under
    it; ClientRun: its interpretation on \<^verbatim>\<open>sendCmd\<close> and the reachable states.  ClientLink: the network that
    leads straight to one server's event handler.
  \<^item> Cluster: \<^verbatim>\<open>internal/cluster/grpc.go\<close> and \<^verbatim>\<open>cluster.go\<close>, the readiness loop turn by turn.
    ConfigText: \<^verbatim>\<open>internal/config/url.go\<close> and \<^verbatim>\<open>Init\<close>.  Logging: \<^verbatim>\<open>internal/logging\<close>.
    Service: \<^verbatim>\<open>internal/server/api/server.go\<close> and \<^verbatim>\<open>cmd/ratecat\<close>.  RepoTool: the separate program
    \<^verbatim>\<open>cmd/repo\<close>, with its property.
  \<^item> ReplicaRun: the step relation \<open>replica_run\<close> of all nodes of a cluster with the raft log between them, and its
    invariant.  ClusterRate: connected nodes, whose gRPC clients lead to each other's servers, and the rate limit of the
    whole cluster, with its property.
  \<^item> TestCluster: the clusters the tests run (\<^verbatim>\<open>internal/testutil\<close>).  Bench: \<^verbatim>\<open>benchmark\<close>, with
    its property.  HttpTool: \<^verbatim>\<open>cmd/http\<close>.  Getters: the generated getters of the messages.
  \<^item> LimitProperties, WireProperties, NodeProperties, StoreProperties, CommandProperties, ServerProperties,
    ClientProperties, ClusterProperties, RedirectProperties (a client, the node it asks and the owner together),
    ReadyProperties, ServiceProperties, ReplicaProperties and TestClusterProperties hold the properties, each with a
    witness at a concrete input where it has hypotheses.

  \<^bold>\<open>What the properties show.\<close>  A resource never grants more than its bucket allows, from the bucket alone up
  to any run of the dispatcher, and for all nodes of a cluster together; the buckets refine their specifications.  A command sent by the client comes back
  as the handler's answer, over the real frames; requests sent back to back are answered in order; without
  the worker pool the event handler comes to an end on every input, having consumed it all or in a panic.  Replicas that apply the same log agree; a put arrives on every node; a snapshot
  carries the store; the store is a map and keeps its invariant in every reachable state.  In every run of a whole
  cluster, with restarts and with snapshots installed over whatever a node holds, each node has the resources its part
  of the log says, and no others unless a snapshot left them there; of nodes that have applied the same part one at most
  counts the events of a resource the log holds.  In every state a client can reach its operations return,
  \<^verbatim>\<open>Close\<close> once a background check has ended and \<^verbatim>\<open>Allow\<close> unless servers redirect it in every round; its answer is the decision of the server's limiter, and a node that is asked for
  another one's resource answers as that one decides; the nodes of a cluster agree on its members; a cluster is
  found ready only after a turn at which the other members were active and one led, and the program returns only
  after it came up and everything was stopped without an error.  Other properties state,
  as theorems about the code, where it falls short of that: partial packets and wrong header lengths end the server, a
  registration without parameters does too, a restore keeps removed resources, moving a resource breaks the index,
  a new member makes the prober wait for itself, a stale history divides by nothing, what a peer first says of its name, address and leadership is
  reported as long as it is a member, a redirected request is asked twice, so it is charged twice or refused although it was
  granted, a client without a logger never connects to a server that lists itself, so the benchmark never measures, a dead address at the end of the list fails the first dial, and a listen address of another scheme ends the program in a panic.

  \<^bold>\<open>Conventions.\<close>  A Go function that can fail returns \<open>'a res\<close>, so errors, panics and waiting are values; a
  function that returns a value and a command error returns \<open>'a cres\<close>.  A method that changes its receiver returns it.
  Code between a lock and its unlock is one step; where it calls an operation that takes the same lock, the lock is a flag of
  the state (\<open>np_mu\<close> of the prober, \<open>cn_mu\<close> and \<open>cp_mu\<close> of the client) and a second taking is \<open>Blocked\<close>.  A reading of the clock, a fresh identifier and the
  implementation-specific conversion of a float out of range are arguments, so theorems hold for any of them.  Code
  that is not part of the repository is a parameter with its documented behaviour as a named hypothesis: the
  timestamp codec (\<open>ts_codec_ok\<close>, \<open>ts_safe\<close>, \<open>ts_returns\<close>), the hash maps (\<open>swiss_ok\<close>),
  sorting (\<open>sort_ok\<close>), network connections (\<open>gnet_ok\<close>, \<open>full_reads\<close>, for the client \<open>net_ok\<close>
  and \<open>link_ok\<close>), sets of identifiers (\<open>set_ok\<close>), SHA-256 (\<open>sha_ok\<close>), zap (\<open>zap_ok\<close>), the raft node and
  the gRPC clients (records of their answers, with no hypothesis).  Each has an instance.  A wait with a deadline is given the
  turns its loop makes before it; what other goroutines do to shared state between two turns is a function of the turn.

  \<^bold>\<open>Fuel.\<close>  The protobuf loops get one unit more than there are input bytes, and ProtoSafety proves that they never
  use it up.  \<^verbatim>\<open>OnTraffic\<close> need not end; its fuel is an argument of the theorems, which say how much is enough
  without the worker pool, and that with it a short packet uses up one unit per task until the pool refuses one.  \<^verbatim>\<open>sendCmd\<close> of the client dials again on a connection
  that is not connected, and dialing sends commands: one unit is enough in every state a client reaches
  (\<open>client_operations_return\<close> holds from \<open>Suc 0\<close> on).  \<^verbatim>\<open>Allow\<close> of the client calls itself again for each
  redirection; it uses up its fuel exactly when it is redirected in every round (\<open>redirected\<close>).  \<^verbatim>\<open>checkNodeReady\<close> and the waits for an applied
  entry run over the turns made before their deadline.

  \<^bold>\<open>Not modelled.\<close>  The goroutines that only call the raft library, gRPC or gnet; the reading of environment
  variables and the parsing of URLs that have a scheme, library work; the log lines of the program's own functions, which
  return nothing, and the output of the benchmark; the generated methods that only call the protobuf runtime or the gRPC
  library.  What raft commits is any sequence of bytes: that the library orders one log for all nodes is its promise.
\<close>

end
